(* ===== verification/Vibe_Prelude.thy ===== *)
theory Vibe_Prelude
  imports Main "HOL-Library.Word"
begin

text \<open>
  Shared vocabulary of the development: machine integers at their Rust widths, the standard
  library's \<open>Poll\<close> and \<open>io::Error\<close>, wakers, and the generic lemmas on lists,
  options and words that the component theories use.

  A \<^emph>\<open>waker\<close> is identified by a number; \<open>Waker::will_wake\<close> is equality of these
  identities, and a call of \<open>wake\<close> is recorded as an occurrence of the identity in a list
  of effects. Error messages are dropped: an \<open>io::Error\<close> is its kind, or the raw operating
  system code it was built from.
\<close>

unbundle bit_operations_syntax

named_theorems vibe_simps \<open>unfolding rules for the operations of the model\<close>

type_synonym u8 = "8 word"
type_synonym u16 = "16 word"
type_synonym u32 = "32 word"
type_synonym u64 = "64 word"
type_synonym i32 = "32 word"
type_synonym waker = nat

subsection \<open>Poll and errors\<close>

datatype 'a poll = Ready 'a | Pending

datatype error_kind =
    NotFound | PermissionDenied | ConnectionRefused | NotConnected | AlreadyExists | WouldBlock
  | BrokenPipe | InvalidInput | InvalidData | TimedOut | WriteZero | Interrupted | Unsupported
  | UnexpectedEof | Other | Uncategorized

datatype io_error = Custom error_kind | Os int

text \<open>The part of the standard library's table from Unix error numbers to kinds.\<close>

definition decode_error_kind :: "int \<Rightarrow> error_kind" where
  "decode_error_kind errno =
     (if errno = 2 then NotFound
      else if errno = 1 \<or> errno = 13 then PermissionDenied
      else if errno = 111 then ConnectionRefused
      else if errno = 107 then NotConnected
      else if errno = 17 then AlreadyExists
      else if errno = 11 then WouldBlock
      else if errno = 32 then BrokenPipe
      else if errno = 22 then InvalidInput
      else if errno = 110 then TimedOut
      else if errno = 4 then Interrupted
      else if errno = 38 \<or> errno = 95 then Unsupported
      else Uncategorized)"

fun err_kind :: "io_error \<Rightarrow> error_kind" where
  "err_kind (Custom k) = k"
| "err_kind (Os errno) = decode_error_kind errno"

fun raw_os_error :: "io_error \<Rightarrow> int option" where
  "raw_os_error (Custom k) = None"
| "raw_os_error (Os errno) = Some errno"

type_synonym 'a io_result = "io_error + 'a"

subsection \<open>Words\<close>

definition saturating_sub :: "'a::len word \<Rightarrow> 'a word \<Rightarrow> 'a word" where
  "saturating_sub a b = (if b \<le> a then a - b else 0)"

lemma unat_saturating_sub [simp]: "unat (saturating_sub a b) = unat a - unat b"
  by (simp add: saturating_sub_def unat_sub word_le_nat_alt)

lemma unat_add_no_overflow:
  fixes a b :: "'a::len word"
  shows "unat a + unat b < 2 ^ LENGTH('a) \<Longrightarrow> unat (a + b) = unat a + unat b"
  by (simp add: unat_word_ariths)

lemma unat_add_le: "unat (a + b) \<le> unat a + unat b"
  by (simp add: unat_word_ariths)

lemma div_add_le: "(a::nat) div q + b div q \<le> (a + b) div q"
  by (cases "q = 0") (simp_all add: less_eq_div_iff_mult_less_eq add_mult_distrib add_mono)

lemma unat_and_63: "unat (x AND 63 :: u64) = unat x mod 64"
proof -
  have "x AND 63 = take_bit 6 x"
    by (simp add: take_bit_eq_mask mask_numeral)
  then show ?thesis
    by (simp add: take_bit_eq_mod unat_mod_distrib)
qed

lemma unat_of_nat_u32: "n < 2 ^ 32 \<Longrightarrow> unat (of_nat n :: u32) = n"
  by (simp add: unat_of_nat take_bit_eq_mod)

lemma unat_drop_bit_u64: "unat (drop_bit n x :: u64) = unat x div 2 ^ n"
  by (metis drop_bit_eq_div unat_drop_bit_eq)

subsection \<open>Lists\<close>

lemma fold_collect:
  assumes "I X s"
    and "\<And>x X s. x \<in> set xs \<Longrightarrow> I X s \<Longrightarrow> I (X \<union> g x) (f x s)"
  shows "I (X \<union> (\<Union>x \<in> set xs. g x)) (fold f xs s)"
  using assms
proof (induction xs arbitrary: X s)
  case Nil
  then show ?case by simp
next
  case (Cons x xs)
  have "I (X \<union> g x) (f x s)"
    using Cons.prems by simp
  then have "I ((X \<union> g x) \<union> (\<Union>x \<in> set xs. g x)) (fold f xs (f x s))"
    by (rule Cons.IH) (use Cons.prems(2) in simp)
  then show ?case
    by (simp add: Un_assoc)
qed

text \<open>A number that is not in a list, for fresh descriptors.\<close>

lemma foldr_max_le: "x \<in> set xs \<Longrightarrow> (x::int) \<le> foldr max xs 0"
  by (induction xs) auto

lemma foldr_max_fresh: "foldr max xs (0::int) + 1 \<notin> set xs"
  using foldr_max_le [of "foldr max xs 0 + 1" xs] by auto

lemma foldr_max_nonneg: "0 \<le> foldr max xs (0::int)"
  by (induction xs) auto

lemma fold_preserves:
  assumes "P s" and "\<And>x s. x \<in> set xs \<Longrightarrow> P s \<Longrightarrow> P (f x s)"
  shows "P (fold f xs s)"
  using assms by (induction xs arbitrary: s) auto

lemma fold_id:
  assumes "\<And>x. x \<in> set xs \<Longrightarrow> f x s = s"
  shows "fold f xs s = s"
  using assms by (induction xs) auto

subsection \<open>Transition systems\<close>

inductive reachable :: "'s \<Rightarrow> ('s \<Rightarrow> 's \<Rightarrow> bool) \<Rightarrow> 's \<Rightarrow> bool" for start step where
  reachable_start: "reachable start step start"
| reachable_step: "reachable start step s \<Longrightarrow> step s s' \<Longrightarrow> reachable start step s'"

text \<open>An invariant holds at the start and is kept by every step, so it holds where a run leads.\<close>

locale step_invariant =
  fixes start :: 's
    and step :: "'s \<Rightarrow> 's \<Rightarrow> bool"
    and inv :: "'s \<Rightarrow> bool"
  assumes inv_start: "inv start"
    and inv_step: "step s s' \<Longrightarrow> inv s \<Longrightarrow> inv s'"
begin

lemma inv_reachable: "reachable start step s \<Longrightarrow> inv s"
  by (induction rule: reachable.induct) (auto intro: inv_start inv_step)

end

end
