(* ===== verification/Slab_Interface.thy ===== *)
theory Slab_Interface
  imports Vibe_Prelude
begin

text \<open>
  The crate \<open>slab\<close> is a dependency of the program, not part of it: the wheel of
  \<open>timer.rs\<close> and the registration tables of \<open>driver/mio.rs\<close> and \<open>driver/uring.rs\<close> keep their
  entries in a \<open>Slab\<close>. Its operations are a parameter of the model, a record of type
  \<open>('s, 'e) slab_ops\<close>, and what the program relies on are the laws of the locale \<open>slab\<close>: the
  vacant key is not in use, an insertion stores at the vacant key and nowhere else, a removal
  frees one key, a write through \<open>get_mut\<close> changes one occupied key.

  The list-backed slab at the end satisfies the laws; it is the instance on which the closed
  examples of the development are evaluated.
\<close>

subsection \<open>Operations\<close>

record ('s, 'e) slab_ops =
  slab_new :: 's
  slab_get :: "'s \<Rightarrow> nat \<Rightarrow> 'e option"
  slab_vacant_key :: "'s \<Rightarrow> nat"
  slab_insert :: "'e \<Rightarrow> 's \<Rightarrow> 's"
  slab_set :: "nat \<Rightarrow> 'e \<Rightarrow> 's \<Rightarrow> 's"
  slab_remove :: "nat \<Rightarrow> 's \<Rightarrow> 's"
  slab_is_empty :: "'s \<Rightarrow> bool"

text \<open>The list-backed slab: position \<open>i\<close> holds the entry with key \<open>i\<close>.\<close>

fun first_vacant :: "'e option list \<Rightarrow> nat" where
  "first_vacant [] = 0"
| "first_vacant (None # xs) = 0"
| "first_vacant (Some e # xs) = Suc (first_vacant xs)"

definition list_get :: "'e option list \<Rightarrow> nat \<Rightarrow> 'e option" where
  "list_get xs k = (if k < length xs then xs ! k else None)"

definition list_slab :: "('e option list, 'e) slab_ops" where
  "list_slab =
     \<lparr>slab_new = [],
      slab_get = list_get,
      slab_vacant_key = first_vacant,
      slab_insert = (\<lambda>e xs. if first_vacant xs < length xs then xs[first_vacant xs := Some e]
                           else xs @ [Some e]),
      slab_set = (\<lambda>k e xs. if list_get xs k = None then xs else xs[k := Some e]),
      slab_remove = (\<lambda>k xs. if k < length xs then xs[k := None] else xs),
      slab_is_empty = (\<lambda>xs. list_all (\<lambda>x. x = None) xs)\<rparr>"

subsection \<open>Laws\<close>

locale slab =
  fixes S :: "('s, 'e) slab_ops"
  assumes get_new [simp]: "slab_get S (slab_new S) k = None"
    and get_vacant [simp]: "slab_get S s (slab_vacant_key S s) = None"
    and get_insert [simp]: "slab_get S (slab_insert S e s) k =
        (if k = slab_vacant_key S s then Some e else slab_get S s k)"
    and get_set [simp]: "slab_get S (slab_set S j e s) k =
        (if k = j \<and> slab_get S s j \<noteq> None then Some e else slab_get S s k)"
    and get_remove [simp]: "slab_get S (slab_remove S j s) k =
        (if k = j then None else slab_get S s k)"
    and is_empty_iff: "slab_is_empty S s \<longleftrightarrow> (\<forall>k. slab_get S s k = None)"
begin

definition live :: "'s \<Rightarrow> nat set" where
  "live s = {k. slab_get S s k \<noteq> None}"

lemma live_new [simp]: "live (slab_new S) = {}"
  by (simp add: live_def)

lemma live_insert [simp]: "live (slab_insert S e s) = insert (slab_vacant_key S s) (live s)"
  by (auto simp: live_def)

lemma vacant_not_live [simp]: "slab_vacant_key S s \<notin> live s"
  by (simp add: live_def)

lemma live_remove [simp]: "live (slab_remove S k s) = live s - {k}"
  by (auto simp: live_def)

lemma live_set [simp]: "live (slab_set S k e s) = live s"
  by (auto simp: live_def)

lemma empty_iff_live: "slab_is_empty S s \<longleftrightarrow> live s = {}"
  by (auto simp: live_def is_empty_iff)

end

subsection \<open>The list-backed slab satisfies the laws\<close>

lemma first_vacant_le: "first_vacant xs \<le> length xs"
  by (induction xs rule: first_vacant.induct) auto

lemma list_get_first_vacant: "list_get xs (first_vacant xs) = None"
  by (induction xs rule: first_vacant.induct) (auto simp: list_get_def)

lemma first_vacant_end: "\<not> first_vacant xs < length xs \<Longrightarrow> first_vacant xs = length xs"
  using first_vacant_le [of xs] by simp

lemma list_get_all_None: "(\<forall>k. list_get xs k = None) \<longleftrightarrow> list_all (\<lambda>x. x = None) xs"
  by (auto simp: list_get_def list_all_length)

lemmas list_slab_simps = list_slab_def list_get_def

interpretation ls: slab list_slab
proof (unfold_locales, goal_cases)
  case (3 e s k)
  show ?case
    by (auto simp: list_slab_simps nth_append dest: first_vacant_end)
qed (auto simp: list_slab_simps list_get_first_vacant [unfolded list_get_def]
       list_get_all_None [unfolded list_get_def] nth_list_update split: if_splits)

end
