(* ===== verification/Timing_Wheel.thy ===== *)
theory Timing_Wheel
  imports Slab_Interface "HOL-Library.Product_Lexorder" "HOL-Library.Multiset"
begin

text \<open>
  The hierarchical timing wheel of \<open>vibeio/src/timer.rs\<close> (\<open>TimingWheel\<close>).

  The wheel is a record with the fields of the struct. \<open>entries\<close> is the slab, \<open>wheels\<close> the
  seven levels of sixty-four slots, each slot the list of the slab indices it holds.
  \<open>BinaryHeap<Reverse<_>>\<close> is the ascending list of its elements: \<open>push\<close> is \<open>insort\<close>, \<open>peek\<close>
  and \<open>pop\<close> take the least element. Ticks and generations are 64-bit words with wrap-around.

  The lemmas show that every operation keeps the invariant \<open>wheel_inv\<close> (each live entry is in
  exactly the slot it records, the heap covers the live entries, the cached minimum is exact),
  that a timer never fires before its tick, that \<open>advance\<close> wakes each removed entry exactly
  once, and how late a timer can be.
\<close>

subsection \<open>State\<close>

definition NUM_LEVELS :: nat where
  "NUM_LEVELS = 7"

definition SLOTS_PER_LEVEL :: nat where
  "SLOTS_PER_LEVEL = 64"

record timer_handle =
  th_slab_index :: nat
  th_generation :: u64

record timer_entry =
  te_waker :: waker
  te_expiration_tick :: u64
  te_generation :: u64
  te_level :: nat
  te_slot :: nat

type_synonym heap_item = "u64 \<times> nat \<times> u64"

record 's timing_wheel =
  entries :: 's
  wheels :: "nat list list list"
  current_tick :: u64
  generation_counter :: u64
  min_expiration_tick :: "u64 option"
  expiration_heap :: "heap_item list"

type_synonym 's timer_slab = "('s, timer_entry) slab_ops"

subsection \<open>Operations\<close>

definition wheel_new :: "'s timer_slab \<Rightarrow> 's timing_wheel" where
  "wheel_new S =
     \<lparr>entries = slab_new S,
      wheels = replicate NUM_LEVELS (replicate SLOTS_PER_LEVEL []),
      current_tick = 0,
      generation_counter = 0,
      min_expiration_tick = None,
      expiration_heap = []\<rparr>"

definition wheel_is_empty :: "'s timer_slab \<Rightarrow> 's timing_wheel \<Rightarrow> bool" where
  "wheel_is_empty S w = slab_is_empty S (entries w)"

definition wheel_now :: "'s timing_wheel \<Rightarrow> u64" where
  "wheel_now w = current_tick w"

fun pop_stale :: "'s timer_slab \<Rightarrow> 's \<Rightarrow> heap_item list \<Rightarrow> u64 option \<times> heap_item list" where
  "pop_stale S es [] = (None, [])"
| "pop_stale S es ((tick, idx, gen) # h) =
     (case slab_get S es idx of
        Some entry \<Rightarrow>
          if te_generation entry = gen
          then (Some (te_expiration_tick entry), (tick, idx, gen) # h)
          else pop_stale S es h
      | None \<Rightarrow> pop_stale S es h)"

definition refresh_min_expiration :: "'s timer_slab \<Rightarrow> 's timing_wheel \<Rightarrow> 's timing_wheel" where
  "refresh_min_expiration S w =
     (case pop_stale S (entries w) (expiration_heap w) of
        (m, h) \<Rightarrow> w\<lparr>min_expiration_tick := m, expiration_heap := h\<rparr>)"

definition nearest_wakeup :: "'s timer_slab \<Rightarrow> 's timing_wheel \<Rightarrow> u64 option \<times> 's timing_wheel" where
  "nearest_wakeup S w =
     (let w = refresh_min_expiration S w in
      (case min_expiration_tick w of
         None \<Rightarrow> None
       | Some t \<Rightarrow> if t = 0 then None else Some t, w))"

definition update_min_on_insert :: "u64 \<Rightarrow> 's timing_wheel \<Rightarrow> 's timing_wheel" where
  "update_min_on_insert tick w =
     w\<lparr>min_expiration_tick :=
        Some (case min_expiration_tick w of None \<Rightarrow> tick | Some m \<Rightarrow> min m tick)\<rparr>"

definition slot_of :: "u64 \<Rightarrow> nat \<Rightarrow> nat" where
  "slot_of delay level_shift = unat (drop_bit level_shift delay AND 63)"

fun level_loop :: "nat list \<Rightarrow> u64 \<Rightarrow> (nat \<times> nat) option" where
  "level_loop [] delay = None"
| "level_loop (level # ls) delay =
     (let level_shift = 6 * level in
      if level = NUM_LEVELS - 1 then Some (level, slot_of delay level_shift)
      else let max_for_level = push_bit level_shift 64 - 1 in
        if delay \<le> max_for_level \<or> level = NUM_LEVELS - 1
        then Some (level, slot_of delay level_shift)
        else level_loop ls delay)"

definition calculate_level_and_slot :: "u64 \<Rightarrow> nat \<times> nat" where
  "calculate_level_and_slot delay =
     (case level_loop [0..<NUM_LEVELS] delay of
        Some r \<Rightarrow> r
      | None \<Rightarrow> (NUM_LEVELS - 1, slot_of delay (6 * (NUM_LEVELS - 1))))"

definition get_slot :: "nat list list list \<Rightarrow> nat \<Rightarrow> nat \<Rightarrow> nat list" where
  "get_slot wh level slot = wh ! level ! slot"

definition set_slot :: "nat list list list \<Rightarrow> nat \<Rightarrow> nat \<Rightarrow> nat list \<Rightarrow> nat list list list" where
  "set_slot wh level slot v = wh[level := (wh ! level)[slot := v]]"

definition wheel_insert ::
  "'s timer_slab \<Rightarrow> waker \<Rightarrow> u64 \<Rightarrow> 's timing_wheel \<Rightarrow> timer_handle \<times> 's timing_wheel" where
  "wheel_insert S waker tick w =
     (let delay = saturating_sub tick (current_tick w);
          (level, slot) = calculate_level_and_slot delay;
          generation = generation_counter w + 1;
          slab_index = slab_vacant_key S (entries w);
          w = w\<lparr>generation_counter := generation,
                entries := slab_insert S \<lparr>te_waker = waker, te_expiration_tick = tick,
                    te_generation = generation, te_level = level, te_slot = slot\<rparr> (entries w),
                wheels := set_slot (wheels w) level slot
                    (get_slot (wheels w) level slot @ [slab_index]),
                expiration_heap := insort (tick, slab_index, generation) (expiration_heap w)\<rparr>
      in (\<lparr>th_slab_index = slab_index, th_generation = generation\<rparr>, update_min_on_insert tick w))"

definition wheel_remove ::
  "'s timer_slab \<Rightarrow> timer_handle \<Rightarrow> 's timing_wheel \<Rightarrow> 's timing_wheel" where
  "wheel_remove S handle w =
     (case slab_get S (entries w) (th_slab_index handle) of
        None \<Rightarrow> w
      | Some entry \<Rightarrow>
          if te_generation entry = th_generation handle
          then let level = te_level entry; slot = te_slot entry; slab_index = th_slab_index handle;
                   w = w\<lparr>wheels := set_slot (wheels w) level slot
                           (remove1 slab_index (get_slot (wheels w) level slot))\<rparr>;
                   w = w\<lparr>entries := slab_remove S slab_index (entries w)\<rparr>
               in refresh_min_expiration S w
          else w)"

text \<open>
  The body of the loops of \<open>cascade_level\<close> and \<open>process_slot_at_level_0\<close> (the source has it
  twice): an expired entry leaves the slab and its waker is collected, another entry is moved to
  the slot of its remaining delay, an index with no entry is dropped.
\<close>

definition expire_or_move ::
  "'s timer_slab \<Rightarrow> nat \<Rightarrow> 's timing_wheel \<times> waker list \<Rightarrow> 's timing_wheel \<times> waker list" where
  "expire_or_move S slab_index st =
     (case st of (w, expired) \<Rightarrow>
      (case slab_get S (entries w) slab_index of
         None \<Rightarrow> (w, expired)
       | Some entry \<Rightarrow>
           if te_expiration_tick entry \<le> current_tick w
           then (w\<lparr>entries := slab_remove S slab_index (entries w)\<rparr>, expired @ [te_waker entry])
           else let delay = te_expiration_tick entry - current_tick w;
                    (new_level, new_slot) = calculate_level_and_slot delay
                in (w\<lparr>entries := slab_set S slab_index
                         (entry\<lparr>te_level := new_level, te_slot := new_slot\<rparr>) (entries w),
                      wheels := set_slot (wheels w) new_level new_slot
                         (get_slot (wheels w) new_level new_slot @ [slab_index])\<rparr>, expired)))"

definition take_slot :: "nat \<Rightarrow> nat \<Rightarrow> 's timing_wheel \<Rightarrow> nat list \<times> 's timing_wheel" where
  "take_slot level slot w =
     (get_slot (wheels w) level slot, w\<lparr>wheels := set_slot (wheels w) level slot []\<rparr>)"

definition drain_slot ::
  "'s timer_slab \<Rightarrow> nat \<Rightarrow> nat \<Rightarrow> 's timing_wheel \<times> waker list \<Rightarrow> 's timing_wheel \<times> waker list" where
  "drain_slot S level slot st =
     (case st of (w, expired) \<Rightarrow>
      (case take_slot level slot w of (timers, w) \<Rightarrow>
         fold (expire_or_move S) timers (w, expired)))"

definition process_slot_at_level_0 ::
  "'s timer_slab \<Rightarrow> nat \<Rightarrow> 's timing_wheel \<times> waker list \<Rightarrow> 's timing_wheel \<times> waker list" where
  "process_slot_at_level_0 S slot st = drain_slot S 0 slot st"

definition cascade_level ::
  "'s timer_slab \<Rightarrow> nat \<Rightarrow> 's timing_wheel \<times> waker list \<Rightarrow> 's timing_wheel \<times> waker list" where
  "cascade_level S level st = fold (drain_slot S level) [0..<SLOTS_PER_LEVEL] st"

definition cascade_all_levels ::
  "'s timer_slab \<Rightarrow> 's timing_wheel \<times> waker list \<Rightarrow> 's timing_wheel \<times> waker list" where
  "cascade_all_levels S st = fold (cascade_level S) (rev [1..<NUM_LEVELS]) st"

definition slots_between :: "u64 \<Rightarrow> u64 \<Rightarrow> u64 \<Rightarrow> nat list" where
  "slots_between start_tick end_tick ticks =
     (let start_slot = unat (start_tick AND 63); end_slot = unat (end_tick AND 63) in
      if 64 \<le> ticks then [0..<SLOTS_PER_LEVEL]
      else if start_slot \<le> end_slot then [start_slot..<Suc end_slot]
      else [start_slot..<SLOTS_PER_LEVEL] @ [0..<Suc end_slot])"

definition wheel_advance ::
  "'s timer_slab \<Rightarrow> u64 \<Rightarrow> 's timing_wheel \<Rightarrow> waker list \<times> 's timing_wheel" where
  "wheel_advance S ticks w =
     (if ticks = 0 then ([], w)
      else let start_tick = current_tick w;
               w = w\<lparr>current_tick := start_tick + ticks\<rparr>;
               st = cascade_all_levels S (w, []);
               (w, expired) = fold (process_slot_at_level_0 S)
                 (slots_between start_tick (current_tick w) ticks) st
           in (expired, refresh_min_expiration S w))"

subsection \<open>Invariants\<close>

definition wheel_shape :: "nat list list list \<Rightarrow> bool" where
  "wheel_shape wh \<longleftrightarrow>
     length wh = NUM_LEVELS \<and> (\<forall>l < NUM_LEVELS. length (wh ! l) = SLOTS_PER_LEVEL)"

text \<open>
  Every live entry outside \<open>P\<close> is in the slot it records, and every slot holds, once each, live
  entries outside \<open>P\<close> that record it. \<open>P\<close> is the set of entries taken out of a slot and not
  yet processed; between operations it is empty.
\<close>

definition placed :: "'s timer_slab \<Rightarrow> nat set \<Rightarrow> 's timing_wheel \<Rightarrow> bool" where
  "placed S P w \<longleftrightarrow>
     wheel_shape (wheels w) \<and>
     (\<forall>k e. slab_get S (entries w) k = Some e \<longrightarrow> k \<notin> P \<longrightarrow>
        te_level e < NUM_LEVELS \<and> te_slot e < SLOTS_PER_LEVEL \<and>
        k \<in> set (get_slot (wheels w) (te_level e) (te_slot e))) \<and>
     (\<forall>l < NUM_LEVELS. \<forall>s < SLOTS_PER_LEVEL.
        distinct (get_slot (wheels w) l s) \<and>
        (\<forall>k \<in> set (get_slot (wheels w) l s).
           k \<notin> P \<and> (\<exists>e. slab_get S (entries w) k = Some e \<and> te_level e = l \<and> te_slot e = s)))"

text \<open>
  The heap lists every live entry under its tick, and an item that names a live entry by index
  and generation carries that entry's tick; \<open>is_min\<close> says that \<open>m\<close> is the least tick of a live
  entry.
\<close>

definition heap_covers :: "'s timer_slab \<Rightarrow> 's \<Rightarrow> heap_item list \<Rightarrow> bool" where
  "heap_covers S es h \<longleftrightarrow>
     (\<forall>k e. slab_get S es k = Some e \<longrightarrow> (te_expiration_tick e, k, te_generation e) \<in> set h)"

definition heap_ticks :: "'s timer_slab \<Rightarrow> 's \<Rightarrow> heap_item list \<Rightarrow> bool" where
  "heap_ticks S es h \<longleftrightarrow>
     (\<forall>t k g e. (t, k, g) \<in> set h \<longrightarrow> slab_get S es k = Some e \<longrightarrow> te_generation e = g \<longrightarrow>
        t = te_expiration_tick e)"

definition is_min :: "'s timer_slab \<Rightarrow> 's \<Rightarrow> u64 option \<Rightarrow> bool" where
  "is_min S es m \<longleftrightarrow>
     (case m of
        None \<Rightarrow> \<forall>k. slab_get S es k = None
      | Some m \<Rightarrow>
          (\<exists>k e. slab_get S es k = Some e \<and> te_expiration_tick e = m) \<and>
          (\<forall>k e. slab_get S es k = Some e \<longrightarrow> m \<le> te_expiration_tick e))"

definition heap_ok :: "'s timer_slab \<Rightarrow> 's timing_wheel \<Rightarrow> bool" where
  "heap_ok S w \<longleftrightarrow>
     sorted (expiration_heap w) \<and>
     heap_covers S (entries w) (expiration_heap w) \<and>
     heap_ticks S (entries w) (expiration_heap w) \<and>
     (\<forall>(t, k, g) \<in> set (expiration_heap w). g \<le> generation_counter w)"

definition min_ok :: "'s timer_slab \<Rightarrow> 's timing_wheel \<Rightarrow> bool" where
  "min_ok S w \<longleftrightarrow> is_min S (entries w) (min_expiration_tick w)"

text \<open>The abstract view of the wheel: the pending timers by handle.\<close>

definition pending ::
  "'s timer_slab \<Rightarrow> 's timing_wheel \<Rightarrow> timer_handle \<Rightarrow> (waker \<times> u64) option" where
  "pending S w h =
     (case slab_get S (entries w) (th_slab_index h) of
        None \<Rightarrow> None
      | Some e \<Rightarrow> if te_generation e = th_generation h
                then Some (te_waker e, te_expiration_tick e) else None)"

fun advance_all :: "'s timer_slab \<Rightarrow> u64 list \<Rightarrow> 's timing_wheel \<Rightarrow> 's timing_wheel" where
  "advance_all S [] w = w"
| "advance_all S (t # ts) w = advance_all S ts (snd (wheel_advance S t w))"

text \<open>Runs of the public operations.\<close>

datatype wheel_op =
    OpInsert waker u64
  | OpRemove timer_handle
  | OpAdvance u64
  | OpNearest

fun wheel_step :: "'s timer_slab \<Rightarrow> wheel_op \<Rightarrow> 's timing_wheel \<Rightarrow> 's timing_wheel" where
  "wheel_step S (OpInsert wk tick) w = snd (wheel_insert S wk tick w)"
| "wheel_step S (OpRemove h) w = wheel_remove S h w"
| "wheel_step S (OpAdvance t) w = snd (wheel_advance S t w)"
| "wheel_step S OpNearest w = snd (nearest_wakeup S w)"

text \<open>
  The contract of the wheel: a table of pending timers in which an insertion takes an unused
  handle, a removal drops one handle, and time passing drops some timers that are due and changes
  no other.
\<close>

inductive timers_step ::
  "u64 \<Rightarrow> wheel_op \<Rightarrow> (timer_handle \<Rightarrow> (waker \<times> u64) option) \<Rightarrow>
   (timer_handle \<Rightarrow> (waker \<times> u64) option) \<Rightarrow> bool" where
  spec_insert: "m h = None \<Longrightarrow> timers_step now (OpInsert wk tick) m (m(h \<mapsto> (wk, tick)))"
| spec_remove: "timers_step now (OpRemove h) m (m(h := None))"
| spec_advance: "(\<And>h. m' h = m h \<or> (\<exists>wk tick. m h = Some (wk, tick) \<and> tick \<le> now + t \<and> m' h = None)) \<Longrightarrow>
    timers_step now (OpAdvance t) m m'"
| spec_nearest: "timers_step now OpNearest m m"

text \<open>The slots a call of \<open>advance\<close> with a non-zero argument visits.\<close>

definition swept :: "u64 \<Rightarrow> u64 \<Rightarrow> (nat \<times> nat) set" where
  "swept start ticks = {1..<NUM_LEVELS} \<times> {0..<SLOTS_PER_LEVEL} \<union>
     {0} \<times> set (slots_between start (start + ticks) ticks)"

definition wheel_inv :: "'s timer_slab \<Rightarrow> 's timing_wheel \<Rightarrow> bool" where
  "wheel_inv S w \<longleftrightarrow> placed S {} w \<and> heap_ok S w \<and> min_ok S w"

text \<open>
  What a call of \<open>advance\<close> relates: the wheel \<open>w0\<close> it starts from (its tick already moved), the
  wheel \<open>w\<close> reached and the wakers \<open>ex\<close> collected. \<open>fired\<close> says that the wakers are those of
  the entries that left the slab, each once and none of them before its tick; \<open>on_time\<close> that an
  entry still in the slab is not due, unless it is where it was in \<open>w0\<close>, outside \<open>X\<close>; and
  \<open>untouched\<close> that the entries outside \<open>X\<close> are as they were.
\<close>

definition same_timer :: "timer_entry \<Rightarrow> timer_entry \<Rightarrow> bool" where
  "same_timer e e0 \<longleftrightarrow> te_waker e = te_waker e0 \<and>
     te_expiration_tick e = te_expiration_tick e0 \<and> te_generation e = te_generation e0"

definition fired ::
  "'s timer_slab \<Rightarrow> 's timing_wheel \<Rightarrow> 's timing_wheel \<Rightarrow> waker list \<Rightarrow> bool" where
  "fired S w0 w ex \<longleftrightarrow>
     (\<exists>R. distinct R \<and>
        set R = {k. slab_get S (entries w0) k \<noteq> None \<and> slab_get S (entries w) k = None} \<and>
        ex = map (\<lambda>k. te_waker (the (slab_get S (entries w0) k))) R \<and>
        (\<forall>k \<in> set R. te_expiration_tick (the (slab_get S (entries w0) k)) \<le> current_tick w))"

definition kept :: "'s timer_slab \<Rightarrow> 's timing_wheel \<Rightarrow> 's timing_wheel \<Rightarrow> bool" where
  "kept S w0 w \<longleftrightarrow>
     (\<forall>k e. slab_get S (entries w) k = Some e \<longrightarrow>
        (\<exists>e0. slab_get S (entries w0) k = Some e0 \<and> same_timer e e0))"

definition on_time ::
  "'s timer_slab \<Rightarrow> 's timing_wheel \<Rightarrow> (nat \<times> nat) set \<Rightarrow> 's timing_wheel \<Rightarrow> bool" where
  "on_time S w0 X w \<longleftrightarrow>
     (\<forall>k e. slab_get S (entries w) k = Some e \<longrightarrow>
        current_tick w < te_expiration_tick e \<or>
        (\<exists>e0. slab_get S (entries w0) k = Some e0 \<and>
           te_level e = te_level e0 \<and> te_slot e = te_slot e0 \<and> (te_level e, te_slot e) \<notin> X))"

definition untouched ::
  "'s timer_slab \<Rightarrow> 's timing_wheel \<Rightarrow> (nat \<times> nat) set \<Rightarrow> 's timing_wheel \<Rightarrow> bool" where
  "untouched S w0 X w \<longleftrightarrow>
     (\<forall>k e. slab_get S (entries w0) k = Some e \<longrightarrow> (te_level e, te_slot e) \<notin> X \<longrightarrow>
        slab_get S (entries w) k = Some e)"

definition advancing ::
  "'s timer_slab \<Rightarrow> 's timing_wheel \<Rightarrow> (nat \<times> nat) set \<Rightarrow> 's timing_wheel \<times> waker list \<Rightarrow> bool" where
  "advancing S w0 X st \<longleftrightarrow>
     (case st of (w, ex) \<Rightarrow>
        placed S {} w \<and> kept S w0 w \<and> fired S w0 w ex \<and> on_time S w0 X w \<and>
        untouched S w0 X w \<and> current_tick w = current_tick w0 \<and> generation_counter w = generation_counter w0 \<and>
        expiration_heap w = expiration_heap w0)"

subsection \<open>Levels and slots\<close>

lemmas wheel_consts = NUM_LEVELS_def SLOTS_PER_LEVEL_def

lemma slot_of_less: "slot_of d n < 64"
  by (simp add: slot_of_def unat_and_63)

lemma level_loop_bounds:
  "level_loop ls d = Some (l, s) \<Longrightarrow> l \<in> set ls \<and> s < 64"
  by (induction ls d rule: level_loop.induct)
     (auto simp: Let_def slot_of_less split: if_splits)

lemma calculate_bounds:
  assumes "calculate_level_and_slot d = (l, s)"
  shows "l < NUM_LEVELS \<and> s < SLOTS_PER_LEVEL"
proof (cases "level_loop [0..<NUM_LEVELS] d")
  case None
  with assms show ?thesis
    by (auto simp: calculate_level_and_slot_def wheel_consts slot_of_less)
next
  case (Some r)
  with assms have "level_loop [0..<NUM_LEVELS] d = Some (l, s)"
    by (simp add: calculate_level_and_slot_def)
  from level_loop_bounds [OF this] show ?thesis
    by (simp add: wheel_consts)
qed

lemma level_loop_upt_Cons: "level_loop [0..<NUM_LEVELS] d = level_loop (0 # [1..<NUM_LEVELS]) d"
  by (simp add: wheel_consts upt_conv_Cons)

lemma calculate_level_0:
  assumes "unat d < 64"
  shows "calculate_level_and_slot d = (0, unat d)"
proof -
  have "d \<le> 63"
    using assms by (simp add: word_le_nat_alt)
  then have "level_loop [0..<NUM_LEVELS] d = Some (0, slot_of d 0)"
    unfolding level_loop_upt_Cons by (simp add: wheel_consts)
  moreover have "slot_of d 0 = unat d"
    using assms by (simp add: slot_of_def unat_and_63)
  ultimately show ?thesis
    by (simp add: calculate_level_and_slot_def)
qed

lemma calculate_level_pos:
  assumes "64 \<le> unat d" and "calculate_level_and_slot d = (l, s)"
  shows "0 < l"
proof -
  have "\<not> d \<le> 63"
    using assms(1) by (simp add: word_le_nat_alt)
  then have *: "level_loop [0..<NUM_LEVELS] d = level_loop [1..<NUM_LEVELS] d"
    unfolding level_loop_upt_Cons by (simp add: wheel_consts)
  show ?thesis
  proof (cases "level_loop [1..<NUM_LEVELS] d")
    case None
    with assms(2) * show ?thesis
      by (auto simp: calculate_level_and_slot_def wheel_consts)
  next
    case (Some r)
    with assms(2) * have "level_loop [1..<NUM_LEVELS] d = Some (l, s)"
      by (simp add: calculate_level_and_slot_def)
    from level_loop_bounds [OF this] show ?thesis
      by auto
  qed
qed

lemma get_set_slot:
  assumes "wheel_shape wh" and "l < NUM_LEVELS" and "s < SLOTS_PER_LEVEL"
  shows "get_slot (set_slot wh l s v) l' s' = (if l' = l \<and> s' = s then v else get_slot wh l' s')"
  using assms
  by (auto simp: get_slot_def set_slot_def wheel_shape_def nth_list_update)

lemma wheel_shape_set_slot [simp]: "wheel_shape wh \<Longrightarrow> wheel_shape (set_slot wh l s v)"
  by (cases "l < length wh")
     (auto simp: set_slot_def wheel_shape_def nth_list_update list_update_beyond)

lemma set_slot_same [simp]: "set_slot wh l s (get_slot wh l s) = wh"
  by (simp add: set_slot_def get_slot_def)

lemma get_slot_new:
  "l < NUM_LEVELS \<Longrightarrow> s < SLOTS_PER_LEVEL \<Longrightarrow>
   get_slot (replicate NUM_LEVELS (replicate SLOTS_PER_LEVEL [])) l s = []"
  by (simp add: get_slot_def)

lemma slots_between_less: "s \<in> set (slots_between a b t) \<Longrightarrow> s < SLOTS_PER_LEVEL"
  by (auto simp: slots_between_def unat_and_63 wheel_consts Let_def split: if_splits)

lemma slots_between_range:
  assumes "i \<le> unat t"
  shows "(unat a + i) mod 64 \<in> set (slots_between a (a + t) t)"
proof (cases "64 \<le> t")
  case True
  then show ?thesis
    by (simp add: slots_between_def wheel_consts)
next
  case False
  then have t: "unat t < 64"
    by (simp add: word_le_nat_alt)
  define A where "A = unat a mod 64"
  have A: "A < 64" by (simp add: A_def)
  have "unat (a + t) mod 64 = (unat a + unat t) mod 2 ^ 64 mod 64"
    by (simp add: unat_word_ariths)
  also have "\<dots> = (unat a + unat t) mod 64"
    by (rule mod_mod_cancel) simp
  finally have E: "unat (a + t) mod 64 = (A + unat t) mod 64"
    by (simp add: A_def mod_add_left_eq)
  have s: "(unat a + i) mod 64 = (A + i) mod 64"
    by (simp add: A_def mod_add_left_eq)
  have wrap: "n mod 64 = (if n < 64 then n else n - 64)" if "n < 128" for n :: nat
    using that by (simp add: mod_if)
  show ?thesis
    using False A assms t wrap [of "A + i"] wrap [of "A + unat t"]
    by (auto simp: slots_between_def unat_and_63 E s A_def [symmetric] wheel_consts Let_def)
qed

lemma heap_covers_Cons:
  assumes "heap_covers S es ((t, k, g) # h)"
    and "\<nexists>e. slab_get S es k = Some e \<and> te_generation e = g"
  shows "heap_covers S es h"
  using assms by (fastforce simp: heap_covers_def)

lemma heap_ticks_Cons: "heap_ticks S es (x # h) \<Longrightarrow> heap_ticks S es h"
  by (auto simp: heap_ticks_def)

lemma heap_head_min:
  assumes "sorted ((t, k, g) # h)" and "heap_covers S es ((t, k, g) # h)"
    and "heap_ticks S es ((t, k, g) # h)"
    and e: "slab_get S es k = Some e" "te_generation e = g"
  shows "is_min S es (Some (te_expiration_tick e))"
proof -
  have t: "t = te_expiration_tick e"
    using assms(3) e by (auto simp: heap_ticks_def)
  have "t \<le> te_expiration_tick e'" if "slab_get S es j = Some e'" for j e'
  proof -
    have "(te_expiration_tick e', j, te_generation e') \<in> set ((t, k, g) # h)"
      using assms(2) that by (auto simp: heap_covers_def)
    then show ?thesis
      using assms(1) by (fastforce simp: less_eq_prod_def)
  qed
  with t e show ?thesis
    by (auto simp: is_min_def)
qed

lemma pop_stale_correct:
  assumes "pop_stale S es h = (m, h')" and "sorted h" and "heap_covers S es h" and "heap_ticks S es h"
  shows "sorted h' \<and> set h' \<subseteq> set h \<and> heap_covers S es h' \<and> is_min S es m"
  using assms
proof (induction S es h rule: pop_stale.induct)
  case (1 S es)
  then show ?case
    by (auto simp: is_min_def heap_covers_def intro: option.exhaust)
next
  case (2 S es tick idx gen h)
  show ?case
  proof (cases "\<exists>e. slab_get S es idx = Some e \<and> te_generation e = gen")
    case True
    then obtain e where e: "slab_get S es idx = Some e" "te_generation e = gen" by blast
    then have "m = Some (te_expiration_tick e)" "h' = (tick, idx, gen) # h"
      using "2.prems"(1) by auto
    with heap_head_min [OF "2.prems"(2-4) e] "2.prems"(2,3) show ?thesis
      by simp
  next
    case False
    have ps: "pop_stale S es h = (m, h')"
      using "2.prems"(1) False by (auto split: option.splits if_splits)
    have h: "sorted h" "heap_covers S es h" "heap_ticks S es h"
      using "2.prems"(2) heap_covers_Cons [OF "2.prems"(3) False] heap_ticks_Cons [OF "2.prems"(4)]
      by simp_all
    have "sorted h' \<and> set h' \<subseteq> set h \<and> heap_covers S es h' \<and> is_min S es m"
    proof (cases "slab_get S es idx")
      case None
      show ?thesis
        by (rule "2.IH"(1) [OF None ps h])
    next
      case (Some e)
      with False have gen: "te_generation e \<noteq> gen" by simp
      show ?thesis
        by (rule "2.IH"(2) [OF Some gen ps h])
    qed
    then show ?thesis by auto
  qed
qed

subsection \<open>The laws of the wheel\<close>

locale wheel_store = slab S for S :: "'s timer_slab"
begin

lemma placed_entryD:
  "\<lbrakk>placed S P w; slab_get S (entries w) k = Some e; k \<notin> P\<rbrakk> \<Longrightarrow>
   te_level e < NUM_LEVELS \<and> te_slot e < SLOTS_PER_LEVEL \<and>
   k \<in> set (get_slot (wheels w) (te_level e) (te_slot e))"
  by (simp add: placed_def)

lemma placed_slotD:
  "\<lbrakk>placed S P w; l < NUM_LEVELS; s < SLOTS_PER_LEVEL; k \<in> set (get_slot (wheels w) l s)\<rbrakk> \<Longrightarrow>
   k \<notin> P \<and> (\<exists>e. slab_get S (entries w) k = Some e \<and> te_level e = l \<and> te_slot e = s)"
  by (simp add: placed_def)

lemma placed_distinct:
  "\<lbrakk>placed S P w; l < NUM_LEVELS; s < SLOTS_PER_LEVEL\<rbrakk> \<Longrightarrow> distinct (get_slot (wheels w) l s)"
  by (simp add: placed_def)

lemma placed_shape: "placed S P w \<Longrightarrow> wheel_shape (wheels w)"
  by (simp add: placed_def)

lemma placed_new: "placed S {} (wheel_new S)"
  by (simp add: placed_def wheel_new_def wheel_shape_def get_slot_new)

text \<open>Storing an entry with its index appended to the slot it records.\<close>

lemma placed_append:
  assumes pl: "placed S (insert k P) w" and "k \<notin> P"
    and ls: "l < NUM_LEVELS" "s < SLOTS_PER_LEVEL"
    and e: "te_level e = l" "te_slot e = s"
    and es: "\<And>j. slab_get S es j = (if j = k then Some e else slab_get S (entries w) j)"
    and wh: "wh = set_slot (wheels w) l s (get_slot (wheels w) l s @ [k])"
  shows "placed S P (w\<lparr>entries := es, wheels := wh\<rparr>)"
proof -
  note sh = placed_shape [OF pl]
  have gs: "get_slot wh l' s' =
      (if l' = l \<and> s' = s then get_slot (wheels w) l s @ [k] else get_slot (wheels w) l' s')" for l' s'
    using get_set_slot [OF sh ls] by (simp add: wh)
  have nk: "k \<notin> set (get_slot (wheels w) l' s')" if "l' < NUM_LEVELS" "s' < SLOTS_PER_LEVEL" for l' s'
    using placed_slotD [OF pl that] by blast
  have "wheel_shape wh"
    using sh by (simp add: wh)
  then show ?thesis
    unfolding placed_def
    using ls e \<open>k \<notin> P\<close> placed_entryD [OF pl] placed_slotD [OF pl] placed_distinct [OF pl] nk
    by (auto simp: es gs split: if_splits) (metis insertE placed_entryD [OF pl])
qed

lemma placed_weaken:
  assumes "placed S (insert k P) w" and "slab_get S (entries w) k = None"
  shows "placed S P w"
  using assms unfolding placed_def by (auto; metis option.distinct(1))

lemma placed_drop:
  assumes "placed S (insert k P) w"
  shows "placed S P (w\<lparr>entries := slab_remove S k (entries w)\<rparr>)"
  using assms unfolding placed_def by auto

lemma expire_or_move_placed:
  assumes "placed S (insert k P) w" and "k \<notin> P" and "expire_or_move S k (w, ex) = (w', ex')"
  shows "placed S P w'"
proof (cases "slab_get S (entries w) k")
  case None
  with assms show ?thesis
    by (auto simp: expire_or_move_def intro: placed_weaken)
next
  case (Some e)
  obtain l s where ls: "calculate_level_and_slot (te_expiration_tick e - current_tick w) = (l, s)"
    by force
  show ?thesis
  proof (cases "te_expiration_tick e \<le> current_tick w")
    case True
    with Some assms show ?thesis
      by (auto simp: expire_or_move_def intro: placed_drop)
  next
    case False
    have "placed S P (w\<lparr>entries := slab_set S k (e\<lparr>te_level := l, te_slot := s\<rparr>) (entries w),
        wheels := set_slot (wheels w) l s (get_slot (wheels w) l s @ [k])\<rparr>)"
      using calculate_bounds [OF ls] Some
      by (intro placed_append [OF assms(1,2)]) auto
    with False Some assms(3) ls show ?thesis
      by (simp add: expire_or_move_def Let_def)
  qed
qed

lemma expire_all_placed:
  assumes "placed S (set ks) w" and "distinct ks"
    and "fold (expire_or_move S) ks (w, ex) = (w', ex')"
  shows "placed S {} w'"
  using assms
proof (induction ks arbitrary: w ex)
  case Nil
  then show ?case by simp
next
  case (Cons k ks)
  obtain w1 ex1 where step: "expire_or_move S k (w, ex) = (w1, ex1)"
    by force
  have "placed S (set ks) w1"
    using expire_or_move_placed [OF _ _ step] Cons.prems(1,2) by simp
  with Cons.IH Cons.prems(2,3) step show ?case by simp
qed

lemma take_slot_placed:
  assumes "placed S {} w" and "l < NUM_LEVELS" "s < SLOTS_PER_LEVEL"
    and "take_slot l s w = (ks, w')"
  shows "placed S (set ks) w'" and "distinct ks"
proof -
  note sh = placed_shape [OF assms(1)]
  have ks: "ks = get_slot (wheels w) l s"
    and w': "w' = w\<lparr>wheels := set_slot (wheels w) l s []\<rparr>"
    using assms(4) by (auto simp: take_slot_def)
  show "distinct ks"
    using placed_distinct [OF assms(1-3)] ks by simp
  have gs: "get_slot (wheels w') l' s' = (if l' = l \<and> s' = s then [] else get_slot (wheels w) l' s')"
    for l' s'
    by (simp add: w' get_set_slot [OF sh assms(2,3)])
  have es: "entries w' = entries w" and "wheel_shape (wheels w')"
    using sh by (simp_all add: w')
  moreover have "te_level e < NUM_LEVELS \<and> te_slot e < SLOTS_PER_LEVEL \<and>
      k \<in> set (get_slot (wheels w') (te_level e) (te_slot e))"
    if "slab_get S (entries w) k = Some e" "k \<notin> set ks" for k e
    using placed_entryD [OF assms(1) that(1)] that(2) by (auto simp: gs ks)
  moreover have "k \<notin> set ks \<and> (\<exists>e. slab_get S (entries w) k = Some e \<and> te_level e = l' \<and> te_slot e = s')"
    if "l' < NUM_LEVELS" "s' < SLOTS_PER_LEVEL" "k \<in> set (get_slot (wheels w') l' s')" for k l' s'
    using that placed_slotD [OF assms(1) that(1,2), of k] placed_slotD [OF assms(1-3), of k]
    by (auto simp: gs ks split: if_splits)
  moreover have "distinct (get_slot (wheels w') l' s')"
    if "l' < NUM_LEVELS" "s' < SLOTS_PER_LEVEL" for l' s'
    using placed_distinct [OF assms(1) that] by (simp add: gs)
  ultimately show "placed S (set ks) w'"
    by (simp add: placed_def)
qed

lemma drain_slot_placed:
  assumes "placed S {} w" and "l < NUM_LEVELS" "s < SLOTS_PER_LEVEL"
    and "drain_slot S l s (w, ex) = (w', ex')"
  shows "placed S {} w'"
proof -
  obtain ks w1 where t: "take_slot l s w = (ks, w1)"
    by force
  from take_slot_placed [OF assms(1-3) t] assms(4) t show ?thesis
    by (auto simp: drain_slot_def intro: expire_all_placed)
qed

text \<open>One index: what it changes and what it leaves alone.\<close>

lemma expire_or_move_frame:
  "expire_or_move S k (w, ex) = (w', ex') \<Longrightarrow>
   current_tick w' = current_tick w \<and> generation_counter w' = generation_counter w \<and>
   expiration_heap w' = expiration_heap w \<and>
   (\<forall>j. j \<noteq> k \<longrightarrow> slab_get S (entries w') j = slab_get S (entries w) j)"
  by (auto simp: expire_or_move_def Let_def split: option.splits if_splits prod.splits)

lemma expire_or_move_self:
  "expire_or_move S k (w, ex) = (w', ex') \<Longrightarrow> slab_get S (entries w') k = Some e \<Longrightarrow>
   current_tick w < te_expiration_tick e"
  by (auto simp: expire_or_move_def Let_def split: option.splits if_splits prod.splits)

lemma expire_or_move_kept:
  assumes "kept S w0 w" and "expire_or_move S k (w, ex) = (w', ex')"
  shows "kept S w0 w'"
  using assms unfolding kept_def
  by (auto simp: expire_or_move_def Let_def same_timer_def
      split: option.splits if_splits prod.splits)

lemma expire_or_move_fired:
  assumes "kept S w0 w" and "fired S w0 w ex" and "expire_or_move S k (w, ex) = (w', ex')"
  shows "fired S w0 w' ex'"
proof -
  obtain R where R: "distinct R"
    "set R = {k. slab_get S (entries w0) k \<noteq> None \<and> slab_get S (entries w) k = None}"
    "ex = map (\<lambda>k. te_waker (the (slab_get S (entries w0) k))) R"
    "\<forall>k \<in> set R. te_expiration_tick (the (slab_get S (entries w0) k)) \<le> current_tick w"
    using assms(2) by (auto simp: fired_def)
  show ?thesis
  proof (cases "\<exists>e. slab_get S (entries w) k = Some e \<and> te_expiration_tick e \<le> current_tick w")
    case True
    then obtain e where e: "slab_get S (entries w) k = Some e" "te_expiration_tick e \<le> current_tick w"
      by blast
    then obtain e0 where e0: "slab_get S (entries w0) k = Some e0" "same_timer e e0"
      using assms(1) by (auto simp: kept_def)
    have "w' = w\<lparr>entries := slab_remove S k (entries w)\<rparr>" "ex' = ex @ [te_waker e]"
      using assms(3) e by (auto simp: expire_or_move_def)
    then show ?thesis
      unfolding fired_def using R e e0
      by (intro exI [of _ "R @ [k]"]) (auto simp: same_timer_def)
  next
    case False
    then have "ex' = ex" "current_tick w' = current_tick w"
      "\<And>j. (slab_get S (entries w') j = None) = (slab_get S (entries w) j = None)"
      using assms(3)
      by (auto simp: expire_or_move_def Let_def split: option.splits if_splits prod.splits)
    then show ?thesis
      using R by (auto simp: fired_def)
  qed
qed

lemma expire_all_frame:
  assumes "fold (expire_or_move S) ks (w, ex) = (w', ex')"
  shows "current_tick w' = current_tick w \<and> generation_counter w' = generation_counter w \<and>
    expiration_heap w' = expiration_heap w \<and>
    (\<forall>j. j \<notin> set ks \<longrightarrow> slab_get S (entries w') j = slab_get S (entries w) j)"
  using assms
proof (induction ks arbitrary: w ex)
  case Nil
  then show ?case by simp
next
  case (Cons k ks)
  obtain w1 ex1 where step: "expire_or_move S k (w, ex) = (w1, ex1)"
    by force
  with Cons show ?case
    using expire_or_move_frame [OF step] by simp
qed

lemma expire_all_due:
  assumes "fold (expire_or_move S) ks (w, ex) = (w', ex')" and "k \<in> set ks"
    and "slab_get S (entries w') k = Some e"
  shows "current_tick w < te_expiration_tick e"
  using assms
proof (induction ks arbitrary: w ex)
  case Nil
  then show ?case by simp
next
  case (Cons j ks)
  obtain w1 ex1 where step: "expire_or_move S j (w, ex) = (w1, ex1)"
    by force
  have rest: "fold (expire_or_move S) ks (w1, ex1) = (w', ex')"
    using Cons.prems(1) step by simp
  show ?case
  proof (cases "k \<in> set ks")
    case True
    then show ?thesis
      using Cons.IH [OF rest] Cons.prems(3) expire_or_move_frame [OF step] by simp
  next
    case False
    then have "k = j"
      using Cons.prems(2) by simp
    moreover have "slab_get S (entries w1) k = Some e"
      using expire_all_frame [OF rest] False Cons.prems(3) by simp
    ultimately show ?thesis
      using expire_or_move_self [OF step] by simp
  qed
qed

lemma expire_all_kept_fired:
  assumes "kept S w0 w" "fired S w0 w ex" and "fold (expire_or_move S) ks (w, ex) = (w', ex')"
  shows "kept S w0 w' \<and> fired S w0 w' ex'"
  using assms
proof (induction ks arbitrary: w ex)
  case Nil
  then show ?case by simp
next
  case (Cons k ks)
  obtain w1 ex1 where step: "expire_or_move S k (w, ex) = (w1, ex1)"
    by force
  from expire_or_move_kept [OF Cons.prems(1) step] expire_or_move_fired [OF Cons.prems(1,2) step]
    Cons.IH Cons.prems(3) step
  show ?case by simp
qed

text \<open>One slot.\<close>

lemma drain_slot_on_time:
  assumes pl: "placed S {} w" and ot: "on_time S w0 X w"
    and ls: "l < NUM_LEVELS" "s < SLOTS_PER_LEVEL" and dr: "drain_slot S l s (w, ex) = (w', ex')"
  shows "on_time S w0 (X \<union> {(l, s)}) w'"
proof -
  define ks where "ks = get_slot (wheels w) l s"
  define w1 where "w1 = w\<lparr>wheels := set_slot (wheels w) l s []\<rparr>"
  have fold: "fold (expire_or_move S) ks (w1, ex) = (w', ex')"
    using dr by (simp add: drain_slot_def take_slot_def ks_def w1_def)
  have w1: "entries w1 = entries w" "current_tick w1 = current_tick w"
    by (simp_all add: w1_def)
  note fr = expire_all_frame [OF fold]
  show ?thesis
    unfolding on_time_def
  proof (intro allI impI)
    fix k e
    assume k: "slab_get S (entries w') k = Some e"
    show "current_tick w' < te_expiration_tick e \<or>
      (\<exists>e0. slab_get S (entries w0) k = Some e0 \<and> te_level e = te_level e0 \<and>
         te_slot e = te_slot e0 \<and> (te_level e, te_slot e) \<notin> X \<union> {(l, s)})"
    proof (cases "k \<in> set ks")
      case True
      then show ?thesis
        using expire_all_due [OF fold True k] fr by simp
    next
      case False
      then have kw: "slab_get S (entries w) k = Some e"
        using fr k w1 by simp
      have "(te_level e, te_slot e) \<noteq> (l, s)"
        using placed_entryD [OF pl kw] False by (auto simp: ks_def)
      with ot kw fr w1 show ?thesis
        by (auto simp: on_time_def)
    qed
  qed
qed

lemma drain_slot_untouched:
  assumes pl: "placed S {} w" and un: "untouched S w0 X w"
    and ls: "l < NUM_LEVELS" "s < SLOTS_PER_LEVEL" and dr: "drain_slot S l s (w, ex) = (w', ex')"
  shows "untouched S w0 (X \<union> {(l, s)}) w'"
proof -
  have fold: "fold (expire_or_move S) (get_slot (wheels w) l s)
      (w\<lparr>wheels := set_slot (wheels w) l s []\<rparr>, ex) = (w', ex')"
    using dr by (simp add: drain_slot_def take_slot_def)
  show ?thesis
    unfolding untouched_def
  proof (intro allI impI)
    fix k e
    assume k: "slab_get S (entries w0) k = Some e" "(te_level e, te_slot e) \<notin> X \<union> {(l, s)}"
    then have kw: "slab_get S (entries w) k = Some e"
      using un by (simp add: untouched_def)
    then have "k \<notin> set (get_slot (wheels w) l s)"
      using placed_slotD [OF pl ls, of k] k(2) by auto
    with expire_all_frame [OF fold] kw show "slab_get S (entries w') k = Some e"
      by simp
  qed
qed

lemma drain_slot_advancing:
  assumes "advancing S w0 X st" and "l < NUM_LEVELS" "s < SLOTS_PER_LEVEL"
  shows "advancing S w0 (X \<union> {(l, s)}) (drain_slot S l s st)"
proof -
  obtain w ex where st: "st = (w, ex)" by force
  obtain w' ex' where dr: "drain_slot S l s (w, ex) = (w', ex')" by force
  define w1 where "w1 = w\<lparr>wheels := set_slot (wheels w) l s []\<rparr>"
  have fold: "fold (expire_or_move S) (get_slot (wheels w) l s) (w1, ex) = (w', ex')"
    using dr by (simp add: drain_slot_def take_slot_def w1_def)
  have adv: "placed S {} w" "on_time S w0 X w" "kept S w0 w1" "fired S w0 w1 ex"
    "untouched S w0 X w"
    "current_tick w1 = current_tick w0" "generation_counter w1 = generation_counter w0"
    "expiration_heap w1 = expiration_heap w0"
    using assms(1) by (auto simp: advancing_def st w1_def kept_def fired_def)
  show ?thesis
    using drain_slot_placed [OF adv(1) assms(2,3) dr] drain_slot_on_time [OF adv(1,2) assms(2,3) dr]
      drain_slot_untouched [OF adv(1,5) assms(2,3) dr]
      expire_all_kept_fired [OF adv(3,4) fold] expire_all_frame [OF fold] adv(6-8)
    by (simp add: advancing_def st dr)
qed

lemma cascade_level_advancing:
  assumes "advancing S w0 X st" and "l < NUM_LEVELS"
  shows "advancing S w0 (X \<union> {l} \<times> {0..<SLOTS_PER_LEVEL}) (cascade_level S l st)"
proof -
  have "advancing S w0 (X \<union> (\<Union>s \<in> set [0..<SLOTS_PER_LEVEL]. {(l, s)}))
      (fold (drain_slot S l) [0..<SLOTS_PER_LEVEL] st)"
    by (rule fold_collect [where I = "advancing S w0", OF assms(1)])
       (use drain_slot_advancing assms(2) in auto)
  moreover have "(\<Union>s \<in> set [0..<SLOTS_PER_LEVEL]. {(l, s)}) = {l} \<times> {0..<SLOTS_PER_LEVEL}"
    by auto
  ultimately show ?thesis
    by (simp add: cascade_level_def)
qed

lemma cascade_all_levels_advancing:
  assumes "advancing S w0 {} st"
  shows "advancing S w0 ({1..<NUM_LEVELS} \<times> {0..<SLOTS_PER_LEVEL}) (cascade_all_levels S st)"
proof -
  have "advancing S w0 ({} \<union> (\<Union>l \<in> set (rev [1..<NUM_LEVELS]). {l} \<times> {0..<SLOTS_PER_LEVEL}))
      (fold (cascade_level S) (rev [1..<NUM_LEVELS]) st)"
    by (rule fold_collect [where I = "advancing S w0", OF assms])
       (use cascade_level_advancing in auto)
  moreover have "(\<Union>l \<in> set (rev [1..<NUM_LEVELS]). {l} \<times> {0..<SLOTS_PER_LEVEL}) =
      {1..<NUM_LEVELS} \<times> {0..<SLOTS_PER_LEVEL}"
    by auto
  ultimately show ?thesis
    by (simp add: cascade_all_levels_def)
qed

lemma advancing_start:
  assumes "placed S {} w"
  shows "advancing S (w\<lparr>current_tick := t\<rparr>) {} (w\<lparr>current_tick := t\<rparr>, [])"
  using assms
  by (auto simp: advancing_def placed_def kept_def fired_def on_time_def untouched_def same_timer_def)

lemma process_slots_advancing:
  assumes "advancing S w0 X st" and "\<And>s. s \<in> set ss \<Longrightarrow> s < SLOTS_PER_LEVEL"
  shows "advancing S w0 (X \<union> {0} \<times> set ss) (fold (process_slot_at_level_0 S) ss st)"
proof -
  have "advancing S w0 (X \<union> (\<Union>s \<in> set ss. {(0, s)})) (fold (process_slot_at_level_0 S) ss st)"
    by (rule fold_collect [where I = "advancing S w0", OF assms(1)])
       (use drain_slot_advancing [of w0 _ _ 0] assms(2) in
         \<open>simp add: process_slot_at_level_0_def wheel_consts\<close>)
  moreover have eq: "(\<Union>s \<in> set ss. {(0, s)}) = {0} \<times> set ss"
    by auto
  ultimately show ?thesis
    by (simp only: eq)
qed

lemma wheel_advance_advancing:
  assumes "placed S {} w" and "ticks \<noteq> 0" and "wheel_advance S ticks w = (ex, w')"
  shows "\<exists>w1. advancing S (w\<lparr>current_tick := current_tick w + ticks\<rparr>)
      (swept (current_tick w) ticks) (w1, ex) \<and> w' = refresh_min_expiration S w1"
proof -
  define w0 where "w0 = w\<lparr>current_tick := current_tick w + ticks\<rparr>"
  define st where "st = cascade_all_levels S (w0, [])"
  have st: "advancing S w0 ({1..<NUM_LEVELS} \<times> {0..<SLOTS_PER_LEVEL}) st"
    unfolding st_def w0_def
    by (rule cascade_all_levels_advancing [OF advancing_start [OF assms(1)]])
  then have "current_tick (fst st) = current_tick w + ticks"
    by (auto simp: advancing_def w0_def)
  moreover obtain w1 ex1 where res: "fold (process_slot_at_level_0 S)
      (slots_between (current_tick w) (current_tick w + ticks) ticks) st = (w1, ex1)"
    by force
  ultimately have "ex = ex1" "w' = refresh_min_expiration S w1"
    using assms(2,3) by (auto simp: wheel_advance_def st_def w0_def Let_def)
  moreover have "advancing S w0 (swept (current_tick w) ticks) (w1, ex1)"
    using process_slots_advancing [OF st slots_between_less, of
        "slots_between (current_tick w) (current_tick w + ticks) ticks"] res
    by (simp add: swept_def)
  ultimately show ?thesis
    by (auto simp: w0_def)
qed

lemma refresh_frame:
  "entries (refresh_min_expiration S w) = entries w"
  "wheels (refresh_min_expiration S w) = wheels w"
  "current_tick (refresh_min_expiration S w) = current_tick w"
  "generation_counter (refresh_min_expiration S w) = generation_counter w"
  by (simp_all add: refresh_min_expiration_def split: prod.splits)

lemma refresh_ok:
  assumes "heap_ok S w"
  shows "heap_ok S (refresh_min_expiration S w) \<and> min_ok S (refresh_min_expiration S w)"
proof -
  obtain m h where ps: "pop_stale S (entries w) (expiration_heap w) = (m, h)"
    by force
  note hp = assms [unfolded heap_ok_def]
  have "sorted h \<and> set h \<subseteq> set (expiration_heap w) \<and> heap_covers S (entries w) h \<and>
      is_min S (entries w) m"
    using pop_stale_correct [OF ps] hp by blast
  with hp show ?thesis
    by (auto simp: refresh_min_expiration_def ps heap_ok_def min_ok_def heap_ticks_def)
qed

lemma placed_cong:
  "entries w = entries w' \<Longrightarrow> wheels w = wheels w' \<Longrightarrow> placed S P w = placed S P w'"
  by (simp add: placed_def)

lemma refresh_inv:
  assumes "placed S {} w" and "heap_ok S w"
  shows "wheel_inv S (refresh_min_expiration S w)"
  using assms refresh_ok [OF assms(2)] placed_cong [OF refresh_frame(1,2)]
  by (simp add: wheel_inv_def)

lemma new_inv: "wheel_inv S (wheel_new S)"
  using placed_new by (simp add: wheel_inv_def heap_ok_def min_ok_def wheel_new_def heap_covers_def heap_ticks_def is_min_def)

lemma nearest_wakeup_inv: "wheel_inv S w \<Longrightarrow> wheel_inv S (snd (nearest_wakeup S w))"
  by (simp add: nearest_wakeup_def Let_def wheel_inv_def [of S w] refresh_inv)

lemma kept_heap_covers: "kept S w0 w \<Longrightarrow> heap_covers S (entries w0) h \<Longrightarrow> heap_covers S (entries w) h"
  by (fastforce simp: kept_def heap_covers_def same_timer_def)

lemma kept_heap_ticks: "kept S w0 w \<Longrightarrow> heap_ticks S (entries w0) h \<Longrightarrow> heap_ticks S (entries w) h"
  by (fastforce simp: kept_def heap_ticks_def same_timer_def)

lemma advance_heap_ok:
  assumes "heap_ok S w0" and "advancing S w0 X (w, ex)"
  shows "heap_ok S w"
  using assms kept_heap_covers kept_heap_ticks by (auto simp: heap_ok_def advancing_def)

lemma advance_inv:
  assumes "wheel_inv S w"
  shows "wheel_inv S (snd (wheel_advance S ticks w))"
proof (cases "ticks = 0")
  case True
  with assms show ?thesis by (simp add: wheel_advance_def)
next
  case False
  obtain ex w' where adv: "wheel_advance S ticks w = (ex, w')" by force
  have pl: "placed S {} w" and hp: "heap_ok S (w\<lparr>current_tick := current_tick w + ticks\<rparr>)"
    using assms by (auto simp: wheel_inv_def heap_ok_def)
  obtain w1 where w1: "advancing S (w\<lparr>current_tick := current_tick w + ticks\<rparr>)
      (swept (current_tick w) ticks) (w1, ex)" "w' = refresh_min_expiration S w1"
    using wheel_advance_advancing [OF pl False adv] by blast
  then show ?thesis
    using advance_heap_ok [OF hp w1(1)] adv by (auto simp: advancing_def intro: refresh_inv)
qed

lemma placed_empty_append:
  assumes "placed S {} w" and "slab_get S (entries w) k = None"
  shows "placed S {k} w"
  using assms unfolding placed_def by (auto; metis option.distinct(1))

lemma insert_heap_ok:
  assumes hp: "heap_ok S w" and gen: "unat (generation_counter w) + 1 < 2 ^ 64"
    and get: "\<And>j. slab_get S (entries w') j = (if j = k then Some e else slab_get S (entries w) j)"
    and g: "te_generation e = generation_counter w + 1" "generation_counter w' = te_generation e"
    and heap: "expiration_heap w' = insort (te_expiration_tick e, k, te_generation e) (expiration_heap w)"
  shows "heap_ok S w'"
proof -
  have less: "g' \<noteq> te_generation e \<and> g' \<le> te_generation e" if "g' \<le> generation_counter w" for g'
    using that gen by (auto simp: g(1) word_le_nat_alt unat_add_no_overflow)
  have old: "g' \<le> generation_counter w" if "(t, j, g') \<in> set (expiration_heap w)" for t j g'
    using hp that by (auto simp: heap_ok_def)
  have cov: "heap_covers S (entries w') (expiration_heap w')"
    using hp by (auto simp: heap_ok_def heap_covers_def get heap set_insort_key)
  have tk: "heap_ticks S (entries w') (expiration_heap w')"
    unfolding heap_ticks_def
  proof (intro allI impI)
    fix t j g' d
    assume j: "(t, j, g') \<in> set (expiration_heap w')" "slab_get S (entries w') j = Some d" "te_generation d = g'"
    show "t = te_expiration_tick d"
    proof (cases "(t, j, g') \<in> set (expiration_heap w)")
      case True
      then have "j \<noteq> k"
        using j(2,3) less [OF old [OF True]] by (auto simp: get)
      then show ?thesis
        using hp True j(2,3) by (auto simp: heap_ok_def heap_ticks_def get)
    next
      case False
      with j show ?thesis by (auto simp: get heap set_insort_key)
    qed
  qed
  show ?thesis
    using hp cov tk less old by (auto simp: heap_ok_def heap g(2) sorted_insort set_insort_key)
qed

lemma insert_min_ok:
  assumes mn: "min_ok S w" and kN: "slab_get S (entries w) k = None"
    and get: "\<And>j. slab_get S (entries w') j = (if j = k then Some e else slab_get S (entries w) j)"
    and mint: "min_expiration_tick w' =
      Some (case min_expiration_tick w of None \<Rightarrow> te_expiration_tick e | Some m \<Rightarrow> min m (te_expiration_tick e))"
  shows "min_ok S w'"
proof (cases "min_expiration_tick w")
  case None
  then show ?thesis
    using mn by (auto simp: min_ok_def is_min_def get mint)
next
  case (Some m)
  then obtain j d where jd: "slab_get S (entries w) j = Some d" "te_expiration_tick d = m"
    and least: "\<And>j d. slab_get S (entries w) j = Some d \<Longrightarrow> m \<le> te_expiration_tick d"
    using mn by (auto simp: min_ok_def is_min_def)
  have "j \<noteq> k" using jd kN by auto
  have "\<exists>i c. slab_get S (entries w') i = Some c \<and> te_expiration_tick c = min m (te_expiration_tick e)"
  proof (cases "m \<le> te_expiration_tick e")
    case True
    with jd \<open>j \<noteq> k\<close> show ?thesis by (auto simp: get)
  next
    case False
    then show ?thesis by (intro exI [of _ k] exI [of _ e]) (auto simp: get)
  qed
  moreover have "min m (te_expiration_tick e) \<le> te_expiration_tick c" if "slab_get S (entries w') i = Some c" for i c
    using that least [of i c] by (cases "i = k") (auto simp: get min.coboundedI1)
  ultimately show ?thesis
    by (simp add: min_ok_def is_min_def mint Some)
qed

lemma insert_inv:
  assumes inv: "wheel_inv S w" and gen: "unat (generation_counter w) + 1 < 2 ^ 64"
    and ins: "wheel_insert S wk tick w = (h, w')"
  shows "wheel_inv S w'"
proof -
  define k where "k = slab_vacant_key S (entries w)"
  obtain l s where ls: "calculate_level_and_slot (saturating_sub tick (current_tick w)) = (l, s)"
    by force
  define e where "e = \<lparr>te_waker = wk, te_expiration_tick = tick, te_generation = generation_counter w + 1,
      te_level = l, te_slot = s\<rparr>"
  define w1 where "w1 = w\<lparr>entries := slab_insert S e (entries w),
      wheels := set_slot (wheels w) l s (get_slot (wheels w) l s @ [k])\<rparr>"
  have w': "w' = w1\<lparr>generation_counter := te_generation e,
      expiration_heap := insort (te_expiration_tick e, k, te_generation e) (expiration_heap w),
      min_expiration_tick :=
        Some (case min_expiration_tick w of None \<Rightarrow> te_expiration_tick e | Some m \<Rightarrow> min m (te_expiration_tick e))\<rparr>"
    using ins ls by (cases w) (auto simp: wheel_insert_def Let_def w1_def e_def k_def update_min_on_insert_def cong: option.case_cong)
  have kN: "slab_get S (entries w) k = None"
    by (simp add: k_def)
  have get: "slab_get S (entries w') j = (if j = k then Some e else slab_get S (entries w) j)" for j
    by (simp add: w' w1_def k_def)
  have pl: "placed S {} w" and hp: "heap_ok S w" and mn: "min_ok S w"
    using inv by (auto simp: wheel_inv_def)
  have "placed S {} w1"
    unfolding w1_def using calculate_bounds [OF ls] placed_empty_append [OF pl kN]
    by (intro placed_append [where k = k and P = "{}" and e = e and l = l and s = s])
       (auto simp: e_def k_def)
  then have "placed S {} w'"
    by (simp add: w' placed_def)
  moreover have "heap_ok S w'"
    by (rule insert_heap_ok [OF hp gen get]) (simp_all add: w' e_def)
  moreover have "min_ok S w'"
    by (rule insert_min_ok [OF mn kN get]) (simp add: w')
  ultimately show ?thesis
    by (simp add: wheel_inv_def)
qed

lemma placed_remove:
  assumes pl: "placed S {} w" and e: "slab_get S (entries w) k = Some e"
    and w1: "w1 = w\<lparr>wheels := set_slot (wheels w) (te_level e) (te_slot e)
      (remove1 k (get_slot (wheels w) (te_level e) (te_slot e))), entries := slab_remove S k (entries w)\<rparr>"
  shows "placed S {} w1"
proof -
  note sh = placed_shape [OF pl]
  have loc: "te_level e < NUM_LEVELS" "te_slot e < SLOTS_PER_LEVEL"
    using placed_entryD [OF pl e] by auto
  have slot: "get_slot (wheels w1) l s =
      (if l = te_level e \<and> s = te_slot e then remove1 k (get_slot (wheels w) l s)
       else get_slot (wheels w) l s)" for l s
    by (simp add: w1 get_set_slot [OF sh loc])
  have gs: "set (get_slot (wheels w1) l s) = set (get_slot (wheels w) l s) - {k} \<and>
      distinct (get_slot (wheels w1) l s)"
    if "l < NUM_LEVELS" "s < SLOTS_PER_LEVEL" for l s
  proof (cases "l = te_level e \<and> s = te_slot e")
    case True
    with placed_distinct [OF pl that] show ?thesis
      by (simp add: slot)
  next
    case False
    then have "k \<notin> set (get_slot (wheels w) l s)"
      using placed_slotD [OF pl that, of k] e by auto
    with False placed_distinct [OF pl that] show ?thesis
      by (auto simp: slot)
  qed
  have get: "slab_get S (entries w1) j = (if j = k then None else slab_get S (entries w) j)" for j
    by (simp add: w1)
  have shape: "wheel_shape (wheels w1)"
    using sh by (simp add: w1)
  have ent: "te_level d < NUM_LEVELS \<and> te_slot d < SLOTS_PER_LEVEL \<and>
      j \<in> set (get_slot (wheels w1) (te_level d) (te_slot d))"
    if "slab_get S (entries w1) j = Some d" for j d
    using that placed_entryD [OF pl, of j d] gs by (auto simp: get split: if_splits)
  have slt: "\<exists>d. slab_get S (entries w1) j = Some d \<and> te_level d = l \<and> te_slot d = s"
    if "l < NUM_LEVELS" "s < SLOTS_PER_LEVEL" "j \<in> set (get_slot (wheels w1) l s)" for j l s
    using that(3) placed_slotD [OF pl that(1,2), of j] gs [OF that(1,2)] by (auto simp: get)
  show ?thesis
    using shape ent slt conjunct2 [OF gs] by (simp add: placed_def)
qed

lemma remove_inv:
  assumes inv: "wheel_inv S w"
  shows "wheel_inv S (wheel_remove S h w)"
proof (cases "\<exists>e. slab_get S (entries w) (th_slab_index h) = Some e \<and> te_generation e = th_generation h")
  case False
  with inv show ?thesis
    by (auto simp: wheel_remove_def split: option.splits)
next
  case True
  then obtain e where e: "slab_get S (entries w) (th_slab_index h) = Some e"
    "te_generation e = th_generation h" by blast
  define w1 where "w1 = w\<lparr>wheels := set_slot (wheels w) (te_level e) (te_slot e)
      (remove1 (th_slab_index h) (get_slot (wheels w) (te_level e) (te_slot e))),
      entries := slab_remove S (th_slab_index h) (entries w)\<rparr>"
  have rem: "wheel_remove S h w = refresh_min_expiration S w1"
    using e by (simp add: wheel_remove_def w1_def Let_def)
  have "placed S {} w1"
    using inv placed_remove [OF _ e(1) w1_def] by (simp add: wheel_inv_def)
  moreover have "heap_ok S w1"
    using inv by (auto simp: wheel_inv_def heap_ok_def heap_covers_def heap_ticks_def w1_def)
  ultimately show ?thesis
    using refresh_inv rem by simp
qed

text \<open>The abstract view: insertion adds one pending timer, removal drops one.\<close>

lemma insert_entries:
  assumes "wheel_insert S wk tick w = (h, w')"
  obtains e where "te_waker e = wk" "te_expiration_tick e = tick" "te_generation e = th_generation h"
    "\<And>j. slab_get S (entries w') j =
       (if j = th_slab_index h then Some e else slab_get S (entries w) j)"
    "slab_get S (entries w) (th_slab_index h) = None"
    "th_generation h = generation_counter w + 1"
    "generation_counter w' = generation_counter w + 1" "current_tick w' = current_tick w"
proof -
  obtain l s where ls: "calculate_level_and_slot (saturating_sub tick (current_tick w)) = (l, s)"
    by force
  show thesis
    by (rule that [of "\<lparr>te_waker = wk, te_expiration_tick = tick,
          te_generation = generation_counter w + 1, te_level = l, te_slot = s\<rparr>"])
       (use assms ls in \<open>auto simp: wheel_insert_def Let_def update_min_on_insert_def\<close>)
qed

lemma insert_pending:
  assumes "wheel_insert S wk tick w = (h, w')"
  shows "pending S w h = None" and "pending S w' = (pending S w)(h \<mapsto> (wk, tick))"
proof -
  obtain e where e: "te_waker e = wk" "te_expiration_tick e = tick" "te_generation e = th_generation h"
    and get: "\<And>j. slab_get S (entries w') j =
       (if j = th_slab_index h then Some e else slab_get S (entries w) j)"
    and vac: "slab_get S (entries w) (th_slab_index h) = None"
    using insert_entries [OF assms] by metis
  show "pending S w h = None"
    by (simp add: pending_def vac)
  show "pending S w' = (pending S w)(h \<mapsto> (wk, tick))"
  proof
    fix h'
    have "h' = h \<longleftrightarrow> th_slab_index h' = th_slab_index h \<and> th_generation h' = th_generation h"
      by (cases h, cases h') auto
    then show "pending S w' h' = ((pending S w)(h \<mapsto> (wk, tick))) h'"
      using e vac by (auto simp: pending_def get)
  qed
qed

lemma remove_pending: "pending S (wheel_remove S h w) = (pending S w)(h := None)"
proof
  fix h'
  have "h' = h \<longleftrightarrow> th_slab_index h' = th_slab_index h \<and> th_generation h' = th_generation h"
    by (cases h, cases h') auto
  then show "pending S (wheel_remove S h w) h' = ((pending S w)(h := None)) h'"
    by (auto simp: wheel_remove_def pending_def Let_def refresh_frame split: option.splits)
qed

text \<open>What one call of \<open>advance\<close> does to the live entries.\<close>

lemma advance_effect:
  assumes inv: "wheel_inv S w" and adv: "wheel_advance S ticks w = (ex, w')"
  shows "current_tick w' = current_tick w + ticks \<and> generation_counter w' = generation_counter w \<and>
    kept S w w' \<and> fired S w w' ex"
proof (cases "ticks = 0")
  case True
  with adv show ?thesis
    by (auto simp: wheel_advance_def kept_def fired_def same_timer_def)
next
  case False
  have pl: "placed S {} w"
    using inv by (simp add: wheel_inv_def)
  obtain w1 where w1: "advancing S (w\<lparr>current_tick := current_tick w + ticks\<rparr>)
      (swept (current_tick w) ticks) (w1, ex)" "w' = refresh_min_expiration S w1"
    using wheel_advance_advancing [OF pl False adv] by blast
  then show ?thesis
    by (auto simp: advancing_def kept_def fired_def refresh_frame)
qed

lemma advance_due:
  assumes inv: "wheel_inv S w" and adv: "wheel_advance S ticks w = (ex, w')" and "ticks \<noteq> 0"
    and k: "slab_get S (entries w') k = Some e" and due: "te_expiration_tick e \<le> current_tick w'"
  shows "te_level e = 0 \<and> te_slot e < SLOTS_PER_LEVEL \<and>
    te_slot e \<notin> set (slots_between (current_tick w) (current_tick w + ticks) ticks) \<and>
    (\<exists>e0. slab_get S (entries w) k = Some e0 \<and> same_timer e e0 \<and>
       te_level e = te_level e0 \<and> te_slot e = te_slot e0)"
proof -
  have pl: "placed S {} w"
    using inv by (simp add: wheel_inv_def)
  obtain w1 where w1: "advancing S (w\<lparr>current_tick := current_tick w + ticks\<rparr>)
      (swept (current_tick w) ticks) (w1, ex)" "w' = refresh_min_expiration S w1"
    using wheel_advance_advancing [OF pl \<open>ticks \<noteq> 0\<close> adv] by blast
  then have "slab_get S (entries w1) k = Some e" "te_expiration_tick e \<le> current_tick w1"
    using k due by (simp_all add: refresh_frame)
  then obtain e0 where e0: "slab_get S (entries w) k = Some e0" "te_level e = te_level e0"
    "te_slot e = te_slot e0" "(te_level e, te_slot e) \<notin> swept (current_tick w) ticks" "same_timer e e0"
    using w1(1) by (fastforce simp: advancing_def on_time_def kept_def)
  then have "te_level e < NUM_LEVELS" "te_slot e < SLOTS_PER_LEVEL"
    using placed_entryD [OF pl e0(1)] by auto
  with e0 show ?thesis
    by (auto simp: swept_def)
qed

lemma advance_large:
  assumes "wheel_inv S w" and "wheel_advance S ticks w = (ex, w')" and "64 \<le> ticks"
    and "slab_get S (entries w') k = Some e"
  shows "current_tick w' < te_expiration_tick e"
proof (rule ccontr)
  assume "\<not> ?thesis"
  then have "te_expiration_tick e \<le> current_tick w'" by simp
  moreover have "ticks \<noteq> 0" using assms(3) by auto
  ultimately show False
    using advance_due [OF assms(1,2) _ assms(4)] assms(3)
    by (auto simp: slots_between_def)
qed

text \<open>A due entry can only wait in a slot of level 0 that no call has visited since.\<close>

definition waiting_since :: "u64 \<Rightarrow> nat \<Rightarrow> 's timing_wheel \<Rightarrow> bool" where
  "waiting_since t0 n w \<longleftrightarrow>
     (\<forall>k e. slab_get S (entries w) k = Some e \<longrightarrow> te_expiration_tick e \<le> t0 \<longrightarrow> 0 < n \<longrightarrow>
        te_level e = 0 \<and> te_slot e < SLOTS_PER_LEVEL \<and>
        (\<forall>i \<le> n. te_slot e \<noteq> (unat t0 + i) mod 64))"

lemma waiting_step:
  assumes inv: "wheel_inv S w" and w: "waiting_since t0 n w" and adv: "wheel_advance S t w = (ex, w')"
    and cur: "unat (current_tick w) = unat t0 + n" and "unat t0 + n + unat t < 2 ^ 64"
  shows "waiting_since t0 (n + unat t) w' \<and> unat (current_tick w') = unat t0 + (n + unat t)"
proof (cases "t = 0")
  case True
  with w adv cur show ?thesis by (simp add: wheel_advance_def)
next
  case False
  have cur': "unat (current_tick w') = unat t0 + (n + unat t)"
    using advance_effect [OF inv adv] cur assms(5) by (simp add: unat_add_no_overflow)
  have "te_level e = 0 \<and> te_slot e < SLOTS_PER_LEVEL \<and>
      (\<forall>i \<le> n + unat t. te_slot e \<noteq> (unat t0 + i) mod 64)"
    if k: "slab_get S (entries w') k = Some e" "te_expiration_tick e \<le> t0" for k e
  proof -
    have "te_expiration_tick e \<le> current_tick w'"
      using k(2) cur' by (simp add: word_le_nat_alt)
    note due = advance_due [OF inv adv False k(1) this]
    then obtain e0 where e0: "slab_get S (entries w) k = Some e0" "te_expiration_tick e0 \<le> t0"
      "te_slot e = te_slot e0"
      using k(2) by (auto simp: same_timer_def)
    have "te_slot e \<noteq> (unat t0 + i) mod 64" if "i \<le> n + unat t" for i
    proof (cases "i < n")
      case True
      then show ?thesis
        using w e0 by (auto simp: waiting_since_def)
    next
      case False
      then have "(unat (current_tick w) + (i - n)) mod 64 \<in>
          set (slots_between (current_tick w) (current_tick w + t) t)"
        using that by (intro slots_between_range) simp
      then show ?thesis
        using due False cur by auto
    qed
    with due show ?thesis by simp
  qed
  with cur' show ?thesis
    by (simp add: waiting_since_def)
qed

lemma waiting_all:
  assumes "wheel_inv S w" and "waiting_since t0 n w" and "unat (current_tick w) = unat t0 + n"
    and "unat t0 + n + sum_list (map unat ts) < 2 ^ 64"
  shows "waiting_since t0 (n + sum_list (map unat ts)) (advance_all S ts w) \<and>
    unat (current_tick (advance_all S ts w)) = unat t0 + n + sum_list (map unat ts) \<and>
    wheel_inv S (advance_all S ts w)"
  using assms
proof (induction ts arbitrary: w n)
  case Nil
  then show ?case by simp
next
  case (Cons t ts)
  obtain ex w' where adv: "wheel_advance S t w = (ex, w')" by force
  have "unat t0 + n + unat t < 2 ^ 64"
    using Cons.prems(4) by simp
  note step = waiting_step [OF Cons.prems(1,2) adv Cons.prems(3) this]
  have "wheel_inv S w'"
    using advance_inv [OF Cons.prems(1), of t] adv by simp
  from Cons.IH [OF this, of "n + unat t"] step Cons.prems(4) adv show ?case
    by (simp add: add.assoc)
qed

lemma not_late:
  assumes "wheel_inv S w" and "unat (current_tick w) + sum_list (map unat ts) < 2 ^ 64"
    and "64 \<le> sum_list (map unat ts)" and "slab_get S (entries (advance_all S ts w)) k = Some e"
  shows "current_tick w < te_expiration_tick e"
proof (rule ccontr)
  let ?n = "sum_list (map unat ts)"
  assume "\<not> ?thesis"
  then have le: "te_expiration_tick e \<le> current_tick w" by simp
  have "waiting_since (current_tick w) 0 w"
    by (simp add: waiting_since_def)
  then have "waiting_since (current_tick w) ?n (advance_all S ts w)"
    using waiting_all [OF assms(1), of "current_tick w" 0 ts] assms(2) by simp
  then have s: "te_slot e < 64" "\<forall>i \<le> ?n. te_slot e \<noteq> (unat (current_tick w) + i) mod 64"
    using assms(3,4) le by (auto simp: waiting_since_def wheel_consts)
  define c where "c = unat (current_tick w) mod 64"
  define i where "i = (if c \<le> te_slot e then te_slot e - c else te_slot e + 64 - c)"
  have c: "c < 64" by (simp add: c_def)
  have "(unat (current_tick w) + i) mod 64 = (c + i) mod 64"
    by (simp add: c_def mod_add_left_eq)
  also have "\<dots> = te_slot e"
    using s(1) c by (simp add: i_def)
  finally have "(unat (current_tick w) + i) mod 64 = te_slot e" .
  moreover have "i \<le> ?n"
    using assms(3) s(1) c by (auto simp: i_def)
  ultimately show False
    using s(2) by auto
qed

lemma due_stays:
  assumes inv: "wheel_inv S w" and d: "unat d < 64"
    and ins: "wheel_insert S wk (current_tick w + d) w = (h, w1)"
    and ov: "unat (current_tick w) + unat d < 2 ^ 64" "unat (generation_counter w) + 1 < 2 ^ 64"
    and t: "unat d \<notin> set (slots_between (current_tick w) (current_tick w + t) t)"
    and adv: "wheel_advance S t w1 = (ex, w2)"
  shows "pending S w2 h = Some (wk, current_tick w + d)"
proof -
  define e where "e = \<lparr>te_waker = wk, te_expiration_tick = current_tick w + d,
      te_generation = th_generation h, te_level = 0, te_slot = unat d\<rparr>"
  have "saturating_sub (current_tick w + d) (current_tick w) = d"
    using ov(1) by (simp add: word_unat_eq_iff unat_add_no_overflow)
  then have e: "slab_get S (entries w1) (th_slab_index h) = Some e" and "current_tick w1 = current_tick w"
    using ins calculate_level_0 [OF d]
    by (auto simp: wheel_insert_def Let_def e_def update_min_on_insert_def)
  have inv1: "wheel_inv S w1"
    by (rule insert_inv [OF inv ov(2) ins])
  show ?thesis
  proof (cases "t = 0")
    case True
    with adv e show ?thesis
      by (simp add: wheel_advance_def pending_def e_def)
  next
    case False
    obtain w' where "advancing S (w1\<lparr>current_tick := current_tick w1 + t\<rparr>)
        (swept (current_tick w1) t) (w', ex)" "w2 = refresh_min_expiration S w'"
      using wheel_advance_advancing [OF _ False adv] inv1 by (auto simp: wheel_inv_def)
    moreover have "(te_level e, te_slot e) \<notin> swept (current_tick w1) t"
      using t \<open>current_tick w1 = _\<close> by (simp add: swept_def e_def)
    ultimately have "slab_get S (entries w2) (th_slab_index h) = Some e"
      using e by (simp add: advancing_def untouched_def refresh_frame)
    then show ?thesis
      by (simp add: pending_def e_def)
  qed
qed

lemma nearest_frame:
  "entries (snd (nearest_wakeup S w)) = entries w"
  "generation_counter (snd (nearest_wakeup S w)) = generation_counter w"
  by (simp_all add: nearest_wakeup_def Let_def refresh_frame)

lemma insert_generation: "generation_counter (snd (wheel_insert S wk tick w)) = generation_counter w + 1"
  by (simp add: wheel_insert_def Let_def update_min_on_insert_def split: prod.splits)

lemma remove_generation: "generation_counter (wheel_remove S h w) = generation_counter w"
  by (simp add: wheel_remove_def Let_def refresh_frame split: option.splits)

lemma step_generation:
  assumes "wheel_inv S w" and "unat (generation_counter w) + 1 < 2 ^ 64"
  shows "unat (generation_counter w) \<le> unat (generation_counter (wheel_step S op w)) \<and>
    unat (generation_counter (wheel_step S op w)) \<le> unat (generation_counter w) + 1"
proof (cases op)
  case (OpInsert wk tick)
  with assms(2) show ?thesis
    by (simp add: insert_generation unat_add_no_overflow)
next
  case (OpAdvance t)
  obtain ex w' where "wheel_advance S t w = (ex, w')" by force
  with advance_effect [OF assms(1) this] OpAdvance show ?thesis by simp
qed (simp_all add: remove_generation nearest_frame)

lemma step_inv:
  assumes "wheel_inv S w" and "unat (generation_counter w) + 1 < 2 ^ 64"
  shows "wheel_inv S (wheel_step S op w)"
  by (cases op)
     (use assms insert_inv [OF assms prod.collapse [symmetric]] remove_inv advance_inv
       nearest_wakeup_inv in auto)

lemma run_inv:
  assumes "wheel_inv S w" and "unat (generation_counter w) + length ops < 2 ^ 64"
  shows "wheel_inv S (fold (wheel_step S) ops w) \<and>
    unat (generation_counter (fold (wheel_step S) ops w)) \<le> unat (generation_counter w) + length ops \<and>
    unat (generation_counter w) \<le> unat (generation_counter (fold (wheel_step S) ops w))"
  using assms
proof (induction ops arbitrary: w)
  case Nil
  then show ?case by simp
next
  case (Cons op ops)
  have small: "unat (generation_counter w) + 1 < 2 ^ 64"
    using Cons.prems(2) by simp
  note step = step_generation [OF Cons.prems(1) small, of op]
  then have "unat (generation_counter (wheel_step S op w)) + length ops < 2 ^ 64"
    using Cons.prems(2) by simp
  from Cons.IH [OF step_inv [OF Cons.prems(1) small] this] step show ?case
    by auto
qed

lemma advance_pending:
  assumes "wheel_inv S w" and "wheel_advance S t w = (ex, w')"
  shows "pending S w' h = pending S w h \<or>
    (\<exists>wk tick. pending S w h = Some (wk, tick) \<and> tick \<le> current_tick w + t \<and> pending S w' h = None)"
proof -
  note eff = advance_effect [OF assms]
  show ?thesis
  proof (cases "slab_get S (entries w') (th_slab_index h)")
    case (Some e)
    then obtain e0 where "slab_get S (entries w) (th_slab_index h) = Some e0" "same_timer e e0"
      using eff by (auto simp: kept_def)
    with Some show ?thesis
      by (simp add: pending_def same_timer_def)
  next
    case None
    then have "te_expiration_tick e0 \<le> current_tick w + t"
      if "slab_get S (entries w) (th_slab_index h) = Some e0" for e0
      using eff that by (fastforce simp: fired_def)
    with None show ?thesis
      by (auto simp: pending_def split: option.splits)
  qed
qed

lemma step_refines:
  assumes "wheel_inv S w"
  shows "timers_step (current_tick w) op (pending S w) (pending S (wheel_step S op w))"
proof (cases op)
  case (OpInsert wk tick)
  obtain h w' where ins: "wheel_insert S wk tick w = (h, w')" by force
  with OpInsert insert_pending [OF ins] show ?thesis
    by (simp add: timers_step.spec_insert)
next
  case (OpRemove h)
  then show ?thesis
    by (simp add: remove_pending timers_step.spec_remove)
next
  case (OpAdvance t)
  obtain ex w' where adv: "wheel_advance S t w = (ex, w')" by force
  with OpAdvance show ?thesis
    by (simp add: timers_step.spec_advance [OF advance_pending [OF assms adv]])
next
  case OpNearest
  then have "pending S (wheel_step S op w) = pending S w"
    by (simp add: fun_eq_iff pending_def nearest_frame)
  with OpNearest show ?thesis
    by (simp add: timers_step.spec_nearest)
qed

lemma step_stale:
  assumes "wheel_inv S w" and "unat (generation_counter w) + 1 < 2 ^ 64"
    and "pending S w h = None" and "th_generation h \<le> generation_counter w"
  shows "pending S (wheel_step S op w) h = None"
proof (cases op)
  case (OpInsert wk tick)
  obtain h' w' where ins: "wheel_insert S wk tick w = (h', w')" by force
  have "th_generation h' = generation_counter w + 1"
    using insert_entries [OF ins] by metis
  then have "h' \<noteq> h"
    using assms(2,4) by (auto simp: word_le_nat_alt unat_add_no_overflow)
  then show ?thesis
    using OpInsert ins insert_pending(2) [OF ins] assms(3) by simp
next
  case (OpAdvance t)
  obtain ex w' where adv: "wheel_advance S t w = (ex, w')" by force
  with OpAdvance advance_pending [OF assms(1) adv, of h] assms(3) show ?thesis by simp
qed (use assms(3) in \<open>simp_all add: remove_pending, simp add: pending_def nearest_frame\<close>)

lemma run_stale:
  assumes "wheel_inv S w" and "unat (generation_counter w) + length ops < 2 ^ 64"
    and "pending S w h = None" and "th_generation h \<le> generation_counter w"
  shows "pending S (fold (wheel_step S) ops w) h = None"
  using assms
proof (induction ops arbitrary: w)
  case Nil
  then show ?case by simp
next
  case (Cons op ops)
  have small: "unat (generation_counter w) + 1 < 2 ^ 64"
    using Cons.prems(2) by simp
  note step = step_generation [OF Cons.prems(1) small, of op]
  then have "th_generation h \<le> generation_counter (wheel_step S op w)"
    and "unat (generation_counter (wheel_step S op w)) + length ops < 2 ^ 64"
    using Cons.prems(2,4) by (simp_all add: word_le_nat_alt)
  with Cons.IH step_inv [OF Cons.prems(1) small] step_stale [OF Cons.prems(1) small Cons.prems(3,4)]
  show ?case by simp
qed

end

interpretation lw: wheel_store list_slab
  by unfold_locales

subsection \<open>Properties\<close>

lemma wheel_storeI: "slab S \<Longrightarrow> wheel_store S"
  by (simp add: wheel_store_def)

lemma list_slab_laws: "slab list_slab"
  by unfold_locales

text \<open>
  C1. Whatever the sequence of insertions, removals, advances and queries, the wheel built from
  \<open>TimingWheel::new\<close> keeps its invariant: each live entry sits, once, in exactly the slot it
  records, the expiration heap covers every live entry, and the cached minimum is exact. The
  bound is the range of the 64-bit generation counter.
\<close>

theorem wheel_run_inv:
  assumes "slab S" and "length ops < 2 ^ 64"
  shows "wheel_inv S (fold (wheel_step S) ops (wheel_new S))"
proof -
  have "unat (generation_counter (wheel_new S)) + length ops < 2 ^ 64"
    using assms(2) by (simp add: wheel_new_def)
  from wheel_store.run_inv [OF wheel_storeI [OF assms(1)]
      wheel_store.new_inv [OF wheel_storeI [OF assms(1)]] this]
  show ?thesis by blast
qed

theorem wheel_run_inv_witness:
  "wheel_inv list_slab (fold (wheel_step list_slab)
     [OpInsert 3 10, OpInsert 4 5000, OpAdvance 9, OpRemove \<lparr>th_slab_index = 0, th_generation = 1\<rparr>,
      OpNearest, OpAdvance 70] (wheel_new list_slab))"
  by (rule wheel_run_inv [OF list_slab_laws]) simp

text \<open>
  C2. \<open>advance\<close> never fires a timer early and wakes exactly the entries it removes: the wakers
  it returns are those of the entries that leave the slab, each once, every one of them due at
  the new tick, and every entry it keeps has its waker, tick and generation unchanged.
\<close>

theorem wheel_advance_exact:
  assumes "slab S" and "wheel_inv S w" and "wheel_advance S ticks w = (ex, w')"
  shows "current_tick w' = current_tick w + ticks \<and> kept S w w' \<and>
    (\<exists>R. distinct R \<and>
       set R = {k. slab_get S (entries w) k \<noteq> None \<and> slab_get S (entries w') k = None} \<and>
       ex = map (\<lambda>k. te_waker (the (slab_get S (entries w) k))) R \<and>
       (\<forall>k \<in> set R. te_expiration_tick (the (slab_get S (entries w) k)) \<le> current_tick w'))"
  using wheel_store.advance_effect [OF wheel_storeI [OF assms(1)] assms(2,3)]
  unfolding fired_def by blast

theorem wheel_advance_exact_witness:
  "\<exists>ex w'. wheel_advance list_slab 64 (snd (wheel_insert list_slab 7 40 (wheel_new list_slab))) = (ex, w') \<and>
     current_tick w' = 64 \<and>
     kept list_slab (snd (wheel_insert list_slab 7 40 (wheel_new list_slab))) w'"
proof -
  let ?w = "snd (wheel_insert list_slab 7 40 (wheel_new list_slab))"
  obtain ex w' where adv: "wheel_advance list_slab 64 ?w = (ex, w')" by force
  have "wheel_inv list_slab ?w"
    by (rule lw.insert_inv [OF lw.new_inv _ prod.collapse [symmetric]]) (simp add: wheel_new_def)
  moreover have "current_tick ?w = 0"
    by (simp add: wheel_insert_def wheel_new_def Let_def update_min_on_insert_def split: prod.splits)
  ultimately show ?thesis
    using wheel_advance_exact [OF list_slab_laws _ adv] adv by auto
qed

text \<open>
  C3. A timer that is due is fired at most sixty-four ticks late: once calls of \<open>advance\<close> have
  moved the wheel by sixty-four ticks or more, in any number of calls, no timer that was due at
  the start is left.
\<close>

theorem wheel_not_late:
  assumes "slab S" and "wheel_inv S w"
    and "unat (current_tick w) + sum_list (map unat ts) < 2 ^ 64" and "64 \<le> sum_list (map unat ts)"
    and "slab_get S (entries (advance_all S ts w)) k = Some e"
  shows "current_tick w < te_expiration_tick e"
  by (rule wheel_store.not_late [OF wheel_storeI [OF assms(1)] assms(2-5)])

theorem wheel_not_late_witness:
  "slab_get list_slab (entries (advance_all list_slab [64]
     (snd (wheel_insert list_slab 7 0 (wheel_new list_slab))))) 0 = None"
proof (rule ccontr)
  let ?w = "snd (wheel_insert list_slab 7 0 (wheel_new list_slab))"
  obtain ex w' where adv: "wheel_advance list_slab 64 ?w = (ex, w')" by force
  assume "\<not> ?thesis"
  then obtain e where e: "slab_get list_slab (entries (advance_all list_slab [64] ?w)) 0 = Some e"
    by auto
  have inv: "wheel_inv list_slab ?w"
    by (rule lw.insert_inv [OF lw.new_inv _ prod.collapse [symmetric]]) (simp add: wheel_new_def)
  have cur: "current_tick ?w = 0"
    by code_simp
  have "0 < te_expiration_tick e"
    using wheel_not_late [OF list_slab_laws inv _ _ e] cur by simp
  moreover have "slab_get list_slab (entries ?w) 0 = Some \<lparr>te_waker = 7, te_expiration_tick = 0,
      te_generation = 1, te_level = 0, te_slot = 0\<rparr>"
    by code_simp
  moreover have "\<exists>e0. slab_get list_slab (entries ?w) 0 = Some e0 \<and> same_timer e e0"
    using lw.advance_effect [OF inv adv] e adv by (simp add: kept_def)
  ultimately show False by (auto simp: same_timer_def)
qed

text \<open>
  A timer can be late by a full turn of level 0. Insertion and re-insertion place an entry of
  delay \<open>d < 64\<close> in slot \<open>d\<close> of level 0, while \<open>advance\<close> visits the slots of the absolute
  ticks it passes: when slot \<open>d\<close> is not among them, the entry stays in the wheel although its
  tick has come.
\<close>

lemma wheel_due_timer_missed:
  assumes "slab S" and "wheel_inv S w" and "unat d < 64" and "d \<le> t"
    and "wheel_insert S wk (current_tick w + d) w = (h, w1)"
    and "unat (current_tick w) + unat t < 2 ^ 64" and "unat (generation_counter w) + 1 < 2 ^ 64"
    and "unat d \<notin> set (slots_between (current_tick w) (current_tick w + t) t)"
    and "wheel_advance S t w1 = (ex, w2)"
  shows "current_tick w + d \<le> current_tick w2 \<and> pending S w2 h = Some (wk, current_tick w + d)"
proof -
  note st = wheel_storeI [OF assms(1)]
  have d: "unat (current_tick w) + unat d < 2 ^ 64"
    using assms(4,6) by (simp add: word_le_nat_alt)
  have w1: "wheel_inv S w1" "current_tick w1 = current_tick w"
    using wheel_store.insert_inv [OF st assms(2,7,5)] wheel_store.insert_entries [OF st assms(5)]
    by metis+
  have "current_tick w + d \<le> current_tick w + t"
    using assms(4,6) d by (simp add: word_le_nat_alt unat_add_no_overflow)
  then show ?thesis
    using wheel_store.advance_effect [OF st w1(1) assms(9)] w1(2)
      wheel_store.due_stays [OF st assms(2,3,5) d assms(7,8,9)]
    by simp
qed

text \<open>
  C5. The wheel implements the table of pending timers: seen through \<open>pending\<close>, every operation
  is a step of the abstract table (\<open>timers_step\<close>): an insertion takes an unused handle, a
  removal drops exactly the timer of its handle, an advance only drops timers that are due.
\<close>

theorem wheel_refines_timers:
  assumes "slab S" and "wheel_inv S w"
  shows "timers_step (current_tick w) op (pending S w) (pending S (wheel_step S op w))"
  by (rule wheel_store.step_refines [OF wheel_storeI [OF assms(1)] assms(2)])

theorem wheel_refines_timers_witness:
  "timers_step 0 (OpInsert 5 20) (pending list_slab (wheel_new list_slab))
     (pending list_slab (wheel_step list_slab (OpInsert 5 20) (wheel_new list_slab)))"
  using wheel_refines_timers [OF list_slab_laws lw.new_inv, of "OpInsert 5 20"]
  by (simp add: wheel_new_def)

text \<open>
  C6. A handle is never reused. A handle issued in the past whose timer is gone (fired or
  cancelled) stays dead through every later sequence of operations, although the slab hands its
  index out again: cancelling a stale handle cannot hit another timer.
\<close>

theorem wheel_handle_not_reused:
  assumes "slab S" and "wheel_inv S w" and "unat (generation_counter w) + length ops < 2 ^ 64"
    and "th_generation h \<le> generation_counter w" and "pending S w h = None"
  shows "pending S (fold (wheel_step S) ops w) h = None \<and>
    pending S (wheel_remove S h (fold (wheel_step S) ops w)) = pending S (fold (wheel_step S) ops w)"
proof -
  note st = wheel_storeI [OF assms(1)]
  have "pending S (fold (wheel_step S) ops w) h = None"
    by (rule wheel_store.run_stale [OF st assms(2,3,5,4)])
  then show ?thesis
    using wheel_store.remove_pending [OF st] by (auto simp: fun_eq_iff)
qed

theorem wheel_handle_not_reused_witness:
  "pending list_slab (fold (wheel_step list_slab) [OpInsert 1 10, OpAdvance 3] (wheel_new list_slab))
     \<lparr>th_slab_index = 0, th_generation = 0\<rparr> = None"
  using wheel_handle_not_reused [OF list_slab_laws lw.new_inv,
      of "[OpInsert 1 10, OpAdvance 3]" "\<lparr>th_slab_index = 0, th_generation = 0\<rparr>"]
  by (simp add: wheel_new_def pending_def)

text \<open>
  C7. \<open>nearest_wakeup\<close> is the least tick of a live timer: it answers \<open>Some t\<close> exactly when \<open>t\<close>
  is the positive minimum, and \<open>None\<close> exactly when there is no timer or the minimum is tick 0.
\<close>

theorem nearest_wakeup_min:
  assumes "slab S" and "wheel_inv S w"
  shows "case fst (nearest_wakeup S w) of
      Some t \<Rightarrow> t \<noteq> 0 \<and> is_min S (entries w) (Some t)
    | None \<Rightarrow> is_min S (entries w) None \<or> is_min S (entries w) (Some 0)"
proof -
  note st = wheel_storeI [OF assms(1)]
  have "is_min S (entries w) (min_expiration_tick (refresh_min_expiration S w))"
    using wheel_store.refresh_ok [OF st, of w] assms(2) wheel_store.refresh_frame(1) [OF st]
    by (simp add: wheel_inv_def min_ok_def)
  then show ?thesis
    by (auto simp: nearest_wakeup_def Let_def split: option.splits)
qed

theorem nearest_wakeup_min_witness:
  "fst (nearest_wakeup list_slab (snd (wheel_insert list_slab 7 40 (wheel_new list_slab)))) = Some 40 \<and>
   is_min list_slab (entries (snd (wheel_insert list_slab 7 40 (wheel_new list_slab)))) (Some 40)"
proof -
  let ?w = "snd (wheel_insert list_slab 7 40 (wheel_new list_slab))"
  have "wheel_inv list_slab ?w"
    by (rule lw.insert_inv [OF lw.new_inv _ prod.collapse [symmetric]]) (simp add: wheel_new_def)
  note nearest_wakeup_min [OF list_slab_laws this]
  moreover have "fst (nearest_wakeup list_slab ?w) = Some 40"
    by code_simp
  ultimately show ?thesis by simp
qed

end
