(* ===== verification/Timer.thy ===== *)
theory Timer
  imports Timing_Wheel
begin

text \<open>
  \<open>Timer\<close> of \<open>vibeio/src/timer.rs\<close>: the wheel together with the \<open>Instant\<close> of the last spin.

  An \<open>Instant\<close> and a \<open>Duration\<close> are numbers of nanoseconds; \<open>saturating_duration_since\<close> is
  subtraction of natural numbers, \<open>as_millis() as u64\<close> the quotient by a million reduced to 64
  bits. The value that \<open>Instant::now()\<close> returns is an argument, \<open>now\<close>. The wakers a call wakes
  are part of its result.
\<close>

subsection \<open>State and operations\<close>

type_synonym instant = nat
type_synonym duration = nat

definition as_millis_u64 :: "duration \<Rightarrow> u64" where
  "as_millis_u64 d = word_of_nat (d div 1000000)"

definition from_millis :: "u64 \<Rightarrow> duration" where
  "from_millis m = unat m * 1000000"

record 's timer =
  tm_wheel :: "'s timing_wheel"
  tm_instant :: instant

definition timer_new :: "'s timer_slab \<Rightarrow> instant \<Rightarrow> 's timer" where
  "timer_new S now = \<lparr>tm_wheel = wheel_new S, tm_instant = now\<rparr>"

definition timer_submit ::
  "'s timer_slab \<Rightarrow> instant \<Rightarrow> waker \<Rightarrow> 's timer \<Rightarrow> timer_handle option \<times> waker list \<times> 's timer" where
  "timer_submit S deadline waker tm =
     (let millis = as_millis_u64 (deadline - tm_instant tm) in
      if millis < 1 then (None, [waker], tm)
      else let now = wheel_now (tm_wheel tm);
               (handle, w) = wheel_insert S waker (now + millis) (tm_wheel tm)
           in (Some handle, [], tm\<lparr>tm_wheel := w\<rparr>))"

definition timer_cancel :: "'s timer_slab \<Rightarrow> timer_handle \<Rightarrow> 's timer \<Rightarrow> 's timer" where
  "timer_cancel S handle tm = tm\<lparr>tm_wheel := wheel_remove S handle (tm_wheel tm)\<rparr>"

text \<open>The result: the wait deadline, whether something was woken, the wakers woken.\<close>

definition spin_and_get_deadline ::
  "'s timer_slab \<Rightarrow> instant \<Rightarrow> 's timer \<Rightarrow> (duration option \<times> bool) \<times> waker list \<times> 's timer" where
  "spin_and_get_deadline S now tm =
     (if wheel_is_empty S (tm_wheel tm) then ((None, False), [], tm\<lparr>tm_instant := now\<rparr>)
      else let elapsed = now - tm_instant tm;
               (woken, w) = wheel_advance S (as_millis_u64 elapsed) (tm_wheel tm);
               now_tick = wheel_now w;
               (near, w) = nearest_wakeup S w
           in ((map_option (\<lambda>deadline. from_millis (max (saturating_sub deadline now_tick) 1)) near,
                woken \<noteq> []), woken, \<lparr>tm_wheel = w, tm_instant = now\<rparr>))"

fun spin_all :: "'s timer_slab \<Rightarrow> instant list \<Rightarrow> 's timer \<Rightarrow> 's timer" where
  "spin_all S [] tm = tm"
| "spin_all S (now # ns) tm = spin_all S ns (snd (snd (spin_and_get_deadline S now tm)))"

text \<open>The instants at which a run spins, each not before the one before it.\<close>

fun monotone_from :: "instant \<Rightarrow> instant list \<Rightarrow> bool" where
  "monotone_from t [] = True"
| "monotone_from t (n # ns) = (t \<le> n \<and> monotone_from n ns)"

text \<open>The instants of a run in which no two spins are a millisecond apart.\<close>

fun sub_millisecond :: "instant \<Rightarrow> instant list \<Rightarrow> bool" where
  "sub_millisecond t [] = True"
| "sub_millisecond t (n # ns) = (t \<le> n \<and> n < t + 1000000 \<and> sub_millisecond n ns)"

definition timer_inv :: "'s timer_slab \<Rightarrow> 's timer \<Rightarrow> bool" where
  "timer_inv S tm \<longleftrightarrow> wheel_inv S (tm_wheel tm)"

text \<open>
  What passing time does: \<open>tm\<close> became \<open>tm'\<close> by spins. The wheel moved by no more whole
  milliseconds than the clock, and the timer of \<open>h\<close> is as it was or has fired, not before its
  tick.
\<close>

definition spun :: "'s timer_slab \<Rightarrow> timer_handle \<Rightarrow> 's timer \<Rightarrow> 's timer \<Rightarrow> bool" where
  "spun S h tm tm' \<longleftrightarrow>
     tm_instant tm \<le> tm_instant tm' \<and>
     unat (current_tick (tm_wheel tm')) \<le>
       unat (current_tick (tm_wheel tm)) + (tm_instant tm' - tm_instant tm) div 1000000 \<and>
     (pending S (tm_wheel tm') h = pending S (tm_wheel tm) h \<or>
      (\<exists>wk tick. pending S (tm_wheel tm) h = Some (wk, tick) \<and>
         unat tick \<le> unat (current_tick (tm_wheel tm)) +
           (tm_instant tm' - tm_instant tm) div 1000000 \<and>
         pending S (tm_wheel tm') h = None))"

subsection \<open>Lemmas\<close>

lemma unat_as_millis: "unat (as_millis_u64 d) \<le> d div 1000000"
  by (simp add: as_millis_u64_def unsigned_of_nat take_bit_eq_mod)

lemma unat_as_millis_small: "d div 1000000 < 2 ^ 64 \<Longrightarrow> unat (as_millis_u64 d) = d div 1000000"
  by (simp add: as_millis_u64_def unsigned_of_nat take_bit_eq_mod)

lemma as_millis_zero: "d < 1000000 \<Longrightarrow> as_millis_u64 d = 0"
  by (simp add: as_millis_u64_def)

lemma spun_refl: "spun S h tm tm"
  by (simp add: spun_def)

lemma spun_trans:
  assumes "spun S h tm1 tm2" and "spun S h tm2 tm3"
  shows "spun S h tm1 tm3"
proof -
  let ?d12 = "(tm_instant tm2 - tm_instant tm1) div 1000000"
  let ?d23 = "(tm_instant tm3 - tm_instant tm2) div 1000000"
  let ?d13 = "(tm_instant tm3 - tm_instant tm1) div 1000000"
  have "(tm_instant tm3 - tm_instant tm2) + (tm_instant tm2 - tm_instant tm1) =
      tm_instant tm3 - tm_instant tm1"
    using assms by (simp add: spun_def)
  then have sum: "?d23 + ?d12 \<le> ?d13"
    by (metis div_add_le)
  have fst: "unat tick \<le> unat (current_tick (tm_wheel tm1)) + ?d13"
    if "unat tick \<le> unat (current_tick (tm_wheel tm1)) + ?d12" for tick :: u64
    using that sum by linarith
  have snd: "unat tick \<le> unat (current_tick (tm_wheel tm1)) + ?d13"
    if "unat tick \<le> unat (current_tick (tm_wheel tm2)) + ?d23" for tick :: u64
    using that sum assms(1) unfolding spun_def by linarith
  have "pending S (tm_wheel tm3) h = pending S (tm_wheel tm1) h \<or>
      (\<exists>wk tick. pending S (tm_wheel tm1) h = Some (wk, tick) \<and>
         unat tick \<le> unat (current_tick (tm_wheel tm1)) + ?d13 \<and>
         pending S (tm_wheel tm3) h = None)"
  proof (cases "pending S (tm_wheel tm2) h = pending S (tm_wheel tm1) h")
    case True
    with assms(2) snd show ?thesis by (auto simp: spun_def)
  next
    case False
    with assms fst show ?thesis by (auto simp: spun_def)
  qed
  with assms snd show ?thesis by (simp add: spun_def)
qed

context wheel_store
begin

text \<open>One spin, in terms of the wheel.\<close>

lemma spin_wheel:
  assumes inv: "wheel_inv S (tm_wheel tm)" and spin: "spin_and_get_deadline S now tm = (r, woken, tm')"
  shows "wheel_inv S (tm_wheel tm') \<and> tm_instant tm' = now \<and> (tm_wheel tm' = tm_wheel tm \<or>
    (\<exists>ex w'. wheel_advance S (as_millis_u64 (now - tm_instant tm)) (tm_wheel tm) = (ex, w') \<and>
       entries (tm_wheel tm') = entries w' \<and> current_tick (tm_wheel tm') = current_tick w'))"
proof (cases "wheel_is_empty S (tm_wheel tm)")
  case True
  with inv spin show ?thesis
    by (auto simp: spin_and_get_deadline_def)
next
  case False
  let ?t = "as_millis_u64 (now - tm_instant tm)"
  obtain ex w' where adv: "wheel_advance S ?t (tm_wheel tm) = (ex, w')" by force
  then have tm': "tm' = \<lparr>tm_wheel = snd (nearest_wakeup S w'), tm_instant = now\<rparr>"
    using spin False by (auto simp: spin_and_get_deadline_def Let_def split: prod.splits)
  have "wheel_inv S w'"
    using advance_inv [OF inv, of ?t] adv by simp
  then show ?thesis
    using nearest_wakeup_inv [of w'] nearest_frame(1) adv
    by (simp add: tm' nearest_wakeup_def Let_def refresh_frame)
qed

lemma spin_spun:
  assumes inv: "wheel_inv S (tm_wheel tm)" and spin: "spin_and_get_deadline S now tm = (r, woken, tm')"
    and "tm_instant tm \<le> now"
  shows "spun S h tm tm'"
proof -
  note sw = spin_wheel [OF inv spin]
  show ?thesis
  proof (cases "tm_wheel tm' = tm_wheel tm")
    case True
    with sw assms(3) show ?thesis by (simp add: spun_def)
  next
    case False
    let ?t = "as_millis_u64 (now - tm_instant tm)"
    obtain ex w' where adv: "wheel_advance S ?t (tm_wheel tm) = (ex, w')"
      and w': "entries (tm_wheel tm') = entries w'" "current_tick (tm_wheel tm') = current_tick w'"
      using sw False by blast
    have tick: "current_tick w' = current_tick (tm_wheel tm) + ?t"
      using advance_effect [OF inv adv] by simp
    then have le: "unat (current_tick w') \<le>
        unat (current_tick (tm_wheel tm)) + (now - tm_instant tm) div 1000000"
      using unat_as_millis [of "now - tm_instant tm"] unat_add_le [of "current_tick (tm_wheel tm)" ?t]
      by simp
    have "pending S (tm_wheel tm') h = pending S w' h"
      by (simp add: pending_def w')
    moreover have "unat t \<le> unat (current_tick (tm_wheel tm)) + (now - tm_instant tm) div 1000000"
      if "t \<le> current_tick (tm_wheel tm) + ?t" for t
      using that le tick by (simp add: word_le_nat_alt)
    ultimately show ?thesis
      using advance_pending [OF inv adv, of h] le sw assms(3) by (auto simp: spun_def w'(2))
  qed
qed

lemma spin_all_spun:
  assumes "wheel_inv S (tm_wheel tm)" and "monotone_from (tm_instant tm) ns"
  shows "spun S h tm (spin_all S ns tm)"
  using assms
proof (induction ns arbitrary: tm)
  case Nil
  then show ?case by (simp add: spun_refl)
next
  case (Cons now ns)
  obtain r woken tm1 where spin: "spin_and_get_deadline S now tm = (r, woken, tm1)"
    using prod_cases3 by blast
  note sw = spin_wheel [OF Cons.prems(1) spin]
  have "spun S h tm tm1"
    using spin_spun [OF Cons.prems(1) spin] Cons.prems(2) by simp
  moreover have "spun S h tm1 (spin_all S ns tm1)"
    using Cons.IH sw Cons.prems(2) by simp
  ultimately show ?case
    using spin by (simp add: spun_trans)
qed

lemma submit_pending:
  assumes "wheel_inv S (tm_wheel tm)" and "timer_submit S deadline wk tm = (Some h, woken, tm')"
    and "unat (generation_counter (tm_wheel tm)) + 1 < 2 ^ 64"
  shows "pending S (tm_wheel tm') = (pending S (tm_wheel tm))
      (h \<mapsto> (wk, current_tick (tm_wheel tm) + as_millis_u64 (deadline - tm_instant tm)))"
    and "tm_instant tm' = tm_instant tm" and "woken = []" and "wheel_inv S (tm_wheel tm')"
    and "current_tick (tm_wheel tm') = current_tick (tm_wheel tm)"
proof -
  let ?tick = "current_tick (tm_wheel tm) + as_millis_u64 (deadline - tm_instant tm)"
  have "wheel_insert S wk ?tick (tm_wheel tm) = (h, tm_wheel tm')"
    and "tm_instant tm' = tm_instant tm" "woken = []"
    using assms(2)
    by (auto simp: timer_submit_def wheel_now_def Let_def split: if_splits prod.splits)
  then show "pending S (tm_wheel tm') = (pending S (tm_wheel tm)) (h \<mapsto> (wk, ?tick))"
    "tm_instant tm' = tm_instant tm" "woken = []" "wheel_inv S (tm_wheel tm')"
    "current_tick (tm_wheel tm') = current_tick (tm_wheel tm)"
    using insert_pending insert_inv [OF assms(1,3)] insert_entries by (blast, simp, simp, blast, metis)
qed

lemma sub_millisecond_quiet:
  assumes "wheel_inv S (tm_wheel tm)" and "sub_millisecond (tm_instant tm) ns"
  shows "current_tick (tm_wheel (spin_all S ns tm)) = current_tick (tm_wheel tm) \<and>
    entries (tm_wheel (spin_all S ns tm)) = entries (tm_wheel tm)"
  using assms
proof (induction ns arbitrary: tm)
  case Nil
  then show ?case by simp
next
  case (Cons now ns)
  obtain r woken tm1 where spin: "spin_and_get_deadline S now tm = (r, woken, tm1)"
    using prod_cases3 by blast
  have "now - tm_instant tm < 1000000"
    using Cons.prems(2) by auto
  then have "as_millis_u64 (now - tm_instant tm) = 0"
    by (rule as_millis_zero)
  then have same: "entries (tm_wheel tm1) = entries (tm_wheel tm)"
    "current_tick (tm_wheel tm1) = current_tick (tm_wheel tm)"
    using spin
    by (auto simp: spin_and_get_deadline_def wheel_advance_def Let_def nearest_wakeup_def refresh_frame
        split: if_splits)
  with Cons.IH spin_wheel [OF Cons.prems(1) spin] Cons.prems(2) spin show ?case
    by simp
qed

lemma spin_deadline:
  assumes inv: "wheel_inv S (tm_wheel tm)"
    and spin: "spin_and_get_deadline S now tm = ((Some d, b), woken, tm')"
    and k: "slab_get S (entries (tm_wheel tm')) k = Some e"
  shows "1000000 \<le> d \<and>
    d \<le> max 1 (unat (te_expiration_tick e) - unat (current_tick (tm_wheel tm'))) * 1000000"
proof -
  obtain ex w' where adv: "wheel_advance S (as_millis_u64 (now - tm_instant tm)) (tm_wheel tm) = (ex, w')"
    by force
  obtain near w2 where near: "nearest_wakeup S w' = (near, w2)" by force
  have tm': "tm' = \<lparr>tm_wheel = w2, tm_instant = now\<rparr>" and
    d: "map_option (\<lambda>t. from_millis (max (saturating_sub t (current_tick w')) 1)) near = Some d"
    using spin adv near
    by (auto simp: spin_and_get_deadline_def wheel_now_def Let_def split: if_splits)
  then obtain t where t: "near = Some t" "d = from_millis (max (saturating_sub t (current_tick w')) 1)"
    by blast
  have w2: "w2 = refresh_min_expiration S w'" "min_expiration_tick w2 = Some t"
    using near t(1) by (auto simp: nearest_wakeup_def Let_def split: option.splits if_splits)
  have "wheel_inv S w'"
    using advance_inv [OF inv, of "as_millis_u64 (now - tm_instant tm)"] adv by simp
  then have "is_min S (entries w2) (Some t)"
    using nearest_wakeup_inv [of w'] near w2(2) by (simp add: wheel_inv_def min_ok_def)
  then have "unat t \<le> unat (te_expiration_tick e)"
    using k by (auto simp: is_min_def tm' word_le_nat_alt)
  moreover have "unat (max (saturating_sub t (current_tick w')) 1) =
      max (unat t - unat (current_tick w')) 1"
    by (auto simp: max_def word_le_nat_alt)
  ultimately show ?thesis
    by (simp add: t(2) from_millis_def tm' w2(1) refresh_frame max_def) linarith
qed

end

subsection \<open>Properties\<close>

text \<open>
  C8. A sleeping task is not woken more than one millisecond before its deadline: when a timer
  submitted for \<open>deadline\<close> has left the wheel after any monotone sequence of spins, the clock
  has passed \<open>deadline\<close> less one millisecond.
\<close>

theorem timer_never_early:
  assumes "slab S" and "timer_inv S tm"
    and "unat (generation_counter (tm_wheel tm)) + 1 < 2 ^ 64"
    and "unat (current_tick (tm_wheel tm)) + (deadline - tm_instant tm) div 1000000 < 2 ^ 64"
    and sub: "timer_submit S deadline wk tm = (Some h, woken, tm')"
    and mono: "monotone_from (tm_instant tm') ns"
    and gone: "pending S (tm_wheel (spin_all S ns tm')) h = None"
  shows "deadline < tm_instant (spin_all S ns tm') + 1000000"
proof -
  note st = wheel_storeI [OF assms(1)]
  have inv: "wheel_inv S (tm_wheel tm)"
    using assms(2) by (simp add: timer_inv_def)
  note s = wheel_store.submit_pending [OF st inv sub assms(3)]
  have tick: "unat (current_tick (tm_wheel tm) + as_millis_u64 (deadline - tm_instant tm)) =
      unat (current_tick (tm_wheel tm)) + (deadline - tm_instant tm) div 1000000"
    using assms(4) by (simp add: unat_add_no_overflow unat_as_millis_small)
  have "spun S h tm' (spin_all S ns tm')"
    by (rule wheel_store.spin_all_spun [OF st s(4) mono])
  then have "tm_instant tm \<le> tm_instant (spin_all S ns tm') \<and> (deadline - tm_instant tm) div 1000000 \<le>
      (tm_instant (spin_all S ns tm') - tm_instant tm) div 1000000"
    using s(1,2,5) gone tick by (auto simp: spun_def)
  then show ?thesis
    by linarith
qed

text \<open>The wheel of a fresh timer after one submission five milliseconds ahead.\<close>

definition wheel_example :: "timer_entry option list timing_wheel" where
  "wheel_example = snd (wheel_insert list_slab 9 5 (wheel_new list_slab))"

lemma submit_example:
  "timer_submit list_slab 5000000 9 (timer_new list_slab 0) =
     (Some \<lparr>th_slab_index = 0, th_generation = 1\<rparr>, [], \<lparr>tm_wheel = wheel_example, tm_instant = 0\<rparr>)"
proof -
  have "fst (wheel_insert list_slab 9 5 (wheel_new list_slab)) = \<lparr>th_slab_index = 0, th_generation = 1\<rparr>"
    by code_simp
  then have "wheel_insert list_slab 9 5 (wheel_new list_slab) =
      (\<lparr>th_slab_index = 0, th_generation = 1\<rparr>, wheel_example)"
    by (metis prod.collapse wheel_example_def)
  moreover have "wheel_now (wheel_new list_slab :: timer_entry option list timing_wheel) = 0"
    by (simp add: wheel_now_def wheel_new_def)
  ultimately show ?thesis
    by (simp add: timer_submit_def timer_new_def as_millis_u64_def Let_def)
qed

lemma spin_example:
  "spin_and_get_deadline list_slab 0 \<lparr>tm_wheel = wheel_example, tm_instant = 0\<rparr> =
     ((Some (from_millis 5), False), [],
      \<lparr>tm_wheel = snd (nearest_wakeup list_slab wheel_example), tm_instant = 0\<rparr>)"
proof -
  have "\<not> wheel_is_empty list_slab wheel_example" "wheel_now wheel_example = 0"
    "fst (nearest_wakeup list_slab wheel_example) = Some 5"
    by code_simp+
  moreover have "max (saturating_sub 5 0) 1 = (5 :: u64)"
    by code_simp
  ultimately show ?thesis
    by (simp add: spin_and_get_deadline_def wheel_advance_def as_millis_u64_def Let_def
        prod.case_eq_if)
qed

theorem timer_never_early_witness:
  "\<exists>h woken tm'. timer_submit list_slab 5000000 9 (timer_new list_slab 0) = (Some h, woken, tm') \<and>
     pending list_slab (tm_wheel (spin_all list_slab [70000000] tm')) h = None \<and>
     5000000 < tm_instant (spin_all list_slab [70000000] tm') + 1000000"
proof -
  let ?tm = "timer_new list_slab 0"
  obtain h woken tm' where sub: "timer_submit list_slab 5000000 9 ?tm = (Some h, woken, tm')"
    using submit_example by blast
  have inv: "timer_inv list_slab ?tm"
    using lw.new_inv by (simp add: timer_inv_def timer_new_def)
  have small: "unat (generation_counter (tm_wheel ?tm)) + 1 < 2 ^ 64"
    "unat (current_tick (tm_wheel ?tm)) + (5000000 - tm_instant ?tm) div 1000000 < 2 ^ 64"
    by (simp_all add: timer_new_def wheel_new_def)
  note s = lw.submit_pending [OF inv [unfolded timer_inv_def] sub small(1)]
  obtain r wk tm2 where spin: "spin_and_get_deadline list_slab 70000000 tm' = (r, wk, tm2)"
    using prod_cases3 by blast
  obtain e where e: "slab_get list_slab (entries (tm_wheel tm')) (th_slab_index h) = Some e"
    using fun_cong [OF s(1), of h] by (auto simp: pending_def split: option.splits)
  then have ne: "\<not> wheel_is_empty list_slab (tm_wheel tm')"
    by (auto simp: wheel_is_empty_def ls.is_empty_iff)
  have t70: "as_millis_u64 (70000000 - tm_instant tm') = 70" and cur: "current_tick (tm_wheel tm') = 0"
    using s(2,5) by (simp_all add: timer_new_def wheel_new_def as_millis_u64_def)
  obtain ex w' where adv: "wheel_advance list_slab 70 (tm_wheel tm') = (ex, w')" by force
  have ent: "entries (tm_wheel tm2) = entries w'"
    using spin ne adv t70 lw.nearest_frame(1)
    by (auto simp: spin_and_get_deadline_def Let_def split: prod.splits) (metis snd_conv)
  have "pending list_slab (tm_wheel tm2) h = None"
  proof (rule ccontr)
    assume "pending list_slab (tm_wheel tm2) h \<noteq> None"
    then obtain e' where e': "slab_get list_slab (entries w') (th_slab_index h) = Some e'"
      "te_generation e' = th_generation h"
      by (auto simp: pending_def ent split: option.splits if_splits)
    moreover have "pending list_slab w' h = pending list_slab (tm_wheel tm') h"
      using lw.advance_pending [OF s(4) adv, of h] e' by (auto simp: pending_def)
    ultimately have "te_expiration_tick e' = 5"
      using s(1) by (auto simp: pending_def timer_new_def wheel_new_def as_millis_u64_def)
    then show False
      using lw.advance_large [OF s(4) adv _ e'(1)] lw.advance_effect [OF s(4) adv] cur
      by simp
  qed
  then have "pending list_slab (tm_wheel (spin_all list_slab [70000000] tm')) h = None"
    using spin by simp
  then show ?thesis
    using timer_never_early [OF list_slab_laws inv small sub, of "[70000000]"] s(2) sub
    by (auto simp: timer_new_def)
qed

text \<open>
  \<open>spin_and_get_deadline\<close> drops the sub-millisecond part of the elapsed time (it stores
  \<open>now\<close> and advances by whole milliseconds): while the executor spins more often than once a
  millisecond the wheel does not move and no timer fires, however much time passes in total.
\<close>

lemma timer_stalls_when_spun_fast:
  assumes "slab S" and "timer_inv S tm" and "sub_millisecond (tm_instant tm) ns"
  shows "current_tick (tm_wheel (spin_all S ns tm)) = current_tick (tm_wheel tm) \<and>
    pending S (tm_wheel (spin_all S ns tm)) = pending S (tm_wheel tm)"
  using wheel_store.sub_millisecond_quiet [OF wheel_storeI [OF assms(1)] _ assms(3)] assms(2)
  by (simp add: timer_inv_def fun_eq_iff pending_def)

text \<open>
  The wait deadline the executor passes to the driver is at least one millisecond, and is
  not later than the remaining ticks of any timer left in the wheel (or one millisecond): the
  driver never sleeps past the nearest timer.
\<close>

lemma spin_deadline_bounds:
  assumes "slab S" and "timer_inv S tm"
    and "spin_and_get_deadline S now tm = ((Some d, b), woken, tm')"
    and "slab_get S (entries (tm_wheel tm')) k = Some e"
  shows "from_millis 1 \<le> d \<and>
    d \<le> max 1 (unat (te_expiration_tick e) - unat (current_tick (tm_wheel tm'))) * from_millis 1"
  using wheel_store.spin_deadline [OF wheel_storeI [OF assms(1)] _ assms(3,4)] assms(2)
  by (simp add: timer_inv_def from_millis_def)

end
