(* ===== verification/Time_Utils.thy ===== *)
theory Time_Utils
  imports Timer
begin

text \<open>
  The futures of \<open>time/\<close>: \<open>Sleep\<close> (\<open>sleep.rs\<close>), \<open>Timeout\<close> (\<open>timeout.rs\<close>) and \<open>Interval\<close> (\<open>interval.rs\<close>).

  A poll takes the value of \<open>Instant::now()\<close>, the polling task's waker and the timer, and returns
  the new state, the timer and the wakers it wakes. There is one runtime: the timer a sleep has
  captured and the one \<open>current_timer()\<close> finds are the same, and \<open>entered\<close> says whether
  \<open>current_timer()\<close> finds it. The panic outside of a runtime is \<open>None\<close>.
\<close>

subsection \<open>\<open>Sleep\<close>\<close>

datatype zero_behavior = Immediate | Yield

record sleep =
  slp_handle :: "timer_handle option"
  slp_fired :: bool
  slp_yield_scheduled :: bool
  slp_zero_behavior :: zero_behavior
  slp_deadline :: instant
  slp_timer :: bool

definition sleep_new :: "instant \<Rightarrow> duration \<Rightarrow> sleep" where
  "sleep_new now d =
     \<lparr>slp_handle = None, slp_fired = False, slp_yield_scheduled = False, slp_zero_behavior = Immediate,
      slp_deadline = now + d, slp_timer = False\<rparr>"

definition new_with_zero_behavior :: "instant \<Rightarrow> duration \<Rightarrow> zero_behavior \<Rightarrow> sleep" where
  "new_with_zero_behavior now d z =
     \<lparr>slp_handle = None, slp_fired = False, slp_yield_scheduled = False, slp_zero_behavior = z,
      slp_deadline = now + d, slp_timer = False\<rparr>"

definition sleep_until :: "instant \<Rightarrow> sleep" where
  "sleep_until deadline =
     \<lparr>slp_handle = None, slp_fired = False, slp_yield_scheduled = False, slp_zero_behavior = Immediate,
      slp_deadline = deadline, slp_timer = False\<rparr>"

definition sleep_reset ::
  "'s timer_slab \<Rightarrow> bool \<Rightarrow> instant \<Rightarrow> sleep \<Rightarrow> 's timer \<Rightarrow> sleep \<times> 's timer" where
  "sleep_reset S entered deadline sl tm =
     (sl\<lparr>slp_deadline := deadline, slp_fired := False, slp_yield_scheduled := False, slp_handle := None\<rparr>,
      case slp_handle sl of
        Some h \<Rightarrow> if entered then timer_cancel S h tm else tm
      | None \<Rightarrow> tm)"

definition handle_immediate_wakeup :: "waker \<Rightarrow> sleep \<Rightarrow> sleep \<times> waker list \<times> unit poll" where
  "handle_immediate_wakeup w sl =
     (case slp_zero_behavior sl of
        Immediate \<Rightarrow> (sl\<lparr>slp_fired := True\<rparr>, [], Ready ())
      | Yield \<Rightarrow>
          if \<not> slp_yield_scheduled sl then (sl\<lparr>slp_yield_scheduled := True\<rparr>, [w], Pending)
          else (sl\<lparr>slp_fired := True\<rparr>, [], Ready ()))"

definition sleep_poll ::
  "'s timer_slab \<Rightarrow> bool \<Rightarrow> instant \<Rightarrow> waker \<Rightarrow> sleep \<Rightarrow> 's timer \<Rightarrow>
   (sleep \<times> 's timer \<times> waker list \<times> unit poll) option" where
  "sleep_poll S entered now w sl tm =
     (if slp_fired sl then Some (sl, tm, [], Ready ())
      else if \<not> slp_timer sl \<and> \<not> entered then None
      else let sl = sl\<lparr>slp_timer := True\<rparr> in
        case slp_handle sl of
          None \<Rightarrow>
            (case timer_submit S (slp_deadline sl) w tm of
               (Some h, woken, tm) \<Rightarrow> Some (sl\<lparr>slp_handle := Some h\<rparr>, tm, woken, Pending)
             | (None, woken, tm) \<Rightarrow>
                 (case handle_immediate_wakeup w sl of (sl, woken', p) \<Rightarrow> Some (sl, tm, woken @ woken', p)))
        | Some h \<Rightarrow>
            if slp_deadline sl \<le> now
            then Some (sl\<lparr>slp_fired := True, slp_handle := None\<rparr>, tm, [], Ready ())
            else if \<not> entered then Some (sl\<lparr>slp_handle := None\<rparr>, tm, [], Pending)
            else (case timer_submit S (slp_deadline sl) w (timer_cancel S h tm) of
                    (Some h, woken, tm) \<Rightarrow> Some (sl\<lparr>slp_handle := Some h\<rparr>, tm, woken, Pending)
                  | (None, woken, tm) \<Rightarrow>
                      Some (sl\<lparr>slp_handle := None, slp_fired := True\<rparr>, tm, woken, Ready ())))"

definition sleep_drop :: "'s timer_slab \<Rightarrow> sleep \<Rightarrow> 's timer \<Rightarrow> 's timer" where
  "sleep_drop S sl tm =
     (case slp_handle sl of
        Some h \<Rightarrow> if slp_timer sl then timer_cancel S h tm else tm
      | None \<Rightarrow> tm)"

subsection \<open>\<open>Timeout\<close>\<close>

datatype timeout_error = TimeoutError

record 'f timeout =
  to_future :: 'f
  to_sleep :: sleep
  to_timed_out :: bool

definition timeout_new :: "'f \<Rightarrow> instant \<Rightarrow> duration \<Rightarrow> 'f timeout" where
  "timeout_new f now d = \<lparr>to_future = f, to_sleep = sleep_new now d, to_timed_out = False\<rparr>"

text \<open>\<open>inner\<close> polls the wrapped future.\<close>

definition timeout_poll ::
  "('f \<Rightarrow> 'f \<times> 'a poll) \<Rightarrow> 's timer_slab \<Rightarrow> bool \<Rightarrow> instant \<Rightarrow> waker \<Rightarrow> 'f timeout \<Rightarrow> 's timer \<Rightarrow>
   ('f timeout \<times> 's timer \<times> waker list \<times> (timeout_error + 'a) poll) option" where
  "timeout_poll inner S entered now w t tm =
     (if to_timed_out t then Some (t, tm, [], Ready (Inl TimeoutError))
      else case inner (to_future t) of
             (f, Ready v) \<Rightarrow> Some (t\<lparr>to_future := f\<rparr>, tm, [], Ready (Inr v))
           | (f, Pending) \<Rightarrow>
               (case sleep_poll S entered now w (to_sleep t) tm of
                  None \<Rightarrow> None
                | Some (sl, tm, woken, Ready _) \<Rightarrow>
                    Some (\<lparr>to_future = f, to_sleep = sl, to_timed_out = True\<rparr>, tm, woken, Ready (Inl TimeoutError))
                | Some (sl, tm, woken, Pending) \<Rightarrow>
                    Some (t\<lparr>to_future := f, to_sleep := sl\<rparr>, tm, woken, Pending)))"

definition timeout_at :: "'f \<Rightarrow> instant \<Rightarrow> instant \<Rightarrow> instant \<Rightarrow> 'f timeout" where
  "timeout_at f deadline now now' = timeout_new f now' (deadline - now)"

subsection \<open>\<open>Interval\<close>\<close>

datatype missed_tick_behavior = Skip | CatchUp

record interval =
  iv_period :: duration
  iv_next_deadline :: "instant option"
  iv_missed_tick_behavior :: missed_tick_behavior

definition interval_new :: "duration \<Rightarrow> interval" where
  "interval_new period = \<lparr>iv_period = period, iv_next_deadline = None, iv_missed_tick_behavior = Skip\<rparr>"

definition interval_at :: "instant \<Rightarrow> duration \<Rightarrow> interval" where
  "interval_at first_tick_instant period = (interval_new period)\<lparr>iv_next_deadline := Some first_tick_instant\<rparr>"

definition set_missed_tick_behavior :: "missed_tick_behavior \<Rightarrow> interval \<Rightarrow> interval" where
  "set_missed_tick_behavior b iv = iv\<lparr>iv_missed_tick_behavior := b\<rparr>"

definition interval_reset :: "interval \<Rightarrow> interval" where
  "interval_reset iv = iv\<lparr>iv_next_deadline := None\<rparr>"

text \<open>The loop of \<open>Skip\<close>: whole periods are added until the target is in the future; \<open>cnt\<close> saturates.\<close>

function skip_loop :: "duration \<Rightarrow> instant \<Rightarrow> instant \<Rightarrow> nat \<Rightarrow> instant" where
  "skip_loop period now target cnt =
     (if target \<le> now
      then let target = target + period;
               cnt = min (cnt + 1) (2 ^ 64 - 1)
           in if cnt = 2 ^ 64 - 1 then target else skip_loop period now target cnt
      else target)"
  by pat_completeness auto
termination
  by (relation "measure (\<lambda>(period, now, target, cnt). 2 ^ 64 - cnt)") (auto simp: min_def split: if_splits)

declare skip_loop.simps [simp del]

text \<open>The sleep a tick awaits: one yield when less than a millisecond remains.\<close>

definition tick_sleep :: "instant \<Rightarrow> duration \<Rightarrow> sleep" where
  "tick_sleep now remaining =
     (if remaining div 1000000 = 0 then new_with_zero_behavior now remaining Yield else sleep_new now remaining)"

definition skip_target :: "duration \<Rightarrow> instant \<Rightarrow> instant \<Rightarrow> instant" where
  "skip_target period now base_next =
     (if base_next \<le> now then (if period = 0 then now else skip_loop period now base_next 0) else base_next)"

text \<open>The number of missed ticks: the quotient of nanoseconds cut to 64 bits, plus one.\<close>

definition missed_ticks :: "duration \<Rightarrow> duration \<Rightarrow> u64" where
  "missed_ticks elapsed period = of_nat (elapsed div period) + 1"

text \<open>
  \<open>tick\<close>: \<open>now\<close> and \<open>now'\<close> are its two readings of the clock. The result: the sleep it awaits (if any),
  the state it leaves and the number of ticks it returns.
\<close>

definition interval_tick :: "instant \<Rightarrow> instant \<Rightarrow> interval \<Rightarrow> sleep option \<times> interval \<times> u64" where
  "interval_tick now now' iv =
     (let base_next = (case iv_next_deadline iv of Some t \<Rightarrow> t | None \<Rightarrow> now + iv_period iv) in
      case iv_missed_tick_behavior iv of
        Skip \<Rightarrow>
          (let target = skip_target (iv_period iv) now base_next
           in (Some (tick_sleep now' (target - now')), iv\<lparr>iv_next_deadline := Some (target + iv_period iv)\<rparr>, 1))
      | CatchUp \<Rightarrow>
          if now < base_next
          then (Some (tick_sleep now' (base_next - now')), iv\<lparr>iv_next_deadline := Some (base_next + iv_period iv)\<rparr>, 1)
          else if iv_period iv = 0 then (None, iv\<lparr>iv_next_deadline := Some (now' + iv_period iv)\<rparr>, 1)
          else let missed = missed_ticks (now - base_next) (iv_period iv);
                   new_next = base_next + unat missed * iv_period iv
               in (None, iv\<lparr>iv_next_deadline := Some (new_next + iv_period iv)\<rparr>, missed))"

subsection \<open>Lemmas\<close>

lemma skip_loop_steps:
  assumes "now < target + n * period" and "\<And>m. m < n \<Longrightarrow> target + m * period \<le> now"
    and "cnt + n < 2 ^ 64 - 1"
  shows "skip_loop period now target cnt = target + n * period"
  using assms
proof (induction n arbitrary: target cnt)
  case 0
  then show ?case
    by (simp add: skip_loop.simps)
next
  case (Suc n)
  have le: "target \<le> now"
    using Suc.prems(2) [of 0] by simp
  have "skip_loop period now (target + period) (cnt + 1) = target + period + n * period"
  proof (rule Suc.IH)
    show "target + period + m * period \<le> now" if "m < n" for m
      using Suc.prems(2) [of "Suc m"] that by simp
  qed (use Suc.prems in simp_all)
  then show ?case
    using le Suc.prems(3) by (subst skip_loop.simps) (simp add: min_def)
qed

lemma skip_loop_grid:
  assumes "0 < period" and "base \<le> now" and "(now - base) div period + 1 < 2 ^ 64 - 1"
  shows "skip_loop period now base 0 = base + ((now - base) div period + 1) * period"
proof (rule skip_loop_steps)
  have "now - base < ((now - base) div period + 1) * period"
    using dividend_less_div_times [OF assms(1), of "now - base"] by simp
  then show "now < base + ((now - base) div period + 1) * period"
    using assms(2) by linarith
  show "base + m * period \<le> now" if "m < (now - base) div period + 1" for m
  proof -
    have "m * period \<le> (now - base) div period * period"
      using that by (intro mult_right_mono) simp_all
    also have "\<dots> \<le> now - base"
      by simp
    finally show ?thesis
      using assms(2) by linarith
  qed
qed (use assms(3) in simp)

lemma submit_none:
  assumes "timer_submit S deadline w tm = (None, woken, tm')" and "(deadline - tm_instant tm) div 1000000 < 2 ^ 64"
  shows "deadline < tm_instant tm + 1000000" and "woken = [w]" and "tm' = tm"
proof -
  have "unat (as_millis_u64 (deadline - tm_instant tm)) < 1"
    using assms(1) by (auto simp: timer_submit_def Let_def word_less_nat_alt split: if_splits prod.splits)
  then show "deadline < tm_instant tm + 1000000"
    using unat_as_millis_small [OF assms(2)] by (simp add: div_eq_0_iff)
  show "woken = [w]" "tm' = tm"
    using assms(1) by (auto simp: timer_submit_def Let_def split: if_splits prod.splits)
qed

context wheel_store
begin

lemma submit_some:
  assumes "timer_submit S deadline w tm = (Some h, woken, tm')"
  shows "\<exists>tick. pending S (tm_wheel tm') = (pending S (tm_wheel tm))(h \<mapsto> (w, tick))"
    and "tm_instant tm' = tm_instant tm" and "woken = []" and "pending S (tm_wheel tm) h = None"
proof -
  have ins: "\<exists>tick. wheel_insert S w tick (tm_wheel tm) = (h, tm_wheel tm')"
    and "tm_instant tm' = tm_instant tm" "woken = []"
    using assms by (auto simp: timer_submit_def Let_def split: if_splits prod.splits)
  then show "\<exists>tick. pending S (tm_wheel tm') = (pending S (tm_wheel tm))(h \<mapsto> (w, tick))"
    "tm_instant tm' = tm_instant tm" "woken = []" "pending S (tm_wheel tm) h = None"
    using insert_pending by blast+
qed

lemma cancel_pending [simp]:
  "pending S (tm_wheel (timer_cancel S h tm)) = (pending S (tm_wheel tm))(h := None)"
  "tm_instant (timer_cancel S h tm) = tm_instant tm"
  by (simp_all add: timer_cancel_def remove_pending)

text \<open>What a poll promises: the outcomes \<open>Ready\<close> and \<open>Pending\<close>, and the frame.\<close>

lemma sleep_poll_ready:
  assumes "sleep_poll S True now w sl tm = Some (sl', tm', woken, Ready ())" and "\<not> slp_fired sl"
    and "tm_instant tm \<le> now" and "(slp_deadline sl - tm_instant tm) div 1000000 < 2 ^ 64"
  shows "slp_deadline sl < now + 1000000 \<and> slp_fired sl' \<and> slp_handle sl' = None"
  using assms(1,2,3) submit_none(1) [of S "slp_deadline sl" w "tm"] assms(4)
    submit_none(1) [of S "slp_deadline sl" w "timer_cancel S h tm" for h]
  by (fastforce simp: sleep_poll_def Let_def handle_immediate_wakeup_def
      split: if_splits option.splits prod.splits zero_behavior.splits)

lemma sleep_poll_pending:
  assumes "sleep_poll S True now w sl tm = Some (sl', tm', woken, Pending)"
  shows "\<not> slp_fired sl' \<and> slp_timer sl' \<and>
    (case slp_handle sl' of
       Some h \<Rightarrow> (\<exists>tick. pending S (tm_wheel tm') h = Some (w, tick))
     | None \<Rightarrow> w \<in> set woken \<and> slp_yield_scheduled sl')"
  using assms submit_some(1) [of "slp_deadline sl" w "tm"]
    submit_some(1) [of "slp_deadline sl" w "timer_cancel S h tm" for h]
  by (auto simp: sleep_poll_def Let_def handle_immediate_wakeup_def
      split: if_splits option.splits prod.splits zero_behavior.splits) (fastforce+)?

lemma sleep_poll_frame:
  assumes "sleep_poll S True now w sl tm = Some (sl', tm', woken, p)"
    and "slp_handle sl \<noteq> Some h" and "slp_handle sl' \<noteq> Some h"
  shows "pending S (tm_wheel tm') h = pending S (tm_wheel tm) h"
  using assms submit_some(1) [of "slp_deadline sl" w "tm"]
    submit_some(1) [of "slp_deadline sl" w "timer_cancel S k tm" for k]
  by (fastforce simp: sleep_poll_def Let_def handle_immediate_wakeup_def timer_submit_def
      split: if_splits option.splits prod.splits zero_behavior.splits)

lemma sleep_drop_pending:
  assumes "slp_timer sl" and "slp_handle sl = Some h"
  shows "pending S (tm_wheel (sleep_drop S sl tm)) = (pending S (tm_wheel tm))(h := None)"
  using assms by (simp add: sleep_drop_def)

text \<open>
  A sleep that finds its deadline passed forgets its handle without cancelling it: a timer the
  wheel has not reached yet stays there, with the waker, also after the sleep is dropped.
\<close>

lemma sleep_done_keeps_timer:
  assumes "slp_handle sl = Some h" and "pending S (tm_wheel tm) h = Some (w', tick)" and "\<not> slp_fired sl"
    and "slp_deadline sl \<le> now" and "sleep_poll S True now w sl tm = Some (sl', tm', woken, p)"
  shows "p = Ready () \<and> pending S (tm_wheel (sleep_drop S sl' tm')) h = Some (w', tick)"
  using assms by (auto simp: sleep_poll_def sleep_drop_def)

end

subsection \<open>Properties\<close>

text \<open>
  C33: a \<open>Sleep\<close> polled inside its runtime completes at most one millisecond before its deadline;
  while it is pending, the waker of the last poll is in the wheel under the sleep's handle, or has
  been woken already (the one yield of a sleep below the resolution); the timers of others are
  untouched, and dropping the pending sleep takes its timer out of the wheel.
\<close>
theorem sleep_poll_sound:
  assumes "slab S" and "sleep_poll S True now w sl tm = Some (sl', tm', woken, p)" and "\<not> slp_fired sl"
    and "tm_instant tm \<le> now" and "(slp_deadline sl - tm_instant tm) div 1000000 < 2 ^ 64"
  shows "(case p of
            Ready _ \<Rightarrow> slp_deadline sl < now + 1000000 \<and> slp_fired sl' \<and> slp_handle sl' = None
          | Pending \<Rightarrow>
              (case slp_handle sl' of
                 None \<Rightarrow> w \<in> set woken \<and> slp_yield_scheduled sl'
               | Some h \<Rightarrow> (\<exists>tick. pending S (tm_wheel tm') h = Some (w, tick)) \<and>
                   pending S (tm_wheel (sleep_drop S sl' tm')) h = None)) \<and>
    (\<forall>h. slp_handle sl \<noteq> Some h \<and> slp_handle sl' \<noteq> Some h \<longrightarrow>
       pending S (tm_wheel tm') h = pending S (tm_wheel tm) h)"
proof -
  note st = wheel_storeI [OF assms(1)]
  show ?thesis
  proof (cases p)
    case (Ready u)
    then show ?thesis
      using wheel_store.sleep_poll_ready [OF st _ assms(3-5)] wheel_store.sleep_poll_frame [OF st assms(2)] assms(2)
      by simp
  next
    case Pending
    then show ?thesis
      using wheel_store.sleep_poll_pending [OF st] wheel_store.sleep_poll_frame [OF st assms(2)] assms(2)
        wheel_store.sleep_drop_pending [OF st]
      by (fastforce split: option.splits)
  qed
qed

theorem sleep_poll_sound_witness:
  "\<exists>sl tm h tick. sleep_poll list_slab True 0 9 (sleep_new 0 5000000) (timer_new list_slab 0) =
      Some (sl, tm, [], Pending) \<and> slp_handle sl = Some h \<and> pending list_slab (tm_wheel tm) h = Some (9, tick) \<and>
      pending list_slab (tm_wheel (sleep_drop list_slab sl tm)) h = None"
proof -
  let ?tm = "timer_new list_slab 0 :: timer_entry option list timer" and ?sl = "sleep_new 0 5000000"
  have "\<exists>sl tm. sleep_poll list_slab True 0 9 ?sl ?tm = Some (sl, tm, [], Pending) \<and> slp_handle sl \<noteq> None"
    by (simp add: sleep_poll_def sleep_new_def submit_example)
  then obtain sl tm h where poll: "sleep_poll list_slab True 0 9 ?sl ?tm = Some (sl, tm, [], Pending)"
    and h: "slp_handle sl = Some h"
    by blast
  have "\<not> slp_fired ?sl" "tm_instant ?tm \<le> 0" "(slp_deadline ?sl - tm_instant ?tm) div 1000000 < 2 ^ 64"
    by (simp_all add: sleep_new_def timer_new_def)
  from sleep_poll_sound [OF list_slab_laws poll this] poll h show ?thesis
    by auto
qed

text \<open>
  A \<open>Timeout\<close> never loses a result and never gives up early. A poll yields the inner future's
  output when the inner future is ready, also when the deadline has passed; it yields the error only
  when the inner future was polled and pending and the deadline is less than a millisecond
  away; after the error every poll yields the error without polling the inner future.
\<close>
lemma timeout_poll_sound:
  fixes inner :: "'f \<Rightarrow> 'f \<times> 'a poll"
  assumes "slab S" and "timeout_poll inner S True now w t tm = Some (t', tm', woken, p)" and "\<not> to_timed_out t"
    and "\<not> slp_fired (to_sleep t)" and "tm_instant tm \<le> now"
    and "(slp_deadline (to_sleep t) - tm_instant tm) div 1000000 < 2 ^ 64"
  shows "(case p of
            Ready (Inr v) \<Rightarrow> snd (inner (to_future t)) = Ready v
          | Ready (Inl _) \<Rightarrow> snd (inner (to_future t)) = Pending \<and> slp_deadline (to_sleep t) < now + 1000000 \<and>
              (\<forall>(inner' :: 'f \<Rightarrow> 'f \<times> 'a poll) now' w' tm2.
                 timeout_poll inner' S True now' w' t' tm2 = Some (t', tm2, [], Ready (Inl TimeoutError)))
          | Pending \<Rightarrow> snd (inner (to_future t)) = Pending)"
  using assms(2,3) wheel_store.sleep_poll_ready [OF wheel_storeI [OF assms(1)] _ assms(4-6)]
  by (auto simp: timeout_poll_def split: prod.splits poll.splits option.splits if_splits)

text \<open>
  C35: the loop of \<open>Interval\<close> with \<open>Skip\<close> ends and computes the division: from a deadline in the past the
  tick awaits the first point of the grid \<open>base + k * period\<close> that lies in the future, and the next
  deadline is the grid point after it, so the cadence never drifts.
\<close>
theorem interval_skip_grid:
  assumes "iv_missed_tick_behavior iv = Skip" and "iv_next_deadline iv = Some base" and "0 < iv_period iv"
    and "base \<le> now" and "(now - base) div iv_period iv + 1 < 2 ^ 64 - 1"
    and "interval_tick now now' iv = (sl, iv', n)"
  shows "\<exists>k target. k = (now - base) div iv_period iv + 1 \<and> target = base + k * iv_period iv \<and>
    now < target \<and> target \<le> now + iv_period iv \<and> n = 1 \<and>
    sl = Some (tick_sleep now' (target - now')) \<and> iv_next_deadline iv' = Some (base + (k + 1) * iv_period iv)"
proof -
  let ?p = "iv_period iv" and ?k = "(now - base) div iv_period iv + 1"
  have t: "skip_target ?p now base = base + ?k * ?p"
    using skip_loop_grid [OF assms(3-5)] assms(3,4) by (simp add: skip_target_def)
  have "now - base < ?k * ?p"
    using dividend_less_div_times [OF assms(3), of "now - base"] by simp
  moreover have "(now - base) div ?p * ?p \<le> now - base"
    by simp
  moreover have "?k * ?p = (now - base) div ?p * ?p + ?p"
    by simp
  ultimately have "now < base + ?k * ?p" "base + ?k * ?p \<le> now + ?p"
    using assms(4) by linarith+
  then show ?thesis
    using assms(1,2,6) t by (auto simp: interval_tick_def Let_def)
qed

theorem interval_skip_grid_witness:
  "iv_next_deadline (fst (snd (interval_tick 25 26 (interval_at 10 10)))) = Some 40"
proof -
  obtain sl iv' n where t: "interval_tick 25 26 (interval_at 10 10) = (sl, iv', n)"
    by (cases "interval_tick 25 26 (interval_at 10 10)")
  have "iv_missed_tick_behavior (interval_at 10 10) = Skip" "iv_next_deadline (interval_at 10 10) = Some 10"
    "iv_period (interval_at 10 10) = 10"
    by (simp_all add: interval_at_def interval_new_def)
  with interval_skip_grid [OF this(1,2) _ _ _ t] show ?thesis
    by (simp add: t)
qed

text \<open>
  With \<open>CatchUp\<close> every catch-up loses one tick. A tick called at \<open>now\<close>, with the deadline \<open>base\<close> in the
  past, returns the number of grid points up to \<open>now\<close>, but sets the next deadline to the second grid
  point after \<open>now\<close> instead of the first. A next call made in time therefore waits for that second
  point and returns one tick: by then the two calls together count one tick less than there are grid
  points.
\<close>
lemma interval_catchup_loses_tick:
  assumes "iv_missed_tick_behavior iv = CatchUp" and "iv_next_deadline iv = Some base" and "0 < iv_period iv"
    and "base \<le> now" and "(now - base) div iv_period iv + 1 < 2 ^ 64"
    and "interval_tick now t iv = (sl, iv', n)"
    and "now2 < base + (unat n + 1) * iv_period iv" and "interval_tick now2 t2 iv' = (sl2, iv2, n2)"
  shows "unat n = card {k. base + k * iv_period iv \<le> now} \<and> n2 = 1 \<and>
    sl2 = Some (tick_sleep t2 (base + (unat n + 1) * iv_period iv - t2)) \<and>
    unat n + unat n2 + 1 = card {k. base + k * iv_period iv \<le> base + (unat n + 1) * iv_period iv}"
proof -
  let ?p = "iv_period iv"
  have un: "unat (missed_ticks (now - base) ?p) = (now - base) div ?p + 1"
    using assms(5) by (simp add: missed_ticks_def unat_word_ariths unsigned_of_nat take_bit_eq_mod)
  have n: "n = missed_ticks (now - base) ?p" "iv_next_deadline iv' = Some (base + (unat n + 1) * ?p)"
    "iv_period iv' = ?p" "iv_missed_tick_behavior iv' = CatchUp"
    using assms(1-4,6) by (auto simp: interval_tick_def Let_def algebra_simps)
  have grid: "{k. base + k * ?p \<le> base + x} = {..x div ?p}" for x
    using assms(3) by (auto simp: less_eq_div_iff_mult_less_eq)
  have "n2 = 1 \<and> sl2 = Some (tick_sleep t2 (base + (unat n + 1) * ?p - t2))"
    using assms(7,8) n(2-4) by (auto simp: interval_tick_def Let_def)
  moreover have "{k. base + k * ?p \<le> now} = {..(now - base) div ?p}"
    using grid [of "now - base"] assms(4) by simp
  moreover have "((unat n + 1) * ?p) div ?p = unat n + 1"
    using assms(3) by simp
  ultimately show ?thesis
    using un n(1) grid [of "(unat n + 1) * ?p"] by simp
qed

end
