(* ===== verification/Wake_Protocol.thy ===== *)
theory Wake_Protocol
  imports Vibe_Prelude
begin

text \<open>
  The protocol between the runtime thread and the threads that wake its tasks:
  \<open>Task::enqueue_if_needed\<close> on a foreign thread, \<open>Task::mark_dequeued\<close> (\<open>task.rs\<close>),
  \<open>BlockOnNotify::wake_by_ref\<close>, the remote part of \<open>RuntimeInner::drain_ready\<close>,
  \<open>should_skip_wait\<close>, \<open>stop_waiting\<close> and the waiting part of \<open>Runtime::block_on\<close>
  (\<open>executor.rs\<close>).

  Every access of a shared atomic, of the remote queue or of the interruptor is one step of the
  relation \<open>proto_step\<close>; the steps of any number of waking threads and of the runtime thread
  interleave freely. \<open>dirty t\<close> is a ghost flag: task \<open>t\<close> has been woken and not polled since.
  The tokens are the interrupts delivered and not consumed by the driver. \<open>proto_step\<close> gives the
  atomics sequentially consistent behaviour; \<open>buffered_step\<close> adds a store buffer for the
  runtime thread's store to \<open>waiting\<close>, which its \<open>Release\<close> ordering allows.

  Lemmas: the protocol invariant, and from it that the runtime thread is never left blocked in the
  driver with a task woken; with the store buffer a run reaches exactly that state.
\<close>

subsection \<open>States\<close>

datatype waker_pc =
    WIdle
  | WSwap nat     \<comment> \<open>before \<open>task.queued.swap(true)\<close>\<close>
  | WPush nat     \<comment> \<open>before \<open>remote_queue.push\<close>\<close>
  | WRootStore    \<comment> \<open>before \<open>ready.store(true)\<close>\<close>
  | WLoad         \<comment> \<open>before \<open>waiting.load\<close>\<close>
  | WIntrSwap     \<comment> \<open>before \<open>interrupt_pending.swap(true)\<close>\<close>
  | WInterrupt    \<comment> \<open>before \<open>interruptor.interrupt()\<close>\<close>

datatype exec_pc =
    ETop          \<comment> \<open>before \<open>root_notify.take_ready()\<close>\<close>
  | ERoot         \<comment> \<open>polling the root future, spinning the timer\<close>
  | EDrain        \<comment> \<open>in \<open>drain_ready\<close>\<close>
  | EMark nat     \<comment> \<open>task popped, before \<open>mark_dequeued\<close>\<close>
  | EPoll         \<comment> \<open>polling the batch\<close>
  | EFlush        \<comment> \<open>before \<open>driver.flush()\<close>\<close>
  | EIsReady      \<comment> \<open>batch empty, before the first \<open>root_notify.is_ready()\<close>\<close>
  | EClear        \<comment> \<open>before \<open>interrupt_pending.store(false)\<close>\<close>
  | ESetWaiting   \<comment> \<open>before \<open>waiting.store(true)\<close>\<close>
  | ECheckRoot    \<comment> \<open>before the second \<open>root_notify.is_ready()\<close>\<close>
  | ECheckQueue   \<comment> \<open>before \<open>should_skip_wait()\<close>\<close>
  | EWait         \<comment> \<open>in \<open>driver.wait\<close>\<close>
  | EEvents       \<comment> \<open>\<open>driver.wait\<close> returned or a timer expired: waking their tasks\<close>
  | EStop1        \<comment> \<open>\<open>stop_waiting\<close>, before \<open>waiting.store(false)\<close>\<close>
  | EStop2        \<comment> \<open>\<open>stop_waiting\<close>, before \<open>interrupt_pending.store(false)\<close>\<close>

record proto =
  p_queued :: "nat \<Rightarrow> bool"
  p_remote :: "nat list"
  p_local :: "nat list"
  p_batch :: "nat list"
  p_dirty :: "nat \<Rightarrow> bool"
  p_root_ready :: bool
  p_root_dirty :: bool
  p_waiting :: bool
  p_pending :: bool
  p_tokens :: nat
  p_exec :: exec_pc
  p_wakers :: "nat \<Rightarrow> waker_pc"

definition proto_init :: proto where
  "proto_init =
     \<lparr>p_queued = (\<lambda>_. False), p_remote = [], p_local = [], p_batch = [], p_dirty = (\<lambda>_. False),
      p_root_ready = True, p_root_dirty = False, p_waiting = False, p_pending = False,
      p_tokens = 0, p_exec = ETop, p_wakers = (\<lambda>_. WIdle)\<rparr>"

definition set_waker :: "nat \<Rightarrow> waker_pc \<Rightarrow> proto \<Rightarrow> proto" where
  "set_waker i pc s = s\<lparr>p_wakers := (p_wakers s)(i := pc)\<rparr>"

subsection \<open>Steps\<close>

text \<open>A foreign thread in \<open>enqueue_if_needed\<close> or in \<open>BlockOnNotify::wake_by_ref\<close>.\<close>

inductive waker_step :: "proto \<Rightarrow> proto \<Rightarrow> bool" where
  wake_begin: "p_wakers s i = WIdle \<Longrightarrow>
     waker_step s (set_waker i (WSwap t) (s\<lparr>p_dirty := (p_dirty s)(t := True)\<rparr>))"
| swap_won: "p_wakers s i = WSwap t \<Longrightarrow> \<not> p_queued s t \<Longrightarrow>
     waker_step s (set_waker i (WPush t) (s\<lparr>p_queued := (p_queued s)(t := True)\<rparr>))"
| swap_lost: "p_wakers s i = WSwap t \<Longrightarrow> p_queued s t \<Longrightarrow> waker_step s (set_waker i WLoad s)"
| push: "p_wakers s i = WPush t \<Longrightarrow>
     waker_step s (set_waker i WLoad (s\<lparr>p_remote := p_remote s @ [t]\<rparr>))"
| root_begin: "p_wakers s i = WIdle \<Longrightarrow>
     waker_step s (set_waker i WRootStore (s\<lparr>p_root_dirty := True\<rparr>))"
| root_store: "p_wakers s i = WRootStore \<Longrightarrow>
     waker_step s (set_waker i WLoad (s\<lparr>p_root_ready := True\<rparr>))"
| load_idle: "p_wakers s i = WLoad \<Longrightarrow> \<not> p_waiting s \<Longrightarrow> waker_step s (set_waker i WIdle s)"
| load_waiting: "p_wakers s i = WLoad \<Longrightarrow> p_waiting s \<Longrightarrow> waker_step s (set_waker i WIntrSwap s)"
| intr_won: "p_wakers s i = WIntrSwap \<Longrightarrow> \<not> p_pending s \<Longrightarrow>
     waker_step s (set_waker i WInterrupt (s\<lparr>p_pending := True\<rparr>))"
| intr_lost: "p_wakers s i = WIntrSwap \<Longrightarrow> p_pending s \<Longrightarrow> waker_step s (set_waker i WIdle s)"
| interrupt: "p_wakers s i = WInterrupt \<Longrightarrow>
     waker_step s (set_waker i WIdle (s\<lparr>p_tokens := Suc (p_tokens s)\<rparr>))"

text \<open>
  The runtime thread in \<open>block_on\<close>. It wakes tasks itself while it polls futures, spins the timer
  or handles completions: \<open>enqueue_if_needed\<close> on the runtime thread, whose swap and push are
  one step because no other thread sees the local queues. \<open>p_local\<close> stands for \<open>next_task\<close>
  and \<open>queue\<close> together. A batch ends at any moment (\<open>drain_done\<close>, \<open>drain_none\<close>), which covers every
  budget; \<open>flush\<close> and the waits may consume tokens.
\<close>

definition may_wake :: "exec_pc \<Rightarrow> bool" where
  "may_wake pc \<longleftrightarrow> pc \<in> {ERoot, EPoll, EFlush, EEvents}"

inductive exec_step :: "proto \<Rightarrow> proto \<Rightarrow> bool" where
  root_poll: "p_exec s = ETop \<Longrightarrow> p_root_ready s \<Longrightarrow>
     exec_step s (s\<lparr>p_root_ready := False, p_root_dirty := False, p_exec := ERoot\<rparr>)"
| root_skip: "p_exec s = ETop \<Longrightarrow> \<not> p_root_ready s \<Longrightarrow> exec_step s (s\<lparr>p_exec := ERoot\<rparr>)"
| root_done: "p_exec s = ERoot \<Longrightarrow> exec_step s (s\<lparr>p_exec := EDrain\<rparr>)"
| local_wake: "may_wake (p_exec s) \<Longrightarrow> \<not> p_queued s t \<Longrightarrow>
     exec_step s (s\<lparr>p_dirty := (p_dirty s)(t := True), p_queued := (p_queued s)(t := True),
                    p_local := p_local s @ [t]\<rparr>)"
| local_wake_again: "may_wake (p_exec s) \<Longrightarrow> p_queued s t \<Longrightarrow>
     exec_step s (s\<lparr>p_dirty := (p_dirty s)(t := True)\<rparr>)"
| local_root: "may_wake (p_exec s) \<Longrightarrow>
     exec_step s (s\<lparr>p_root_dirty := True, p_root_ready := True\<rparr>)"
| drain_pop_local: "p_exec s = EDrain \<Longrightarrow> p_local s = t # r \<Longrightarrow>
     exec_step s (s\<lparr>p_local := r, p_exec := EMark t\<rparr>)"
| drain_pop: "p_exec s = EDrain \<Longrightarrow> p_remote s = t # r \<Longrightarrow>
     exec_step s (s\<lparr>p_remote := r, p_exec := EMark t\<rparr>)"
| drain_mark: "p_exec s = EMark t \<Longrightarrow>
     exec_step s (s\<lparr>p_queued := (p_queued s)(t := False), p_batch := p_batch s @ [t], p_exec := EDrain\<rparr>)"
| drain_done: "p_exec s = EDrain \<Longrightarrow> p_batch s \<noteq> [] \<Longrightarrow> exec_step s (s\<lparr>p_exec := EPoll\<rparr>)"
| drain_none: "p_exec s = EDrain \<Longrightarrow> p_batch s = [] \<Longrightarrow> exec_step s (s\<lparr>p_exec := EIsReady\<rparr>)"
| poll_task: "p_exec s = EPoll \<Longrightarrow> p_batch s = t # b \<Longrightarrow>
     exec_step s (s\<lparr>p_batch := b, p_dirty := (p_dirty s)(t := False)\<rparr>)"
| poll_done: "p_exec s = EPoll \<Longrightarrow> p_batch s = [] \<Longrightarrow> exec_step s (s\<lparr>p_exec := EFlush\<rparr>)"
| flush: "p_exec s = EFlush \<Longrightarrow> n \<le> p_tokens s \<Longrightarrow>
     exec_step s (s\<lparr>p_tokens := n, p_exec := ETop\<rparr>)"
| ready_again: "p_exec s = EIsReady \<Longrightarrow> p_root_ready s \<Longrightarrow> exec_step s (s\<lparr>p_exec := ETop\<rparr>)"
| not_ready: "p_exec s = EIsReady \<Longrightarrow> \<not> p_root_ready s \<Longrightarrow> exec_step s (s\<lparr>p_exec := EClear\<rparr>)"
| clear: "p_exec s = EClear \<Longrightarrow> exec_step s (s\<lparr>p_pending := False, p_exec := ESetWaiting\<rparr>)"
| set_waiting: "p_exec s = ESetWaiting \<Longrightarrow>
     exec_step s (s\<lparr>p_waiting := True, p_exec := ECheckRoot\<rparr>)"
| check_root_ready: "p_exec s = ECheckRoot \<Longrightarrow> p_root_ready s \<Longrightarrow> exec_step s (s\<lparr>p_exec := EStop1\<rparr>)"
| check_root_idle: "p_exec s = ECheckRoot \<Longrightarrow> \<not> p_root_ready s \<Longrightarrow>
     exec_step s (s\<lparr>p_exec := ECheckQueue\<rparr>)"
| check_queue_work: "p_exec s = ECheckQueue \<Longrightarrow> p_local s \<noteq> [] \<or> p_remote s \<noteq> [] \<Longrightarrow>
     exec_step s (s\<lparr>p_exec := EStop1\<rparr>)"
| check_queue_empty: "p_exec s = ECheckQueue \<Longrightarrow> p_local s = [] \<Longrightarrow> p_remote s = [] \<Longrightarrow>
     exec_step s (s\<lparr>p_exec := EWait\<rparr>)"
| wait_io: "p_exec s = EWait \<Longrightarrow> n \<le> p_tokens s \<Longrightarrow>
     exec_step s (s\<lparr>p_tokens := n, p_exec := EEvents\<rparr>)"
| events_done: "p_exec s = EEvents \<Longrightarrow> exec_step s (s\<lparr>p_exec := EStop1\<rparr>)"
| stop_waiting: "p_exec s = EStop1 \<Longrightarrow> exec_step s (s\<lparr>p_waiting := False, p_exec := EStop2\<rparr>)"
| stop_pending: "p_exec s = EStop2 \<Longrightarrow> exec_step s (s\<lparr>p_pending := False, p_exec := ETop\<rparr>)"

definition proto_step :: "proto \<Rightarrow> proto \<Rightarrow> bool" where
  "proto_step s s' \<longleftrightarrow> waker_step s s' \<or> exec_step s s'"

text \<open>
  With a store buffer: \<open>waiting.store(true, Release)\<close> enters the buffer (the flag) and reaches
  memory at any later moment before the runtime thread's next store to it.
\<close>

inductive buffered_step :: "proto \<times> bool \<Rightarrow> proto \<times> bool \<Rightarrow> bool" where
  buf_waker: "waker_step s s' \<Longrightarrow> buffered_step (s, b) (s', b)"
| buf_exec: "exec_step s s' \<Longrightarrow> p_exec s \<noteq> ESetWaiting \<Longrightarrow> (p_exec s = EStop1 \<longrightarrow> \<not> b) \<Longrightarrow>
     buffered_step (s, b) (s', b)"
| buf_store: "p_exec s = ESetWaiting \<Longrightarrow> buffered_step (s, b) (s\<lparr>p_exec := ECheckRoot\<rparr>, True)"
| buf_flush: "buffered_step (s, True) (s\<lparr>p_waiting := True\<rparr>, False)"

subsection \<open>The invariant\<close>

definition at :: "waker_pc \<Rightarrow> proto \<Rightarrow> bool" where
  "at pc s \<longleftrightarrow> (\<exists>i. p_wakers s i = pc)"

text \<open>A woken task is on its way to being polled.\<close>

definition dirty_inv :: "proto \<Rightarrow> bool" where
  "dirty_inv s \<longleftrightarrow>
     (\<forall>t. p_dirty s t \<longrightarrow>
        t \<in> set (p_remote s) \<or> t \<in> set (p_local s) \<or> t \<in> set (p_batch s) \<or> p_exec s = EMark t \<or>
        at (WSwap t) s \<or> at (WPush t) s)"

text \<open>A task whose \<open>queued\<close> flag is set is in the queue or about to enter or leave it.\<close>

definition queued_inv :: "proto \<Rightarrow> bool" where
  "queued_inv s \<longleftrightarrow>
     (\<forall>t. p_queued s t \<longrightarrow>
        t \<in> set (p_remote s) \<or> t \<in> set (p_local s) \<or> p_exec s = EMark t \<or> at (WPush t) s)"

definition root_inv :: "proto \<Rightarrow> bool" where
  "root_inv s \<longleftrightarrow> (p_root_dirty s \<longrightarrow> p_root_ready s \<or> at WRootStore s)"

definition batch_inv :: "proto \<Rightarrow> bool" where
  "batch_inv s \<longleftrightarrow> (p_batch s = [] \<or> p_exec s = EDrain \<or> p_exec s = EPoll \<or> (\<exists>t. p_exec s = EMark t))"

definition waiting_inv :: "proto \<Rightarrow> bool" where
  "waiting_inv s \<longleftrightarrow> (p_waiting s \<longleftrightarrow> p_exec s \<in> {ECheckRoot, ECheckQueue, EWait, EEvents, EStop1})"

text \<open>While the runtime thread prepares to wait or waits, a set flag means an interrupt.\<close>

definition pending_inv :: "proto \<Rightarrow> bool" where
  "pending_inv s \<longleftrightarrow>
     (p_exec s \<in> {ESetWaiting, ECheckRoot, ECheckQueue, EWait} \<longrightarrow> p_pending s \<longrightarrow>
        0 < p_tokens s \<or> at WInterrupt s)"

text \<open>Work that appears after the last check has an interrupt or a thread that will send one.\<close>

definition coming :: "proto \<Rightarrow> bool" where
  "coming s \<longleftrightarrow> 0 < p_tokens s \<or> at WLoad s \<or> at WIntrSwap s \<or> at WInterrupt s"

definition work_inv :: "proto \<Rightarrow> bool" where
  "work_inv s \<longleftrightarrow>
     (p_exec s = EWait \<longrightarrow> p_local s = []) \<and>
     (p_exec s = EWait \<longrightarrow> p_remote s \<noteq> [] \<longrightarrow> coming s) \<and>
     (p_exec s \<in> {ECheckQueue, EWait} \<longrightarrow> p_root_ready s \<longrightarrow> coming s)"

definition proto_inv :: "proto \<Rightarrow> bool" where
  "proto_inv s \<longleftrightarrow>
     dirty_inv s \<and> queued_inv s \<and> root_inv s \<and> batch_inv s \<and> waiting_inv s \<and>
     pending_inv s \<and> work_inv s"

lemmas proto_inv_defs = dirty_inv_def queued_inv_def root_inv_def batch_inv_def waiting_inv_def
  pending_inv_def work_inv_def coming_def may_wake_def

lemma p_wakers_set_waker [simp]: "p_wakers (set_waker i pc s) = (p_wakers s)(i := pc)"
  by (simp add: set_waker_def)

lemma set_waker_frame [simp]:
  "p_queued (set_waker i pc s) = p_queued s" "p_remote (set_waker i pc s) = p_remote s"
  "p_local (set_waker i pc s) = p_local s"
  "p_batch (set_waker i pc s) = p_batch s" "p_dirty (set_waker i pc s) = p_dirty s"
  "p_root_ready (set_waker i pc s) = p_root_ready s" "p_root_dirty (set_waker i pc s) = p_root_dirty s"
  "p_waiting (set_waker i pc s) = p_waiting s" "p_pending (set_waker i pc s) = p_pending s"
  "p_tokens (set_waker i pc s) = p_tokens s" "p_exec (set_waker i pc s) = p_exec s"
  by (simp_all add: set_waker_def)

lemma at_here [simp]: "at pc (set_waker i pc s)"
  by (auto simp: at_def)

lemma at_set_waker [simp]:
  "p_wakers s i \<noteq> pc \<Longrightarrow> at pc (set_waker i pc' s) \<longleftrightarrow> pc = pc' \<or> at pc s"
  by (auto simp: at_def)

lemma at_keep: "at pc s \<Longrightarrow> at pc (set_waker i pc' s) \<or> pc = p_wakers s i"
  by (metis at_set_waker)

lemma at_frame [simp]:
  "at pc (s\<lparr>p_queued := q\<rparr>) = at pc s" "at pc (s\<lparr>p_remote := r\<rparr>) = at pc s"
  "at pc (s\<lparr>p_local := r\<rparr>) = at pc s" "at pc (s\<lparr>p_batch := r\<rparr>) = at pc s" "at pc (s\<lparr>p_dirty := q\<rparr>) = at pc s"
  "at pc (s\<lparr>p_root_ready := b\<rparr>) = at pc s" "at pc (s\<lparr>p_root_dirty := b\<rparr>) = at pc s"
  "at pc (s\<lparr>p_waiting := b\<rparr>) = at pc s" "at pc (s\<lparr>p_pending := b\<rparr>) = at pc s"
  "at pc (s\<lparr>p_tokens := n\<rparr>) = at pc s" "at pc (s\<lparr>p_exec := e\<rparr>) = at pc s"
  by (simp_all add: at_def)

lemma at_set_waker_frame [simp]:
  "at pc (set_waker i pc' (s\<lparr>p_queued := q\<rparr>)) = at pc (set_waker i pc' s)"
  "at pc (set_waker i pc' (s\<lparr>p_remote := r\<rparr>)) = at pc (set_waker i pc' s)"
  by (simp_all add: at_def)

lemma proto_inv_init: "proto_inv proto_init"
  by (simp add: proto_inv_def proto_inv_defs proto_init_def)

lemma exec_dirty_inv: "exec_step s s' \<Longrightarrow> queued_inv s \<Longrightarrow> dirty_inv s \<Longrightarrow> dirty_inv s'"
  by (induction rule: exec_step.induct) (auto simp: dirty_inv_def queued_inv_def may_wake_def)

lemma exec_queued_inv: "exec_step s s' \<Longrightarrow> queued_inv s \<Longrightarrow> queued_inv s'"
  by (induction rule: exec_step.induct) (auto simp: queued_inv_def)

lemma exec_root_inv: "exec_step s s' \<Longrightarrow> root_inv s \<Longrightarrow> root_inv s'"
  by (induction rule: exec_step.induct) (auto simp: root_inv_def)

lemma exec_batch_inv: "exec_step s s' \<Longrightarrow> batch_inv s \<Longrightarrow> batch_inv s'"
  by (induction rule: exec_step.induct) (auto simp: batch_inv_def)

lemma exec_waiting_inv: "exec_step s s' \<Longrightarrow> waiting_inv s \<Longrightarrow> waiting_inv s'"
  by (induction rule: exec_step.induct) (auto simp: waiting_inv_def)

lemma exec_pending_inv: "exec_step s s' \<Longrightarrow> pending_inv s \<Longrightarrow> pending_inv s'"
  by (induction rule: exec_step.induct) (auto simp: pending_inv_def)

lemma exec_work_inv: "exec_step s s' \<Longrightarrow> work_inv s \<Longrightarrow> work_inv s'"
  by (induction rule: exec_step.induct) (auto simp: work_inv_def coming_def may_wake_def)

lemma exec_step_inv: "exec_step s s' \<Longrightarrow> proto_inv s \<Longrightarrow> proto_inv s'"
  by (simp add: proto_inv_def exec_dirty_inv exec_queued_inv exec_root_inv exec_batch_inv
      exec_waiting_inv exec_pending_inv exec_work_inv)

lemma waker_queued_inv: "waker_step s s' \<Longrightarrow> queued_inv s \<Longrightarrow> queued_inv s'"
proof (induction rule: waker_step.induct)
  case (push s i t)
  then show ?case
    by (auto simp: queued_inv_def dest: at_keep [where i = i and pc' = WLoad])
qed (auto simp: queued_inv_def)

lemma waker_root_inv: "waker_step s s' \<Longrightarrow> root_inv s \<Longrightarrow> root_inv s'"
  by (induction rule: waker_step.induct) (auto simp: root_inv_def)

lemma waker_simple_inv:
  "waker_step s s' \<Longrightarrow> batch_inv s \<and> waiting_inv s \<Longrightarrow> batch_inv s' \<and> waiting_inv s'"
  by (induction rule: waker_step.induct) (simp_all add: batch_inv_def waiting_inv_def)

lemma waker_pending_inv: "waker_step s s' \<Longrightarrow> pending_inv s \<Longrightarrow> pending_inv s'"
  by (induction rule: waker_step.induct) (auto simp: pending_inv_def)

lemma waker_dirty_inv: "waker_step s s' \<Longrightarrow> queued_inv s \<Longrightarrow> dirty_inv s \<Longrightarrow> dirty_inv s'"
proof (induction rule: waker_step.induct)
  case (swap_won s i t)
  then show ?case
    by (simp add: dirty_inv_def) (metis at_keep waker_pc.inject(1))
next
  case (swap_lost s i t)
  then show ?case
    by (simp add: dirty_inv_def queued_inv_def) (metis at_keep waker_pc.inject(1))
next
  case (push s i t)
  then show ?case
    by (auto simp: dirty_inv_def dest: at_keep [where i = i and pc' = WLoad])
qed (auto simp: dirty_inv_def)

lemma waker_work_inv:
  "waker_step s s' \<Longrightarrow> waiting_inv s \<Longrightarrow> pending_inv s \<Longrightarrow> work_inv s \<Longrightarrow> work_inv s'"
proof (induction rule: waker_step.induct)
  case (load_idle s i)
  then show ?case
    by (auto simp: work_inv_def waiting_inv_def)
next
  case (intr_lost s i)
  then show ?case
    by (auto simp: work_inv_def coming_def pending_inv_def)
qed (auto simp: work_inv_def coming_def)

lemma waker_step_inv: "waker_step s s' \<Longrightarrow> proto_inv s \<Longrightarrow> proto_inv s'"
  by (simp add: proto_inv_def waker_queued_inv waker_dirty_inv waker_root_inv waker_simple_inv
      waker_pending_inv waker_work_inv)

interpretation proto: step_invariant proto_init proto_step proto_inv
  by unfold_locales (auto simp: proto_step_def proto_inv_init exec_step_inv waker_step_inv)

subsection \<open>Runs\<close>

text \<open>The runtime thread finds nothing to do and blocks in the driver.\<close>

definition blocked_state :: proto where
  "blocked_state = proto_init\<lparr>p_root_ready := False, p_waiting := True, p_exec := EWait\<rparr>"

definition at_pc :: "exec_pc \<Rightarrow> proto" where
  "at_pc pc = proto_init\<lparr>p_root_ready := False, p_exec := pc\<rparr>"

lemma at_pc_first: "exec_step proto_init (at_pc ERoot)"
  using exec_step.root_poll [of proto_init] by (simp add: at_pc_def proto_init_def)

lemma at_pc_steps:
  "exec_step (at_pc ERoot) (at_pc EDrain)" "exec_step (at_pc EDrain) (at_pc EIsReady)"
  "exec_step (at_pc EIsReady) (at_pc EClear)" "exec_step (at_pc EClear) (at_pc ESetWaiting)"
  "exec_step (at_pc ECheckRoot) (at_pc ECheckQueue)" "exec_step (at_pc ECheckQueue) (at_pc EWait)"
  using exec_step.root_done [of "at_pc ERoot"] exec_step.drain_none [of "at_pc EDrain"]
    exec_step.not_ready [of "at_pc EIsReady"] exec_step.clear [of "at_pc EClear"]
    exec_step.check_root_idle [of "at_pc ECheckRoot"]
    exec_step.check_queue_empty [of "at_pc ECheckQueue"]
  by (simp_all add: at_pc_def proto_init_def)

lemma reach_set_waiting:
  assumes "\<And>s s'. exec_step s s' \<Longrightarrow> p_exec s \<noteq> ESetWaiting \<Longrightarrow> p_exec s \<noteq> EStop1 \<Longrightarrow> step (f s) (f s')"
  shows "reachable (f proto_init) step (f (at_pc ESetWaiting))"
proof -
  have "step (f proto_init) (f (at_pc ERoot))"
    by (rule assms [OF at_pc_first]) (simp_all add: proto_init_def)
  moreover have "step (f (at_pc ERoot)) (f (at_pc EDrain))"
    "step (f (at_pc EDrain)) (f (at_pc EIsReady))" "step (f (at_pc EIsReady)) (f (at_pc EClear))"
    "step (f (at_pc EClear)) (f (at_pc ESetWaiting))"
    by (rule assms, (rule at_pc_steps), simp add: at_pc_def, simp add: at_pc_def)+
  ultimately show ?thesis
    by (meson reachable.intros)
qed

lemma reach_blocked: "reachable proto_init proto_step blocked_state"
proof -
  let ?w = "\<lambda>pc. (at_pc pc)\<lparr>p_waiting := True\<rparr>"
  have "reachable proto_init proto_step (at_pc ESetWaiting)"
    using reach_set_waiting [where f = "\<lambda>s. s" and step = proto_step] by (simp add: proto_step_def)
  moreover have "proto_step (at_pc ESetWaiting) (?w ECheckRoot)"
    using exec_step.set_waiting [of "at_pc ESetWaiting"] by (simp add: proto_step_def at_pc_def proto_init_def)
  moreover have "proto_step (?w ECheckRoot) (?w ECheckQueue)"
    using exec_step.check_root_idle [of "?w ECheckRoot"]
    by (simp add: proto_step_def at_pc_def proto_init_def)
  moreover have "proto_step (?w ECheckQueue) blocked_state"
    using exec_step.check_queue_empty [of "?w ECheckQueue"]
    by (simp add: proto_step_def at_pc_def proto_init_def blocked_state_def)
  ultimately show ?thesis
    by (meson reachable_step)
qed

text \<open>With the store buffer: a foreign thread wakes task 0 and reads \<open>waiting\<close> too early.\<close>

definition lost_state :: proto where
  "lost_state = blocked_state\<lparr>p_queued := (\<lambda>t. t = 0), p_remote := [0], p_dirty := (\<lambda>t. t = 0)\<rparr>"

definition waker_at :: "waker_pc \<Rightarrow> nat list \<Rightarrow> bool \<Rightarrow> proto" where
  "waker_at pc r q = set_waker 0 pc ((at_pc EWait)
     \<lparr>p_queued := (p_queued proto_init)(0 := q), p_remote := r, p_dirty := (p_dirty proto_init)(0 := True)\<rparr>)"

lemma lost_waker_steps:
  "waker_step (at_pc EWait) (waker_at (WSwap 0) [] False)"
  "waker_step (waker_at (WSwap 0) [] False) (waker_at (WPush 0) [] True)"
  "waker_step (waker_at (WPush 0) [] True) (waker_at WLoad [0] True)"
  "waker_step (waker_at WLoad [0] True) (waker_at WIdle [0] True)"
  using waker_step.wake_begin [of "at_pc EWait" 0 0]
    waker_step.swap_won [of "waker_at (WSwap 0) [] False" 0 0]
    waker_step.push [of "waker_at (WPush 0) [] True" 0 0]
    waker_step.load_idle [of "waker_at WLoad [0] True" 0]
  by (simp_all add: waker_at_def at_pc_def proto_init_def set_waker_def fun_upd_idem)

lemma reach_lost: "reachable (proto_init, False) buffered_step (lost_state, False)"
proof -
  let ?r = "reachable (proto_init, False) buffered_step"
  have "?r (at_pc ESetWaiting, False)"
    using reach_set_waiting [where f = "\<lambda>s. (s, False)" and step = buffered_step]
    by (simp add: buffered_step.buf_exec)
  moreover have "buffered_step (at_pc ESetWaiting, False) (at_pc ECheckRoot, True)"
    using buf_store [of "at_pc ESetWaiting" False] by (simp add: at_pc_def)
  moreover have "buffered_step (at_pc ECheckRoot, True) (at_pc ECheckQueue, True)"
    "buffered_step (at_pc ECheckQueue, True) (at_pc EWait, True)"
    by (rule buf_exec, (rule at_pc_steps), simp add: at_pc_def, simp add: at_pc_def)+
  ultimately have "?r (at_pc EWait, True)"
    by (meson reachable_step)
  then have "?r (waker_at WIdle [0] True, True)"
    using lost_waker_steps by (meson buf_waker reachable_step)
  moreover have "(waker_at WIdle [0] True)\<lparr>p_waiting := True\<rparr> = lost_state"
    by (simp add: waker_at_def at_pc_def set_waker_def lost_state_def blocked_state_def proto_init_def fun_eq_iff)
  ultimately show ?thesis
    by (metis buf_flush reachable_step)
qed

subsection \<open>Properties\<close>

text \<open>
  C11: under sequentially consistent atomics no wake-up is lost: when the runtime thread is blocked
  in the driver, no waking thread is in the middle of a wake and no interrupt is on its way, then
  every task that was woken has been polled since, so has the root future, and all ready queues
  are empty.
\<close>
theorem no_lost_wakeup:
  assumes "reachable proto_init proto_step s"
    and "p_exec s = EWait"
    and "\<forall>i. p_wakers s i = WIdle"
    and "p_tokens s = 0"
  shows "\<not> p_dirty s t \<and> \<not> p_root_dirty s \<and> p_remote s = [] \<and> p_local s = [] \<and>
    p_batch s = [] \<and> \<not> p_root_ready s"
  using proto.inv_reachable [OF assms(1)] assms(2-) by (auto simp: proto_inv_def proto_inv_defs at_def)

theorem no_lost_wakeup_witness:
  "\<not> p_dirty blocked_state 0 \<and> \<not> p_root_dirty blocked_state \<and> p_remote blocked_state = [] \<and>
   p_local blocked_state = [] \<and> p_batch blocked_state = [] \<and> \<not> p_root_ready blocked_state"
  by (rule no_lost_wakeup [OF reach_blocked]) (simp_all add: blocked_state_def proto_init_def)

text \<open>
  With a store buffer the same protocol loses a wake-up: a run leads to the state where the
  runtime thread is blocked in the driver, every waking thread is done, no interrupt is on its
  way, the store to \<open>waiting\<close> has reached memory, and a woken task sits in the remote queue.
\<close>
lemma store_buffer_loses_wakeup:
  "\<exists>s. reachable (proto_init, False) buffered_step (s, False) \<and> p_exec s = EWait \<and>
     (\<forall>i. p_wakers s i = WIdle) \<and> p_tokens s = 0 \<and> p_waiting s \<and> p_dirty s 0 \<and> p_remote s = [0]"
  using reach_lost by (intro exI [of _ lost_state]) (simp add: lost_state_def blocked_state_def proto_init_def)

end
