(* ===== verification/Seg_Queue.thy ===== *)
theory Seg_Queue
  imports Vibe_Prelude
begin

text \<open>
  The crate \<open>crossbeam-queue\<close> is a dependency of the program: \<open>RuntimeInner::remote_queue\<close> is
  a \<open>SegQueue\<close>. Its operations are a parameter of the scheduler, a record of type
  \<open>('q, 'e) queue_ops\<close>; the locale \<open>seg_queue\<close> states what is documented of them, an unbounded
  first-in first-out queue. The list at the end is the instance the closed examples run on.
\<close>

record ('q, 'e) queue_ops =
  q_new :: 'q
  q_push :: "'e \<Rightarrow> 'q \<Rightarrow> 'q"
  q_pop :: "'q \<Rightarrow> ('e \<times> 'q) option"
  q_is_empty :: "'q \<Rightarrow> bool"

definition list_queue :: "('e list, 'e) queue_ops" where
  "list_queue =
     \<lparr>q_new = [],
      q_push = (\<lambda>e q. q @ [e]),
      q_pop = (\<lambda>q. case q of [] \<Rightarrow> None | e # q' \<Rightarrow> Some (e, q')),
      q_is_empty = (\<lambda>q. q = [])\<rparr>"

locale seg_queue =
  fixes Q :: "('q, 'e) queue_ops"
    and contents :: "'q \<Rightarrow> 'e list"
  assumes contents_new [simp]: "contents (q_new Q) = []"
    and contents_push [simp]: "contents (q_push Q e q) = contents q @ [e]"
    and pop_None [simp]: "q_pop Q q = None \<longleftrightarrow> contents q = []"
    and pop_Some: "q_pop Q q = Some (e, q') \<Longrightarrow> contents q = e # contents q'"
    and is_empty_iff [simp]: "q_is_empty Q q \<longleftrightarrow> contents q = []"
begin

lemma pop_cases:
  obtains "contents q = []" "q_pop Q q = None"
  | e q' where "q_pop Q q = Some (e, q')" "contents q = e # contents q'"
  by (cases "q_pop Q q") (auto dest: pop_Some)

end

interpretation lq: seg_queue list_queue "\<lambda>q. q"
  by unfold_locales (auto simp: list_queue_def split: list.splits)

end
