(* ===== verification/Scheduler.thy ===== *)
theory Scheduler
  imports Seg_Queue
begin

text \<open>
  The scheduler: \<open>task.rs\<close> and \<open>executor.rs\<close> as the runtime thread executes them.

  A user future is a value of the codatatype \<open>fut\<close>: the body of its next poll is a finite
  sequence of calls of the runtime's interface (wake, spawn, spawn detached, poll or cancel a join
  handle, each with the rest of the body after its answer) that ends in \<open>Done\<close>, the output of
  \<open>Poll::Ready\<close>, or in \<open>Pend\<close>, \<open>Poll::Pending\<close> with the future that is left. Whatever else a
  future does is internal to the choice of its bodies, so a statement about all futures covers it;
  a future may go on forever from poll to poll.

  Tasks and join states are shared by reference in the code; here they are numbered in tables of
  the record \<open>runtime\<close>. What happens outside the scheduler, the expiry of timers, completions found
  by the driver and wakes by other threads, is an argument of a loop iteration (\<open>loop_env\<close>).
  \<open>rt_polls\<close>, \<open>rt_done\<close> and \<open>rt_joined\<close> are ghost records of the user futures polled, of the outputs
  tasks produced and of the outputs join handles handed out.
\<close>

subsection \<open>User futures\<close>

datatype rt_waker = TaskWaker nat | RootWaker

datatype ('v, 'f) body =
    Done 'v
  | Pend 'f
  | Wake rt_waker "('v, 'f) body"
  | Spawn 'f "nat \<Rightarrow> ('v, 'f) body"
  | SpawnDetached 'f "('v, 'f) body"
  | PollJoin nat "'v option \<Rightarrow> ('v, 'f) body"
  | CancelJoin nat "('v, 'f) body"

codatatype 'v fut = Fut (poll_body: "('v, 'v fut) body")

subsection \<open>State\<close>

record 'v join_state =
  js_output :: "'v option"
  js_waker :: "rt_waker option"
  js_canceled :: bool

datatype 'v task_future = SpawnFuture "'v fut" nat | DetachedFuture "'v fut"

record 'v task =
  t_future :: "'v task_future option"
  t_queued :: bool

record ('v, 'q) runtime =
  rt_tasks :: "nat \<Rightarrow> 'v task option"
  rt_ntasks :: nat
  rt_joins :: "nat \<Rightarrow> 'v join_state option"
  rt_njoins :: nat
  rt_queue :: "nat list"
  rt_next_task :: "nat list"
  rt_remote :: 'q
  rt_waiting :: bool
  rt_interrupt_pending :: bool
  rt_interrupts :: nat
  rt_root_ready :: bool
  rt_batch_size :: nat
  rt_polls :: "nat list"
  rt_done :: "(nat \<times> 'v) list"
  rt_joined :: "(nat \<times> 'v) list"

definition NEXT_TASK_INLINE_CAP :: nat where
  "NEXT_TASK_INLINE_CAP = 8"

definition with_options :: "('q, nat) queue_ops \<Rightarrow> nat \<Rightarrow> ('v, 'q) runtime" where
  "with_options Q batch_size =
     \<lparr>rt_tasks = (\<lambda>_. None), rt_ntasks = 0, rt_joins = (\<lambda>_. None), rt_njoins = 0,
      rt_queue = [], rt_next_task = [], rt_remote = q_new Q,
      rt_waiting = False, rt_interrupt_pending = False, rt_interrupts = 0,
      rt_root_ready = False, rt_batch_size = batch_size,
      rt_polls = [], rt_done = [], rt_joined = []\<rparr>"

subsection \<open>Waking\<close>

definition set_queued :: "nat \<Rightarrow> bool \<Rightarrow> ('v, 'q) runtime \<Rightarrow> ('v, 'q) runtime" where
  "set_queued t b r = r\<lparr>rt_tasks := (rt_tasks r)(t := map_option (\<lambda>k. k\<lparr>t_queued := b\<rparr>) (rt_tasks r t))\<rparr>"

definition is_queued :: "('v, 'q) runtime \<Rightarrow> nat \<Rightarrow> bool" where
  "is_queued r t = (case rt_tasks r t of None \<Rightarrow> False | Some k \<Rightarrow> t_queued k)"

definition interrupt_if_waiting :: "('v, 'q) runtime \<Rightarrow> ('v, 'q) runtime" where
  "interrupt_if_waiting r =
     (if rt_waiting r \<and> \<not> rt_interrupt_pending r
      then r\<lparr>rt_interrupt_pending := True, rt_interrupts := Suc (rt_interrupts r)\<rparr> else r)"

text \<open>\<open>foreign\<close>: the call is made by a thread other than the runtime thread.\<close>

definition enqueue_if_needed ::
  "('q, nat) queue_ops \<Rightarrow> bool \<Rightarrow> nat \<Rightarrow> ('v, 'q) runtime \<Rightarrow> ('v, 'q) runtime" where
  "enqueue_if_needed Q foreign t r =
     (if rt_tasks r t = None then r
      else if \<not> foreign then
        (if is_queued r t then r
         else if length (rt_next_task r) < NEXT_TASK_INLINE_CAP
         then (set_queued t True r)\<lparr>rt_next_task := rt_next_task r @ [t]\<rparr>
         else (set_queued t True r)\<lparr>rt_queue := rt_queue r @ [t]\<rparr>)
      else
        interrupt_if_waiting
          (if is_queued r t then r
           else (set_queued t True r)\<lparr>rt_remote := q_push Q t (rt_remote r)\<rparr>))"

definition mark_dequeued :: "nat \<Rightarrow> ('v, 'q) runtime \<Rightarrow> ('v, 'q) runtime" where
  "mark_dequeued t r = set_queued t False r"

definition wake_root :: "bool \<Rightarrow> ('v, 'q) runtime \<Rightarrow> ('v, 'q) runtime" where
  "wake_root foreign r =
     (let r = r\<lparr>rt_root_ready := True\<rparr> in if foreign then interrupt_if_waiting r else r)"

fun wake :: "('q, nat) queue_ops \<Rightarrow> bool \<Rightarrow> rt_waker \<Rightarrow> ('v, 'q) runtime \<Rightarrow> ('v, 'q) runtime" where
  "wake Q foreign (TaskWaker t) r = enqueue_if_needed Q foreign t r"
| "wake Q foreign RootWaker r = wake_root foreign r"

subsection \<open>Spawning and joining\<close>

definition enqueue :: "nat \<Rightarrow> ('v, 'q) runtime \<Rightarrow> ('v, 'q) runtime" where
  "enqueue t r = r\<lparr>rt_queue := rt_queue r @ [t]\<rparr>"

definition new_task :: "'v task_future \<Rightarrow> ('v, 'q) runtime \<Rightarrow> ('v, 'q) runtime" where
  "new_task f r = enqueue (rt_ntasks r)
     (r\<lparr>rt_tasks := (rt_tasks r)(rt_ntasks r \<mapsto> \<lparr>t_future = Some f, t_queued = True\<rparr>),
        rt_ntasks := Suc (rt_ntasks r)\<rparr>)"

definition spawn :: "'v fut \<Rightarrow> ('v, 'q) runtime \<Rightarrow> ('v, 'q) runtime \<times> nat" where
  "spawn f r =
     (let j = rt_njoins r;
          r = r\<lparr>rt_joins := (rt_joins r)(j \<mapsto> \<lparr>js_output = None, js_waker = None, js_canceled = False\<rparr>),
                rt_njoins := Suc j\<rparr>
      in (new_task (SpawnFuture f j) r, j))"

definition spawn_detached :: "'v fut \<Rightarrow> ('v, 'q) runtime \<Rightarrow> ('v, 'q) runtime" where
  "spawn_detached f r = new_task (DetachedFuture f) r"

definition update_waker_slot :: "rt_waker option \<Rightarrow> rt_waker \<Rightarrow> rt_waker option" where
  "update_waker_slot slot w = (if slot = Some w then slot else Some w)"

definition join_poll ::
  "nat \<Rightarrow> rt_waker \<Rightarrow> ('v, 'q) runtime \<Rightarrow> ('v, 'q) runtime \<times> 'v option" where
  "join_poll j w r =
     (case rt_joins r j of
        None \<Rightarrow> (r, None)
      | Some st \<Rightarrow>
          (case js_output st of
             Some v \<Rightarrow> (r\<lparr>rt_joins := (rt_joins r)(j \<mapsto> st\<lparr>js_output := None\<rparr>),
                          rt_joined := rt_joined r @ [(j, v)]\<rparr>, Some v)
           | None \<Rightarrow> (r\<lparr>rt_joins := (rt_joins r)(j \<mapsto> st\<lparr>js_waker := update_waker_slot (js_waker st) w\<rparr>)\<rparr>,
                      None)))"

definition join_cancel :: "nat \<Rightarrow> ('v, 'q) runtime \<Rightarrow> ('v, 'q) runtime" where
  "join_cancel j r =
     r\<lparr>rt_joins := (rt_joins r)(j := map_option (\<lambda>st. st\<lparr>js_canceled := True\<rparr>) (rt_joins r j))\<rparr>"

subsection \<open>Polling\<close>

primrec run_body ::
  "('q, nat) queue_ops \<Rightarrow> rt_waker \<Rightarrow> ('v, 'v fut) body \<Rightarrow> ('v, 'q) runtime \<Rightarrow>
   ('v, 'q) runtime \<times> ('v + 'v fut)" where
  "run_body Q w (Done v) r = (r, Inl v)"
| "run_body Q w (Pend f) r = (r, Inr f)"
| "run_body Q w (Wake w' b) r = run_body Q w b (wake Q False w' r)"
| "run_body Q w (Spawn f k) r = (case spawn f r of (r', j) \<Rightarrow> run_body Q w (k j) r')"
| "run_body Q w (SpawnDetached f b) r = run_body Q w b (spawn_detached f r)"
| "run_body Q w (PollJoin j k) r = (case join_poll j w r of (r', res) \<Rightarrow> run_body Q w (k res) r')"
| "run_body Q w (CancelJoin j b) r = run_body Q w b (join_cancel j r)"

definition is_canceled :: "('v, 'q) runtime \<Rightarrow> nat \<Rightarrow> bool" where
  "is_canceled r j = (case rt_joins r j of None \<Rightarrow> False | Some st \<Rightarrow> js_canceled st)"

text \<open>The end of \<open>SpawnFuture::poll\<close>: the output is stored, the waiting waker taken and woken.\<close>

definition complete_join ::
  "('q, nat) queue_ops \<Rightarrow> nat \<Rightarrow> 'v \<Rightarrow> ('v, 'q) runtime \<Rightarrow> ('v, 'q) runtime" where
  "complete_join Q j v r =
     (case rt_joins r j of
        None \<Rightarrow> r
      | Some st \<Rightarrow>
          (let r = r\<lparr>rt_joins := (rt_joins r)(j \<mapsto> st\<lparr>js_output := Some v, js_waker := None\<rparr>),
                     rt_done := rt_done r @ [(j, v)]\<rparr>
           in case js_waker st of None \<Rightarrow> r | Some w \<Rightarrow> wake Q False w r))"

fun task_future_poll ::
  "('q, nat) queue_ops \<Rightarrow> rt_waker \<Rightarrow> 'v task_future \<Rightarrow> ('v, 'q) runtime \<Rightarrow>
   ('v, 'q) runtime \<times> 'v task_future option" where
  "task_future_poll Q w (SpawnFuture f j) r =
     (if is_canceled r j then (r, None)
      else (case run_body Q w (poll_body f) (r\<lparr>rt_polls := rt_polls r @ [j]\<rparr>) of
              (r', Inl v) \<Rightarrow> (complete_join Q j v r', None)
            | (r', Inr f') \<Rightarrow> (r', Some (SpawnFuture f' j))))"
| "task_future_poll Q w (DetachedFuture f) r =
     (case run_body Q w (poll_body f) r of
        (r', Inl v) \<Rightarrow> (r', None)
      | (r', Inr f') \<Rightarrow> (r', Some (DetachedFuture f')))"

definition set_future :: "nat \<Rightarrow> 'v task_future option \<Rightarrow> ('v, 'q) runtime \<Rightarrow> ('v, 'q) runtime" where
  "set_future t f r = r\<lparr>rt_tasks := (rt_tasks r)(t := map_option (\<lambda>k. k\<lparr>t_future := f\<rparr>) (rt_tasks r t))\<rparr>"

definition poll_task :: "('q, nat) queue_ops \<Rightarrow> nat \<Rightarrow> ('v, 'q) runtime \<Rightarrow> ('v, 'q) runtime" where
  "poll_task Q t r =
     (case rt_tasks r t of
        None \<Rightarrow> r
      | Some k \<Rightarrow>
          (case t_future k of
             None \<Rightarrow> r
           | Some f \<Rightarrow>
               (case task_future_poll Q (TaskWaker t) f (set_future t None r) of
                  (r', None) \<Rightarrow> r'
                | (r', Some f') \<Rightarrow> set_future t (Some f') r')))"

subsection \<open>Draining\<close>

primrec drain_loop ::
  "(('v, 'q) runtime \<Rightarrow> (nat \<times> ('v, 'q) runtime) option) \<Rightarrow> nat \<Rightarrow> nat list \<Rightarrow> ('v, 'q) runtime \<Rightarrow>
   nat list \<times> nat \<times> ('v, 'q) runtime" where
  "drain_loop pop 0 batch r = (batch, 0, r)"
| "drain_loop pop (Suc budget) batch r =
     (case pop r of
        None \<Rightarrow> (batch, Suc budget, r)
      | Some (t, r') \<Rightarrow> drain_loop pop budget (batch @ [t]) (mark_dequeued t r'))"

definition pop_next :: "('v, 'q) runtime \<Rightarrow> (nat \<times> ('v, 'q) runtime) option" where
  "pop_next r = (case rt_next_task r of [] \<Rightarrow> None | t # ts \<Rightarrow> Some (t, r\<lparr>rt_next_task := ts\<rparr>))"

definition pop_remote :: "('q, nat) queue_ops \<Rightarrow> ('v, 'q) runtime \<Rightarrow> (nat \<times> ('v, 'q) runtime) option" where
  "pop_remote Q r = (case q_pop Q (rt_remote r) of None \<Rightarrow> None | Some (t, q) \<Rightarrow> Some (t, r\<lparr>rt_remote := q\<rparr>))"

definition pop_queue :: "('v, 'q) runtime \<Rightarrow> (nat \<times> ('v, 'q) runtime) option" where
  "pop_queue r = (case rt_queue r of [] \<Rightarrow> None | t # ts \<Rightarrow> Some (t, r\<lparr>rt_queue := ts\<rparr>))"

definition drain_ready ::
  "('q, nat) queue_ops \<Rightarrow> nat \<Rightarrow> ('v, 'q) runtime \<Rightarrow> nat list \<times> ('v, 'q) runtime" where
  "drain_ready Q budget r =
     (case drain_loop pop_next budget [] r of (batch, budget, r) \<Rightarrow>
      case drain_loop (pop_remote Q) budget batch r of (batch, budget, r) \<Rightarrow>
      case drain_loop pop_queue budget batch r of (batch, budget, r) \<Rightarrow> (batch, r))"

definition stop_waiting :: "('v, 'q) runtime \<Rightarrow> ('v, 'q) runtime" where
  "stop_waiting r = r\<lparr>rt_waiting := False, rt_interrupt_pending := False\<rparr>"

definition should_skip_wait :: "('q, nat) queue_ops \<Rightarrow> ('v, 'q) runtime \<Rightarrow> bool" where
  "should_skip_wait Q r \<longleftrightarrow>
     rt_next_task r \<noteq> [] \<or> \<not> q_is_empty Q (rt_remote r) \<or> rt_queue r \<noteq> []"

subsection \<open>The loop of \<open>block_on\<close>\<close>

text \<open>
  What happens around one iteration: wakers of expired timers (first and second spin), wakes by
  other threads before the drain and after \<open>waiting\<close> is set, wakes during \<open>driver.wait\<close> and
  \<open>driver.flush\<close> (with a flag: by another thread).
\<close>

record loop_env =
  env_timer :: "rt_waker list"
  env_remote :: "rt_waker list"
  env_late :: "rt_waker list"
  env_timer2 :: "rt_waker list"
  env_wait :: "(bool \<times> rt_waker) list"
  env_flush :: "(bool \<times> rt_waker) list"

definition wake_all ::
  "('q, nat) queue_ops \<Rightarrow> (bool \<times> rt_waker) list \<Rightarrow> ('v, 'q) runtime \<Rightarrow> ('v, 'q) runtime" where
  "wake_all Q ws r = fold (\<lambda>(foreign, w). wake Q foreign w) ws r"

text \<open>The branch of an empty batch: prepare to wait, check again, wait in the driver.\<close>

definition wait_phase ::
  "('q, nat) queue_ops \<Rightarrow> loop_env \<Rightarrow> ('v, 'q) runtime \<Rightarrow> ('v, 'q) runtime" where
  "wait_phase Q e r =
     (if rt_root_ready r then r
      else
        (let r = wake_all Q (map (Pair True) (env_late e))
                   (r\<lparr>rt_interrupt_pending := False, rt_waiting := True\<rparr>)
         in if rt_root_ready r \<or> should_skip_wait Q r then stop_waiting r
            else if env_timer2 e \<noteq> []
            then stop_waiting (wake_all Q (map (Pair False) (env_timer2 e)) r)
            else stop_waiting (wake_all Q (env_wait e) r)))"

definition block_on_iter ::
  "('q, nat) queue_ops \<Rightarrow> loop_env \<Rightarrow> 'v fut \<Rightarrow> ('v, 'q) runtime \<Rightarrow> ('v, 'q) runtime \<times> ('v + 'v fut)" where
  "block_on_iter Q e root r =
     (case (if rt_root_ready r
            then run_body Q RootWaker (poll_body root) (r\<lparr>rt_root_ready := False\<rparr>)
            else (r, Inr root)) of
        (r, Inl v) \<Rightarrow> (r, Inl v)
      | (r, Inr root) \<Rightarrow>
          (let r = wake_all Q (map (Pair False) (env_timer e)) r;
               r = wake_all Q (map (Pair True) (env_remote e)) r
           in case drain_ready Q (rt_batch_size r) r of
                (batch, r) \<Rightarrow>
                  (if batch = [] then (wait_phase Q e r, Inr root)
                   else (wake_all Q (env_flush e) (fold (poll_task Q) batch r), Inr root))))"

text \<open>The loop over the environment of its iterations; \<open>Inr\<close> when it is still running at their end.\<close>

primrec block_on_loop ::
  "('q, nat) queue_ops \<Rightarrow> loop_env list \<Rightarrow> 'v fut \<Rightarrow> ('v, 'q) runtime \<Rightarrow> ('v, 'q) runtime \<times> ('v + 'v fut)" where
  "block_on_loop Q [] root r = (r, Inr root)"
| "block_on_loop Q (e # es) root r =
     (case block_on_iter Q e root r of
        (r', Inl v) \<Rightarrow> (r', Inl v)
      | (r', Inr root') \<Rightarrow> block_on_loop Q es root' r')"

text \<open>A call of \<open>block_on\<close> makes a \<open>BlockOnNotify\<close> whose \<open>ready\<close> is set.\<close>

definition block_on ::
  "('q, nat) queue_ops \<Rightarrow> loop_env list \<Rightarrow> 'v fut \<Rightarrow> ('v, 'q) runtime \<Rightarrow> ('v, 'q) runtime \<times> ('v + 'v fut)" where
  "block_on Q es root r = block_on_loop Q es root (r\<lparr>rt_root_ready := True\<rparr>)"

subsection \<open>Invariants\<close>

definition ready_list :: "('q \<Rightarrow> nat list) \<Rightarrow> ('v, 'q) runtime \<Rightarrow> nat list" where
  "ready_list c r = rt_next_task r @ c (rt_remote r) @ rt_queue r"

text \<open>A task is in the ready queues exactly once when its \<open>queued\<close> flag is set, and else not at all.\<close>

definition ready_inv :: "('q \<Rightarrow> nat list) \<Rightarrow> ('v, 'q) runtime \<Rightarrow> bool" where
  "ready_inv c r \<longleftrightarrow>
     distinct (ready_list c r) \<and>
     set (ready_list c r) = {t. is_queued r t} \<and>
     length (rt_next_task r) \<le> NEXT_TASK_INLINE_CAP \<and>
     (\<forall>t. rt_ntasks r \<le> t \<longrightarrow> rt_tasks r t = None)"

definition task_join :: "('v, 'q) runtime \<Rightarrow> nat \<Rightarrow> nat option" where
  "task_join r t =
     (case rt_tasks r t of
        None \<Rightarrow> None
      | Some k \<Rightarrow> (case t_future k of Some (SpawnFuture f j) \<Rightarrow> Some j | _ \<Rightarrow> None))"

text \<open>
  Join states: \<open>X\<close> holds the join state of the task that is being polled, whose future is out of
  its slot.
\<close>

definition owner_inv :: "nat set \<Rightarrow> ('v, 'q) runtime \<Rightarrow> bool" where
  "owner_inv X r \<longleftrightarrow>
     (\<forall>t t' j. task_join r t = Some j \<longrightarrow> task_join r t' = Some j \<longrightarrow> t = t') \<and>
     (\<forall>t j. task_join r t = Some j \<longrightarrow> j < rt_njoins r \<and> j \<notin> X \<and> j \<notin> fst ` set (rt_done r)) \<and>
     (\<forall>j \<in> X. j < rt_njoins r \<and> j \<notin> fst ` set (rt_done r))"

definition done_inv :: "('v, 'q) runtime \<Rightarrow> bool" where
  "done_inv r \<longleftrightarrow>
     distinct (map fst (rt_done r)) \<and> distinct (map fst (rt_joined r)) \<and>
     fst ` set (rt_done r) \<subseteq> {..<rt_njoins r} \<and> set (rt_joined r) \<subseteq> set (rt_done r)"

text \<open>A join state exists for every number given out, and holds the output until it is handed out.\<close>

definition output_inv :: "('v, 'q) runtime \<Rightarrow> bool" where
  "output_inv r \<longleftrightarrow>
     (\<forall>j. case rt_joins r j of
            None \<Rightarrow> rt_njoins r \<le> j
          | Some st \<Rightarrow> j < rt_njoins r \<and>
              (\<forall>v. js_output st = Some v \<longleftrightarrow> (j, v) \<in> set (rt_done r) \<and> j \<notin> fst ` set (rt_joined r)))"

definition join_inv :: "nat set \<Rightarrow> ('v, 'q) runtime \<Rightarrow> bool" where
  "join_inv X r \<longleftrightarrow> owner_inv X r \<and> done_inv r \<and> output_inv r"

subsection \<open>Frames\<close>

lemma set_queued_frame [simp]:
  "rt_joins (set_queued t b r) = rt_joins r" "rt_njoins (set_queued t b r) = rt_njoins r"
  "rt_done (set_queued t b r) = rt_done r" "rt_joined (set_queued t b r) = rt_joined r"
  "rt_polls (set_queued t b r) = rt_polls r" "rt_ntasks (set_queued t b r) = rt_ntasks r"
  "rt_queue (set_queued t b r) = rt_queue r" "rt_next_task (set_queued t b r) = rt_next_task r"
  "rt_remote (set_queued t b r) = rt_remote r" "rt_batch_size (set_queued t b r) = rt_batch_size r"
  "rt_root_ready (set_queued t b r) = rt_root_ready r"
  by (simp_all add: set_queued_def)

lemma set_future_frame [simp]:
  "rt_joins (set_future t f r) = rt_joins r" "rt_njoins (set_future t f r) = rt_njoins r"
  "rt_done (set_future t f r) = rt_done r" "rt_joined (set_future t f r) = rt_joined r"
  "rt_polls (set_future t f r) = rt_polls r" "rt_ntasks (set_future t f r) = rt_ntasks r"
  "rt_queue (set_future t f r) = rt_queue r" "rt_next_task (set_future t f r) = rt_next_task r"
  "rt_remote (set_future t f r) = rt_remote r" "rt_batch_size (set_future t f r) = rt_batch_size r"
  by (simp_all add: set_future_def)

lemma is_queued_set_queued [simp]:
  "is_queued (set_queued t b r) t' = (if t' = t then b \<and> rt_tasks r t \<noteq> None else is_queued r t')"
  by (auto simp: is_queued_def set_queued_def split: option.splits)

lemma task_join_set_queued [simp]: "task_join (set_queued t b r) = task_join r"
  by (auto simp: task_join_def set_queued_def fun_eq_iff split: option.splits)

lemma is_queued_set_future [simp]: "is_queued (set_future t f r) = is_queued r"
  by (auto simp: is_queued_def set_future_def fun_eq_iff split: option.splits)

lemma set_tasks_None [simp]:
  "rt_tasks (set_queued t b r) t' = None \<longleftrightarrow> rt_tasks r t' = None"
  "rt_tasks (set_future t f r) t' = None \<longleftrightarrow> rt_tasks r t' = None"
  by (simp_all add: set_queued_def set_future_def)

text \<open>What a wake leaves alone.\<close>

lemma interrupt_frame [simp]:
  "rt_tasks (interrupt_if_waiting r) = rt_tasks r" "rt_ntasks (interrupt_if_waiting r) = rt_ntasks r"
  "rt_joins (interrupt_if_waiting r) = rt_joins r" "rt_njoins (interrupt_if_waiting r) = rt_njoins r"
  "rt_queue (interrupt_if_waiting r) = rt_queue r"
  "rt_next_task (interrupt_if_waiting r) = rt_next_task r"
  "rt_remote (interrupt_if_waiting r) = rt_remote r" "rt_polls (interrupt_if_waiting r) = rt_polls r"
  "rt_done (interrupt_if_waiting r) = rt_done r" "rt_joined (interrupt_if_waiting r) = rt_joined r"
  "rt_batch_size (interrupt_if_waiting r) = rt_batch_size r"
  "rt_root_ready (interrupt_if_waiting r) = rt_root_ready r"
  by (simp_all add: interrupt_if_waiting_def)

lemma is_queued_cong: "rt_tasks r = rt_tasks r' \<Longrightarrow> is_queued r = is_queued r'"
  by (auto simp: is_queued_def fun_eq_iff)

lemma task_join_cong: "rt_tasks r = rt_tasks r' \<Longrightarrow> task_join r = task_join r'"
  by (auto simp: task_join_def fun_eq_iff)

lemma is_queued_frame [simp]:
  "is_queued (r\<lparr>rt_queue := x0\<rparr>) = is_queued r" "is_queued (r\<lparr>rt_next_task := x1\<rparr>) = is_queued r"
  "is_queued (r\<lparr>rt_remote := x2\<rparr>) = is_queued r" "is_queued (r\<lparr>rt_waiting := x3\<rparr>) = is_queued r"
  "is_queued (r\<lparr>rt_interrupt_pending := x4\<rparr>) = is_queued r" "is_queued (r\<lparr>rt_root_ready := x5\<rparr>) = is_queued r"
  "is_queued (r\<lparr>rt_polls := x6\<rparr>) = is_queued r" "is_queued (r\<lparr>rt_done := x7\<rparr>) = is_queued r"
  "is_queued (r\<lparr>rt_joined := x8\<rparr>) = is_queued r" "is_queued (r\<lparr>rt_joins := x9\<rparr>) = is_queued r"
  "is_queued (r\<lparr>rt_njoins := x10\<rparr>) = is_queued r" "is_queued (r\<lparr>rt_ntasks := x11\<rparr>) = is_queued r"
  "is_queued (interrupt_if_waiting r) = is_queued r"
  by (rule is_queued_cong, simp)+

lemma task_join_frame [simp]:
  "task_join (r\<lparr>rt_queue := x0\<rparr>) = task_join r" "task_join (r\<lparr>rt_next_task := x1\<rparr>) = task_join r"
  "task_join (r\<lparr>rt_remote := x2\<rparr>) = task_join r" "task_join (r\<lparr>rt_waiting := x3\<rparr>) = task_join r"
  "task_join (r\<lparr>rt_interrupt_pending := x4\<rparr>) = task_join r" "task_join (r\<lparr>rt_root_ready := x5\<rparr>) = task_join r"
  "task_join (r\<lparr>rt_polls := x6\<rparr>) = task_join r" "task_join (r\<lparr>rt_done := x7\<rparr>) = task_join r"
  "task_join (r\<lparr>rt_joined := x8\<rparr>) = task_join r" "task_join (r\<lparr>rt_joins := x9\<rparr>) = task_join r"
  "task_join (r\<lparr>rt_njoins := x10\<rparr>) = task_join r" "task_join (r\<lparr>rt_ntasks := x11\<rparr>) = task_join r"
  "task_join (interrupt_if_waiting r) = task_join r"
  by (rule task_join_cong, simp)+

lemma wake_frame [simp]:
  "rt_joins (wake Q fo w r) = rt_joins r" "rt_njoins (wake Q fo w r) = rt_njoins r"
  "rt_done (wake Q fo w r) = rt_done r" "rt_joined (wake Q fo w r) = rt_joined r"
  "rt_polls (wake Q fo w r) = rt_polls r" "rt_ntasks (wake Q fo w r) = rt_ntasks r"
  "rt_batch_size (wake Q fo w r) = rt_batch_size r"
  by (cases w; simp add: enqueue_if_needed_def wake_root_def Let_def)+

lemma task_join_wake [simp]: "task_join (wake Q fo w r) = task_join r"
  by (cases w) (simp_all add: enqueue_if_needed_def wake_root_def Let_def)

lemma is_canceled_cong: "rt_joins r = rt_joins r' \<Longrightarrow> is_canceled r = is_canceled r'"
  by (auto simp: is_canceled_def fun_eq_iff)

subsection \<open>What every step keeps\<close>

text \<open>A predicate that every call of the runtime's interface keeps is kept by a poll of any future.\<close>

locale body_invariant =
  fixes Q :: "('q, nat) queue_ops"
    and P :: "('v, 'q) runtime \<Rightarrow> bool"
  assumes keeps_wake: "P r \<Longrightarrow> P (wake Q foreign w r)"
    and keeps_spawn: "P r \<Longrightarrow> P (fst (spawn f r))"
    and keeps_detached: "P r \<Longrightarrow> P (spawn_detached f r)"
    and keeps_join_poll: "P r \<Longrightarrow> P (fst (join_poll j w r))"
    and keeps_cancel: "P r \<Longrightarrow> P (join_cancel j r)"
begin

lemma keeps_run_body: "P r \<Longrightarrow> P (fst (run_body Q w b r))"
proof (induction b arbitrary: r)
  case (Spawn f k)
  then show ?case
    using keeps_spawn [of r f] by (auto split: prod.split)
next
  case (PollJoin j k)
  then show ?case
    using keeps_join_poll [of r j w] by (auto split: prod.split)
qed (simp_all add: keeps_wake keeps_detached keeps_cancel)

lemma keeps_wake_all: "P r \<Longrightarrow> P (wake_all Q ws r)"
  unfolding wake_all_def by (rule fold_preserves) (auto simp: keeps_wake split: prod.splits)

end

text \<open>If the other steps of an iteration keep it too, so does the loop of \<open>block_on\<close>.\<close>

locale loop_invariant = body_invariant Q P
  for Q :: "('q, nat) queue_ops" and P :: "('v, 'q) runtime \<Rightarrow> bool" +
  assumes keeps_poll_task: "P r \<Longrightarrow> P (poll_task Q t r)"
    and keeps_drain: "P r \<Longrightarrow> P (snd (drain_ready Q n r))"
    and keeps_waiting: "P r \<Longrightarrow> P (r\<lparr>rt_waiting := b\<rparr>)"
    and keeps_pending: "P r \<Longrightarrow> P (r\<lparr>rt_interrupt_pending := b\<rparr>)"
    and keeps_root_ready: "P r \<Longrightarrow> P (r\<lparr>rt_root_ready := b\<rparr>)"
begin

lemma keeps_stop_waiting: "P r \<Longrightarrow> P (stop_waiting r)"
  by (simp add: stop_waiting_def keeps_waiting keeps_pending)

lemma keeps_wait_phase: "P r \<Longrightarrow> P (wait_phase Q e r)"
  by (simp add: wait_phase_def Let_def keeps_stop_waiting keeps_wake_all keeps_waiting keeps_pending)

lemma keeps_after_drain:
  assumes "P r"
  shows "P (case drain_ready Q n r of (batch, r) \<Rightarrow>
              if batch = [] then wait_phase Q e r
              else wake_all Q (env_flush e) (fold (poll_task Q) batch r))"
proof (cases "drain_ready Q n r")
  case (Pair batch r')
  then have "P r'"
    using keeps_drain [OF assms, of n] by simp
  moreover have "P (fold (poll_task Q) batch r')"
    using \<open>P r'\<close> by (rule fold_preserves) (rule keeps_poll_task)
  ultimately show ?thesis
    using Pair by (simp add: keeps_wait_phase keeps_wake_all)
qed

lemma keeps_iter:
  assumes "P r"
  shows "P (fst (block_on_iter Q e root r))"
proof -
  obtain r1 res where r1: "(if rt_root_ready r
      then run_body Q RootWaker (poll_body root) (r\<lparr>rt_root_ready := False\<rparr>) else (r, Inr root)) = (r1, res)"
    by fastforce
  then have "P r1"
    using assms keeps_run_body [OF keeps_root_ready [OF assms, of False], of RootWaker "poll_body root"]
    by (auto split: if_splits)
  let ?r2 = "wake_all Q (map (Pair True) (env_remote e)) (wake_all Q (map (Pair False) (env_timer e)) r1)"
  have "P ?r2"
    using \<open>P r1\<close> by (simp add: keeps_wake_all)
  from keeps_after_drain [OF this, where n = "rt_batch_size ?r2" and e = e] \<open>P r1\<close> show ?thesis
    unfolding block_on_iter_def r1 by (auto simp: Let_def split: sum.split prod.splits)
qed

lemma keeps_loop: "P r \<Longrightarrow> P (fst (block_on_loop Q es root r))"
proof (induction es arbitrary: root r)
  case (Cons e es)
  then show ?case
    using keeps_iter [of r e root] by (auto split: prod.split sum.split)
qed simp

lemma keeps_block_on: "P r \<Longrightarrow> P (fst (block_on Q es root r))"
  by (simp add: block_on_def keeps_loop keeps_root_ready)

end

subsection \<open>Draining\<close>

text \<open>\<open>drained ts r r'\<close>: the tasks \<open>ts\<close> lost their \<open>queued\<close> flag, the rest of the tables is as before.\<close>

definition drained :: "nat list \<Rightarrow> ('v, 'q) runtime \<Rightarrow> ('v, 'q) runtime \<Rightarrow> bool" where
  "drained ts r r' \<longleftrightarrow>
     (\<forall>t. is_queued r' t \<longleftrightarrow> is_queued r t \<and> t \<notin> set ts) \<and>
     (\<forall>t. rt_tasks r' t = None \<longleftrightarrow> rt_tasks r t = None) \<and>
     task_join r' = task_join r \<and> rt_ntasks r' = rt_ntasks r \<and> rt_joins r' = rt_joins r \<and>
     rt_njoins r' = rt_njoins r \<and> rt_done r' = rt_done r \<and> rt_joined r' = rt_joined r \<and>
     rt_polls r' = rt_polls r \<and> rt_batch_size r' = rt_batch_size r"

lemma drained_refl: "drained [] r r"
  by (simp add: drained_def)

lemma drained_trans: "drained ts r r' \<Longrightarrow> drained ts' r' r'' \<Longrightarrow> drained (ts @ ts') r r''"
  by (auto simp: drained_def)

lemma drained_mark: "drained [] r r' \<Longrightarrow> drained [t] r (mark_dequeued t r')"
  by (auto simp: drained_def mark_dequeued_def)

text \<open>One of the three queues: \<open>pop\<close> takes the first element of \<open>lst\<close> and leaves \<open>rest\<close> alone.\<close>

locale drain_source =
  fixes pop :: "('v, 'q) runtime \<Rightarrow> (nat \<times> ('v, 'q) runtime) option"
    and lst :: "('v, 'q) runtime \<Rightarrow> nat list"
    and rest :: "('v, 'q) runtime \<Rightarrow> nat list \<times> nat list"
  assumes pop_empty: "pop r = None \<Longrightarrow> lst r = []"
    and pop_first: "pop r = Some (t, r') \<Longrightarrow> lst r = t # lst r' \<and> rest r' = rest r \<and> drained [] r r'"
    and mark_frame: "lst (mark_dequeued t r) = lst r" "rest (mark_dequeued t r) = rest r"
begin

lemma drain_loop_spec:
  "drain_loop pop n batch r = (batch', n', r') \<Longrightarrow>
     batch' = batch @ take n (lst r) \<and> n' = n - length (lst r) \<and> lst r' = drop n (lst r) \<and>
     rest r' = rest r \<and> drained (take n (lst r)) r r'"
proof (induction n arbitrary: batch r)
  case 0
  then show ?case by (simp add: drained_refl)
next
  case (Suc n)
  show ?case
  proof (cases "pop r")
    case None
    then show ?thesis
      using Suc.prems by (simp add: pop_empty drained_refl)
  next
    case (Some p)
    obtain t r1 where p: "pop r = Some (t, r1)"
      using Some by (cases p) auto
    note first = pop_first [OF p]
    have "drain_loop pop n (batch @ [t]) (mark_dequeued t r1) = (batch', n', r')"
      using Suc.prems p by simp
    note IH = Suc.IH [OF this, unfolded mark_frame]
    have "drained [t] r (mark_dequeued t r1)"
      using first by (simp add: drained_mark)
    from drained_trans [OF this, of "take n (lst r1)" r'] show ?thesis
      using IH first by simp
  qed
qed

end

subsection \<open>The ready queues\<close>

locale scheduler = seg_queue Q contents
  for Q :: "('q, nat) queue_ops" and contents :: "'q \<Rightarrow> nat list"
begin

lemma ready_inv_init: "ready_inv contents (with_options Q n)"
  by (simp add: ready_inv_def ready_list_def with_options_def is_queued_def)

lemma ready_inv_cong:
  assumes "ready_inv contents r" "rt_tasks r' = rt_tasks r" "rt_ntasks r' = rt_ntasks r"
    "rt_queue r' = rt_queue r" "rt_next_task r' = rt_next_task r" "rt_remote r' = rt_remote r"
  shows "ready_inv contents r'"
  using assms is_queued_cong [of r' r] by (simp add: ready_inv_def ready_list_def)

lemma ready_inv_interrupt: "ready_inv contents r \<Longrightarrow> ready_inv contents (interrupt_if_waiting r)"
  by (erule ready_inv_cong) simp_all

lemma ready_inv_enqueue:
  "ready_inv contents r \<Longrightarrow> ready_inv contents (enqueue_if_needed Q fo t r)"
  unfolding enqueue_if_needed_def
  by (auto simp: ready_inv_def ready_list_def NEXT_TASK_INLINE_CAP_def intro!: ready_inv_interrupt
      dest: equalityD1)

lemma ready_inv_wake: "ready_inv contents r \<Longrightarrow> ready_inv contents (wake Q fo w r)"
  by (cases w) (auto simp: ready_inv_enqueue wake_root_def Let_def intro!: ready_inv_interrupt
      elim: ready_inv_cong)

lemma ready_inv_new_task:
  assumes "ready_inv contents r"
  shows "ready_inv contents (new_task f r)"
proof -
  have "is_queued (new_task f r) t \<longleftrightarrow> t = rt_ntasks r \<or> is_queued r t" for t
    by (simp add: new_task_def enqueue_def is_queued_def)
  moreover have "\<not> is_queued r (rt_ntasks r)"
    using assms by (simp add: ready_inv_def is_queued_def)
  then have "rt_ntasks r \<notin> set (ready_list contents r)"
    using assms by (simp add: ready_inv_def)
  moreover have "ready_list contents (new_task f r) = ready_list contents r @ [rt_ntasks r]"
    by (simp add: ready_list_def new_task_def enqueue_def)
  ultimately show ?thesis
    using assms by (auto simp: ready_inv_def) (auto simp: new_task_def enqueue_def)
qed

lemma ready_inv_spawn: "ready_inv contents r \<Longrightarrow> ready_inv contents (fst (spawn f r))"
  by (auto simp: spawn_def Let_def intro!: ready_inv_new_task elim: ready_inv_cong)

lemma ready_inv_join_poll: "ready_inv contents r \<Longrightarrow> ready_inv contents (fst (join_poll j w r))"
  by (auto simp: join_poll_def split: option.split elim: ready_inv_cong)

lemma ready_inv_cancel: "ready_inv contents r \<Longrightarrow> ready_inv contents (join_cancel j r)"
  by (auto simp: join_cancel_def elim: ready_inv_cong)

lemma ready_inv_set_future: "ready_inv contents r \<Longrightarrow> ready_inv contents (set_future t f r)"
  by (simp add: ready_inv_def ready_list_def)

end

sublocale scheduler \<subseteq> ready_body: body_invariant Q "ready_inv contents"
  by unfold_locales
    (simp_all add: ready_inv_wake ready_inv_spawn ready_inv_join_poll ready_inv_cancel
      ready_inv_new_task spawn_detached_def)

sublocale scheduler \<subseteq> next_source:
    drain_source pop_next rt_next_task "\<lambda>r. (contents (rt_remote r), rt_queue r)"
  by unfold_locales (auto simp: pop_next_def drained_def mark_dequeued_def split: list.splits)

sublocale scheduler \<subseteq> remote_source:
    drain_source "pop_remote Q" "\<lambda>r. contents (rt_remote r)" "\<lambda>r. (rt_next_task r, rt_queue r)"
  by unfold_locales
    (auto simp: pop_remote_def drained_def mark_dequeued_def dest: pop_Some split: option.splits)

sublocale scheduler \<subseteq> queue_source:
    drain_source pop_queue rt_queue "\<lambda>r. (rt_next_task r, contents (rt_remote r))"
  by unfold_locales (auto simp: pop_queue_def drained_def mark_dequeued_def split: list.splits)

context scheduler
begin

lemma drain_ready_spec:
  assumes "drain_ready Q n r = (batch, r')"
  shows "batch = take n (ready_list contents r) \<and> ready_list contents r' = drop n (ready_list contents r) \<and>
    length (rt_next_task r') \<le> length (rt_next_task r) \<and> drained batch r r'"
proof -
  obtain b1 n1 r1 b2 n2 r2 n3 where 1: "drain_loop pop_next n [] r = (b1, n1, r1)"
    and 2: "drain_loop (pop_remote Q) n1 b1 r1 = (b2, n2, r2)"
    and 3: "drain_loop pop_queue n2 b2 r2 = (batch, n3, r')"
    using assms by (auto simp: drain_ready_def split: prod.splits)
  note s1 = next_source.drain_loop_spec [OF 1] and s2 = remote_source.drain_loop_spec [OF 2]
    and s3 = queue_source.drain_loop_spec [OF 3]
  have "drained batch r r'"
    using drained_trans [OF drained_trans [of b1 r r1 "take n1 (contents (rt_remote r1))" r2]
        , of "take n2 (rt_queue r2)" r'] s1 s2 s3 by simp
  then show ?thesis
    using s1 s2 s3 by (simp add: ready_list_def)
qed

lemma ready_inv_drain:
  assumes "ready_inv contents r"
  shows "ready_inv contents (snd (drain_ready Q n r))"
proof -
  obtain batch r' where d: "drain_ready Q n r = (batch, r')"
    by (cases "drain_ready Q n r")
  note spec = drain_ready_spec [OF d]
  have "set (drop n (ready_list contents r)) =
      set (ready_list contents r) - set (take n (ready_list contents r))"
    using assms set_take_disj_set_drop_if_distinct [of "ready_list contents r" n n]
    by (subst (2) append_take_drop_id [of n, symmetric]) (auto simp: ready_inv_def simp del: append_take_drop_id)
  then show ?thesis
    using assms spec d by (auto simp: ready_inv_def drained_def)
qed

lemma ready_inv_complete: "ready_inv contents r \<Longrightarrow> ready_inv contents (complete_join Q j v r)"
  by (auto simp: complete_join_def Let_def split: option.split intro!: ready_inv_wake elim: ready_inv_cong)

lemma ready_inv_task_future_poll:
  assumes "ready_inv contents r"
  shows "ready_inv contents (fst (task_future_poll Q w f r))"
proof (cases f)
  case (SpawnFuture g j)
  have "ready_inv contents (r\<lparr>rt_polls := rt_polls r @ [j]\<rparr>)"
    using assms by (auto elim: ready_inv_cong)
  from ready_body.keeps_run_body [OF this, of w "poll_body g"] show ?thesis
    using assms SpawnFuture by (auto simp: ready_inv_complete split: prod.split sum.split)
next
  case (DetachedFuture g)
  then show ?thesis
    using ready_body.keeps_run_body [OF assms, of w "poll_body g"] by (auto split: prod.split sum.split)
qed

lemma ready_inv_poll_task:
  assumes "ready_inv contents r"
  shows "ready_inv contents (poll_task Q t r)"
  using ready_inv_task_future_poll [OF ready_inv_set_future [OF assms]] assms
  unfolding poll_task_def
  by (auto split: option.split prod.split intro!: ready_inv_set_future) (metis fst_conv)+

end

sublocale scheduler \<subseteq> ready: loop_invariant Q "ready_inv contents"
  by unfold_locales (auto simp: ready_inv_drain ready_inv_poll_task elim: ready_inv_cong)

subsection \<open>Join states\<close>

lemma output_inv_Some:
  "output_inv r \<Longrightarrow> rt_joins r j = Some st \<Longrightarrow>
     j < rt_njoins r \<and> (js_output st = Some v \<longleftrightarrow> (j, v) \<in> set (rt_done r) \<and> j \<notin> fst ` set (rt_joined r))"
  unfolding output_inv_def by (drule spec [of _ j]) simp

lemma output_inv_upd:
  assumes "output_inv r" and "rt_joins r j = Some st"
    and "rt_joins r' = (rt_joins r)(j \<mapsto> st')" "rt_njoins r' = rt_njoins r"
    and "\<And>v. js_output st' = Some v \<longleftrightarrow> (j, v) \<in> set (rt_done r') \<and> j \<notin> fst ` set (rt_joined r')"
    and "\<And>j' v. j' \<noteq> j \<Longrightarrow> (j', v) \<in> set (rt_done r') \<longleftrightarrow> (j', v) \<in> set (rt_done r)"
    and "\<And>j'. j' \<noteq> j \<Longrightarrow> j' \<in> fst ` set (rt_joined r') \<longleftrightarrow> j' \<in> fst ` set (rt_joined r)"
  shows "output_inv r'"
  unfolding output_inv_def
proof
  fix i
  show "case rt_joins r' i of None \<Rightarrow> rt_njoins r' \<le> i
    | Some st \<Rightarrow> i < rt_njoins r' \<and>
        (\<forall>v. js_output st = Some v \<longleftrightarrow> (i, v) \<in> set (rt_done r') \<and> i \<notin> fst ` set (rt_joined r'))"
    using assms output_inv_Some [OF assms(1,2)] assms(1) [unfolded output_inv_def, THEN spec, of i]
    by (cases "i = j") (simp_all split: option.splits)
qed

lemma output_inv_cong:
  assumes "rt_joins r' = rt_joins r" "rt_njoins r' = rt_njoins r" "rt_done r' = rt_done r"
    "rt_joined r' = rt_joined r"
  shows "output_inv r' = output_inv r"
  unfolding output_inv_def assms ..

lemma join_inv_cong:
  assumes "join_inv X r" "task_join r' = task_join r" "rt_njoins r' = rt_njoins r"
    "rt_done r' = rt_done r" "rt_joined r' = rt_joined r" "rt_joins r' = rt_joins r"
  shows "join_inv X r'"
  using assms(1) unfolding join_inv_def owner_inv_def done_inv_def output_inv_def assms(2-6) .

lemma join_inv_init: "join_inv {} (with_options Q n)"
  by (simp add: join_inv_def owner_inv_def done_inv_def output_inv_def with_options_def task_join_def)

lemma join_inv_wake: "join_inv X r \<Longrightarrow> join_inv X (wake Q fo w r)"
  by (erule join_inv_cong) simp_all

lemma join_inv_drain: "join_inv X r \<Longrightarrow> drained ts r r' \<Longrightarrow> join_inv X r'"
  by (erule join_inv_cong) (simp_all add: drained_def)

text \<open>A change of one join state that leaves its output alone.\<close>

lemma join_inv_set_join:
  assumes "join_inv X r" "rt_joins r j = Some st" "js_output st' = js_output st"
  shows "join_inv X (r\<lparr>rt_joins := (rt_joins r)(j \<mapsto> st')\<rparr>)"
proof -
  have "output_inv (r\<lparr>rt_joins := (rt_joins r)(j \<mapsto> st')\<rparr>)"
  proof (rule output_inv_upd [OF _ assms(2), where st' = st'])
    show "output_inv r"
      using assms(1) by (simp add: join_inv_def)
    from output_inv_Some [OF this assms(2)] assms(3)
    show "js_output st' = Some v \<longleftrightarrow> (j, v) \<in> set (rt_done (r\<lparr>rt_joins := (rt_joins r)(j \<mapsto> st')\<rparr>)) \<and>
        j \<notin> fst ` set (rt_joined (r\<lparr>rt_joins := (rt_joins r)(j \<mapsto> st')\<rparr>))" for v
      by simp
  qed simp_all
  then show ?thesis
    using assms(1) by (simp add: join_inv_def owner_inv_def done_inv_def)
qed

lemma join_inv_cancel:
  assumes "join_inv X r"
  shows "join_inv X (join_cancel j r)"
proof (cases "rt_joins r j")
  case None
  then show ?thesis
    using assms by (simp add: join_cancel_def fun_upd_idem)
next
  case (Some st)
  then show ?thesis
    using join_inv_set_join [OF assms Some, of "st\<lparr>js_canceled := True\<rparr>"] by (simp add: join_cancel_def)
qed

lemma join_inv_take:
  assumes inv: "join_inv X r" and st: "rt_joins r j = Some st" and v: "js_output st = Some v"
  shows "join_inv X (r\<lparr>rt_joins := (rt_joins r)(j \<mapsto> st\<lparr>js_output := None\<rparr>),
                       rt_joined := rt_joined r @ [(j, v)]\<rparr>)" (is "join_inv X ?r")
proof -
  have d: "(j, v) \<in> set (rt_done r)" "j \<notin> fst ` set (rt_joined r)"
    using output_inv_Some [OF _ st, of v] inv v by (simp_all add: join_inv_def)
  have "output_inv ?r"
    by (rule output_inv_upd [OF _ st, where st' = "st\<lparr>js_output := None\<rparr>"])
      (use inv in \<open>simp_all add: join_inv_def\<close>)
  moreover have "done_inv ?r"
    using inv d by (auto simp: join_inv_def done_inv_def)
  ultimately show ?thesis
    using inv by (simp add: join_inv_def owner_inv_def)
qed

lemma join_inv_join_poll:
  assumes "join_inv X r"
  shows "join_inv X (fst (join_poll j w r))"
  using assms by (auto simp: join_poll_def join_inv_take join_inv_set_join split: option.split)

lemma join_inv_complete:
  assumes inv: "join_inv (insert j X) r" and "j \<notin> X"
  shows "join_inv X (complete_join Q j v r)"
proof -
  have "j < rt_njoins r" and fresh: "j \<notin> fst ` set (rt_done r)"
    using inv by (auto simp: join_inv_def owner_inv_def)
  then obtain st where st: "rt_joins r j = Some st"
    using inv by (auto simp: join_inv_def output_inv_def dest!: spec [of _ j] split: option.splits)
  let ?r = "r\<lparr>rt_joins := (rt_joins r)(j \<mapsto> st\<lparr>js_output := Some v, js_waker := None\<rparr>),
              rt_done := rt_done r @ [(j, v)]\<rparr>"
  have "j \<notin> fst ` set (rt_joined r)"
    using inv fresh by (auto simp: join_inv_def done_inv_def)
  then have "output_inv ?r"
    by - (rule output_inv_upd [OF _ st, where st' = "st\<lparr>js_output := Some v, js_waker := None\<rparr>"],
      use inv fresh in \<open>auto simp: join_inv_def rev_image_eqI\<close>)
  moreover have "done_inv ?r"
    using inv fresh \<open>j < rt_njoins r\<close> by (auto simp: join_inv_def done_inv_def)
  moreover have "owner_inv X ?r"
    using inv \<open>j \<notin> X\<close> by (auto simp: join_inv_def owner_inv_def)
  ultimately have "join_inv X ?r"
    by (simp add: join_inv_def)
  then show ?thesis
    using st by (auto simp: complete_join_def Let_def split: option.split intro!: join_inv_wake)
qed

lemma task_join_new_task:
  "task_join (new_task f r) =
     (task_join r)(rt_ntasks r := (case f of SpawnFuture g j \<Rightarrow> Some j | DetachedFuture g \<Rightarrow> None))"
  by (auto simp: fun_eq_iff new_task_def enqueue_def task_join_def split: task_future.split)

lemma new_task_frame [simp]:
  "rt_joins (new_task f r) = rt_joins r" "rt_njoins (new_task f r) = rt_njoins r"
  "rt_done (new_task f r) = rt_done r" "rt_joined (new_task f r) = rt_joined r"
  "rt_polls (new_task f r) = rt_polls r" "rt_batch_size (new_task f r) = rt_batch_size r"
  by (simp_all add: new_task_def enqueue_def)

lemma join_inv_detached: "join_inv X r \<Longrightarrow> join_inv X (spawn_detached f r)"
  using output_inv_cong [of "spawn_detached f r" r]
  by (auto simp: join_inv_def owner_inv_def done_inv_def spawn_detached_def task_join_new_task
      split: if_splits)

lemma join_inv_spawn:
  assumes "join_inv X r"
  shows "join_inv X (fst (spawn f r))"
proof -
  have o: "owner_inv X r" and d: "done_inv r" and u: "output_inv r"
    using assms by (simp_all add: join_inv_def)
  have "rt_njoins r \<notin> fst ` set (rt_done r)"
    using d by (auto simp: done_inv_def)
  have "output_inv (fst (spawn f r))"
    unfolding output_inv_def
  proof
    fix i
    show "case rt_joins (fst (spawn f r)) i of None \<Rightarrow> rt_njoins (fst (spawn f r)) \<le> i
      | Some st \<Rightarrow> i < rt_njoins (fst (spawn f r)) \<and>
          (\<forall>v. js_output st = Some v \<longleftrightarrow>
             (i, v) \<in> set (rt_done (fst (spawn f r))) \<and> i \<notin> fst ` set (rt_joined (fst (spawn f r))))"
      using u [unfolded output_inv_def, THEN spec, of i] \<open>rt_njoins r \<notin> fst ` set (rt_done r)\<close>
      by (auto simp: spawn_def Let_def rev_image_eqI split: option.splits)
  qed
  moreover have "owner_inv X (fst (spawn f r))"
    using o \<open>rt_njoins r \<notin> fst ` set (rt_done r)\<close>
    by (fastforce simp: owner_inv_def spawn_def Let_def task_join_new_task split: if_splits)
  moreover have "done_inv (fst (spawn f r))"
    using d by (auto simp: done_inv_def spawn_def Let_def)
  ultimately show ?thesis
    by (simp add: join_inv_def)
qed

interpretation join_body: body_invariant Q "join_inv X"
  by unfold_locales
    (simp_all add: join_inv_wake join_inv_spawn join_inv_detached join_inv_join_poll join_inv_cancel)

lemma task_join_set_future:
  "task_join (set_future t f r) =
     (task_join r)(t := (if rt_tasks r t = None then None
                         else case f of Some (SpawnFuture g j) \<Rightarrow> Some j | _ \<Rightarrow> None))"
  by (auto simp: fun_eq_iff set_future_def task_join_def split: option.split)

lemma output_inv_set_future [simp]:
  "output_inv (set_future t f r) = output_inv r" "done_inv (set_future t f r) = done_inv r"
  by (rule output_inv_cong) (simp_all add: done_inv_def)

lemma join_inv_forget: "join_inv (insert j X) r \<Longrightarrow> join_inv X r"
  by (auto simp: join_inv_def owner_inv_def)

text \<open>Taking the future out of its slot, and putting it back.\<close>

lemma join_inv_take_future:
  assumes "join_inv X r" "task_join r t = Some j"
  shows "join_inv (insert j X) (set_future t None r)"
  using assms by (auto simp: join_inv_def owner_inv_def task_join_set_future)

lemma join_inv_put_future:
  assumes "join_inv (insert j X) r" "j \<notin> X"
  shows "join_inv X (set_future t (Some (SpawnFuture f j)) r)"
  using assms by (auto simp: join_inv_def owner_inv_def task_join_set_future)

lemma join_inv_no_future:
  assumes "join_inv X r" "\<And>g j. f \<noteq> Some (SpawnFuture g j)"
  shows "join_inv X (set_future t f r)"
proof -
  have "task_join (set_future t f r) = (task_join r)(t := None)"
    using assms(2) by (auto simp: task_join_set_future split: option.split task_future.split)
  then show ?thesis
    using assms(1) by (auto simp: join_inv_def owner_inv_def)
qed

lemma join_inv_polls [simp]: "join_inv X (r\<lparr>rt_polls := p\<rparr>) = join_inv X r"
  using output_inv_cong [of "r\<lparr>rt_polls := p\<rparr>" r] by (simp add: join_inv_def owner_inv_def done_inv_def)

lemma join_inv_poll_spawned:
  assumes "join_inv (insert j X) r" "j \<notin> X"
    and "task_future_poll Q w (SpawnFuture f j) r = (r', res)"
  shows "case res of None \<Rightarrow> join_inv X r' | Some f' \<Rightarrow> join_inv X (set_future t res r')"
proof (cases "is_canceled r j")
  case True
  then show ?thesis
    using assms by (auto intro: join_inv_forget)
next
  case False
  obtain r1 out where run: "run_body Q w (poll_body f) (r\<lparr>rt_polls := rt_polls r @ [j]\<rparr>) = (r1, out)"
    by fastforce
  have "join_inv (insert j X) r1"
    using join_body.keeps_run_body [of "insert j X" "r\<lparr>rt_polls := rt_polls r @ [j]\<rparr>" Q w "poll_body f"]
      assms(1) run by simp
  then show ?thesis
    using assms(2,3) False run
    by (cases out) (auto intro: join_inv_complete join_inv_put_future)
qed

lemma join_inv_poll_task:
  assumes "join_inv {} r"
  shows "join_inv {} (poll_task Q t r)"
proof (cases "\<exists>k f. rt_tasks r t = Some k \<and> t_future k = Some f")
  case False
  then show ?thesis
    using assms by (auto simp: poll_task_def split: option.splits)
next
  case True
  then obtain k f where k: "rt_tasks r t = Some k" and f: "t_future k = Some f"
    by blast
  obtain r' res where p: "task_future_poll Q (TaskWaker t) f (set_future t None r) = (r', res)"
    by fastforce
  show ?thesis
  proof (cases f)
    case (SpawnFuture g j)
    have "join_inv {j} (set_future t None r)"
      using join_inv_take_future [OF assms, of t j] k f SpawnFuture by (simp add: task_join_def)
    from join_inv_poll_spawned [OF this, of Q "TaskWaker t" g r' res t] show ?thesis
      using p k f SpawnFuture by (auto simp: poll_task_def split: option.splits)
  next
    case (DetachedFuture g)
    have "join_inv {} (set_future t None r)"
      using assms by (rule join_inv_no_future) simp
    from join_body.keeps_run_body [OF this, of Q "TaskWaker t" "poll_body g"] show ?thesis
      using p k f DetachedFuture
      by (auto simp: poll_task_def intro: join_inv_no_future split: prod.splits sum.splits)
  qed
qed

subsection \<open>Cancellation\<close>

definition cancel_inv :: "nat \<Rightarrow> nat \<Rightarrow> ('v, 'q) runtime \<Rightarrow> bool" where
  "cancel_inv j n r \<longleftrightarrow> is_canceled r j \<and> j < rt_njoins r \<and> count_list (rt_polls r) j = n"

lemma cancel_inv_cong:
  "cancel_inv j n r \<Longrightarrow> rt_joins r' = rt_joins r \<Longrightarrow> rt_njoins r' = rt_njoins r \<Longrightarrow>
     rt_polls r' = rt_polls r \<Longrightarrow> cancel_inv j n r'"
  by (simp add: cancel_inv_def is_canceled_def)

lemma cancel_inv_wake: "cancel_inv j n r \<Longrightarrow> cancel_inv j n (wake Q fo w r)"
  by (erule cancel_inv_cong) simp_all

lemma cancel_inv_complete: "cancel_inv j n r \<Longrightarrow> cancel_inv j n (complete_join Q i v r)"
  by (auto simp: complete_join_def Let_def split: option.split intro!: cancel_inv_wake)
    (auto simp: cancel_inv_def is_canceled_def split: option.splits if_splits)

lemma cancel_inv_drain: "cancel_inv j n r \<Longrightarrow> drained ts r r' \<Longrightarrow> cancel_inv j n r'"
  by (erule cancel_inv_cong) (simp_all add: drained_def)

lemma cancel_inv_set_future: "cancel_inv j n r \<Longrightarrow> cancel_inv j n (set_future t f r)"
  by (erule cancel_inv_cong) simp_all

interpretation cancel_body: body_invariant Q "cancel_inv j n"
proof
  fix r f i w assume inv: "cancel_inv j n r"
  show "cancel_inv j n (fst (spawn f r))" "cancel_inv j n (fst (join_poll i w r))"
    "cancel_inv j n (join_cancel i r)"
    using inv by (auto simp: spawn_def Let_def join_poll_def join_cancel_def cancel_inv_def is_canceled_def
        split: option.splits)
  show "cancel_inv j n (spawn_detached f r)"
    using inv by (rule cancel_inv_cong) (simp_all add: spawn_detached_def)
qed (rule cancel_inv_wake)

lemma cancel_inv_poll:
  assumes "cancel_inv j n r"
  shows "cancel_inv j n (fst (task_future_poll Q w f r))"
proof (cases f)
  case (SpawnFuture g i)
  have "cancel_inv j n (r\<lparr>rt_polls := rt_polls r @ [i]\<rparr>)" if "\<not> is_canceled r i"
    using assms that by (auto simp: cancel_inv_def is_canceled_def)
  from cancel_body.keeps_run_body [OF this, of Q w "poll_body g"] show ?thesis
    using assms SpawnFuture by (auto simp: cancel_inv_complete split: prod.split sum.split)
next
  case (DetachedFuture g)
  then show ?thesis
    using cancel_body.keeps_run_body [OF assms, of Q w "poll_body g"] by (auto split: prod.split sum.split)
qed

lemma cancel_inv_poll_task:
  assumes "cancel_inv j n r"
  shows "cancel_inv j n (poll_task Q t r)"
  using cancel_inv_poll [OF cancel_inv_set_future [OF assms]] assms
  unfolding poll_task_def
  by (auto split: option.split prod.split intro!: cancel_inv_set_future) (metis fst_conv)+

context scheduler
begin

lemma drain_ready_drained: "drained (fst (drain_ready Q n r)) r (snd (drain_ready Q n r))"
  by (rule drain_ready_spec [THEN conjunct2, THEN conjunct2, THEN conjunct2]) simp

end

sublocale scheduler \<subseteq> join: loop_invariant Q "join_inv {}"
  by unfold_locales
    (auto intro: join_inv_poll_task join_inv_drain [OF _ drain_ready_drained] elim: join_inv_cong)

sublocale scheduler \<subseteq> cancel: loop_invariant Q "cancel_inv j n" for j n
  by unfold_locales
    (auto intro: cancel_inv_poll_task cancel_inv_drain [OF _ drain_ready_drained] elim: cancel_inv_cong)

subsection \<open>Runtimes in use\<close>

text \<open>Any sequence of uses of a runtime made by \<open>Runtime::with_options\<close>.\<close>

inductive in_use :: "('q, nat) queue_ops \<Rightarrow> nat \<Rightarrow> ('v, 'q) runtime \<Rightarrow> bool" for Q n where
  use_new: "in_use Q n (with_options Q n)"
| use_spawn: "in_use Q n r \<Longrightarrow> in_use Q n (fst (spawn f r))"
| use_spawn_detached: "in_use Q n r \<Longrightarrow> in_use Q n (spawn_detached f r)"
| use_wake: "in_use Q n r \<Longrightarrow> in_use Q n (wake Q foreign w r)"
| use_cancel: "in_use Q n r \<Longrightarrow> in_use Q n (join_cancel j r)"
| use_block_on: "in_use Q n r \<Longrightarrow> in_use Q n (fst (block_on Q es root r))"

context scheduler
begin

lemma in_use_ready_inv: "in_use Q n r \<Longrightarrow> ready_inv contents r"
  by (induction rule: in_use.induct)
    (auto intro: ready_inv_init ready_inv_spawn ready_body.keeps_detached ready_inv_wake
      ready_inv_cancel ready.keeps_block_on)

lemma cancel_block_on: "cancel_inv j n r \<Longrightarrow> cancel_inv j n (fst (block_on Q es root r))"
  by (rule cancel.keeps_block_on)

lemma in_use_join_inv: "in_use Q n r \<Longrightarrow> join_inv {} r"
  by (induction rule: in_use.induct)
    (auto intro: join_inv_init join_inv_spawn join_inv_detached join_inv_wake
      join_inv_cancel join.keeps_block_on)

end

lemma schedulerI: "seg_queue Q c \<Longrightarrow> scheduler Q c"
  by (simp add: scheduler_def)

interpretation ls_sched: scheduler list_queue "\<lambda>q. q"
  by (rule schedulerI) unfold_locales

subsection \<open>Example futures\<close>

text \<open>A future that never completes and one that wakes its own task at every poll.\<close>

primcorec idle :: "'v fut" where
  "poll_body idle = map_body (\<lambda>_. idle) (Pend ())"

primcorec spin :: "nat \<Rightarrow> 'v fut" where
  "poll_body (spin t) = map_body spin (Wake (TaskWaker t) (Pend t))"

lemma poll_body_idle [simp]: "poll_body idle = Pend idle"
  by (subst idle.sel) simp

lemma poll_body_spin [simp]: "poll_body (spin t) = Wake (TaskWaker t) (Pend (spin t))"
  by (subst spin.sel) simp

definition quiet :: loop_env where
  "quiet = \<lparr>env_timer = [], env_remote = [], env_late = [], env_timer2 = [], env_wait = [], env_flush = []\<rparr>"

text \<open>A root future that spawns a task with output 7, run for one iteration.\<close>

definition one_task :: "(nat, nat list) runtime" where
  "one_task = fst (block_on list_queue [quiet] (Fut (Spawn (Fut (Done 7)) (\<lambda>j. Pend idle)))
     (with_options list_queue 4))"

lemma one_task_in_use: "in_use list_queue 4 one_task"
  unfolding one_task_def by (intro use_block_on use_new)

lemmas sched_eval = block_on_def block_on_iter_def with_options_def quiet_def wake_all_def spawn_def
  spawn_detached_def new_task_def enqueue_def drain_ready_def pop_next_def pop_remote_def pop_queue_def
  mark_dequeued_def set_queued_def set_future_def poll_task_def is_canceled_def complete_join_def
  enqueue_if_needed_def is_queued_def NEXT_TASK_INLINE_CAP_def list_queue_def numeral_eq_Suc

lemma one_task_eval: "rt_done one_task = [(0, 7)]" "rt_joined one_task = []"
  "rt_polls one_task = [0]" "rt_tasks one_task 0 = Some \<lparr>t_future = None, t_queued = False\<rparr>"
  by (simp_all add: one_task_def sched_eval)

text \<open>Two tasks on a runtime with batch size 1: the first wakes itself at every poll.\<close>

definition starving_root :: "'v fut \<Rightarrow> 'v fut" where
  "starving_root f = Fut (SpawnDetached (spin 0) (SpawnDetached f (Pend idle)))"

definition starving :: "'v fut \<Rightarrow> ('v, nat list) runtime" where
  "starving f = fst (block_on list_queue [quiet] (starving_root f) (with_options list_queue 1))"

lemma starving_first:
  "block_on list_queue (quiet # es) (starving_root f) (with_options list_queue 1) =
     block_on_loop list_queue es idle (starving f)"
  by (simp add: starving_def starving_root_def sched_eval)

lemma starving_iter: "block_on_iter list_queue quiet idle (starving f) = (starving f, Inr idle)"
  by (simp add: starving_def starving_root_def sched_eval)

lemma starving_loop: "block_on_loop list_queue (replicate n quiet) idle (starving f) = (starving f, Inr idle)"
  by (induction n) (simp_all add: starving_iter)

lemma starving_eval:
  "rt_queue (starving f) = [1]" "rt_next_task (starving f) = [0]"
  "rt_tasks (starving f) 1 = Some \<lparr>t_future = Some (DetachedFuture f), t_queued = True\<rparr>"
  by (simp_all add: starving_def starving_root_def sched_eval)

subsection \<open>Properties\<close>

text \<open>
  C13: however a runtime is used, its ready queues hold every task whose \<open>queued\<close> flag is set exactly
  once and no other task, and the inline queue never holds more than \<open>NEXT_TASK_INLINE_CAP\<close> tasks.
\<close>
theorem ready_queues_consistent:
  assumes "seg_queue Q c" and "in_use Q n r"
  shows "distinct (rt_next_task r @ c (rt_remote r) @ rt_queue r) \<and>
    set (rt_next_task r @ c (rt_remote r) @ rt_queue r) = {t. is_queued r t} \<and>
    length (rt_next_task r) \<le> NEXT_TASK_INLINE_CAP"
  using scheduler.in_use_ready_inv [OF schedulerI [OF assms(1)] assms(2)]
  by (simp add: ready_inv_def ready_list_def)

theorem ready_queues_consistent_witness:
  "is_queued (starving (Fut (Done (0 :: nat)))) 0 \<and> is_queued (starving (Fut (Done (0 :: nat)))) 1"
proof -
  have "in_use list_queue 1 (starving (Fut (Done (0 :: nat))))"
    unfolding starving_def by (intro use_block_on use_new)
  from ready_queues_consistent [OF lq.seg_queue_axioms this] show ?thesis
    by (auto simp: starving_eval)
qed

text \<open>
  C14: \<open>drain_ready\<close> takes the first \<open>budget\<close> tasks of the inline queue, then the remote queue, then the
  main queue, in their order; it leaves the others in place, clears the \<open>queued\<close> flag of the taken
  tasks only, and changes no join state. With a budget above the inline capacity plus the remote
  queue it reaches the head of the main queue.
\<close>
theorem drain_ready_exact:
  assumes "seg_queue Q c" and "in_use Q n r" and "drain_ready Q budget r = (batch, r')"
  shows "batch = take budget (rt_next_task r @ c (rt_remote r) @ rt_queue r) \<and>
    rt_next_task r' @ c (rt_remote r') @ rt_queue r' =
      drop budget (rt_next_task r @ c (rt_remote r) @ rt_queue r) \<and>
    (\<forall>t. is_queued r' t \<longleftrightarrow> is_queued r t \<and> t \<notin> set batch) \<and> rt_joins r' = rt_joins r \<and>
    (rt_queue r \<noteq> [] \<longrightarrow> NEXT_TASK_INLINE_CAP + length (c (rt_remote r)) < budget \<longrightarrow>
       hd (rt_queue r) \<in> set batch)"
proof -
  note sched = schedulerI [OF assms(1)]
  note spec = scheduler.drain_ready_spec [OF sched assms(3)]
  have "hd (rt_queue r) \<in> set batch"
    if ne: "rt_queue r \<noteq> []" and big: "NEXT_TASK_INLINE_CAP + length (c (rt_remote r)) < budget"
  proof -
    have "0 < budget - length (rt_next_task r) - length (c (rt_remote r))"
      using big scheduler.in_use_ready_inv [OF sched assms(2)] by (simp add: ready_inv_def)
    then obtain m where "budget - length (rt_next_task r) - length (c (rt_remote r)) = Suc m"
      by (metis Suc_pred)
    then show ?thesis
      using ne spec by (cases "rt_queue r") (simp_all add: ready_list_def)
  qed
  then show ?thesis
    using spec by (simp add: ready_list_def drained_def)
qed

theorem drain_ready_exact_witness:
  "fst (drain_ready list_queue 1 (starving (Fut (Done (0 :: nat))))) = [0]"
proof -
  have "in_use list_queue 1 (starving (Fut (Done (0 :: nat))))"
    unfolding starving_def by (intro use_block_on use_new)
  from drain_ready_exact [OF lq.seg_queue_axioms this prod.collapse [symmetric], of 1] show ?thesis
    by (simp add: starving_eval)
qed

text \<open>
  C15: a join handle hands out at most one output, the one its task produced; an output that was
  produced and not handed out yet is what the next poll of the handle returns.
\<close>
theorem join_output_once:
  assumes "seg_queue Q c" and "in_use Q n r"
  shows "distinct (map fst (rt_done r)) \<and> distinct (map fst (rt_joined r)) \<and>
    set (rt_joined r) \<subseteq> set (rt_done r) \<and>
    (\<forall>j v w. (j, v) \<in> set (rt_done r) \<longrightarrow> j \<notin> fst ` set (rt_joined r) \<longrightarrow> snd (join_poll j w r) = Some v)"
proof -
  note inv = scheduler.in_use_join_inv [OF schedulerI [OF assms(1)] assms(2)]
  have "snd (join_poll j w r) = Some v"
    if d: "(j, v) \<in> set (rt_done r)" "j \<notin> fst ` set (rt_joined r)" for j v w
  proof -
    have "j < rt_njoins r"
      using inv d by (auto simp: join_inv_def done_inv_def)
    then obtain st where st: "rt_joins r j = Some st"
      using inv [unfolded join_inv_def output_inv_def] by (cases "rt_joins r j") (auto dest!: spec [of _ j])
    then show ?thesis
      using output_inv_Some [OF _ st, of v] inv d by (simp add: join_inv_def join_poll_def)
  qed
  then show ?thesis
    using inv by (simp add: join_inv_def done_inv_def)
qed

theorem join_output_once_witness: "snd (join_poll 0 RootWaker one_task) = Some 7"
  using join_output_once [OF lq.seg_queue_axioms one_task_in_use] by (simp add: one_task_eval)

text \<open>
  C16: once its handle is cancelled, a task's future is never polled again, through any later call of
  \<open>block_on\<close> whatever the other tasks do.
\<close>
theorem canceled_task_not_polled:
  assumes "seg_queue Q c" and "in_use Q n r" and "is_canceled r j"
  shows "is_canceled (fst (block_on Q es root r)) j \<and>
    count_list (rt_polls (fst (block_on Q es root r))) j = count_list (rt_polls r) j"
proof -
  note sched = schedulerI [OF assms(1)]
  obtain st where "rt_joins r j = Some st"
    using assms(3) by (auto simp: is_canceled_def split: option.splits)
  then have "j < rt_njoins r"
    using scheduler.in_use_join_inv [OF sched assms(2)] output_inv_Some [of r j st] by (auto simp: join_inv_def)
  then have "cancel_inv j (count_list (rt_polls r) j) r"
    using assms(3) by (simp add: cancel_inv_def)
  from scheduler.cancel_block_on [OF sched this] show ?thesis
    by (simp add: cancel_inv_def)
qed

theorem canceled_task_not_polled_witness:
  "count_list (rt_polls (fst (block_on list_queue [quiet, quiet] idle
     (join_cancel 0 (fst (spawn (spin 0 :: nat fut) (with_options list_queue 4))))))) 0 = 0"
proof -
  let ?r = "join_cancel 0 (fst (spawn (spin 0 :: nat fut) (with_options list_queue 4)))"
  have u: "in_use list_queue 4 ?r"
    by (intro use_cancel use_spawn use_new)
  have "is_canceled ?r 0" "rt_polls ?r = []"
    by (simp_all add: is_canceled_def join_cancel_def spawn_def with_options_def new_task_def enqueue_def Let_def)
  with canceled_task_not_polled [OF lq.seg_queue_axioms u] show ?thesis
    by simp
qed

text \<open>
  With a batch size of 1 a task in the main queue is starved: when the task in the inline queue
  wakes itself at every poll, then after any number of iterations the other task is still queued
  with the future it was spawned with.
\<close>
lemma small_batch_starves:
  "rt_queue (fst (block_on list_queue (replicate (Suc n) quiet) (starving_root f)
     (with_options list_queue 1))) = [1] \<and>
   rt_tasks (fst (block_on list_queue (replicate (Suc n) quiet) (starving_root f)
     (with_options list_queue 1))) 1 = Some \<lparr>t_future = Some (DetachedFuture f), t_queued = True\<rparr>"
  unfolding replicate_Suc starving_first starving_loop by (simp add: starving_eval [simplified])

end
