(* ===== verification/Driver_Types.thy ===== *)
theory Driver_Types
  imports Slab_Interface
begin

text \<open>
  What the drivers share (\<open>driver/mod.rs\<close>, \<open>fd_inner.rs\<close>): registration modes, interests, the
  result of a submission, the part of an I/O handle a driver reads, and the update of a waiter slot.
  A raw file descriptor and the \<open>i32\<close> result of a completion are integers; a \<open>Token\<close> is its number.
\<close>

datatype registration_mode = PollMode | CompletionMode

text \<open>\<open>mio::Interest\<close>, a non-empty set of directions.\<close>

datatype interest = READABLE | WRITABLE | READ_WRITE

fun is_readable :: "interest \<Rightarrow> bool" where
  "is_readable READABLE = True"
| "is_readable WRITABLE = False"
| "is_readable READ_WRITE = True"

fun is_writable :: "interest \<Rightarrow> bool" where
  "is_writable READABLE = False"
| "is_writable WRITABLE = True"
| "is_writable READ_WRITE = True"

datatype completion_io_result = CompletionOk int | Retry nat | SubmitErr io_error

record raw_handle =
  h_handle :: int
  h_token :: nat
  h_interest :: interest
  h_mode :: registration_mode

definition unsupported_completion_error :: io_error where
  "unsupported_completion_error = Custom Unsupported"

definition unsupported_poll_error :: io_error where
  "unsupported_poll_error = Custom Unsupported"

definition update_waiter :: "waker option \<Rightarrow> waker \<Rightarrow> waker option" where
  "update_waiter slot w = (if slot = Some w then slot else Some w)"

lemma update_waiter_Some [simp]: "update_waiter slot w = Some w"
  by (simp add: update_waiter_def)

end
