(* ===== verification/Uring.thy ===== *)
theory Uring
  imports Driver_Types "HOL-Library.Multiset"
begin

text \<open>
  The io_uring driver, \<open>driver/uring.rs\<close>.

  The crate \<open>io_uring\<close> and the kernel behind it are a parameter, a record of type \<open>ring_ops\<close>; the
  two slabs of the driver's state are \<open>slab_ops\<close>. The locale \<open>ring\<close> states what the driver relies on:
  every pushed entry is in flight until exactly one completion with its \<open>user_data\<close> is taken from
  the completion queue. \<open>list_ring\<close> at the end of the definitions is an instance that completes an
  entry when it is submitted.

  Every operation of the driver returns the new driver state; \<open>collect_completions\<close> also returns
  the wakers it wakes. A panic of the code is a value.
\<close>

subsection \<open>The ring\<close>

datatype 'o sqe =
    PollAdd int u32 u64
  | EventfdRead u64
  | TimeoutEntry "nat option" u64
  | OpEntry 'o u64

fun sqe_user_data :: "'o sqe \<Rightarrow> u64" where
  "sqe_user_data (PollAdd fd pmask key) = key"
| "sqe_user_data (EventfdRead key) = key"
| "sqe_user_data (TimeoutEntry t key) = key"
| "sqe_user_data (OpEntry op key) = key"

record cqe =
  cqe_user_data :: u64
  cqe_result :: int

record ('r, 'o) ring_ops =
  sq_is_full :: "'r \<Rightarrow> bool"
  sq_is_empty :: "'r \<Rightarrow> bool"
  sq_push :: "'o sqe \<Rightarrow> 'r \<Rightarrow> 'r option"
  ring_submit :: "'r \<Rightarrow> 'r \<times> nat io_result"
  ring_submit_and_wait :: "'r \<Rightarrow> 'r \<times> nat io_result"
  ring_submit_with_timeout :: "nat \<Rightarrow> 'r \<Rightarrow> 'r \<times> nat io_result"
  cq_take :: "'r \<Rightarrow> cqe list \<times> 'r"
  ring_sync_cancel :: "int \<Rightarrow> 'r \<Rightarrow> 'r"

subsection \<open>Driver state\<close>

record poll_registration =
  pr_fd :: int
  pr_mask :: u32
  pr_waiter_read :: "waker option"
  pr_read_armed :: bool
  pr_waiter_write :: "waker option"
  pr_write_armed :: bool

datatype handle_registration = RegCompletion | RegPoll poll_registration

record 'd completion =
  c_waiter :: "waker option"
  c_completed :: "int option"
  c_ignored :: "'d option"

record ('r, 's, 'c) uring =
  u_ring :: 'r
  u_registrations :: 's
  u_completions :: 'c
  u_pending_submissions :: bool
  u_ext_arg :: bool

text \<open>The external operations the driver is built on.\<close>

record ('r, 's, 'c, 'd, 'o) uring_env =
  x_ring :: "('r, 'o) ring_ops"
  x_regs :: "('s, handle_registration) slab_ops"
  x_comps :: "('c, 'd completion) slab_ops"

subsection \<open>Keys\<close>

definition KEY_KIND_BITS :: nat where "KEY_KIND_BITS = 1"
definition KEY_KIND_MASK :: u64 where "KEY_KIND_MASK = push_bit KEY_KIND_BITS 1 - 1"
definition POLL_KEY_KIND :: u8 where "POLL_KEY_KIND = 0"
definition COMPLETION_KEY_KIND :: u8 where "COMPLETION_KEY_KIND = 1"
definition INTERRUPT_KEY :: u64 where "INTERRUPT_KEY = - 1"
definition TIMEOUT_KEY :: u64 where "TIMEOUT_KEY = - 2"

definition encode_completion_key :: "nat \<Rightarrow> u64" where
  "encode_completion_key token = push_bit KEY_KIND_BITS (of_nat token) OR ucast COMPLETION_KEY_KIND"

definition encode_poll_key :: "nat \<Rightarrow> u64" where
  "encode_poll_key token = push_bit KEY_KIND_BITS (of_nat token) OR ucast POLL_KEY_KIND"

definition decode_token :: "u64 \<Rightarrow> nat" where
  "decode_token key = unat (drop_bit KEY_KIND_BITS key)"

definition decode_key_kind :: "u64 \<Rightarrow> u8" where
  "decode_key_kind key = ucast (key AND KEY_KIND_MASK)"

subsection \<open>Poll masks\<close>

definition POLLIN :: u32 where "POLLIN = 1"
definition POLLOUT :: u32 where "POLLOUT = 4"

definition interest_to_poll_mask :: "interest \<Rightarrow> u32" where
  "interest_to_poll_mask i =
     (let pmask = 0;
          pmask = (if is_readable i then pmask OR POLLIN else pmask);
          pmask = (if is_writable i then pmask OR POLLOUT else pmask)
      in pmask)"

text \<open>\<open>poll_mask as i16 & libc::POLLOUT != 0\<close> and the same for \<open>POLLIN\<close>.\<close>

definition mask_write :: "u32 \<Rightarrow> bool" where
  "mask_write pmask \<longleftrightarrow> (ucast pmask :: u16) AND ucast POLLOUT \<noteq> 0"

definition mask_read :: "u32 \<Rightarrow> bool" where
  "mask_read pmask \<longleftrightarrow> (ucast pmask :: u16) AND ucast POLLIN \<noteq> 0"

subsection \<open>Submission\<close>

definition EBUSY :: int where "EBUSY = 16"
definition ETIME :: int where "ETIME = 62"

definition submitter_call_result :: "nat io_result \<Rightarrow> unit io_result" where
  "submitter_call_result res =
     (case res of
        Inr n \<Rightarrow> Inr ()
      | Inl err \<Rightarrow>
          if raw_os_error err = Some EBUSY then Inr ()
          else if raw_os_error err = Some ETIME then Inr ()
          else Inl err)"

text \<open>\<open>if ring.submission().is_full() { submitter_call_result(ring.submit())?; }\<close> and the push.\<close>

definition push_ring :: "('r, 'o) ring_ops \<Rightarrow> 'o sqe \<Rightarrow> 'r \<Rightarrow> 'r \<times> unit io_result" where
  "push_ring R entry r =
     (case (if sq_is_full R r
            then (case ring_submit R r of (r, res) \<Rightarrow> (r, submitter_call_result res))
            else (r, Inr ())) of
        (r, Inl err) \<Rightarrow> (r, Inl err)
      | (r, Inr _) \<Rightarrow>
          (case sq_push R entry r of
             None \<Rightarrow> (r, Inl (Custom Other))
           | Some r \<Rightarrow> (r, Inr ())))"

definition push_entry ::
  "('r, 's, 'c, 'd, 'o) uring_env \<Rightarrow> 'o sqe \<Rightarrow> ('r, 's, 'c) uring \<Rightarrow> ('r, 's, 'c) uring \<times> unit io_result" where
  "push_entry X entry u =
     (case push_ring (x_ring X) entry (u_ring u) of
        (r, Inl err) \<Rightarrow> (u\<lparr>u_ring := r\<rparr>, Inl err)
      | (r, Inr _) \<Rightarrow> (u\<lparr>u_ring := r, u_pending_submissions := True\<rparr>, Inr ()))"

definition push_poll_add ::
  "('r, 's, 'c, 'd, 'o) uring_env \<Rightarrow> nat \<Rightarrow> int \<Rightarrow> u32 \<Rightarrow> ('r, 's, 'c) uring \<Rightarrow>
   ('r, 's, 'c) uring \<times> unit io_result" where
  "push_poll_add X token fd pmask u = push_entry X (PollAdd fd pmask (encode_poll_key token)) u"

text \<open>\<open>None\<close> is the panic of a failed push.\<close>

definition submit_interrupt ::
  "('r, 's, 'c, 'd, 'o) uring_env \<Rightarrow> ('r, 's, 'c) uring \<Rightarrow> ('r, 's, 'c) uring option" where
  "submit_interrupt X u =
     (case push_entry X (EventfdRead INTERRUPT_KEY) u of
        (u, Inl err) \<Rightarrow> None
      | (u, Inr _) \<Rightarrow> Some u)"

definition uring_new ::
  "('r, 's, 'c, 'd, 'o) uring_env \<Rightarrow> int io_result \<Rightarrow> 'r io_result \<Rightarrow> bool \<Rightarrow>
   (('r, 's, 'c) uring option) io_result" where
  "uring_new X eventfd ring ext_arg =
     (case eventfd of
        Inl err \<Rightarrow> Inl err
      | Inr fd \<Rightarrow>
          (case ring of
             Inl err \<Rightarrow> Inl err
           | Inr r \<Rightarrow>
               Inr (submit_interrupt X
                 \<lparr>u_ring = r, u_registrations = slab_new (x_regs X), u_completions = slab_new (x_comps X),
                  u_pending_submissions = False, u_ext_arg = ext_arg\<rparr>)))"

subsection \<open>Completions\<close>

text \<open>A completion of a poll: which waiter it takes depends on the registration's current pmask.\<close>

definition complete_poll :: "poll_registration \<Rightarrow> poll_registration \<times> waker option" where
  "complete_poll p =
     (if mask_write (pr_mask p)
      then (let p1 = p\<lparr>pr_write_armed := False\<rparr>;
                p2 = (if mask_read (pr_mask p)
                      then p1\<lparr>pr_read_armed := False, pr_waiter_read := None\<rparr> else p1)
            in (p2\<lparr>pr_waiter_write := None\<rparr>, pr_waiter_write p2))
      else (p\<lparr>pr_read_armed := False, pr_waiter_read := None\<rparr>, pr_waiter_read p))"

record ('s, 'c) drain =
  dr_regs :: 's
  dr_comps :: 'c
  dr_wakers :: "waker list"
  dr_interrupt :: bool

definition push_waker :: "waker option \<Rightarrow> ('s, 'c) drain \<Rightarrow> ('s, 'c) drain" where
  "push_waker w a = (case w of None \<Rightarrow> a | Some w \<Rightarrow> a\<lparr>dr_wakers := dr_wakers a @ [w]\<rparr>)"

definition drain_cqe ::
  "('r, 's, 'c, 'd, 'o) uring_env \<Rightarrow> cqe \<Rightarrow> ('s, 'c) drain \<Rightarrow> ('s, 'c) drain" where
  "drain_cqe X e a =
     (let key = cqe_user_data e; result = cqe_result e in
      if key = INTERRUPT_KEY then a\<lparr>dr_interrupt := True\<rparr>
      else if key = TIMEOUT_KEY then a
      else
        let token = decode_token key in
        if decode_key_kind key = POLL_KEY_KIND
        then (case slab_get (x_regs X) (dr_regs a) token of
                Some (RegPoll p) \<Rightarrow>
                  (case complete_poll p of (p', w) \<Rightarrow>
                     push_waker w (a\<lparr>dr_regs := slab_set (x_regs X) token (RegPoll p') (dr_regs a)\<rparr>))
              | _ \<Rightarrow> a)
        else (case slab_get (x_comps X) (dr_comps a) token of
                Some c \<Rightarrow>
                  (let comps = slab_set (x_comps X) token
                         (c\<lparr>c_completed := Some result, c_waiter := None\<rparr>) (dr_comps a);
                       comps = (if c_ignored c \<noteq> None then slab_remove (x_comps X) token comps else comps)
                   in push_waker (c_waiter c) (a\<lparr>dr_comps := comps\<rparr>))
              | None \<Rightarrow> a))"

definition drain_cq ::
  "('r, 's, 'c, 'd, 'o) uring_env \<Rightarrow> cqe list \<Rightarrow> 's \<Rightarrow> 'c \<Rightarrow> ('s, 'c) drain" where
  "drain_cq X cqes s c =
     fold (drain_cqe X) cqes \<lparr>dr_regs = s, dr_comps = c, dr_wakers = [], dr_interrupt = False\<rparr>"

text \<open>The submission of \<open>collect_completions\<close>, with the timeout entry of kernels without \<open>ext_arg\<close>.\<close>

definition submit_phase ::
  "('r, 's, 'c, 'd, 'o) uring_env \<Rightarrow> bool \<Rightarrow> nat option \<Rightarrow> ('r, 's, 'c) uring \<Rightarrow> 'r \<times> unit io_result" where
  "submit_phase X wait_for_one timeout u =
     (let R = x_ring X; r = u_ring u in
      if \<not> wait_for_one
      then (case ring_submit R r of (r, res) \<Rightarrow> (r, submitter_call_result res))
      else (case timeout of
              None \<Rightarrow> (case ring_submit_and_wait R r of (r, res) \<Rightarrow> (r, submitter_call_result res))
            | Some t \<Rightarrow>
                if u_ext_arg u
                then (case ring_submit_with_timeout R t r of (r, res) \<Rightarrow> (r, submitter_call_result res))
                else (case push_ring R (TimeoutEntry timeout TIMEOUT_KEY) r of
                        (r, Inl err) \<Rightarrow> (r, Inl err)
                      | (r, Inr _) \<Rightarrow>
                          (case ring_submit_and_wait R r of (r, res) \<Rightarrow> (r, submitter_call_result res)))))"

datatype collect_result = CollectOk | CollectErr io_error | CollectPanic

definition finish_collect ::
  "('r, 's, 'c, 'd, 'o) uring_env \<Rightarrow> ('r, 's, 'c) uring \<Rightarrow> ('r, 's, 'c) uring \<times> waker list \<times> collect_result" where
  "finish_collect X u =
     (case cq_take (x_ring X) (u_ring u) of
        (cqes, r) \<Rightarrow>
          (let a = drain_cq X cqes (u_registrations u) (u_completions u);
               u = u\<lparr>u_ring := r, u_registrations := dr_regs a, u_completions := dr_comps a\<rparr>
           in if dr_interrupt a
              then (case submit_interrupt X u of
                      None \<Rightarrow> (u, dr_wakers a, CollectPanic)
                    | Some u \<Rightarrow> (u, dr_wakers a, CollectOk))
              else (u, dr_wakers a, CollectOk)))"

definition collect_completions ::
  "('r, 's, 'c, 'd, 'o) uring_env \<Rightarrow> bool \<Rightarrow> nat option \<Rightarrow> ('r, 's, 'c) uring \<Rightarrow>
   ('r, 's, 'c) uring \<times> waker list \<times> collect_result" where
  "collect_completions X wait_for_one timeout u =
     (if wait_for_one \<or> \<not> sq_is_empty (x_ring X) (u_ring u)
      then (case submit_phase X wait_for_one timeout u of
              (r, Inl err) \<Rightarrow> (u\<lparr>u_ring := r\<rparr>, [], CollectErr err)
            | (r, Inr _) \<Rightarrow>
                finish_collect X (u\<lparr>u_ring := r, u_pending_submissions := \<not> sq_is_empty (x_ring X) r\<rparr>))
      else finish_collect X (u\<lparr>u_pending_submissions := False\<rparr>))"

text \<open>\<open>flush\<close> and \<open>wait\<close>: an interrupted system call is ignored, another error is a panic (\<open>True\<close>).\<close>

definition collect_or_panic :: "collect_result \<Rightarrow> bool" where
  "collect_or_panic res =
     (case res of CollectOk \<Rightarrow> False | CollectErr err \<Rightarrow> err_kind err \<noteq> Interrupted | CollectPanic \<Rightarrow> True)"

definition uring_flush ::
  "('r, 's, 'c, 'd, 'o) uring_env \<Rightarrow> ('r, 's, 'c) uring \<Rightarrow> ('r, 's, 'c) uring \<times> waker list \<times> bool" where
  "uring_flush X u =
     (case collect_completions X False None u of (u, ws, res) \<Rightarrow> (u, ws, collect_or_panic res))"

definition uring_should_flush :: "('r, 's, 'c) uring \<Rightarrow> bool" where
  "uring_should_flush u = u_pending_submissions u"

definition uring_wait ::
  "('r, 's, 'c, 'd, 'o) uring_env \<Rightarrow> nat option \<Rightarrow> ('r, 's, 'c) uring \<Rightarrow>
   ('r, 's, 'c) uring \<times> waker list \<times> bool" where
  "uring_wait X timeout u =
     (case collect_completions X True timeout u of (u, ws, res) \<Rightarrow> (u, ws, collect_or_panic res))"

subsection \<open>Registrations\<close>

definition uring_register ::
  "('r, 's, 'c, 'd, 'o) uring_env \<Rightarrow> raw_handle \<Rightarrow> interest \<Rightarrow> registration_mode \<Rightarrow> ('r, 's, 'c) uring \<Rightarrow>
   ('r, 's, 'c) uring \<times> nat io_result" where
  "uring_register X h i mode u =
     (let token = slab_vacant_key (x_regs X) (u_registrations u);
          reg = (case mode of
                   CompletionMode \<Rightarrow> RegCompletion
                 | PollMode \<Rightarrow> RegPoll
                     \<lparr>pr_fd = h_handle h, pr_mask = interest_to_poll_mask i, pr_waiter_read = None,
                      pr_read_armed = False, pr_waiter_write = None, pr_write_armed = False\<rparr>)
      in (u\<lparr>u_registrations := slab_insert (x_regs X) reg (u_registrations u)\<rparr>, Inr token))"

definition uring_reregister ::
  "('r, 's, 'c, 'd, 'o) uring_env \<Rightarrow> raw_handle \<Rightarrow> interest \<Rightarrow> ('r, 's, 'c) uring \<Rightarrow>
   ('r, 's, 'c) uring \<times> unit io_result" where
  "uring_reregister X h i u =
     (case slab_get (x_regs X) (u_registrations u) (h_token h) of
        Some RegCompletion \<Rightarrow> (u, Inr ())
      | Some (RegPoll p) \<Rightarrow>
          (u\<lparr>u_registrations := slab_set (x_regs X) (h_token h)
               (RegPoll (p\<lparr>pr_mask := interest_to_poll_mask i\<rparr>)) (u_registrations u)\<rparr>, Inr ())
      | None \<Rightarrow> (u, Inl (Custom NotFound)))"

definition uring_deregister ::
  "('r, 's, 'c, 'd, 'o) uring_env \<Rightarrow> raw_handle \<Rightarrow> ('r, 's, 'c) uring \<Rightarrow> ('r, 's, 'c) uring \<times> unit io_result" where
  "uring_deregister X h u =
     (let u = u\<lparr>u_ring := ring_sync_cancel (x_ring X) (h_handle h) (u_ring u)\<rparr> in
      if slab_get (x_regs X) (u_registrations u) (h_token h) = None then (u, Inl (Custom NotFound))
      else (u\<lparr>u_registrations := slab_remove (x_regs X) (h_token h) (u_registrations u)\<rparr>, Inr ()))"

text \<open>The registration after \<open>submit_poll\<close> stored the waker, and whether a poll has to be pushed.\<close>

definition arm_poll :: "waker \<Rightarrow> interest \<Rightarrow> poll_registration \<Rightarrow> poll_registration \<times> bool" where
  "arm_poll w i p =
     (let write = is_writable i;
          p = (if write then p\<lparr>pr_waiter_write := update_waiter (pr_waiter_write p) w\<rparr>
               else p\<lparr>pr_waiter_read := update_waiter (pr_waiter_read p) w\<rparr>);
          p = p\<lparr>pr_mask := interest_to_poll_mask i\<rparr>
      in if (write \<and> pr_write_armed p) \<or> (\<not> write \<and> pr_read_armed p) then (p, False)
         else (if write then p\<lparr>pr_write_armed := True\<rparr> else p\<lparr>pr_read_armed := True\<rparr>, True))"

definition disarm_poll :: "poll_registration \<Rightarrow> poll_registration" where
  "disarm_poll p =
     (let write = mask_write (pr_mask p); read = mask_read (pr_mask p);
          p = (if write then p\<lparr>pr_write_armed := False, pr_waiter_write := None\<rparr> else p)
      in if read then p\<lparr>pr_read_armed := False, pr_waiter_read := None\<rparr> else p)"

definition set_registration ::
  "('r, 's, 'c, 'd, 'o) uring_env \<Rightarrow> nat \<Rightarrow> poll_registration \<Rightarrow> ('r, 's, 'c) uring \<Rightarrow> ('r, 's, 'c) uring" where
  "set_registration X token p u =
     u\<lparr>u_registrations := slab_set (x_regs X) token (RegPoll p) (u_registrations u)\<rparr>"

definition uring_submit_poll ::
  "('r, 's, 'c, 'd, 'o) uring_env \<Rightarrow> raw_handle \<Rightarrow> waker \<Rightarrow> interest \<Rightarrow> ('r, 's, 'c) uring \<Rightarrow>
   ('r, 's, 'c) uring \<times> unit io_result" where
  "uring_submit_poll X h w i u =
     (case slab_get (x_regs X) (u_registrations u) (h_token h) of
        None \<Rightarrow> (u, Inl (Custom NotFound))
      | Some RegCompletion \<Rightarrow> (u, Inl (Custom Unsupported))
      | Some (RegPoll p) \<Rightarrow>
          (case arm_poll w i p of
             (p, push) \<Rightarrow>
               (let u = set_registration X (h_token h) p u in
                if \<not> push then (u, Inr ())
                else (case push_poll_add X (h_token h) (pr_fd p) (pr_mask p) u of
                        (u, Inr _) \<Rightarrow> (u, Inr ())
                      | (u, Inl err) \<Rightarrow> (set_registration X (h_token h) (disarm_poll p) u, Inl err)))))"

subsection \<open>Completion-based operations\<close>

text \<open>\<open>build\<close> is the operation's \<open>build_completion_entry\<close>.\<close>

definition uring_submit_completion ::
  "('r, 's, 'c, 'd, 'o) uring_env \<Rightarrow> 'o io_result \<Rightarrow> waker \<Rightarrow> ('r, 's, 'c) uring \<Rightarrow>
   ('r, 's, 'c) uring \<times> completion_io_result" where
  "uring_submit_completion X build w u =
     (let token = slab_vacant_key (x_comps X) (u_completions u) in
      case build of
        Inl err \<Rightarrow> (u, SubmitErr err)
      | Inr entry \<Rightarrow>
          (case push_entry X (OpEntry entry (encode_completion_key token)) u of
             (u, Inl err) \<Rightarrow> (u, SubmitErr err)
           | (u, Inr _) \<Rightarrow>
               (u\<lparr>u_completions := slab_insert (x_comps X)
                    \<lparr>c_waiter = Some w, c_completed = None, c_ignored = None\<rparr> (u_completions u)\<rparr>,
                Retry token)))"

definition uring_get_completion_result ::
  "('r, 's, 'c, 'd, 'o) uring_env \<Rightarrow> nat \<Rightarrow> ('r, 's, 'c) uring \<Rightarrow> ('r, 's, 'c) uring \<times> int option" where
  "uring_get_completion_result X token u =
     (let completed = (case slab_get (x_comps X) (u_completions u) token of
                         None \<Rightarrow> None | Some c \<Rightarrow> c_completed c)
      in (if completed \<noteq> None
          then u\<lparr>u_completions := slab_remove (x_comps X) token (u_completions u)\<rparr> else u, completed))"

definition uring_set_completion_waker ::
  "('r, 's, 'c, 'd, 'o) uring_env \<Rightarrow> nat \<Rightarrow> waker \<Rightarrow> ('r, 's, 'c) uring \<Rightarrow> ('r, 's, 'c) uring" where
  "uring_set_completion_waker X token w u =
     (case slab_get (x_comps X) (u_completions u) token of
        None \<Rightarrow> u
      | Some c \<Rightarrow> u\<lparr>u_completions := slab_set (x_comps X) token
                    (c\<lparr>c_waiter := update_waiter (c_waiter c) w\<rparr>) (u_completions u)\<rparr>)"

definition uring_ignore_completion ::
  "('r, 's, 'c, 'd, 'o) uring_env \<Rightarrow> nat \<Rightarrow> 'd \<Rightarrow> ('r, 's, 'c) uring \<Rightarrow> ('r, 's, 'c) uring" where
  "uring_ignore_completion X token data u =
     (case slab_get (x_comps X) (u_completions u) token of
        None \<Rightarrow> u
      | Some c \<Rightarrow> u\<lparr>u_completions := slab_set (x_comps X) token
                    (c\<lparr>c_ignored := Some data\<rparr>) (u_completions u)\<rparr>)"

subsection \<open>A ring that completes at once\<close>

record 'o list_ring =
  lr_sq :: "'o sqe list"
  lr_cq :: "cqe list"

definition complete_all :: "('o sqe \<Rightarrow> int) \<Rightarrow> 'o list_ring \<Rightarrow> 'o list_ring \<times> nat io_result" where
  "complete_all f r =
     (\<lparr>lr_sq = [], lr_cq = lr_cq r @ map (\<lambda>e. \<lparr>cqe_user_data = sqe_user_data e, cqe_result = f e\<rparr>) (lr_sq r)\<rparr>,
      Inr (length (lr_sq r)))"

definition list_ring :: "nat \<Rightarrow> ('o sqe \<Rightarrow> int) \<Rightarrow> ('o list_ring, 'o) ring_ops" where
  "list_ring entries f =
     \<lparr>sq_is_full = (\<lambda>r. entries \<le> length (lr_sq r)),
      sq_is_empty = (\<lambda>r. lr_sq r = []),
      sq_push = (\<lambda>e r. if entries \<le> length (lr_sq r) then None else Some (r\<lparr>lr_sq := lr_sq r @ [e]\<rparr>)),
      ring_submit = complete_all f,
      ring_submit_and_wait = complete_all f,
      ring_submit_with_timeout = (\<lambda>t. complete_all f),
      cq_take = (\<lambda>r. (lr_cq r, r\<lparr>lr_cq := []\<rparr>)),
      ring_sync_cancel = (\<lambda>fd r. r)\<rparr>"

subsection \<open>Keys are injective\<close>

text \<open>
  A slab key is bounded by the memory its entries occupy; \<open>MAX_TOKEN\<close> is the first token whose
  completion key is \<open>u64::MAX\<close>, the key of the interrupt.
\<close>

definition MAX_TOKEN :: nat where
  "MAX_TOKEN = 2 ^ 63 - 1"

lemma ucast_kinds [simp]:
  "(ucast COMPLETION_KEY_KIND :: u64) = 1" "(ucast POLL_KEY_KIND :: u64) = 0"
  by (simp_all add: COMPLETION_KEY_KIND_def POLL_KEY_KIND_def)

lemma poll_key_eq: "encode_poll_key k = 2 * of_nat k"
  by (simp add: encode_poll_key_def KEY_KIND_BITS_def push_bit_eq_mult)

lemma completion_key_eq: "encode_completion_key k = 2 * of_nat k + 1"
proof -
  have "push_bit 1 (of_nat k :: u64) AND 1 = 0"
    by (simp add: and_one_eq push_bit_eq_mult flip: even_iff_mod_2_eq_zero)
  then have "push_bit 1 (of_nat k :: u64) OR 1 = push_bit 1 (of_nat k) + 1"
    by (simp add: disjunctive_add_eq_or)
  then show ?thesis
    by (simp add: encode_completion_key_def KEY_KIND_BITS_def push_bit_eq_mult)
qed

lemma unat_poll_key: "k \<le> MAX_TOKEN \<Longrightarrow> unat (encode_poll_key k) = 2 * k"
  unfolding poll_key_eq
  by (simp add: unat_word_ariths unat_of_nat MAX_TOKEN_def)

lemma unat_completion_key: "k \<le> MAX_TOKEN \<Longrightarrow> unat (encode_completion_key k) = 2 * k + 1"
  unfolding completion_key_eq
  by (simp add: unat_word_ariths unat_of_nat MAX_TOKEN_def)

lemma decode_token_nat: "decode_token key = unat key div 2"
  by (simp add: decode_token_def KEY_KIND_BITS_def unat_drop_bit_u64)

lemma decode_kind_nat: "decode_key_kind key = of_nat (unat key mod 2)"
proof -
  have "key AND KEY_KIND_MASK = key mod 2"
    by (simp add: KEY_KIND_MASK_def KEY_KIND_BITS_def and_one_eq)
  moreover have "unat (key mod 2) = unat key mod 2"
    by (simp add: unat_mod_distrib)
  ultimately show ?thesis
    by (simp add: decode_key_kind_def unsigned_ucast_eq) (metis of_nat_unat)
qed


lemma poll_kind_iff: "decode_key_kind key = POLL_KEY_KIND \<longleftrightarrow> even (unat key)"
proof -
  have "unat key mod 2 = 0 \<or> unat key mod 2 = 1"
    by auto
  then show ?thesis
    by (auto simp: decode_kind_nat POLL_KEY_KIND_def even_iff_mod_2_eq_zero)
qed

lemma unat_special: "unat INTERRUPT_KEY = 2 ^ 64 - 1" "unat TIMEOUT_KEY = 2 ^ 64 - 2"
  by (simp_all add: INTERRUPT_KEY_def TIMEOUT_KEY_def unat_word_ariths unsigned_minus_1_eq_mask mask_eq_exp_minus_1)

lemma key_special:
  assumes "k < MAX_TOKEN"
  shows "encode_poll_key k \<noteq> INTERRUPT_KEY" "encode_poll_key k \<noteq> TIMEOUT_KEY"
    "encode_completion_key k \<noteq> INTERRUPT_KEY" "encode_completion_key k \<noteq> TIMEOUT_KEY"
proof -
  have b: "2 * k + 1 < 2 ^ 64 - 2"
    using assms by (simp add: MAX_TOKEN_def)
  note u = unat_special unat_poll_key [of k] unat_completion_key [of k]
  show "encode_poll_key k \<noteq> INTERRUPT_KEY" "encode_poll_key k \<noteq> TIMEOUT_KEY"
    "encode_completion_key k \<noteq> INTERRUPT_KEY" "encode_completion_key k \<noteq> TIMEOUT_KEY"
    using assms b u by (auto dest!: arg_cong [where f = unat])
qed

lemma completion_key_inj:
  "k < MAX_TOKEN \<Longrightarrow> k' < MAX_TOKEN \<Longrightarrow> encode_completion_key k = encode_completion_key k' \<longleftrightarrow> k = k'"
  by (metis add_right_cancel less_imp_le mult_cancel1 unat_completion_key zero_neq_numeral)

lemma poll_key_not_completion [simp]: "encode_poll_key t \<noteq> encode_completion_key k"
proof -
  have "even (encode_poll_key t)" "odd (encode_completion_key k)"
    by (simp_all add: poll_key_eq completion_key_eq)
  then show ?thesis
    by auto
qed

lemma decode_completion_key [simp]:
  assumes "k < MAX_TOKEN"
  shows "decode_token (encode_completion_key k) = k"
    "decode_key_kind (encode_completion_key k) \<noteq> POLL_KEY_KIND"
  using unat_completion_key [of k] assms by (simp_all add: decode_token_nat poll_kind_iff)

text \<open>A key that is none of the special ones and not a poll key is the completion key of its token.\<close>

lemma encode_decode_completion:
  assumes "key \<noteq> INTERRUPT_KEY" "key \<noteq> TIMEOUT_KEY" "decode_key_kind key \<noteq> POLL_KEY_KIND"
  shows "encode_completion_key (decode_token key) = key" "decode_token key < MAX_TOKEN"
proof -
  have odd: "odd (unat key)"
    using assms(3) by (simp add: poll_kind_iff)
  have "unat key < 2 ^ 64"
    using unsigned_less [of key] by simp
  moreover have "unat key \<noteq> 2 ^ 64 - 1"
    using assms(1) unat_special(1) by (metis word_unat_eq_iff)
  ultimately show lt: "decode_token key < MAX_TOKEN"
    using odd by (auto simp: decode_token_nat MAX_TOKEN_def elim!: oddE)
  have "unat (encode_completion_key (decode_token key)) = unat key"
    using odd lt by (simp add: unat_completion_key decode_token_nat)
  then show "encode_completion_key (decode_token key) = key"
    by (metis word_unat_eq_iff)
qed

subsection \<open>Completions in flight\<close>

locale ring =
  fixes R :: "('r, 'o) ring_ops"
    and in_flight :: "'r \<Rightarrow> u64 multiset"
  assumes in_flight_push: "sq_push R e r = Some r' \<Longrightarrow> in_flight r' = add_mset (sqe_user_data e) (in_flight r)"
    and in_flight_submit [simp]: "in_flight (fst (ring_submit R r)) = in_flight r"
    and in_flight_submit_wait [simp]: "in_flight (fst (ring_submit_and_wait R r)) = in_flight r"
    and in_flight_submit_timeout [simp]: "in_flight (fst (ring_submit_with_timeout R t r)) = in_flight r"
    and in_flight_take: "cq_take R r = (cqes, r') \<Longrightarrow>
      in_flight r = image_mset cqe_user_data (mset cqes) + in_flight r'"
    and in_flight_cancel [simp]: "in_flight (ring_sync_cancel R fd r) = in_flight r"
begin

lemma in_flight_submitD:
  "ring_submit R r = (r', res) \<Longrightarrow> in_flight r' = in_flight r"
  "ring_submit_and_wait R r = (r', res) \<Longrightarrow> in_flight r' = in_flight r"
  "ring_submit_with_timeout R t r = (r', res) \<Longrightarrow> in_flight r' = in_flight r"
  by (metis fst_conv in_flight_submit in_flight_submit_wait in_flight_submit_timeout)+

lemma push_ring_in_flight:
  "push_ring R e r = (r', res) \<Longrightarrow>
     in_flight r' = (case res of Inl err \<Rightarrow> in_flight r | Inr _ \<Rightarrow> add_mset (sqe_user_data e) (in_flight r))"
  by (auto simp: push_ring_def split: prod.splits sum.splits option.splits if_splits
      dest: in_flight_push in_flight_submitD) (metis in_flight_push in_flight_submitD(1))

end

text \<open>
  Exactly one completion is in flight for every slab entry without a result, and none for an entry
  with a result or a vacant key.
\<close>

definition waiting_entry :: "('c, 'd completion) slab_ops \<Rightarrow> 'c \<Rightarrow> nat \<Rightarrow> bool" where
  "waiting_entry S c k = (case slab_get S c k of None \<Rightarrow> False | Some e \<Rightarrow> c_completed e = None)"

definition comp_inv :: "('c, 'd completion) slab_ops \<Rightarrow> u64 multiset \<Rightarrow> 'c \<Rightarrow> bool" where
  "comp_inv S F c \<longleftrightarrow>
     (\<forall>k < MAX_TOKEN. count F (encode_completion_key k) = (if waiting_entry S c k then 1 else 0)) \<and>
     (\<forall>k \<ge> MAX_TOKEN. slab_get S c k = None)"

lemma comp_inv_count_le: "comp_inv S F c \<Longrightarrow> k < MAX_TOKEN \<Longrightarrow> count F (encode_completion_key k) \<le> 1"
  by (simp add: comp_inv_def)

lemma comp_inv_other_key:
  assumes "\<And>k. k < MAX_TOKEN \<Longrightarrow> key \<noteq> encode_completion_key k"
  shows "comp_inv S (add_mset key F) c = comp_inv S F c"
  using assms by (simp add: comp_inv_def)

lemma comp_inv_special [simp]:
  "comp_inv S (add_mset INTERRUPT_KEY F) c = comp_inv S F c"
  "comp_inv S (add_mset TIMEOUT_KEY F) c = comp_inv S F c"
  "comp_inv S (add_mset (encode_poll_key t) F) c = comp_inv S F c"
  using key_special(3,4) by (metis comp_inv_other_key poll_key_not_completion)+

locale uring_driver =
  ring "x_ring X" in_flight + regs: slab "x_regs X" + comps: slab "x_comps X"
  for X :: "('r, 's, 'c, 'd, 'o) uring_env" and in_flight
begin

abbreviation cget :: "'c \<Rightarrow> nat \<Rightarrow> 'd completion option" where
  "cget \<equiv> slab_get (x_comps X)"

lemma push_waker_frame [simp]:
  "dr_comps (push_waker w a) = dr_comps a" "dr_regs (push_waker w a) = dr_regs a"
  by (simp_all add: push_waker_def split: option.splits)

lemma push_waker_wakers: "set (dr_wakers (push_waker w a)) = set (dr_wakers a) \<union> set_option w"
  by (auto simp: push_waker_def split: option.splits)

text \<open>The effect of one completion queue entry on the table of completions.\<close>

lemma drain_cqe_comps:
  assumes "k < MAX_TOKEN"
  shows "cget (dr_comps (drain_cqe X e a)) k =
    (if cqe_user_data e = encode_completion_key k
     then (case cget (dr_comps a) k of
             None \<Rightarrow> None
           | Some c \<Rightarrow> if c_ignored c \<noteq> None then None
                       else Some (c\<lparr>c_completed := Some (cqe_result e), c_waiter := None\<rparr>))
     else cget (dr_comps a) k)"
proof -
  have "decode_token (cqe_user_data e) \<noteq> k"
    if "cqe_user_data e \<noteq> encode_completion_key k" "cqe_user_data e \<noteq> INTERRUPT_KEY"
      "cqe_user_data e \<noteq> TIMEOUT_KEY" "decode_key_kind (cqe_user_data e) \<noteq> POLL_KEY_KIND"
    using encode_decode_completion [of "cqe_user_data e"] that by auto
  then show ?thesis
    using key_special(3,4) [OF assms] assms
    by (auto simp: drain_cqe_def Let_def split: option.splits handle_registration.splits prod.splits)
qed

lemma drain_cqe_large:
  "MAX_TOKEN \<le> k \<Longrightarrow> cget (dr_comps a) k = None \<Longrightarrow> cget (dr_comps (drain_cqe X e a)) k = None"
  by (auto simp: drain_cqe_def Let_def split: option.splits handle_registration.splits prod.splits)

lemma drain_cqe_inv:
  assumes "comp_inv (x_comps X) (add_mset (cqe_user_data e) F) (dr_comps a)"
  shows "comp_inv (x_comps X) F (dr_comps (drain_cqe X e a))"
  unfolding comp_inv_def
proof (intro conjI allI impI)
  fix k assume k: "k < MAX_TOKEN"
  have "count (add_mset (cqe_user_data e) F) (encode_completion_key k) =
      (if waiting_entry (x_comps X) (dr_comps a) k then 1 else 0)"
    using assms k by (simp only: comp_inv_def)
  then show "count F (encode_completion_key k) =
      (if waiting_entry (x_comps X) (dr_comps (drain_cqe X e a)) k then 1 else 0)"
    by (auto simp: waiting_entry_def drain_cqe_comps [OF k] split: option.splits if_splits)
next
  fix k assume "MAX_TOKEN \<le> k"
  then show "cget (dr_comps (drain_cqe X e a)) k = None"
    using assms by (simp add: comp_inv_def drain_cqe_large)
qed

lemma drain_inv:
  "comp_inv (x_comps X) (image_mset cqe_user_data (mset cqes) + F) (dr_comps a) \<Longrightarrow>
     comp_inv (x_comps X) F (dr_comps (fold (drain_cqe X) cqes a))"
  by (induction cqes arbitrary: a) (simp_all add: drain_cqe_inv)

lemma drain_wakers_mono: "set (dr_wakers a) \<subseteq> set (dr_wakers (fold (drain_cqe X) cqes a))"
proof (induction cqes arbitrary: a)
  case (Cons e cqes)
  have "set (dr_wakers a) \<subseteq> set (dr_wakers (drain_cqe X e a))"
    by (auto simp: drain_cqe_def Let_def push_waker_wakers
        split: option.splits handle_registration.splits prod.splits)
  then show ?case
    using Cons by fastforce
qed simp

lemma drain_comps_frame:
  "k < MAX_TOKEN \<Longrightarrow> encode_completion_key k \<notin> cqe_user_data ` set cqes \<Longrightarrow>
     cget (dr_comps (fold (drain_cqe X) cqes a)) k = cget (dr_comps a) k"
  by (induction cqes arbitrary: a) (auto simp: drain_cqe_comps)

lemma drain_cqe_waker:
  assumes "k < MAX_TOKEN" "cqe_user_data e = encode_completion_key k"
    "cget (dr_comps a) k = Some c" "c_waiter c = Some w"
  shows "w \<in> set (dr_wakers (drain_cqe X e a))"
  using assms key_special(3,4) [OF assms(1)] by (simp add: drain_cqe_def Let_def push_waker_wakers)

text \<open>A completion that is drained: its result is stored, or its entry freed, and its waiter woken.\<close>

lemma drain_result:
  assumes "comp_inv (x_comps X) (image_mset cqe_user_data (mset cqes) + F) (dr_comps a)"
    and "e \<in> set cqes" and key: "cqe_user_data e = encode_completion_key k" and k: "k < MAX_TOKEN"
    and "cget (dr_comps a) k = Some c"
  shows "cget (dr_comps (fold (drain_cqe X) cqes a)) k =
      (if c_ignored c \<noteq> None then None
       else Some (c\<lparr>c_completed := Some (cqe_result e), c_waiter := None\<rparr>)) \<and>
    (\<forall>w. c_waiter c = Some w \<longrightarrow> w \<in> set (dr_wakers (fold (drain_cqe X) cqes a)))"
  using assms(1,2,5)
proof (induction cqes arbitrary: a)
  case (Cons e' cqes)
  have inv: "comp_inv (x_comps X) (image_mset cqe_user_data (mset cqes) + F) (dr_comps (drain_cqe X e' a))"
    using Cons.prems(1) by (simp add: drain_cqe_inv)
  show ?case
  proof (cases "cqe_user_data e' = encode_completion_key k")
    case True
    have "count (image_mset cqe_user_data (mset (e' # cqes)) + F) (encode_completion_key k) \<le> 1"
      using Cons.prems(1) k by (rule comp_inv_count_le)
    with True have "count (image_mset cqe_user_data (mset cqes)) (encode_completion_key k) = 0"
      by simp
    then have rest: "encode_completion_key k \<notin> cqe_user_data ` set cqes"
      by (simp add: count_eq_zero_iff)
    then have "e' = e"
      using Cons.prems(2) key by (metis image_eqI set_ConsD)
    then show ?thesis
      using Cons.prems(3) rest k key drain_cqe_waker [OF k key Cons.prems(3)]
        drain_wakers_mono [of "drain_cqe X e a" cqes]
      by (auto simp: drain_comps_frame drain_cqe_comps)
  next
    case False
    then have "e \<in> set cqes" "cget (dr_comps (drain_cqe X e' a)) k = Some c"
      using Cons.prems key k by (auto simp: drain_cqe_comps)
    then show ?thesis
      using Cons.IH [OF inv] by simp
  qed
qed simp

subsubsection \<open>Every operation keeps the invariant\<close>

definition uring_inv :: "('r, 's, 'c) uring \<Rightarrow> bool" where
  "uring_inv u \<longleftrightarrow> comp_inv (x_comps X) (in_flight (u_ring u)) (u_completions u)"

lemma push_entry_effect:
  assumes "push_entry X e u = (u', res)"
  shows "u_completions u' = u_completions u \<and> u_registrations u' = u_registrations u \<and>
    in_flight (u_ring u') =
      (case res of Inl err \<Rightarrow> in_flight (u_ring u)
       | Inr _ \<Rightarrow> add_mset (sqe_user_data e) (in_flight (u_ring u)))"
  using assms push_ring_in_flight [of e "u_ring u"]
  by (auto simp: push_entry_def split: prod.splits sum.splits)

lemma submit_interrupt_inv: "submit_interrupt X u = Some u' \<Longrightarrow> uring_inv u \<Longrightarrow> uring_inv u'"
  by (auto simp: submit_interrupt_def uring_inv_def split: prod.splits sum.splits dest!: push_entry_effect)

lemma finish_collect_inv:
  assumes "uring_inv u"
  shows "uring_inv (fst (finish_collect X u))"
proof -
  obtain cqes r where t: "cq_take (x_ring X) (u_ring u) = (cqes, r)"
    by fastforce
  let ?a = "drain_cq X cqes (u_registrations u) (u_completions u)"
  have "comp_inv (x_comps X) (in_flight r) (dr_comps ?a)"
    using assms in_flight_take [OF t] by (simp add: uring_inv_def drain_cq_def drain_inv)
  then have "uring_inv (u\<lparr>u_ring := r, u_registrations := dr_regs ?a, u_completions := dr_comps ?a\<rparr>)"
    by (simp add: uring_inv_def)
  then show ?thesis
    unfolding finish_collect_def t by (auto simp: Let_def submit_interrupt_inv split: option.splits)
qed

lemma submit_phase_in_flight:
  assumes "submit_phase X b t u = (r, res)"
  shows "in_flight r = in_flight (u_ring u) \<or> in_flight r = add_mset TIMEOUT_KEY (in_flight (u_ring u))"
  using assms push_ring_in_flight [of "TimeoutEntry t TIMEOUT_KEY" "u_ring u"]
  by (auto simp: submit_phase_def Let_def split: prod.splits option.splits sum.splits if_splits
      dest!: in_flight_submitD)

lemma collect_inv:
  assumes "uring_inv u"
  shows "uring_inv (fst (collect_completions X b t u))"
proof -
  have "uring_inv (u\<lparr>u_ring := r\<rparr>)" if "submit_phase X b t u = (r, res)" for r res
    using submit_phase_in_flight [OF that] assms by (auto simp: uring_inv_def)
  then have "uring_inv (u\<lparr>u_ring := r, u_pending_submissions := p\<rparr>)"
    if "submit_phase X b t u = (r, res)" for r res p
    using that by (fastforce simp: uring_inv_def)
  moreover have "uring_inv (u\<lparr>u_pending_submissions := False\<rparr>)"
    using assms by (simp add: uring_inv_def)
  ultimately show ?thesis
    using \<open>\<And>r res. submit_phase X b t u = (r, res) \<Longrightarrow> uring_inv (u\<lparr>u_ring := r\<rparr>)\<close>
    by (auto simp: collect_completions_def finish_collect_inv split: prod.splits sum.splits)
qed

lemma submit_poll_effect:
  "u_completions (fst (uring_submit_poll X h w i u)) = u_completions u \<and>
   (in_flight (u_ring (fst (uring_submit_poll X h w i u))) = in_flight (u_ring u) \<or>
    in_flight (u_ring (fst (uring_submit_poll X h w i u))) =
      add_mset (encode_poll_key (h_token h)) (in_flight (u_ring u)))"
  by (auto simp: uring_submit_poll_def set_registration_def push_poll_add_def Let_def
      split: option.splits handle_registration.splits prod.splits sum.splits dest!: push_entry_effect)

lemma submit_poll_inv: "uring_inv u \<Longrightarrow> uring_inv (fst (uring_submit_poll X h w i u))"
  using submit_poll_effect [of h w i u] by (auto simp: uring_inv_def)

lemma comp_inv_insert:
  assumes "comp_inv (x_comps X) F c" "slab_vacant_key (x_comps X) c < MAX_TOKEN"
  shows "comp_inv (x_comps X) (add_mset (encode_completion_key (slab_vacant_key (x_comps X) c)) F)
    (slab_insert (x_comps X) \<lparr>c_waiter = Some w, c_completed = None, c_ignored = None\<rparr> c)"
  using assms by (auto simp: comp_inv_def waiting_entry_def completion_key_inj)

lemma submit_completion_inv:
  assumes "uring_inv u" "slab_vacant_key (x_comps X) (u_completions u) < MAX_TOKEN"
  shows "uring_inv (fst (uring_submit_completion X b w u))"
  using assms comp_inv_insert [of "in_flight (u_ring u)" "u_completions u" w]
  by (auto simp: uring_submit_completion_def uring_inv_def Let_def split: sum.splits prod.splits
      dest!: push_entry_effect)

lemma get_result_inv: "uring_inv u \<Longrightarrow> uring_inv (fst (uring_get_completion_result X k u))"
  by (auto simp: uring_get_completion_result_def uring_inv_def comp_inv_def waiting_entry_def Let_def
      split: option.splits)

lemma set_waker_inv: "uring_inv u \<Longrightarrow> uring_inv (uring_set_completion_waker X k w u)"
  by (auto simp: uring_set_completion_waker_def uring_inv_def comp_inv_def waiting_entry_def split: option.splits)

lemma ignore_inv: "uring_inv u \<Longrightarrow> uring_inv (uring_ignore_completion X k d u)"
  by (auto simp: uring_ignore_completion_def uring_inv_def comp_inv_def waiting_entry_def split: option.splits)

lemma registration_inv:
  assumes "uring_inv u"
  shows "uring_inv (fst (uring_register X h i m u))" "uring_inv (fst (uring_reregister X h i u))"
    "uring_inv (fst (uring_deregister X h u))"
  using assms
  by (auto simp: uring_inv_def uring_register_def uring_reregister_def uring_deregister_def Let_def
      split: option.splits handle_registration.splits)

lemma uring_new_inv:
  assumes "in_flight r = {#}" "uring_new X fd (Inr r) ext = Inr (Some u)"
  shows "uring_inv u"
proof -
  let ?u = "\<lparr>u_ring = r, u_registrations = slab_new (x_regs X), u_completions = slab_new (x_comps X),
    u_pending_submissions = False, u_ext_arg = ext\<rparr>"
  have "uring_inv ?u"
    using assms(1) by (simp add: uring_inv_def comp_inv_def waiting_entry_def)
  moreover have "submit_interrupt X ?u = Some u"
    using assms(2) by (auto simp: uring_new_def split: sum.splits)
  ultimately show ?thesis
    using submit_interrupt_inv by blast
qed

end

subsection \<open>Runs of the driver\<close>

datatype ('d, 'o) uring_call =
    Register raw_handle interest registration_mode
  | Reregister raw_handle interest
  | Deregister raw_handle
  | SubmitPoll raw_handle waker interest
  | SubmitCompletion "'o io_result" waker
  | GetResult nat
  | SetWaker nat waker
  | Ignore nat 'd
  | Flush
  | Wait "nat option"

fun do_call ::
  "('r, 's, 'c, 'd, 'o) uring_env \<Rightarrow> ('d, 'o) uring_call \<Rightarrow> ('r, 's, 'c) uring \<Rightarrow> ('r, 's, 'c) uring" where
  "do_call X (Register h i m) u = fst (uring_register X h i m u)"
| "do_call X (Reregister h i) u = fst (uring_reregister X h i u)"
| "do_call X (Deregister h) u = fst (uring_deregister X h u)"
| "do_call X (SubmitPoll h w i) u = fst (uring_submit_poll X h w i u)"
| "do_call X (SubmitCompletion b w) u = fst (uring_submit_completion X b w u)"
| "do_call X (GetResult k) u = fst (uring_get_completion_result X k u)"
| "do_call X (SetWaker k w) u = uring_set_completion_waker X k w u"
| "do_call X (Ignore k d) u = uring_ignore_completion X k d u"
| "do_call X Flush u = fst (uring_flush X u)"
| "do_call X (Wait t) u = fst (uring_wait X t u)"

text \<open>Runs in which the table of completions stays within the memory of the machine.\<close>

inductive uring_run ::
  "('r, 's, 'c, 'd, 'o) uring_env \<Rightarrow> ('r, 's, 'c) uring \<Rightarrow> ('d, 'o) uring_call list \<Rightarrow> ('r, 's, 'c) uring \<Rightarrow> bool"
  for X where
  run_none: "uring_run X u [] u"
| run_call: "uring_run X u cs u' \<Longrightarrow> slab_vacant_key (x_comps X) (u_completions u') < MAX_TOKEN \<Longrightarrow>
     uring_run X u (cs @ [c]) (do_call X c u')"

text \<open>The panics of \<open>flush\<close> and \<open>wait\<close>, and a sequence of calls without one.\<close>

fun call_panics ::
  "('r, 's, 'c, 'd, 'o) uring_env \<Rightarrow> ('d, 'o) uring_call \<Rightarrow> ('r, 's, 'c) uring \<Rightarrow> bool" where
  "call_panics X Flush u = snd (snd (uring_flush X u))"
| "call_panics X (Wait t) u = snd (snd (uring_wait X t u))"
| "call_panics X _ u = False"

fun calls_return ::
  "('r, 's, 'c, 'd, 'o) uring_env \<Rightarrow> ('r, 's, 'c) uring \<Rightarrow> ('d, 'o) uring_call list \<Rightarrow> bool" where
  "calls_return X u [] \<longleftrightarrow> True"
| "calls_return X u (c # cs) \<longleftrightarrow> \<not> call_panics X c u \<and> calls_return X (do_call X c u) cs"

lemma calls_return_append:
  "calls_return X u (cs @ [c]) \<longleftrightarrow> calls_return X u cs \<and> \<not> call_panics X c (fold (do_call X) cs u)"
  by (induction cs arbitrary: u) auto

lemma uring_run_fold: "uring_run X u cs u' \<Longrightarrow> u' = fold (do_call X) cs u"
  by (induction rule: uring_run.induct) simp_all

context uring_driver
begin

lemma call_inv:
  "uring_inv u \<Longrightarrow> slab_vacant_key (x_comps X) (u_completions u) < MAX_TOKEN \<Longrightarrow> uring_inv (do_call X c u)"
  using collect_inv [of u]
  by (cases c) (auto simp: registration_inv submit_poll_inv submit_completion_inv get_result_inv
      set_waker_inv ignore_inv uring_flush_def uring_wait_def split: prod.split, (metis fst_conv)+)

lemma run_inv: "uring_run X u cs u' \<Longrightarrow> uring_inv u \<Longrightarrow> uring_inv u'"
  by (induction rule: uring_run.induct) (auto intro: call_inv)

end

subsection \<open>The instance\<close>

definition list_in_flight :: "'o list_ring \<Rightarrow> u64 multiset" where
  "list_in_flight r = image_mset sqe_user_data (mset (lr_sq r)) + image_mset cqe_user_data (mset (lr_cq r))"

definition list_uring ::
  "nat \<Rightarrow> ('o sqe \<Rightarrow> int) \<Rightarrow>
   ('o list_ring, handle_registration option list, 'd completion option list, 'd, 'o) uring_env" where
  "list_uring n f = \<lparr>x_ring = list_ring n f, x_regs = list_slab, x_comps = list_slab\<rparr>"

lemma list_uring_sel [simp]:
  "x_ring (list_uring n f) = list_ring n f" "x_regs (list_uring n f) = list_slab"
  "x_comps (list_uring n f) = list_slab"
  by (simp_all add: list_uring_def)

interpretation lr: ring "list_ring n f" list_in_flight
  by unfold_locales
    (auto simp: list_ring_def list_in_flight_def complete_all_def image_mset.compositionality comp_def
      split: if_splits)

interpretation lu: uring_driver "list_uring n f" list_in_flight
  unfolding uring_driver_def list_uring_sel
  by (intro conjI lr.ring_axioms ls.slab_axioms)

subsection \<open>Results and forgotten entries\<close>

context uring_driver
begin

lemma finish_collect_comps:
  assumes "cq_take (x_ring X) (u_ring u) = (cqes, r)"
  shows "u_completions (fst (finish_collect X u)) =
      dr_comps (drain_cq X cqes (u_registrations u) (u_completions u)) \<and>
    fst (snd (finish_collect X u)) = dr_wakers (drain_cq X cqes (u_registrations u) (u_completions u))"
  using assms
  by (auto simp: finish_collect_def Let_def submit_interrupt_def split: option.splits prod.splits sum.splits
      dest!: push_entry_effect)

lemma finish_collect_frame:
  assumes "uring_inv u" "k < MAX_TOKEN" "\<not> waiting_entry (x_comps X) (u_completions u) k"
  shows "cget (u_completions (fst (finish_collect X u))) k = cget (u_completions u) k"
proof -
  obtain cqes r where t: "cq_take (x_ring X) (u_ring u) = (cqes, r)"
    by fastforce
  have "count (in_flight (u_ring u)) (encode_completion_key k) = 0"
    using assms by (simp add: uring_inv_def comp_inv_def)
  then have "encode_completion_key k \<notin> cqe_user_data ` set cqes"
    unfolding in_flight_take [OF t] by (auto simp: count_eq_zero_iff)
  then show ?thesis
    using finish_collect_comps [OF t] assms(2) by (simp add: drain_cq_def drain_comps_frame)
qed

lemma collect_frame:
  assumes "uring_inv u" "k < MAX_TOKEN" "\<not> waiting_entry (x_comps X) (u_completions u) k"
  shows "cget (u_completions (fst (collect_completions X b t u))) k = cget (u_completions u) k"
proof -
  have "uring_inv (u\<lparr>u_ring := r, u_pending_submissions := p\<rparr>)"
    if "submit_phase X b t u = (r, res)" for r res p
    using submit_phase_in_flight [OF that] assms(1) by (auto simp: uring_inv_def)
  moreover have "uring_inv (u\<lparr>u_pending_submissions := False\<rparr>)"
    using assms(1) by (simp add: uring_inv_def)
  ultimately show ?thesis
    using finish_collect_frame assms(2,3)
    by (auto simp: collect_completions_def split: prod.splits sum.splits)
qed

definition forgotten :: "nat \<Rightarrow> ('r, 's, 'c) uring \<Rightarrow> bool" where
  "forgotten k u \<longleftrightarrow> (\<exists>c. cget (u_completions u) k = Some c \<and> c_completed c \<noteq> None \<and> c_ignored c \<noteq> None)"

lemma forgotten_call:
  assumes inv: "uring_inv u" and k: "k < MAX_TOKEN" and f: "forgotten k u" and c: "c \<noteq> GetResult k"
  shows "forgotten k (do_call X c u)"
proof -
  have "\<not> waiting_entry (x_comps X) (u_completions u) k"
    using f by (auto simp: forgotten_def waiting_entry_def)
  note frame = collect_frame [OF inv k this]
  have occupied: "k \<noteq> slab_vacant_key (x_comps X) (u_completions u)"
    using f by (auto simp: forgotten_def)
  show ?thesis
  proof (cases c)
    case (SubmitCompletion b w)
    then show ?thesis
      using f occupied
      by (auto simp: uring_submit_completion_def forgotten_def Let_def split: sum.splits prod.splits
          dest!: push_entry_effect)
  next
    case (SubmitPoll h w i)
    then show ?thesis
      using f submit_poll_effect [of h w i u] by (simp add: forgotten_def)
  next
    case Flush
    then show ?thesis
      using f frame [of False None]
      by (auto simp: uring_flush_def forgotten_def split: prod.splits)
  next
    case (Wait t)
    then show ?thesis
      using f frame [of True t]
      by (auto simp: uring_wait_def forgotten_def split: prod.splits)
  qed (use f c in \<open>auto simp: forgotten_def uring_register_def uring_reregister_def uring_deregister_def
      uring_get_completion_result_def uring_set_completion_waker_def uring_ignore_completion_def Let_def
      split: option.splits handle_registration.splits\<close>)
qed

lemma forgotten_run:
  "uring_run X u cs u' \<Longrightarrow> uring_inv u \<Longrightarrow> k < MAX_TOKEN \<Longrightarrow> forgotten k u \<Longrightarrow> GetResult k \<notin> set cs \<Longrightarrow>
     forgotten k u'"
  by (induction rule: uring_run.induct) (auto intro: forgotten_call run_inv)

lemma wait_delivers:
  assumes inv: "uring_inv u" and sub: "submit_phase X True t u = (r, Inr ())"
    and take: "cq_take (x_ring X) r = (cqes, r')" and e: "e \<in> set cqes"
    and key: "cqe_user_data e = encode_completion_key k" and k: "k < MAX_TOKEN"
    and w: "uring_wait X t u = (u', ws, panicked)"
  obtains c where "cget (u_completions u) k = Some c" "c_completed c = None"
    "cget (u_completions u') k =
       (if c_ignored c \<noteq> None then None else Some (c\<lparr>c_completed := Some (cqe_result e), c_waiter := None\<rparr>))"
    "\<And>w. c_waiter c = Some w \<Longrightarrow> w \<in> set ws"
proof -
  let ?u = "u\<lparr>u_ring := r, u_pending_submissions := \<not> sq_is_empty (x_ring X) r\<rparr>"
  have "uring_inv ?u"
    using submit_phase_in_flight [OF sub] inv by (auto simp: uring_inv_def)
  then have fl: "comp_inv (x_comps X) (image_mset cqe_user_data (mset cqes) + in_flight r') (u_completions u)"
    using in_flight_take [OF take] by (simp add: uring_inv_def)
  have "encode_completion_key k \<in># image_mset cqe_user_data (mset cqes)"
    using e key by (metis image_eqI set_image_mset set_mset_mset)
  then have "0 < count (image_mset cqe_user_data (mset cqes) + in_flight r') (encode_completion_key k)"
    by simp
  then have "waiting_entry (x_comps X) (u_completions u) k"
    using fl k unfolding comp_inv_def by (metis less_numeral_extra(3))
  then obtain c where c: "cget (u_completions u) k = Some c" "c_completed c = None"
    by (auto simp: waiting_entry_def split: option.splits)
  have "u_completions u' = u_completions (fst (finish_collect X ?u))" "ws = fst (snd (finish_collect X ?u))"
    using w sub by (auto simp: uring_wait_def collect_completions_def split: prod.splits)
  moreover have "cq_take (x_ring X) (u_ring ?u) = (cqes, r')"
    using take by simp
  ultimately have "u_completions u' = dr_comps (drain_cq X cqes (u_registrations u) (u_completions u))"
    "ws = dr_wakers (drain_cq X cqes (u_registrations u) (u_completions u))"
    using finish_collect_comps [of ?u cqes r'] by simp_all
  then show ?thesis
    using that [OF c] drain_result [where a = "\<lparr>dr_regs = u_registrations u, dr_comps = u_completions u,
        dr_wakers = [], dr_interrupt = False\<rparr>", OF _ e key k, of "in_flight r'" c] fl c(1)
    by (simp add: drain_cq_def)
qed

end

subsection \<open>The read of the eventfd\<close>

lemma poll_key_not_interrupt [simp]: "encode_poll_key t \<noteq> INTERRUPT_KEY" "TIMEOUT_KEY \<noteq> INTERRUPT_KEY"
proof -
  have "even (encode_poll_key t)" "odd INTERRUPT_KEY"
    by (simp_all add: poll_key_eq INTERRUPT_KEY_def)
  then show "encode_poll_key t \<noteq> INTERRUPT_KEY"
    by auto
  show "TIMEOUT_KEY \<noteq> INTERRUPT_KEY"
    by (simp add: TIMEOUT_KEY_def INTERRUPT_KEY_def)
qed

context uring_driver
begin

definition interrupts :: "('r, 's, 'c) uring \<Rightarrow> nat" where
  "interrupts u = count (in_flight (u_ring u)) INTERRUPT_KEY"

lemma drain_interrupt:
  "dr_interrupt (fold (drain_cqe X) cqes a) \<longleftrightarrow> dr_interrupt a \<or> INTERRUPT_KEY \<in> cqe_user_data ` set cqes"
proof (induction cqes arbitrary: a)
  case (Cons e cqes)
  have "dr_interrupt (push_waker w b) = dr_interrupt b" for w and b :: "('s, 'c) drain"
    by (simp add: push_waker_def split: option.splits)
  then have "dr_interrupt (drain_cqe X e a) \<longleftrightarrow> dr_interrupt a \<or> cqe_user_data e = INTERRUPT_KEY"
    by (auto simp: drain_cqe_def Let_def split: option.splits handle_registration.splits prod.splits)
  then show ?case
    using Cons by auto
qed simp

lemma submit_interrupt_adds: "submit_interrupt X u = Some u' \<Longrightarrow> interrupts u' = Suc (interrupts u)"
  by (auto simp: submit_interrupt_def interrupts_def split: prod.splits sum.splits dest!: push_entry_effect)

lemma finish_collect_rearms:
  assumes "interrupts u = Suc 0" and "finish_collect X u = (u', ws, res)" and "res \<noteq> CollectPanic"
  shows "interrupts u' = Suc 0"
proof -
  obtain cqes r where t: "cq_take (x_ring X) (u_ring u) = (cqes, r)"
    by fastforce
  let ?a = "drain_cq X cqes (u_registrations u) (u_completions u)"
  let ?u = "u\<lparr>u_ring := r, u_registrations := dr_regs ?a, u_completions := dr_comps ?a\<rparr>"
  have split: "count (image_mset cqe_user_data (mset cqes)) INTERRUPT_KEY + interrupts ?u = Suc 0"
    using assms(1) in_flight_take [OF t] by (simp add: interrupts_def)
  have seen: "dr_interrupt ?a \<longleftrightarrow> count (image_mset cqe_user_data (mset cqes)) INTERRUPT_KEY \<noteq> 0"
    by (simp add: drain_cq_def drain_interrupt count_eq_zero_iff)
  show ?thesis
  proof (cases "dr_interrupt ?a")
    case True
    then have "interrupts ?u = 0"
      using seen split by linarith
    moreover have "submit_interrupt X ?u = Some u'"
      using assms(2,3) t True by (auto simp: finish_collect_def Let_def split: option.splits)
    ultimately show ?thesis
      using submit_interrupt_adds by simp
  next
    case False
    then have "interrupts ?u = Suc 0"
      using seen split by linarith
    moreover have "u' = ?u"
      using assms(2) t False by (simp add: finish_collect_def Let_def)
    ultimately show ?thesis
      by simp
  qed
qed

lemma collect_rearms:
  assumes "interrupts u = Suc 0" and "collect_completions X b t u = (u', ws, res)" and "res \<noteq> CollectPanic"
  shows "interrupts u' = Suc 0"
proof -
  have 1: "interrupts (u\<lparr>u_ring := r, u_pending_submissions := p\<rparr>) = Suc 0" "interrupts (u\<lparr>u_ring := r\<rparr>) = Suc 0"
    if "submit_phase X b t u = (r, res)" for r res p
    using submit_phase_in_flight [OF that] assms(1) by (auto simp: interrupts_def)
  have 2: "interrupts (u\<lparr>u_pending_submissions := False\<rparr>) = Suc 0"
    using assms(1) by (simp add: interrupts_def)
  show ?thesis
    using assms(2,3) 1 2
    by (auto simp: collect_completions_def split: prod.splits sum.splits if_splits dest: finish_collect_rearms)
qed

lemma submit_keeps_interrupts:
  assumes "slab_vacant_key (x_comps X) (u_completions u) < MAX_TOKEN"
  shows "interrupts (fst (uring_submit_completion X b w u)) = interrupts u"
    "interrupts (fst (uring_submit_poll X h w i u)) = interrupts u"
  using key_special(3) [OF assms] submit_poll_effect [of h w i u]
  by (auto simp: interrupts_def uring_submit_completion_def Let_def split: sum.splits prod.splits dest!: push_entry_effect)

lemma call_keeps_interrupts:
  assumes "interrupts u = Suc 0" and "slab_vacant_key (x_comps X) (u_completions u) < MAX_TOKEN" and "\<not> call_panics X c u"
  shows "interrupts (do_call X c u) = Suc 0"
proof (cases c)
  case Flush
  then show ?thesis
    using assms(1,3) collect_rearms [of u False None]
    by (auto simp: uring_flush_def collect_or_panic_def split: prod.splits collect_result.splits)
next
  case (Wait t)
  then show ?thesis
    using assms(1,3) collect_rearms [of u True t]
    by (auto simp: uring_wait_def collect_or_panic_def split: prod.splits collect_result.splits)
next
  case (SubmitPoll h w i)
  then show ?thesis
    using assms(1) submit_keeps_interrupts(2) [OF assms(2)] by simp
next
  case (SubmitCompletion b w)
  then show ?thesis
    using assms(1) submit_keeps_interrupts(1) [OF assms(2)] by simp
qed (use assms in \<open>auto simp: interrupts_def uring_register_def uring_reregister_def
    uring_deregister_def uring_get_completion_result_def uring_set_completion_waker_def uring_ignore_completion_def Let_def
    split: option.splits handle_registration.splits\<close>)

lemma run_keeps_interrupts:
  "uring_run X u cs u' \<Longrightarrow> calls_return X u cs \<Longrightarrow> interrupts u = Suc 0 \<Longrightarrow> interrupts u' = Suc 0"
proof (induction rule: uring_run.induct)
  case (run_call u cs u' c)
  then show ?case
    using call_keeps_interrupts uring_run_fold [OF run_call.hyps(1)] by (simp add: calls_return_append)
qed simp

lemma uring_new_interrupts:
  assumes "in_flight r = {#}" "uring_new X fd (Inr r) ext = Inr (Some u)"
  shows "interrupts u = Suc 0"
proof -
  let ?u = "\<lparr>u_ring = r, u_registrations = slab_new (x_regs X), u_completions = slab_new (x_comps X),
    u_pending_submissions = False, u_ext_arg = ext\<rparr>"
  have "submit_interrupt X ?u = Some u"
    using assms(2) by (auto simp: uring_new_def split: sum.splits)
  moreover have "interrupts ?u = 0"
    using assms(1) by (simp add: interrupts_def)
  ultimately show ?thesis
    using submit_interrupt_adds by simp
qed

end

subsection \<open>A concrete driver\<close>

definition ex_env ::
  "(unit list_ring, handle_registration option list, unit completion option list, unit, unit) uring_env" where
  "ex_env = list_uring 8 (\<lambda>_. 5)"

definition ex_ring :: "unit list_ring" where
  "ex_ring = \<lparr>lr_sq = [], lr_cq = []\<rparr>"

definition ex_new :: "(unit list_ring, handle_registration option list, unit completion option list) uring" where
  "ex_new = \<lparr>u_ring = \<lparr>lr_sq = [EventfdRead INTERRUPT_KEY], lr_cq = []\<rparr>, u_registrations = [],
     u_completions = [], u_pending_submissions = True, u_ext_arg = True\<rparr>"

lemmas uring_eval = ex_env_def ex_ring_def ex_new_def uring_new_def submit_interrupt_def push_entry_def
  push_ring_def list_ring_def list_slab_def list_get_def complete_all_def

lemma ex_new_eq: "uring_new ex_env (Inr 3) (Inr ex_ring) True = Inr (Some ex_new)"
  by (simp add: uring_eval)

lemma ex_ring_empty: "list_in_flight ex_ring = {#}"
  by (simp add: ex_ring_def list_in_flight_def)

lemma ex_driver: "uring_driver ex_env list_in_flight"
  unfolding ex_env_def by (rule lu.uring_driver_axioms)

lemma max_token_pos: "n < 1000 \<Longrightarrow> n < MAX_TOKEN"
  by (simp add: MAX_TOKEN_def)

text \<open>The driver after one operation was submitted.\<close>

definition ex_submitted :: "(unit list_ring, handle_registration option list, unit completion option list) uring" where
  "ex_submitted = do_call ex_env (SubmitCompletion (Inr ()) 7) ex_new"

lemma ex_submitted_run: "uring_run ex_env ex_new [SubmitCompletion (Inr ()) 7] ex_submitted"
proof -
  have "slab_vacant_key (x_comps ex_env) (u_completions ex_new) < MAX_TOKEN"
    by (simp add: uring_eval MAX_TOKEN_def)
  from run_call [OF run_none this, of "SubmitCompletion (Inr ()) 7"] show ?thesis
    by (simp add: ex_submitted_def)
qed

lemma ex_submitted_eq:
  "ex_submitted = \<lparr>u_ring = \<lparr>lr_sq = [EventfdRead INTERRUPT_KEY, OpEntry () (encode_completion_key 0)], lr_cq = []\<rparr>,
     u_registrations = [], u_completions = [Some \<lparr>c_waiter = Some 7, c_completed = None, c_ignored = None\<rparr>],
     u_pending_submissions = True, u_ext_arg = True\<rparr>"
  by (simp add: ex_submitted_def uring_submit_completion_def uring_eval Let_def)

text \<open>A driver with a handle that has a reader and a writer.\<close>

definition ex_handle :: raw_handle where
  "ex_handle = \<lparr>h_handle = 9, h_token = 0, h_interest = READ_WRITE, h_mode = PollMode\<rparr>"

definition ex_polled :: "(unit list_ring, handle_registration option list, unit completion option list) uring" where
  "ex_polled = fst (uring_register ex_env ex_handle READ_WRITE PollMode ex_new)"

definition ex_reader :: "(unit list_ring, handle_registration option list, unit completion option list) uring" where
  "ex_reader = fst (uring_submit_poll ex_env ex_handle 1 READABLE ex_polled)"

definition ex_writer :: "(unit list_ring, handle_registration option list, unit completion option list) uring" where
  "ex_writer = fst (uring_submit_poll ex_env ex_handle 2 WRITABLE ex_reader)"

lemmas poll_eval = uring_register_def uring_submit_poll_def arm_poll_def set_registration_def
  push_poll_add_def ex_handle_def ex_polled_def ex_reader_def ex_writer_def Let_def

lemma ex_submits:
  "uring_submit_poll ex_env ex_handle 1 READABLE ex_polled = (ex_reader, Inr ())"
  "uring_submit_poll ex_env ex_handle 2 WRITABLE ex_reader = (ex_writer, Inr ())"
  by (simp_all add: poll_eval uring_eval)

subsection \<open>Properties\<close>

text \<open>
  C18: in every run of the driver an operation's slab entry and its completion in flight go together:
  exactly one completion with the key of token \<open>k\<close> is in flight while entry \<open>k\<close> waits for its result,
  and none otherwise. So no entry, and with it no buffer left behind by \<open>ignore_completion\<close>, is freed
  or reused while the kernel still works on its operation. As long as no call has panicked, exactly one
  read of the driver's eventfd is in flight as well, so a thread that interrupts the driver always completes an entry.
\<close>
theorem completion_in_flight_iff:
  assumes "uring_driver X in_flight" and "in_flight r = {#}"
    and "uring_new X fd (Inr r) ext = Inr (Some u)" and "uring_run X u cs u'" and "k < MAX_TOKEN"
  shows "count (in_flight (u_ring u')) (encode_completion_key k) =
    (case slab_get (x_comps X) (u_completions u') k of
       None \<Rightarrow> 0 | Some c \<Rightarrow> if c_completed c = None then 1 else 0) \<and>
    (calls_return X u cs \<longrightarrow> count (in_flight (u_ring u')) INTERRUPT_KEY = 1)"
  using uring_driver.run_inv [OF assms(1,4) uring_driver.uring_new_inv [OF assms(1,2,3)]] assms(5)
    uring_driver.run_keeps_interrupts [OF assms(1,4) _ uring_driver.uring_new_interrupts [OF assms(1,2,3)]]
  by (simp add: uring_driver.uring_inv_def [OF assms(1)] uring_driver.interrupts_def [OF assms(1)] comp_inv_def
      waiting_entry_def split: option.splits)

theorem completion_in_flight_iff_witness:
  "count (list_in_flight (u_ring ex_submitted)) (encode_completion_key 0) = 1 \<and>
   count (list_in_flight (u_ring ex_submitted)) INTERRUPT_KEY = 1"
  using completion_in_flight_iff [OF ex_driver ex_ring_empty ex_new_eq ex_submitted_run max_token_pos [of 0]]
  by (simp add: ex_submitted_eq ex_env_def list_slab_def list_get_def)

text \<open>
  C19: a completion found by \<open>wait\<close> belongs to an operation that waits for it; the operation's waker
  is woken, its next \<open>get_completion_result\<close> returns the kernel's result, the one after that nothing; the
  entry of an operation that was dropped is freed.
\<close>
theorem completion_delivered_once:
  assumes "uring_driver X in_flight" and "in_flight r0 = {#}"
    and "uring_new X fd (Inr r0) ext = Inr (Some u0)" and "uring_run X u0 cs u"
    and "submit_phase X True t u = (r, Inr ())" and "cq_take (x_ring X) r = (cqes, r')"
    and "e \<in> set cqes" and "cqe_user_data e = encode_completion_key k" and "k < MAX_TOKEN"
    and "uring_wait X t u = (u', ws, panicked)"
  shows "\<exists>c. slab_get (x_comps X) (u_completions u) k = Some c \<and> c_completed c = None \<and>
    set_option (c_waiter c) \<subseteq> set ws \<and>
    (if c_ignored c = None
     then snd (uring_get_completion_result X k u') = Some (cqe_result e) \<and>
       snd (uring_get_completion_result X k (fst (uring_get_completion_result X k u'))) = None
     else slab_get (x_comps X) (u_completions u') k = None)"
proof -
  have inv: "uring_driver.uring_inv X in_flight u"
    using uring_driver.run_inv [OF assms(1,4) uring_driver.uring_new_inv [OF assms(1,2,3)]] .
  have "slab (x_comps X)"
    using assms(1) by (simp add: uring_driver_def)
  note laws = slab.get_remove [OF this]
  show ?thesis
    by (rule uring_driver.wait_delivers [OF assms(1) inv assms(5-10)])
      (auto simp: uring_get_completion_result_def laws Let_def split: option.splits if_splits)
qed

theorem completion_delivered_once_witness:
  "snd (uring_get_completion_result ex_env 0 (fst (uring_wait ex_env None ex_submitted))) = Some 5"
proof -
  let ?e = "\<lparr>cqe_user_data = encode_completion_key 0, cqe_result = 5\<rparr>"
  let ?cqes = "[\<lparr>cqe_user_data = INTERRUPT_KEY, cqe_result = 5\<rparr>, ?e]"
  have 1: "submit_phase ex_env True None ex_submitted = (\<lparr>lr_sq = [], lr_cq = ?cqes\<rparr>, Inr ())"
    by (simp add: submit_phase_def ex_submitted_eq uring_eval submitter_call_result_def)
  have 2: "cq_take (x_ring ex_env) \<lparr>lr_sq = [], lr_cq = ?cqes\<rparr> = (?cqes, ex_ring)"
    by (simp add: uring_eval)
  obtain u' ws p where 3: "uring_wait ex_env None ex_submitted = (u', ws, p)"
    by (cases "uring_wait ex_env None ex_submitted")
  have "?e \<in> set ?cqes" "cqe_user_data ?e = encode_completion_key 0"
    by simp_all
  from completion_delivered_once [OF ex_driver ex_ring_empty ex_new_eq ex_submitted_run 1 2 this
      max_token_pos [of 0] 3] show ?thesis
    by (simp add: 3) (simp add: ex_submitted_eq ex_env_def list_slab_def list_get_def)
qed

text \<open>
  For every token below \<open>2^63 - 1\<close> the key of a poll and the key of a completion decode to the
  token and to different kinds, and neither is the key of the interrupt or of the timeout; at
  \<open>2^63 - 1\<close> the completion key is the interrupt's.
\<close>
lemma key_roundtrip:
  assumes "k < 2 ^ 63 - 1"
  shows "decode_token (encode_poll_key k) = k \<and> decode_token (encode_completion_key k) = k \<and>
    decode_key_kind (encode_poll_key k) = POLL_KEY_KIND \<and>
    decode_key_kind (encode_completion_key k) = COMPLETION_KEY_KIND \<and>
    {encode_poll_key k, encode_completion_key k} \<inter> {INTERRUPT_KEY, TIMEOUT_KEY} = {} \<and>
    encode_completion_key (2 ^ 63 - 1) = INTERRUPT_KEY"
proof -
  have k: "k < MAX_TOKEN"
    using assms by (simp add: MAX_TOKEN_def)
  have "unat (encode_completion_key (2 ^ 63 - 1)) = unat INTERRUPT_KEY"
    using unat_completion_key [of "2 ^ 63 - 1"] by (simp add: unat_special MAX_TOKEN_def)
  then have "encode_completion_key (2 ^ 63 - 1) = INTERRUPT_KEY"
    by (metis word_unat_eq_iff)
  moreover have "decode_key_kind (encode_completion_key k) = COMPLETION_KEY_KIND"
    using unat_completion_key [of k] k by (simp add: decode_kind_nat COMPLETION_KEY_KIND_def mod_Suc)
  moreover have "decode_token (encode_poll_key k) = k"
    "decode_key_kind (encode_poll_key k) = POLL_KEY_KIND"
    using unat_poll_key [of k] k by (simp_all add: decode_token_nat poll_kind_iff)
  ultimately show ?thesis
    using key_special [OF k] decode_completion_key(1) [OF k] by simp
qed

text \<open>
  One handle with a reader and a writer loses the reader's wake-up. After a poll for reading was
  submitted with waker \<open>w1\<close> and one for writing with \<open>w2\<close>, the completions of both polls wake only
  \<open>w2\<close>; the reader's waker stays in its slot, still marked as armed, so a further poll for reading
  submits nothing.
\<close>
lemma uring_read_waiter_lost:
  assumes "uring_driver X in_flight" and "h_token h < MAX_TOKEN"
    and "slab_get (x_regs X) (u_registrations u) (h_token h) = Some (RegPoll p)"
    and "\<not> pr_read_armed p" and "\<not> pr_write_armed p"
    and "uring_submit_poll X h w1 READABLE u = (u1, Inr ())"
    and "uring_submit_poll X h w2 WRITABLE u1 = (u2, Inr ())"
    and "cqe_user_data e1 = encode_poll_key (h_token h)" and "cqe_user_data e2 = encode_poll_key (h_token h)"
  shows "\<exists>p'. dr_wakers (drain_cq X [e1, e2] (u_registrations u2) c) = [w2] \<and>
    slab_get (x_regs X) (dr_regs (drain_cq X [e1, e2] (u_registrations u2) c)) (h_token h) =
      Some (RegPoll p') \<and>
    pr_waiter_read p' = Some w1 \<and> pr_read_armed p' \<and> \<not> snd (arm_poll w3 READABLE p')"
proof -
  have "slab (x_regs X)"
    using assms(1) by (simp add: uring_driver_def)
  note laws = slab.get_set [OF this]
  note eff = uring_driver.push_entry_effect [OF assms(1)]
  let ?p1 = "p\<lparr>pr_waiter_read := Some w1, pr_mask := POLLIN, pr_read_armed := True\<rparr>"
  let ?p2 = "?p1\<lparr>pr_waiter_write := Some w2, pr_mask := POLLOUT, pr_write_armed := True\<rparr>"
  have masks: "interest_to_poll_mask READABLE = POLLIN" "interest_to_poll_mask WRITABLE = POLLOUT"
    by (simp_all add: interest_to_poll_mask_def)
  have "slab_get (x_regs X) (u_registrations u1) (h_token h) = Some (RegPoll ?p1)"
    using assms(3,4,6)
    by (auto simp: uring_submit_poll_def arm_poll_def Let_def masks set_registration_def push_poll_add_def laws
        split: prod.splits sum.splits if_splits dest!: eff)
  then have 2: "slab_get (x_regs X) (u_registrations u2) (h_token h) = Some (RegPoll ?p2)"
    using assms(5,7)
    by (auto simp: uring_submit_poll_def arm_poll_def Let_def masks set_registration_def push_poll_add_def laws
        split: prod.splits sum.splits if_splits dest!: eff)
  have m: "mask_write POLLOUT" "\<not> mask_read POLLOUT"
    by (simp_all add: mask_write_def mask_read_def POLLOUT_def POLLIN_def)
  have d: "decode_token (encode_poll_key (h_token h)) = h_token h"
    "decode_key_kind (encode_poll_key (h_token h)) = POLL_KEY_KIND"
    using unat_poll_key [of "h_token h"] assms(2) by (simp_all add: decode_token_nat poll_kind_iff)
  show ?thesis
    using key_special [OF assms(2)] assms(8,9)
    by (simp add: drain_cq_def drain_cqe_def Let_def d 2 complete_poll_def m laws push_waker_def
        arm_poll_def)
qed

text \<open>
  An operation dropped after its completion arrived and before it was polled leaves its entry
  in the table for good: \<open>ignore_completion\<close> stores the buffer in an entry that already has its result,
  and no later use of the driver frees it, because only a new completion or a
  \<open>get_completion_result\<close> of the dropped token would.
\<close>
lemma uring_dropped_entry_leaks:
  assumes "uring_driver X in_flight" and "in_flight r0 = {#}"
    and "uring_new X fd (Inr r0) ext = Inr (Some u0)" and "uring_run X u0 cs u" and "k < MAX_TOKEN"
    and "slab_get (x_comps X) (u_completions u) k = Some c" and "c_completed c = Some v"
    and "uring_run X (uring_ignore_completion X k d u) cs' u'" and "GetResult k \<notin> set cs'"
  shows "\<exists>c'. slab_get (x_comps X) (u_completions u') k = Some c' \<and> c_ignored c' \<noteq> None"
proof -
  note drv = assms(1)
  have inv: "uring_driver.uring_inv X in_flight u"
    using uring_driver.run_inv [OF drv assms(4) uring_driver.uring_new_inv [OF assms(1,2,3)]] .
  have "slab (x_comps X)"
    using drv by (simp add: uring_driver_def)
  then have "uring_driver.forgotten X k (uring_ignore_completion X k d u)"
    using assms(6,7)
    by (simp add: uring_driver.forgotten_def [OF drv] uring_ignore_completion_def slab.get_set)
  from uring_driver.forgotten_run [OF drv assms(8) uring_driver.ignore_inv [OF drv inv] assms(5) this assms(9)]
  show ?thesis
    by (auto simp: uring_driver.forgotten_def [OF drv])
qed

end
