(* ===== verification/Mio.thy ===== *)
theory Mio
  imports Driver_Types
begin

text \<open>
  The readiness driver, \<open>driver/mio.rs\<close>. The crate \<open>mio\<close> (\<open>Poll\<close>, \<open>Registry\<close>) is a parameter, a record of
  type \<open>poller_ops\<close>; \<open>poller_poll\<close> returns the tokens of the events it reports with its result.
  The locale \<open>poller\<close> states what the driver relies on: a successful (re)registration arms the token
  with its interest, and only a report of its event or a deregistration disarms it.
\<close>

subsection \<open>State\<close>

record 'm poller_ops =
  poller_poll :: "nat option \<Rightarrow> 'm \<Rightarrow> 'm \<times> nat list \<times> unit io_result"
  poller_register :: "int \<Rightarrow> nat \<Rightarrow> interest \<Rightarrow> 'm \<Rightarrow> 'm \<times> unit io_result"
  poller_reregister :: "int \<Rightarrow> nat \<Rightarrow> interest \<Rightarrow> 'm \<Rightarrow> 'm \<times> unit io_result"
  poller_deregister :: "int \<Rightarrow> 'm \<Rightarrow> 'm \<times> unit io_result"

record registration =
  reg_fd :: int
  reg_waiter :: "waker option"
  reg_interest :: "interest option"

record ('m, 's) mio =
  m_poll :: 'm
  m_regs :: 's

record ('m, 's) mio_env =
  y_poll :: "'m poller_ops"
  y_regs :: "('s, registration) slab_ops"

definition USIZE_MAX :: nat where "USIZE_MAX = 2 ^ 64 - 1"

subsection \<open>Operations\<close>

text \<open>\<open>parts\<close>: the results of \<open>Poll::new\<close>, \<open>try_clone\<close> and \<open>Waker::new\<close> together.\<close>

definition mio_new :: "('m, 's) mio_env \<Rightarrow> 'm io_result \<Rightarrow> ('m, 's) mio io_result" where
  "mio_new Y parts =
     (case parts of
        Inl err \<Rightarrow> Inl err
      | Inr m \<Rightarrow> Inr \<lparr>m_poll = m, m_regs = slab_new (y_regs Y)\<rparr>)"

text \<open>One event: the registration loses its interest and its waiter, which is woken.\<close>

definition mio_event ::
  "('m, 's) mio_env \<Rightarrow> nat \<Rightarrow> 's \<times> waker list \<Rightarrow> 's \<times> waker list" where
  "mio_event Y token a =
     (case a of (s, ws) \<Rightarrow>
        if token = USIZE_MAX then (s, ws)
        else (case slab_get (y_regs Y) s token of
                None \<Rightarrow> (s, ws)
              | Some reg \<Rightarrow>
                  (slab_set (y_regs Y) token (reg\<lparr>reg_interest := None, reg_waiter := None\<rparr>) s,
                   case reg_waiter reg of None \<Rightarrow> ws | Some w \<Rightarrow> ws @ [w])))"

text \<open>\<open>True\<close> as the last component is the panic on an error other than an interrupted call.\<close>

definition wait_timeout ::
  "('m, 's) mio_env \<Rightarrow> nat option \<Rightarrow> ('m, 's) mio \<Rightarrow> ('m, 's) mio \<times> waker list \<times> bool" where
  "wait_timeout Y timeout d =
     (case poller_poll (y_poll Y) timeout (m_poll d) of
        (m, events, res) \<Rightarrow>
          if (case res of Inl err \<Rightarrow> err_kind err \<noteq> Interrupted | Inr _ \<Rightarrow> False)
          then (d\<lparr>m_poll := m\<rparr>, [], True)
          else (case fold (mio_event Y) events (m_regs d, []) of
                  (s, ws) \<Rightarrow> (\<lparr>m_poll = m, m_regs = s\<rparr>, ws, False)))"

definition mio_flush :: "('m, 's) mio_env \<Rightarrow> ('m, 's) mio \<Rightarrow> ('m, 's) mio \<times> waker list \<times> bool" where
  "mio_flush Y d = wait_timeout Y (Some 0) d"

definition mio_wait :: "('m, 's) mio_env \<Rightarrow> nat option \<Rightarrow> ('m, 's) mio \<Rightarrow> ('m, 's) mio \<times> waker list \<times> bool" where
  "mio_wait Y timeout d = wait_timeout Y timeout d"

definition mio_register ::
  "('m, 's) mio_env \<Rightarrow> raw_handle \<Rightarrow> interest \<Rightarrow> ('m, 's) mio \<Rightarrow> ('m, 's) mio \<times> nat io_result" where
  "mio_register Y h i d =
     (let token = slab_vacant_key (y_regs Y) (m_regs d);
          s = slab_insert (y_regs Y) \<lparr>reg_fd = h_handle h, reg_waiter = None, reg_interest = Some i\<rparr> (m_regs d)
      in case poller_register (y_poll Y) (h_handle h) token i (m_poll d) of
           (m, Inl err) \<Rightarrow> (\<lparr>m_poll = m, m_regs = slab_remove (y_regs Y) token s\<rparr>, Inl err)
         | (m, Inr _) \<Rightarrow> (\<lparr>m_poll = m, m_regs = s\<rparr>, Inr token))"

definition mio_reregister ::
  "('m, 's) mio_env \<Rightarrow> raw_handle \<Rightarrow> interest \<Rightarrow> ('m, 's) mio \<Rightarrow> ('m, 's) mio \<times> unit io_result" where
  "mio_reregister Y h i d =
     (case slab_get (y_regs Y) (m_regs d) (h_token h) of
        None \<Rightarrow> (d, Inl (Custom NotFound))
      | Some reg \<Rightarrow>
          (case poller_reregister (y_poll Y) (reg_fd reg) (h_token h) i (m_poll d) of
             (m, Inl err) \<Rightarrow> (d\<lparr>m_poll := m\<rparr>, Inl err)
           | (m, Inr _) \<Rightarrow>
               (\<lparr>m_poll = m,
                 m_regs = slab_set (y_regs Y) (h_token h) (reg\<lparr>reg_interest := Some i\<rparr>) (m_regs d)\<rparr>,
                Inr ())))"

definition mio_deregister ::
  "('m, 's) mio_env \<Rightarrow> raw_handle \<Rightarrow> ('m, 's) mio \<Rightarrow> ('m, 's) mio \<times> unit io_result" where
  "mio_deregister Y h d =
     (case slab_get (y_regs Y) (m_regs d) (h_token h) of
        None \<Rightarrow> (d, Inl (Custom NotFound))
      | Some reg \<Rightarrow>
          (case poller_deregister (y_poll Y) (reg_fd reg) (m_poll d) of
             (m, Inl err) \<Rightarrow> (d\<lparr>m_poll := m\<rparr>, Inl err)
           | (m, Inr _) \<Rightarrow> (\<lparr>m_poll = m, m_regs = slab_remove (y_regs Y) (h_token h) (m_regs d)\<rparr>, Inr ())))"

definition mio_submit_poll ::
  "('m, 's) mio_env \<Rightarrow> raw_handle \<Rightarrow> waker \<Rightarrow> interest \<Rightarrow> ('m, 's) mio \<Rightarrow> ('m, 's) mio \<times> unit io_result" where
  "mio_submit_poll Y h w i d =
     (case slab_get (y_regs Y) (m_regs d) (h_token h) of
        None \<Rightarrow> (d, Inl (Custom NotFound))
      | Some reg \<Rightarrow>
          (case (if reg_interest reg \<noteq> Some i
                 then poller_reregister (y_poll Y) (reg_fd reg) (h_token h) i (m_poll d)
                 else (m_poll d, Inr ())) of
             (m, Inl err) \<Rightarrow> (d\<lparr>m_poll := m\<rparr>, Inl err)
           | (m, Inr _) \<Rightarrow>
               (\<lparr>m_poll = m,
                 m_regs = slab_set (y_regs Y) (h_token h)
                   (reg\<lparr>reg_interest := Some i, reg_waiter := update_waiter (reg_waiter reg) w\<rparr>) (m_regs d)\<rparr>,
                Inr ())))"

subsection \<open>Events\<close>

locale mio_driver = regs: slab "y_regs Y" for Y :: "('m, 's) mio_env"
begin

abbreviation rget :: "'s \<Rightarrow> nat \<Rightarrow> registration option" where
  "rget \<equiv> slab_get (y_regs Y)"

text \<open>The waiters of the reported tokens, each at its first report.\<close>

lemma events_spec:
  "fold (mio_event Y) events (s, ws) = (s', ws') \<Longrightarrow>
     (\<forall>k. rget s' k =
        (if k \<in> set events \<and> k \<noteq> USIZE_MAX
         then map_option (\<lambda>reg. reg\<lparr>reg_interest := None, reg_waiter := None\<rparr>) (rget s k)
         else rget s k)) \<and>
     ws' = ws @ concat (map (\<lambda>k. case rget s k of
         None \<Rightarrow> [] | Some reg \<Rightarrow> (case reg_waiter reg of None \<Rightarrow> [] | Some w \<Rightarrow> [w]))
       (filter (\<lambda>k. k \<noteq> USIZE_MAX) (rev (remdups (rev events)))))"
proof (induction events arbitrary: s' ws' rule: rev_induct)
  case (snoc e events)
  obtain s1 ws1 where 1: "fold (mio_event Y) events (s, ws) = (s1, ws1)"
    by fastforce
  have 2: "mio_event Y e (s1, ws1) = (s', ws')"
    using snoc.prems 1 by simp
  note IH = snoc.IH [OF 1]
  show ?case
  proof (cases "e = USIZE_MAX")
    case True
    then show ?thesis
      using IH 2 by (simp add: mio_event_def)
  next
    case False
    show ?thesis
    proof (cases "rget s e")
      case None
      then have "rget s1 e = None"
        using IH by simp
      then have "s' = s1" "ws' = ws1"
        using 2 False by (simp_all add: mio_event_def)
      then show ?thesis
        using IH None False by auto
    next
      case (Some reg)
      then show ?thesis
        using IH 2 False by (cases "e \<in> set events"; cases "reg_waiter reg") (auto simp: mio_event_def)
    qed
  qed
qed simp

end

subsection \<open>An instance\<close>

text \<open>A poller that accepts every registration and reports the events it was given.\<close>

definition list_poller :: "nat list poller_ops" where
  "list_poller =
     \<lparr>poller_poll = (\<lambda>t m. (m, m, Inr ())), poller_register = (\<lambda>fd k i m. (m, Inr ())),
      poller_reregister = (\<lambda>fd k i m. (m, Inr ())), poller_deregister = (\<lambda>fd m. (m, Inr ()))\<rparr>"

definition list_mio :: "(nat list, registration option list) mio_env" where
  "list_mio = \<lparr>y_poll = list_poller, y_regs = list_slab\<rparr>"

interpretation lm: mio_driver list_mio
  by (simp add: mio_driver_def list_mio_def ls.slab_axioms)

lemma mio_driverI: "slab (y_regs Y) \<Longrightarrow> mio_driver Y"
  by (simp add: mio_driver_def)

lemma list_mio_slab: "slab (y_regs list_mio)"
  by (simp add: list_mio_def ls.slab_axioms)

definition mio_handle :: raw_handle where
  "mio_handle = \<lparr>h_handle = 9, h_token = 0, h_interest = READ_WRITE, h_mode = PollMode\<rparr>"

text \<open>A registered handle with a reader, then with a writer as well.\<close>

definition mio_registered :: "(nat list, registration option list) mio" where
  "mio_registered = fst (mio_register list_mio mio_handle READ_WRITE \<lparr>m_poll = [0], m_regs = []\<rparr>)"

definition mio_reader :: "(nat list, registration option list) mio" where
  "mio_reader = fst (mio_submit_poll list_mio mio_handle 1 READABLE mio_registered)"

lemmas mio_eval = mio_registered_def mio_reader_def mio_register_def mio_submit_poll_def
  mio_handle_def list_mio_def list_poller_def list_slab_def list_get_def

subsection \<open>Properties\<close>

text \<open>
  C23: a wait wakes exactly the waiters of the reported tokens, once each and in the order of their
  first report; a reported registration loses its waiter and its interest, so that the next
  \<open>submit_poll\<close> registers again, and every other registration is left alone.
\<close>
theorem mio_wait_wakes_reported:
  assumes "slab (y_regs Y)" and "poller_poll (y_poll Y) t (m_poll d) = (m, events, res)"
    and "wait_timeout Y t d = (d', ws, False)"
  shows "ws = concat (map (\<lambda>k. case slab_get (y_regs Y) (m_regs d) k of
        None \<Rightarrow> [] | Some reg \<Rightarrow> (case reg_waiter reg of None \<Rightarrow> [] | Some w \<Rightarrow> [w]))
      (filter (\<lambda>k. k \<noteq> USIZE_MAX) (rev (remdups (rev events))))) \<and>
    (\<forall>k. slab_get (y_regs Y) (m_regs d') k =
      (if k \<in> set events \<and> k \<noteq> USIZE_MAX
       then map_option (\<lambda>reg. reg\<lparr>reg_interest := None, reg_waiter := None\<rparr>) (slab_get (y_regs Y) (m_regs d) k)
       else slab_get (y_regs Y) (m_regs d) k))"
proof -
  obtain s where f: "fold (mio_event Y) events (m_regs d, []) = (s, ws)" and "m_regs d' = s"
    using assms(2,3) by (auto simp: wait_timeout_def split: if_splits prod.splits)
  with mio_driver.events_spec [OF mio_driverI [OF assms(1)] f] show ?thesis
    by simp
qed

theorem mio_wait_wakes_reported_witness:
  "fst (snd (wait_timeout list_mio None mio_reader)) = [1]"
proof -
  obtain d' ws p where w: "wait_timeout list_mio None mio_reader = (d', ws, p)"
    by (cases "wait_timeout list_mio None mio_reader")
  have 1: "poller_poll (y_poll list_mio) None (m_poll mio_reader) = ([0], [0], Inr ())"
    by (simp add: mio_eval)
  with w have "\<not> p"
    by (auto simp: wait_timeout_def split: prod.splits)
  with w have "wait_timeout list_mio None mio_reader = (d', ws, False)"
    by simp
  from mio_wait_wakes_reported [OF list_mio_slab 1 this] show ?thesis
    unfolding w by (simp add: mio_eval USIZE_MAX_def)
qed

text \<open>
  A registration has one waiter slot, so a reader and a writer on one handle disturb each other:
  after a poll for reading with waker \<open>w1\<close> and one for writing with \<open>w2\<close>, the event of the handle wakes
  \<open>w2\<close> only and leaves no waiter behind.
\<close>
lemma mio_waiter_overwritten:
  assumes "slab (y_regs Y)" and "h_token h \<noteq> USIZE_MAX"
    and "mio_submit_poll Y h w1 READABLE d = (d1, Inr ())"
    and "mio_submit_poll Y h w2 WRITABLE d1 = (d2, Inr ())"
    and "poller_poll (y_poll Y) t (m_poll d2) = (m, [h_token h], Inr ())"
    and "wait_timeout Y t d2 = (d3, ws, panicked)"
  shows "ws = [w2] \<and> (\<exists>reg. slab_get (y_regs Y) (m_regs d3) (h_token h) = Some reg \<and> reg_waiter reg = None)"
proof -
  note laws = slab.get_set [OF assms(1)]
  obtain reg where "slab_get (y_regs Y) (m_regs d2) (h_token h) = Some reg" "reg_waiter reg = Some w2"
    using assms(4)
    by (auto simp: mio_submit_poll_def laws split: option.splits prod.splits sum.splits if_splits)
  then show ?thesis
    using assms(2,5,6) by (auto simp: wait_timeout_def mio_event_def laws split: prod.splits)
qed

end
