(* ===== verification/Any_Driver.thy ===== *)
theory Any_Driver
  imports Uring Mio
begin

text \<open>
  The choice of a driver: \<open>AnyDriver\<close> of \<open>driver/mod.rs\<close> with its constructors and its dispatch, the mock
  driver of \<open>driver/mock.rs\<close>, and the runtime builder of \<open>builder.rs\<close>. The trait's default methods
  are written out at the drivers that use them.

  Whether the operating system lets a ring or a poller be created is a parameter, the record
  \<open>sys\<close>; \<open>'b\<close> is the type of the \<open>io_uring\<close> crate's builder.
\<close>

subsection \<open>Drivers\<close>

datatype ('r, 's, 'c, 'm, 't) any_driver =
    MockDriver
  | MioDriver "('m, 't) mio"
  | IoUringDriver "('r, 's, 'c) uring"

record ('r, 's, 'c, 'd, 'o, 'm, 't) any_env =
  z_uring :: "('r, 's, 'c, 'd, 'o) uring_env"
  z_mio :: "('m, 't) mio_env"

fun any_flush ::
  "('r, 's, 'c, 'd, 'o, 'm, 't) any_env \<Rightarrow> ('r, 's, 'c, 'm, 't) any_driver \<Rightarrow>
   ('r, 's, 'c, 'm, 't) any_driver \<times> waker list \<times> bool" where
  "any_flush Z (MioDriver d) = (case mio_flush (z_mio Z) d of (d, ws, p) \<Rightarrow> (MioDriver d, ws, p))"
| "any_flush Z MockDriver = (MockDriver, [], False)"
| "any_flush Z (IoUringDriver u) = (case uring_flush (z_uring Z) u of (u, ws, p) \<Rightarrow> (IoUringDriver u, ws, p))"

fun any_should_flush :: "('r, 's, 'c, 'm, 't) any_driver \<Rightarrow> bool" where
  "any_should_flush (MioDriver d) = True"
| "any_should_flush MockDriver = True"
| "any_should_flush (IoUringDriver u) = uring_should_flush u"

fun any_wait ::
  "('r, 's, 'c, 'd, 'o, 'm, 't) any_env \<Rightarrow> nat option \<Rightarrow> ('r, 's, 'c, 'm, 't) any_driver \<Rightarrow>
   ('r, 's, 'c, 'm, 't) any_driver \<times> waker list \<times> bool" where
  "any_wait Z t (MioDriver d) = (case mio_wait (z_mio Z) t d of (d, ws, p) \<Rightarrow> (MioDriver d, ws, p))"
| "any_wait Z t MockDriver = (MockDriver, [], False)"
| "any_wait Z t (IoUringDriver u) = (case uring_wait (z_uring Z) t u of (u, ws, p) \<Rightarrow> (IoUringDriver u, ws, p))"

fun any_register_with_mode ::
  "('r, 's, 'c, 'd, 'o, 'm, 't) any_env \<Rightarrow> raw_handle \<Rightarrow> interest \<Rightarrow> registration_mode \<Rightarrow>
   ('r, 's, 'c, 'm, 't) any_driver \<Rightarrow> ('r, 's, 'c, 'm, 't) any_driver \<times> nat io_result" where
  "any_register_with_mode Z h i mode (MioDriver d) =
     (case mio_register (z_mio Z) h i d of (d, res) \<Rightarrow> (MioDriver d, res))"
| "any_register_with_mode Z h i mode MockDriver = (MockDriver, Inl (Custom Unsupported))"
| "any_register_with_mode Z h i mode (IoUringDriver u) =
     (case uring_register (z_uring Z) h i mode u of (u, res) \<Rightarrow> (IoUringDriver u, res))"

fun any_register ::
  "('r, 's, 'c, 'd, 'o, 'm, 't) any_env \<Rightarrow> raw_handle \<Rightarrow> interest \<Rightarrow>
   ('r, 's, 'c, 'm, 't) any_driver \<Rightarrow> ('r, 's, 'c, 'm, 't) any_driver \<times> nat io_result" where
  "any_register Z h i (MioDriver d) = (case mio_register (z_mio Z) h i d of (d, res) \<Rightarrow> (MioDriver d, res))"
| "any_register Z h i MockDriver = (MockDriver, Inl (Custom Unsupported))"
| "any_register Z h i (IoUringDriver u) =
     (case uring_register (z_uring Z) h i CompletionMode u of (u, res) \<Rightarrow> (IoUringDriver u, res))"

fun any_reregister ::
  "('r, 's, 'c, 'd, 'o, 'm, 't) any_env \<Rightarrow> raw_handle \<Rightarrow> interest \<Rightarrow>
   ('r, 's, 'c, 'm, 't) any_driver \<Rightarrow> ('r, 's, 'c, 'm, 't) any_driver \<times> unit io_result" where
  "any_reregister Z h i (MioDriver d) = (case mio_reregister (z_mio Z) h i d of (d, res) \<Rightarrow> (MioDriver d, res))"
| "any_reregister Z h i MockDriver = (MockDriver, Inl (Custom Unsupported))"
| "any_reregister Z h i (IoUringDriver u) =
     (case uring_reregister (z_uring Z) h i u of (u, res) \<Rightarrow> (IoUringDriver u, res))"

fun any_deregister ::
  "('r, 's, 'c, 'd, 'o, 'm, 't) any_env \<Rightarrow> raw_handle \<Rightarrow>
   ('r, 's, 'c, 'm, 't) any_driver \<Rightarrow> ('r, 's, 'c, 'm, 't) any_driver \<times> unit io_result" where
  "any_deregister Z h (MioDriver d) = (case mio_deregister (z_mio Z) h d of (d, res) \<Rightarrow> (MioDriver d, res))"
| "any_deregister Z h MockDriver = (MockDriver, Inl (Custom Unsupported))"
| "any_deregister Z h (IoUringDriver u) =
     (case uring_deregister (z_uring Z) h u of (u, res) \<Rightarrow> (IoUringDriver u, res))"

fun any_supports_completion :: "('r, 's, 'c, 'm, 't) any_driver \<Rightarrow> bool" where
  "any_supports_completion (MioDriver d) = False"
| "any_supports_completion MockDriver = False"
| "any_supports_completion (IoUringDriver u) = True"

fun any_submit_completion ::
  "('r, 's, 'c, 'd, 'o, 'm, 't) any_env \<Rightarrow> 'o io_result \<Rightarrow> waker \<Rightarrow>
   ('r, 's, 'c, 'm, 't) any_driver \<Rightarrow> ('r, 's, 'c, 'm, 't) any_driver \<times> completion_io_result" where
  "any_submit_completion Z build w (MioDriver d) = (MioDriver d, SubmitErr unsupported_completion_error)"
| "any_submit_completion Z build w MockDriver = (MockDriver, SubmitErr unsupported_completion_error)"
| "any_submit_completion Z build w (IoUringDriver u) =
     (case uring_submit_completion (z_uring Z) build w u of (u, res) \<Rightarrow> (IoUringDriver u, res))"

fun any_submit_poll ::
  "('r, 's, 'c, 'd, 'o, 'm, 't) any_env \<Rightarrow> raw_handle \<Rightarrow> waker \<Rightarrow> interest \<Rightarrow>
   ('r, 's, 'c, 'm, 't) any_driver \<Rightarrow> ('r, 's, 'c, 'm, 't) any_driver \<times> unit io_result" where
  "any_submit_poll Z h w i (MioDriver d) =
     (case mio_submit_poll (z_mio Z) h w i d of (d, res) \<Rightarrow> (MioDriver d, res))"
| "any_submit_poll Z h w i MockDriver = (MockDriver, Inl unsupported_poll_error)"
| "any_submit_poll Z h w i (IoUringDriver u) =
     (case uring_submit_poll (z_uring Z) h w i u of (u, res) \<Rightarrow> (IoUringDriver u, res))"

fun any_get_completion_result ::
  "('r, 's, 'c, 'd, 'o, 'm, 't) any_env \<Rightarrow> nat \<Rightarrow>
   ('r, 's, 'c, 'm, 't) any_driver \<Rightarrow> ('r, 's, 'c, 'm, 't) any_driver \<times> int option" where
  "any_get_completion_result Z k (MioDriver d) = (MioDriver d, None)"
| "any_get_completion_result Z k MockDriver = (MockDriver, None)"
| "any_get_completion_result Z k (IoUringDriver u) =
     (case uring_get_completion_result (z_uring Z) k u of (u, res) \<Rightarrow> (IoUringDriver u, res))"

fun any_set_completion_waker ::
  "('r, 's, 'c, 'd, 'o, 'm, 't) any_env \<Rightarrow> nat \<Rightarrow> waker \<Rightarrow>
   ('r, 's, 'c, 'm, 't) any_driver \<Rightarrow> ('r, 's, 'c, 'm, 't) any_driver" where
  "any_set_completion_waker Z k w (MioDriver d) = MioDriver d"
| "any_set_completion_waker Z k w MockDriver = MockDriver"
| "any_set_completion_waker Z k w (IoUringDriver u) =
     IoUringDriver (uring_set_completion_waker (z_uring Z) k w u)"

fun any_ignore_completion ::
  "('r, 's, 'c, 'd, 'o, 'm, 't) any_env \<Rightarrow> nat \<Rightarrow> 'd \<Rightarrow>
   ('r, 's, 'c, 'm, 't) any_driver \<Rightarrow> ('r, 's, 'c, 'm, 't) any_driver" where
  "any_ignore_completion Z k data (MioDriver d) = MioDriver d"
| "any_ignore_completion Z k data MockDriver = MockDriver"
| "any_ignore_completion Z k data (IoUringDriver u) =
     IoUringDriver (uring_ignore_completion (z_uring Z) k data u)"

subsection \<open>Creation\<close>

record ('r, 'm, 'b) sys =
  sys_eventfd :: "int io_result"
  sys_builder :: 'b
  sys_newer_flags :: "'b \<Rightarrow> 'b"
  sys_build :: "nat \<Rightarrow> 'b \<Rightarrow> 'r io_result"
  sys_ext_arg :: bool
  sys_poll :: "'m io_result"

text \<open>A constructor returns an error, or a driver, or (\<open>Inr None\<close>) panics.\<close>

type_synonym ('r, 's, 'c, 'm, 't) new_driver = "(('r, 's, 'c, 'm, 't) any_driver option) io_result"

definition new_mio ::
  "('r, 's, 'c, 'd, 'o, 'm, 't) any_env \<Rightarrow> ('r, 'm, 'b) sys \<Rightarrow> ('r, 's, 'c, 'm, 't) new_driver" where
  "new_mio Z sys = (case mio_new (z_mio Z) (sys_poll sys) of Inl err \<Rightarrow> Inl err | Inr d \<Rightarrow> Inr (Some (MioDriver d)))"

definition new_mock :: "('r, 's, 'c, 'm, 't) any_driver" where
  "new_mock = MockDriver"

definition new_uring_custom_with_entries ::
  "('r, 's, 'c, 'd, 'o, 'm, 't) any_env \<Rightarrow> ('r, 'm, 'b) sys \<Rightarrow> nat \<Rightarrow> 'b \<Rightarrow> ('r, 's, 'c, 'm, 't) new_driver" where
  "new_uring_custom_with_entries Z sys entries builder =
     (case uring_new (z_uring Z) (sys_eventfd sys) (sys_build sys entries builder) (sys_ext_arg sys) of
        Inl err \<Rightarrow> Inl err
      | Inr u \<Rightarrow> Inr (map_option IoUringDriver u))"

definition new_uring_custom ::
  "('r, 's, 'c, 'd, 'o, 'm, 't) any_env \<Rightarrow> ('r, 'm, 'b) sys \<Rightarrow> 'b \<Rightarrow> ('r, 's, 'c, 'm, 't) new_driver" where
  "new_uring_custom Z sys builder = new_uring_custom_with_entries Z sys 4096 builder"

definition new_uring_with_entries ::
  "('r, 's, 'c, 'd, 'o, 'm, 't) any_env \<Rightarrow> ('r, 'm, 'b) sys \<Rightarrow> nat \<Rightarrow> ('r, 's, 'c, 'm, 't) new_driver" where
  "new_uring_with_entries Z sys entries =
     (case new_uring_custom_with_entries Z sys entries (sys_newer_flags sys (sys_builder sys)) of
        Inr d \<Rightarrow> Inr d
      | Inl err \<Rightarrow> new_uring_custom_with_entries Z sys entries (sys_builder sys))"

definition new_uring ::
  "('r, 's, 'c, 'd, 'o, 'm, 't) any_env \<Rightarrow> ('r, 'm, 'b) sys \<Rightarrow> ('r, 's, 'c, 'm, 't) new_driver" where
  "new_uring Z sys = new_uring_with_entries Z sys 4096"

definition new_best ::
  "('r, 's, 'c, 'd, 'o, 'm, 't) any_env \<Rightarrow> ('r, 'm, 'b) sys \<Rightarrow> ('r, 's, 'c, 'm, 't) new_driver" where
  "new_best Z sys = (case new_uring Z sys of Inr d \<Rightarrow> Inr d | Inl err \<Rightarrow> new_mio Z sys)"

subsection \<open>The builder\<close>

datatype 'b driver_kind =
    KMio | KMock | KIoUring | KIoUringEntries nat | KIoUringCustom 'b | KIoUringCustomEntries nat 'b

fun into_driver ::
  "('r, 's, 'c, 'd, 'o, 'm, 't) any_env \<Rightarrow> ('r, 'm, 'b) sys \<Rightarrow> 'b driver_kind \<Rightarrow>
   ('r, 's, 'c, 'm, 't) new_driver" where
  "into_driver Z sys KMio = new_mio Z sys"
| "into_driver Z sys KMock = Inr (Some new_mock)"
| "into_driver Z sys KIoUring = new_uring Z sys"
| "into_driver Z sys (KIoUringCustom builder) = new_uring_custom Z sys builder"
| "into_driver Z sys (KIoUringEntries entries) = new_uring_with_entries Z sys entries"
| "into_driver Z sys (KIoUringCustomEntries entries builder) = new_uring_custom_with_entries Z sys entries builder"

record ('b, 'p) runtime_builder =
  rb_driver_kind :: "'b driver_kind option"
  rb_enable_timer :: bool
  rb_enable_fs_offload :: bool
  rb_blocking_pool :: "'p option"
  rb_batch_size :: nat

definition builder_new :: "('b, 'p) runtime_builder" where
  "builder_new =
     \<lparr>rb_driver_kind = None, rb_enable_timer = False, rb_enable_fs_offload = False,
      rb_blocking_pool = None, rb_batch_size = 256\<rparr>"

definition builder_driver :: "'b driver_kind \<Rightarrow> ('b, 'p) runtime_builder \<Rightarrow> ('b, 'p) runtime_builder" where
  "builder_driver k rb = rb\<lparr>rb_driver_kind := Some k\<rparr>"

definition builder_enable_timer :: "bool \<Rightarrow> ('b, 'p) runtime_builder \<Rightarrow> ('b, 'p) runtime_builder" where
  "builder_enable_timer b rb = rb\<lparr>rb_enable_timer := b\<rparr>"

definition builder_enable_fs_offload :: "bool \<Rightarrow> ('b, 'p) runtime_builder \<Rightarrow> ('b, 'p) runtime_builder" where
  "builder_enable_fs_offload b rb = rb\<lparr>rb_enable_fs_offload := b\<rparr>"

definition builder_blocking_pool :: "'p \<Rightarrow> ('b, 'p) runtime_builder \<Rightarrow> ('b, 'p) runtime_builder" where
  "builder_blocking_pool p rb = rb\<lparr>rb_blocking_pool := Some p\<rparr>"

definition builder_batch_size :: "nat \<Rightarrow> ('b, 'p) runtime_builder \<Rightarrow> ('b, 'p) runtime_builder" where
  "builder_batch_size n rb = rb\<lparr>rb_batch_size := n\<rparr>"

definition builder_uring ::
  "('r, 'm, 'b) sys \<Rightarrow> ('b \<Rightarrow> 'b) \<Rightarrow> ('b, 'p) runtime_builder \<Rightarrow> ('b, 'p) runtime_builder" where
  "builder_uring sys f rb =
     rb\<lparr>rb_driver_kind := Some (KIoUringCustom (f (case rb_driver_kind rb of
          Some (KIoUringCustom b) \<Rightarrow> b | _ \<Rightarrow> sys_builder sys)))\<rparr>"

text \<open>The arguments \<open>build\<close> gives to \<open>Runtime::with_options\<close>.\<close>

record ('d, 'p) runtime_config =
  rc_driver :: 'd
  rc_timer :: bool
  rc_blocking_pool :: "'p option"
  rc_fs_offload :: bool
  rc_batch_size :: nat

definition builder_build ::
  "('r, 's, 'c, 'd, 'o, 'm, 't) any_env \<Rightarrow> ('r, 'm, 'b) sys \<Rightarrow> ('b, 'p) runtime_builder \<Rightarrow>
   ((('r, 's, 'c, 'm, 't) any_driver, 'p) runtime_config option) io_result" where
  "builder_build Z sys rb =
     (case (case rb_driver_kind rb of Some k \<Rightarrow> into_driver Z sys k | None \<Rightarrow> new_best Z sys) of
        Inl err \<Rightarrow> Inl err
      | Inr None \<Rightarrow> Inr None
      | Inr (Some d) \<Rightarrow>
          Inr (Some \<lparr>rc_driver = d, rc_timer = rb_enable_timer rb, rc_blocking_pool = rb_blocking_pool rb,
                     rc_fs_offload = rb_enable_fs_offload rb, rc_batch_size = rb_batch_size rb\<rparr>))"

subsection \<open>A system without the newer flags\<close>

definition ex_any ::
  "(unit list_ring, handle_registration option list, unit completion option list, unit, unit,
    nat list, registration option list) any_env" where
  "ex_any = \<lparr>z_uring = ex_env, z_mio = list_mio\<rparr>"

text \<open>The builder is a flag: set when the newer flags are requested, which the kernel refuses.\<close>

definition ex_sys :: "(unit list_ring, nat list, bool) sys" where
  "ex_sys = \<lparr>sys_eventfd = Inr 3, sys_builder = False, sys_newer_flags = (\<lambda>_. True),
     sys_build = (\<lambda>n newer. if newer then Inl (Os 22) else Inr ex_ring), sys_ext_arg = True, sys_poll = Inr []\<rparr>"

lemma ex_interrupt: "\<exists>u'. submit_interrupt (z_uring ex_any) u = Some u'"
  by (simp add: ex_any_def uring_eval submitter_call_result_def)

subsection \<open>Properties\<close>

text \<open>
  Without an explicit choice \<open>build\<close> uses io_uring whenever a ring can be created, with or
  without the newer flags, and falls back to mio otherwise; it fails exactly when mio cannot be
  created either. (The eventfd is available and the first push on a new ring succeeds.)
\<close>
lemma build_best_driver:
  assumes "sys_eventfd sys = Inr fd"
    and "\<And>u. \<exists>u'. submit_interrupt (z_uring Z) u = Some u'"
  shows "(case builder_build Z sys (builder_new :: ('b, 'p) runtime_builder) of
            Inl err \<Rightarrow> (\<exists>e e'. sys_build sys 4096 (sys_newer_flags sys (sys_builder sys)) = Inl e \<and>
                          sys_build sys 4096 (sys_builder sys) = Inl e') \<and> sys_poll sys = Inl err
          | Inr None \<Rightarrow> False
          | Inr (Some c) \<Rightarrow>
              (if isl (sys_build sys 4096 (sys_newer_flags sys (sys_builder sys))) \<and>
                  isl (sys_build sys 4096 (sys_builder sys))
               then \<exists>d. rc_driver c = MioDriver d else \<exists>u. rc_driver c = IoUringDriver u) \<and>
              rc_batch_size c = 256)"
proof -
  have new: "uring_new (z_uring Z) (sys_eventfd sys) res ext =
      (case res of Inl e \<Rightarrow> Inl e | Inr r \<Rightarrow> Inr (submit_interrupt (z_uring Z)
        \<lparr>u_ring = r, u_registrations = slab_new (x_regs (z_uring Z)), u_completions = slab_new (x_comps (z_uring Z)),
         u_pending_submissions = False, u_ext_arg = ext\<rparr>))" for res ext
    using assms(1) by (simp add: uring_new_def)
  obtain f where f: "submit_interrupt (z_uring Z) u = Some (f u)" for u
    using assms(2) by metis
  show ?thesis
    by (auto simp: builder_build_def builder_new_def new_best_def new_uring_def new_uring_with_entries_def
        new_uring_custom_with_entries_def new f new_mio_def mio_new_def split: sum.splits)
qed

text \<open>
  \<open>RuntimeBuilder::uring\<close> forgets an entry count chosen before and has no fallback: after
  \<open>driver(IoUringEntries(n)).uring(f)\<close> the build asks for 4096 entries with the customised builder only, and
  fails when the kernel refuses it.
\<close>
lemma builder_uring_no_fallback:
  assumes "sys_eventfd sys = Inr fd" and "sys_build sys 4096 (f (sys_builder sys)) = Inl err"
  shows "builder_build Z sys (builder_uring sys f (builder_driver (KIoUringEntries n) rb)) = Inl err"
  using assms
  by (simp add: builder_build_def builder_uring_def builder_driver_def new_uring_custom_def
      new_uring_custom_with_entries_def uring_new_def)

end
