(* ===== verification/Raw_Handle.thy ===== *)
theory Raw_Handle
  imports Any_Driver
begin

text \<open>
  I/O handles, \<open>fd_inner.rs\<close>: registration with the driver in poll or completion mode, change of mode,
  the choice between the two ways to poll an operation, and deregistration on drop. The handle's
  reference to its driver is the explicit driver argument.
\<close>

subsection \<open>Operations\<close>

definition effective_mode :: "('r, 's, 'c, 'm, 't) any_driver \<Rightarrow> registration_mode \<Rightarrow> registration_mode" where
  "effective_mode d mode =
     (if mode = CompletionMode \<and> \<not> any_supports_completion d then PollMode else mode)"

definition new_with_driver_and_mode ::
  "('r, 's, 'c, 'd, 'o, 'm, 't) any_env \<Rightarrow> ('r, 's, 'c, 'm, 't) any_driver \<Rightarrow> int \<Rightarrow> interest \<Rightarrow>
   registration_mode \<Rightarrow> ('r, 's, 'c, 'm, 't) any_driver \<times> raw_handle io_result" where
  "new_with_driver_and_mode Z d fd i mode =
     (let mode = effective_mode d mode;
          inner = \<lparr>h_handle = fd, h_token = 0, h_interest = i, h_mode = mode\<rparr>
      in case any_register_with_mode Z inner i mode d of
           (d, Inl err) \<Rightarrow> (d, Inl err)
         | (d, Inr token) \<Rightarrow> (d, Inr (inner\<lparr>h_token := token\<rparr>)))"

text \<open>\<open>current\<close> is the driver of the current runtime, if there is one.\<close>

definition new_with_mode ::
  "('r, 's, 'c, 'd, 'o, 'm, 't) any_env \<Rightarrow> ('r, 's, 'c, 'm, 't) any_driver option \<Rightarrow> int \<Rightarrow> interest \<Rightarrow>
   registration_mode \<Rightarrow> ('r, 's, 'c, 'm, 't) any_driver option \<times> raw_handle io_result" where
  "new_with_mode Z current fd i mode =
     (case current of
        None \<Rightarrow> (None, Inl (Custom NotConnected))
      | Some d \<Rightarrow> (case new_with_driver_and_mode Z d fd i mode of (d, res) \<Rightarrow> (Some d, res)))"

definition handle_new ::
  "('r, 's, 'c, 'd, 'o, 'm, 't) any_env \<Rightarrow> ('r, 's, 'c, 'm, 't) any_driver option \<Rightarrow> int \<Rightarrow> interest \<Rightarrow>
   ('r, 's, 'c, 'm, 't) any_driver option \<times> raw_handle io_result" where
  "handle_new Z current fd i =
     new_with_mode Z current fd i
       (if (case current of None \<Rightarrow> False | Some d \<Rightarrow> any_supports_completion d)
        then CompletionMode else PollMode)"

definition uses_completion :: "('r, 's, 'c, 'm, 't) any_driver \<Rightarrow> raw_handle \<Rightarrow> bool" where
  "uses_completion d h \<longleftrightarrow> any_supports_completion d \<and> h_mode h = CompletionMode"

definition rebind_mode ::
  "('r, 's, 'c, 'd, 'o, 'm, 't) any_env \<Rightarrow> registration_mode \<Rightarrow> raw_handle \<Rightarrow> ('r, 's, 'c, 'm, 't) any_driver \<Rightarrow>
   ('r, 's, 'c, 'm, 't) any_driver \<times> raw_handle \<times> unit io_result" where
  "rebind_mode Z requested h d =
     (let mode = effective_mode d requested in
      if h_mode h = mode then (d, h, Inr ())
      else (case any_deregister Z h d of
              (d, Inl err) \<Rightarrow> (d, h, Inl err)
            | (d, Inr _) \<Rightarrow>
                (case any_register_with_mode Z h (h_interest h) mode d of
                   (d, Inl err) \<Rightarrow> (d, h, Inl err)
                 | (d, Inr token) \<Rightarrow> (d, h\<lparr>h_token := token, h_mode := mode\<rparr>, Inr ()))))"

text \<open>
  An operation is its two poll functions on an operation state \<open>'op\<close> and the driver.
\<close>

record ('op, 'dr, 'a) op_methods =
  op_poll_completion :: "waker \<Rightarrow> 'op \<Rightarrow> 'dr \<Rightarrow> 'op \<times> 'dr \<times> 'a io_result poll"
  op_poll_poll :: "waker \<Rightarrow> 'op \<Rightarrow> 'dr \<Rightarrow> 'op \<times> 'dr \<times> 'a io_result poll"

definition poll_op ::
  "('op, ('r, 's, 'c, 'm, 't) any_driver, 'a) op_methods \<Rightarrow> raw_handle \<Rightarrow> waker \<Rightarrow> 'op \<Rightarrow>
   ('r, 's, 'c, 'm, 't) any_driver \<Rightarrow> 'op \<times> ('r, 's, 'c, 'm, 't) any_driver \<times> 'a io_result poll" where
  "poll_op M h w op d =
     (if uses_completion d h then op_poll_completion M w op d else op_poll_poll M w op d)"

definition poll_op_poll ::
  "('op, ('r, 's, 'c, 'm, 't) any_driver, 'a) op_methods \<Rightarrow> raw_handle \<Rightarrow> waker \<Rightarrow> 'op \<Rightarrow>
   ('r, 's, 'c, 'm, 't) any_driver \<Rightarrow> 'op \<times> ('r, 's, 'c, 'm, 't) any_driver \<times> 'a io_result poll" where
  "poll_op_poll M h w op d =
     (if uses_completion d h then (op, d, Ready (Inl (Custom Unsupported))) else op_poll_poll M w op d)"

definition handle_drop ::
  "('r, 's, 'c, 'd, 'o, 'm, 't) any_env \<Rightarrow> raw_handle \<Rightarrow> ('r, 's, 'c, 'm, 't) any_driver \<Rightarrow>
   ('r, 's, 'c, 'm, 't) any_driver" where
  "handle_drop Z h d = fst (any_deregister Z h d)"

subsection \<open>Handles and their registrations\<close>

text \<open>The driver's table has a registration for the handle, of the kind its mode asks for.\<close>

fun handle_registered ::
  "('r, 's, 'c, 'd, 'o, 'm, 't) any_env \<Rightarrow> raw_handle \<Rightarrow> ('r, 's, 'c, 'm, 't) any_driver \<Rightarrow> bool" where
  "handle_registered Z h MockDriver = False"
| "handle_registered Z h (MioDriver d) =
     (h_mode h = PollMode \<and>
      (case slab_get (y_regs (z_mio Z)) (m_regs d) (h_token h) of
         None \<Rightarrow> False | Some reg \<Rightarrow> reg_fd reg = h_handle h))"
| "handle_registered Z h (IoUringDriver u) =
     (case slab_get (x_regs (z_uring Z)) (u_registrations u) (h_token h) of
        None \<Rightarrow> False
      | Some RegCompletion \<Rightarrow> h_mode h = CompletionMode
      | Some (RegPoll p) \<Rightarrow> h_mode h = PollMode \<and> pr_fd p = h_handle h)"

lemma effective_mode_idem [simp]: "effective_mode d (effective_mode d mode) = effective_mode d mode"
  by (simp add: effective_mode_def)

locale any_slabs =
  mio_regs: slab "y_regs (z_mio Z)" + uring_regs: slab "x_regs (z_uring Z)"
  for Z :: "('r, 's, 'c, 'd, 'o, 'm, 't) any_env"
begin

lemma registered_after_register:
  assumes "any_register_with_mode Z h i mode d = (d', Inr token)" and "mode = effective_mode d mode"
  shows "handle_registered Z (h\<lparr>h_token := token, h_mode := mode\<rparr>) d'"
  using assms
  by (cases d; cases mode)
    (auto simp: mio_register_def uring_register_def effective_mode_def Let_def
      split: prod.splits sum.splits if_splits registration_mode.splits)

lemma deregister_kind:
  "any_deregister Z h d = (d', res) \<Longrightarrow> effective_mode d' mode = effective_mode d mode"
  by (cases d) (auto simp: effective_mode_def split: prod.splits)

end

interpretation ex_slabs: any_slabs ex_any
  by (simp add: any_slabs_def ex_any_def list_mio_def ex_env_def list_slab_def [symmetric] ls.slab_axioms)

subsection \<open>Properties\<close>

text \<open>
  C4: a handle that was created, and then possibly switched to another mode, is registered with its
  driver under its token in the mode it claims: the driver never has a completion registration
  behind a handle that submits polls, nor a poll registration of another descriptor. An operation
  takes the completion path exactly when the driver supports it and the last requested mode is
  completion.
\<close>
theorem handle_matches_registration:
  assumes "any_slabs Z" and "new_with_driver_and_mode Z d fd i mode = (d1, Inr h)"
    and "rebind_mode Z mode2 h d1 = (d2, h2, Inr ())"
  shows "handle_registered Z h d1 \<and> handle_registered Z h2 d2 \<and> h_handle h2 = fd \<and>
    (uses_completion d2 h2 \<longleftrightarrow> mode2 = CompletionMode \<and> any_supports_completion d2)"
proof -
  note reg = any_slabs.registered_after_register [OF assms(1)]
  obtain token where r: "any_register_with_mode Z
      \<lparr>h_handle = fd, h_token = 0, h_interest = i, h_mode = effective_mode d mode\<rparr> i (effective_mode d mode) d =
      (d1, Inr token)" and h: "h = \<lparr>h_handle = fd, h_token = token, h_interest = i, h_mode = effective_mode d mode\<rparr>"
    using assms(2) by (auto simp: new_with_driver_and_mode_def Let_def split: prod.splits sum.splits)
  have 1: "handle_registered Z h d1"
    using reg [OF r] h by simp
  show ?thesis
  proof (cases "h_mode h = effective_mode d1 mode2")
    case True
    then show ?thesis
      using 1 assms(3) h
      by (auto simp: rebind_mode_def Let_def uses_completion_def effective_mode_def split: if_splits)
  next
    case False
    then obtain d' token' where d': "any_deregister Z h d1 = (d', Inr ())"
      and r': "any_register_with_mode Z h (h_interest h) (effective_mode d1 mode2) d' = (d2, Inr token')"
      and h2: "h2 = h\<lparr>h_token := token', h_mode := effective_mode d1 mode2\<rparr>"
      using assms(3) by (auto simp: rebind_mode_def Let_def split: prod.splits sum.splits)
    have eq: "effective_mode d' mode2 = effective_mode d1 mode2"
      using any_slabs.deregister_kind [OF assms(1) d'] .
    then have "handle_registered Z h2 d2"
      using reg [OF r'] effective_mode_idem [of d' mode2] h2 by simp
    moreover have "any_supports_completion d2 = any_supports_completion d'"
      using r' by (cases d') (auto split: prod.splits)
    ultimately show ?thesis
      using 1 eq h2 h by (auto simp: uses_completion_def effective_mode_def split: if_splits)
  qed
qed

definition ex_bound ::
  "(unit list_ring, handle_registration option list, unit completion option list, nat list,
    registration option list) any_driver \<times> raw_handle io_result" where
  "ex_bound = new_with_driver_and_mode ex_any (IoUringDriver ex_new) 9 READABLE CompletionMode"

lemma ex_bound_eq:
  "ex_bound = (IoUringDriver (ex_new\<lparr>u_registrations := [Some RegCompletion]\<rparr>),
     Inr \<lparr>h_handle = 9, h_token = 0, h_interest = READABLE, h_mode = CompletionMode\<rparr>)"
  by (simp add: ex_bound_def new_with_driver_and_mode_def effective_mode_def ex_any_def uring_register_def
      uring_eval Let_def)

theorem handle_matches_registration_witness:
  "\<exists>d2 h2. rebind_mode ex_any PollMode \<lparr>h_handle = 9, h_token = 0, h_interest = READABLE, h_mode = CompletionMode\<rparr> (fst ex_bound) =
     (d2, h2, Inr ()) \<and> handle_registered ex_any h2 d2 \<and> h_handle h2 = 9"
proof -
  let ?h = "\<lparr>h_handle = 9, h_token = 0, h_interest = READABLE, h_mode = CompletionMode\<rparr>"
  have new: "new_with_driver_and_mode ex_any (IoUringDriver ex_new) 9 READABLE CompletionMode = (fst ex_bound, Inr ?h)"
    unfolding ex_bound_def [symmetric] by (subst (1) ex_bound_eq) (simp add: ex_bound_eq)
  obtain d2 h2 where "rebind_mode ex_any PollMode ?h (fst ex_bound) = (d2, h2, Inr ())"
    by (simp add: ex_bound_eq rebind_mode_def effective_mode_def ex_any_def uring_register_def uring_deregister_def
        uring_eval Let_def)
  with handle_matches_registration [OF ex_slabs.any_slabs_axioms new this] show ?thesis
    by blast
qed

end
