(* ===== verification/Io_Buf.thy ===== *)
theory Io_Buf
  imports Vibe_Prelude
begin

text \<open>
  Buffers, \<open>io/buf.rs\<close>. A buffer is one of the types that implement \<open>IoBuf\<close>; its bytes live in a block
  of memory with a number (\<open>mem\<close>), and a pointer is a block with an offset. An array \<open>[u8; N]\<close> lives
  inside the value that owns it and moves with it; the bytes of the other types stay where they are.
  Lengths are \<open>usize\<close> values; a subtraction below zero wraps around, as in a release build.
\<close>

type_synonym mem = nat
type_synonym ptr = "mem \<times> nat"

datatype io_buf =
    Vec mem nat nat          \<comment> \<open>\<open>Vec<u8>\<close>: block, length, capacity\<close>
  | Str mem nat nat          \<comment> \<open>\<open>String\<close>\<close>
  | StaticSlice mem nat      \<comment> \<open>\<open>&'static [u8]\<close>\<close>
  | StaticStr mem nat        \<comment> \<open>\<open>&'static str\<close>\<close>
  | Array mem nat            \<comment> \<open>\<open>[u8; N]\<close>\<close>
  | BoxSlice mem nat         \<comment> \<open>\<open>Box<[u8]>\<close>\<close>
  | TemporaryPoll ptr nat    \<comment> \<open>\<open>IoBufTemporaryPoll\<close>\<close>
  | WithCursor io_buf nat    \<comment> \<open>\<open>IoBufWithCursor\<close>\<close>

definition usize_sub :: "nat \<Rightarrow> nat \<Rightarrow> nat" where
  "usize_sub a b = (if b \<le> a then a - b else 2 ^ 64 + a - b)"

fun as_buf_ptr :: "io_buf \<Rightarrow> ptr" where
  "as_buf_ptr (Vec m l c) = (m, 0)"
| "as_buf_ptr (Str m l c) = (m, 0)"
| "as_buf_ptr (StaticSlice m l) = (m, 0)"
| "as_buf_ptr (StaticStr m l) = (m, 0)"
| "as_buf_ptr (Array m n) = (m, 0)"
| "as_buf_ptr (BoxSlice m l) = (m, 0)"
| "as_buf_ptr (TemporaryPoll p l) = p"
| "as_buf_ptr (WithCursor b cur) = (case as_buf_ptr b of (m, off) \<Rightarrow> (m, off + cur))"

fun buf_len :: "io_buf \<Rightarrow> nat" where
  "buf_len (Vec m l c) = l"
| "buf_len (Str m l c) = l"
| "buf_len (StaticSlice m l) = l"
| "buf_len (StaticStr m l) = l"
| "buf_len (Array m n) = n"
| "buf_len (BoxSlice m l) = l"
| "buf_len (TemporaryPoll p l) = l"
| "buf_len (WithCursor b cur) = usize_sub (buf_len b) cur"

fun buf_capacity :: "io_buf \<Rightarrow> nat" where
  "buf_capacity (Vec m l c) = c"
| "buf_capacity (Str m l c) = c"
| "buf_capacity (StaticSlice m l) = l"
| "buf_capacity (StaticStr m l) = l"
| "buf_capacity (Array m n) = n"
| "buf_capacity (BoxSlice m l) = l"
| "buf_capacity (TemporaryPoll p l) = l"
| "buf_capacity (WithCursor b cur) = usize_sub (buf_capacity b) cur"

fun would_box :: "io_buf \<Rightarrow> bool" where
  "would_box (Array m n) = True"
| "would_box (WithCursor b cur) = would_box b"
| "would_box _ = False"

text \<open>The immutable buffers do not implement \<open>IoBufMut\<close>; their clause is never used.\<close>

fun set_buf_init :: "nat \<Rightarrow> io_buf \<Rightarrow> io_buf" where
  "set_buf_init n (Vec m l c) = Vec m n c"
| "set_buf_init n (Str m l c) = Str m n c"
| "set_buf_init n (Array m k) = Array m k"
| "set_buf_init n (BoxSlice m l) = BoxSlice m l"
| "set_buf_init n (TemporaryPoll p l) = TemporaryPoll p l"
| "set_buf_init n (WithCursor b cur) = WithCursor (set_buf_init (cur + n) b) cur"
| "set_buf_init n b = b"

definition cursor_new :: "io_buf \<Rightarrow> io_buf" where
  "cursor_new b = WithCursor b 0"

fun cursor_advance :: "nat \<Rightarrow> io_buf \<Rightarrow> io_buf" where
  "cursor_advance n (WithCursor b cur) = WithCursor b (cur + n)"
| "cursor_advance n b = b"

fun cursor_into_inner :: "io_buf \<Rightarrow> io_buf" where
  "cursor_into_inner (WithCursor b cur) = b"
| "cursor_into_inner b = b"

subsection \<open>Vectored buffers\<close>

text \<open>\<open>IoVec\<close>, \<open>libc::iovec\<close> and the pairs of \<open>IoVectoredBufTemporaryPoll\<close>: a pointer and a length.\<close>

type_synonym io_vec = "ptr \<times> nat"

definition as_iovecs :: "io_vec list \<Rightarrow> io_vec list" where
  "as_iovecs vs = map (\<lambda>(p, l). (p, l)) vs"

definition iovec_to_system :: "io_vec list \<Rightarrow> io_vec list" where
  "iovec_to_system vs = map (\<lambda>(p, l). (p, l)) vs"

lemma iovec_id [simp]: "as_iovecs vs = vs" "iovec_to_system vs = vs"
  by (simp_all add: as_iovecs_def iovec_to_system_def)

subsection \<open>Buffers stay inside their block\<close>

lemma set_buf_init_frame [simp]:
  "as_buf_ptr (set_buf_init n b) = as_buf_ptr b" "buf_capacity (set_buf_init n b) = buf_capacity b"
  "would_box (set_buf_init n b) = would_box b"
  by (induction n b rule: set_buf_init.induct) auto

text \<open>A buffer that can be read into, and its invariant: no more bytes are initialised than fit.\<close>

fun growable :: "io_buf \<Rightarrow> bool" where
  "growable (Vec m l c) = True"
| "growable (Str m l c) = True"
| "growable _ = False"

fun buf_wf :: "io_buf \<Rightarrow> bool" where
  "buf_wf (Vec m l c) = (l \<le> c)"
| "buf_wf (Str m l c) = (l \<le> c)"
| "buf_wf (WithCursor b cur) = (buf_wf b \<and> cur \<le> buf_capacity b)"
| "buf_wf b = True"

lemma set_buf_init_wf: "buf_wf b \<Longrightarrow> n \<le> buf_capacity b \<Longrightarrow> buf_wf (set_buf_init n b)"
  by (induction n b rule: set_buf_init.induct) (auto simp: usize_sub_def split: if_splits)

lemma read_step_wf:
  assumes "growable b" "buf_wf (WithCursor b cur)" "n \<le> buf_capacity (WithCursor b cur)"
  shows "buf_wf (cursor_advance n (set_buf_init n (WithCursor b cur)))"
    "buf_len (cursor_into_inner (set_buf_init n (WithCursor b cur))) = cur + n"
    "buf_capacity (cursor_advance n (set_buf_init n (WithCursor b cur))) = buf_capacity (WithCursor b cur) - n"
    "as_buf_ptr (cursor_advance n (set_buf_init n (WithCursor b cur))) =
       (fst (as_buf_ptr (WithCursor b cur)), snd (as_buf_ptr (WithCursor b cur)) + n)"
  using assms by (cases b; auto simp: usize_sub_def split: if_splits)+

end
