(* ===== verification/Op_Base.thy ===== *)
theory Op_Base
  imports Raw_Handle Io_Buf
begin

text \<open>
  What the operations of \<open>op/\<close> share: the trait \<open>Op\<close> with its defaults (\<open>op/mod.rs\<close>), the buffer of a
  completion and the wait for readiness (\<open>op/io_util.rs\<close>), the block every \<open>poll_completion\<close> begins with,
  and the readiness operation (\<open>op/readiness.rs\<close>).

  The entry an operation submits is a value of \<open>op_entry\<close>; \<open>entry_mem\<close> lists the blocks of memory the
  kernel reads or writes through its pointers. The data an operation hands to
  \<open>ignore_completion\<close> when it is dropped is the list of the blocks it keeps alive. The result of a
  system call made directly is an argument: the returned number and \<open>errno\<close>.
\<close>

subsection \<open>Entries\<close>

record msghdr =
  msg_name :: mem
  msg_namelen :: nat
  msg_iov :: "io_vec list"
  msg_control :: "mem option"
  msg_controllen :: nat
  msg_flags :: nat

datatype op_entry =
    ERead int ptr u32 "u64 option"
  | EWrite int ptr u32 "u64 option"
  | ERecv int ptr u32 bool
  | ESend int ptr u32
  | EReadv int mem "io_vec list"
  | EWritev int mem "io_vec list"
  | ERecvMsg int mem msghdr bool
  | ESendMsg int mem msghdr
  | EAccept int bool
  | EConnect int mem nat
  | EFsync int bool
  | EMkDirAt mem nat
  | EOpenAt mem int nat
  | ERenameAt mem mem
  | ELinkAt mem mem
  | ESymlinkAt mem mem
  | EUnlinkAt mem bool
  | EStatx int mem int u32 mem
  | ESplice int int u32

fun entry_mem :: "op_entry \<Rightarrow> mem list" where
  "entry_mem (ERead fd p l off) = [fst p]"
| "entry_mem (EWrite fd p l off) = [fst p]"
| "entry_mem (ERecv fd p l peek) = [fst p]"
| "entry_mem (ESend fd p l) = [fst p]"
| "entry_mem (EReadv fd m vs) = m # map (fst \<circ> fst) vs"
| "entry_mem (EWritev fd m vs) = m # map (fst \<circ> fst) vs"
| "entry_mem (ERecvMsg fd m h peek) = m # msg_name h # map (fst \<circ> fst) (msg_iov h)"
| "entry_mem (ESendMsg fd m h) = m # msg_name h # map (fst \<circ> fst) (msg_iov h)"
| "entry_mem (EConnect fd m l) = [m]"
| "entry_mem (EMkDirAt m mode) = [m]"
| "entry_mem (EOpenAt m flags mode) = [m]"
| "entry_mem (ERenameAt m m') = [m, m']"
| "entry_mem (ELinkAt m m') = [m, m']"
| "entry_mem (ESymlinkAt m m') = [m, m']"
| "entry_mem (EUnlinkAt m d) = [m]"
| "entry_mem (EStatx fd m flags msk b) = [m, b]"
| "entry_mem _ = []"

type_synonym ('r, 's, 'c, 'm, 't) op_env = "('r, 's, 'c, mem list, op_entry, 'm, 't) any_env"

subsection \<open>Completion buffers\<close>

datatype completion_buffer = Inline io_buf | Boxed io_buf

definition cb_new :: "io_buf \<Rightarrow> bool \<Rightarrow> completion_buffer" where
  "cb_new buf is_stable = (if is_stable \<and> would_box buf then Boxed buf else Inline buf)"

fun cb_ref :: "completion_buffer \<Rightarrow> io_buf" where
  "cb_ref (Inline buf) = buf"
| "cb_ref (Boxed buf) = buf"

fun cb_map :: "(io_buf \<Rightarrow> io_buf) \<Rightarrow> completion_buffer \<Rightarrow> completion_buffer" where
  "cb_map f (Inline buf) = Inline (f buf)"
| "cb_map f (Boxed buf) = Boxed (f buf)"

definition cb_into_inner :: "completion_buffer \<Rightarrow> io_buf" where
  "cb_into_inner cb = cb_ref cb"

text \<open>
  \<open>into_stable_box\<close>: the bytes of an array that was not boxed move into the new box, so their old
  place is not kept; everything else keeps its block.
\<close>

definition into_stable_box :: "completion_buffer \<Rightarrow> mem list" where
  "into_stable_box cb =
     (case cb of
        Inline buf \<Rightarrow> if would_box buf then [] else [fst (as_buf_ptr buf)]
      | Boxed buf \<Rightarrow> [fst (as_buf_ptr buf)])"

lemma stable_box_keeps: "into_stable_box (cb_new buf True) = [fst (as_buf_ptr buf)]"
  by (simp add: into_stable_box_def cb_new_def)

lemma cb_ref_new [simp]: "cb_ref (cb_new buf is_stable) = buf"
  by (simp add: cb_new_def)

subsection \<open>Results of system calls\<close>

definition syscall_result :: "int \<Rightarrow> int \<Rightarrow> nat io_result" where
  "syscall_result ret errno = (if ret = -1 then Inl (Os errno) else Inr (nat ret))"

definition poll_result_or_wait ::
  "('r, 's, 'c, 'm, 't) op_env \<Rightarrow> nat io_result \<Rightarrow> raw_handle \<Rightarrow> waker \<Rightarrow> interest \<Rightarrow>
   ('r, 's, 'c, 'm, 't) any_driver \<Rightarrow> ('r, 's, 'c, 'm, 't) any_driver \<times> nat io_result poll" where
  "poll_result_or_wait Z result h w i d =
     (case result of
        Inr v \<Rightarrow> (d, Ready (Inr v))
      | Inl err \<Rightarrow>
          if err_kind err = WouldBlock
          then (case any_submit_poll Z h w i d of
                  (d, Inl submit_err) \<Rightarrow> (d, Ready (Inl submit_err))
                | (d, Inr _) \<Rightarrow> (d, Pending))
          else (d, Ready (Inl err)))"

subsection \<open>The trait\<close>

definition default_poll_poll :: "'a io_result poll" where
  "default_poll_poll = Ready (Inl (Custom Unsupported))"

definition default_poll_completion :: "'a io_result poll" where
  "default_poll_completion = Ready (Inl (Custom Unsupported))"

definition default_build_entry :: "op_entry io_result" where
  "default_build_entry = Inl (Custom Unsupported)"

definition op_poll ::
  "('op, ('r, 's, 'c, 'm, 't) any_driver, 'a) op_methods \<Rightarrow> waker \<Rightarrow> 'op \<Rightarrow>
   ('r, 's, 'c, 'm, 't) any_driver \<Rightarrow> 'op \<times> ('r, 's, 'c, 'm, 't) any_driver \<times> 'a io_result poll" where
  "op_poll M w op d =
     (if any_supports_completion d then op_poll_completion M w op d else op_poll_poll M w op d)"

text \<open>
  The block at the start of every \<open>poll_completion\<close>: the result of the operation in flight, or a
  submission. \<open>build\<close> is the operation's \<open>build_completion_entry\<close>; the new value of
  \<open>completion_token\<close> is the first component.
\<close>

definition completion_block ::
  "('r, 's, 'c, 'm, 't) op_env \<Rightarrow> op_entry io_result \<Rightarrow> waker \<Rightarrow> nat option \<Rightarrow>
   ('r, 's, 'c, 'm, 't) any_driver \<Rightarrow> nat option \<times> ('r, 's, 'c, 'm, 't) any_driver \<times> int io_result poll" where
  "completion_block Z build w token d =
     (case token of
        Some k \<Rightarrow>
          (case any_get_completion_result Z k d of
             (d, Some result) \<Rightarrow> (None, d, Ready (Inr result))
           | (d, None) \<Rightarrow> (Some k, any_set_completion_waker Z k w d, Pending))
      | None \<Rightarrow>
          (case any_submit_completion Z build w d of
             (d, CompletionOk result) \<Rightarrow> (None, d, Ready (Inr result))
           | (d, Retry k) \<Rightarrow> (Some k, d, Pending)
           | (d, SubmitErr err) \<Rightarrow> (None, d, Ready (Inl err))))"

text \<open>The rest of a \<open>poll_completion\<close>: a negative result is an error number.\<close>

definition finish_completion :: "int io_result poll \<Rightarrow> (int \<Rightarrow> 'a io_result poll) \<Rightarrow> 'a io_result poll" where
  "finish_completion p f =
     (case p of
        Pending \<Rightarrow> Pending
      | Ready (Inl err) \<Rightarrow> Ready (Inl err)
      | Ready (Inr result) \<Rightarrow> if result < 0 then Ready (Inl (Os (- result))) else f result)"

text \<open>\<open>drop\<close>: \<open>current\<close> is \<open>try_current_driver()\<close>; without it nothing is told to the driver.\<close>

definition drop_completion ::
  "('r, 's, 'c, 'm, 't) op_env \<Rightarrow> nat option \<Rightarrow> mem list \<Rightarrow>
   ('r, 's, 'c, 'm, 't) any_driver option \<Rightarrow> ('r, 's, 'c, 'm, 't) any_driver option" where
  "drop_completion Z token kept current =
     (case token of
        None \<Rightarrow> current
      | Some k \<Rightarrow> map_option (any_ignore_completion Z k kept) current)"

subsection \<open>Readiness\<close>

record readiness_op =
  rd_handle :: raw_handle
  rd_writable :: bool

definition new_readable :: "raw_handle \<Rightarrow> readiness_op" where
  "new_readable h = \<lparr>rd_handle = h, rd_writable = False\<rparr>"

definition new_writable :: "raw_handle \<Rightarrow> readiness_op" where
  "new_writable h = \<lparr>rd_handle = h, rd_writable = True\<rparr>"

definition readiness_poll_poll ::
  "('r, 's, 'c, 'm, 't) op_env \<Rightarrow> waker \<Rightarrow> readiness_op \<Rightarrow>
   ('r, 's, 'c, 'm, 't) any_driver \<Rightarrow> ('r, 's, 'c, 'm, 't) any_driver \<times> unit io_result poll" where
  "readiness_poll_poll Z w op d =
     (case any_submit_poll Z (rd_handle op) w (if rd_writable op then WRITABLE else READABLE) d of
        (d, Inl err) \<Rightarrow> (d, Ready (Inl err))
      | (d, Inr _) \<Rightarrow> (d, Pending))"

subsection \<open>The life of a completion\<close>

text \<open>What one block does to an io_uring driver, by the state of its token.\<close>

lemma block_submits:
  assumes "completion_block Z (Inr e) w None (IoUringDriver u) = (Some k, d, Pending)"
  shows "\<exists>u'. d = IoUringDriver u' \<and> k = slab_vacant_key (x_comps (z_uring Z)) (u_completions u) \<and>
    uring_submit_completion (z_uring Z) (Inr e) w u = (u', Retry k)"
  using assms
  by (auto simp: completion_block_def uring_submit_completion_def Let_def
      split: prod.splits completion_io_result.splits sum.splits)

lemma block_waits:
  assumes "completion_block Z b w (Some k) (IoUringDriver u) = (t, d, p)"
  shows "(t = Some k \<and> p = Pending \<and> snd (uring_get_completion_result (z_uring Z) k u) = None) \<or>
    (t = None \<and> (\<exists>r. p = Ready (Inr r) \<and> snd (uring_get_completion_result (z_uring Z) k u) = Some r))"
  using assms by (auto simp: completion_block_def split: prod.splits option.splits)

text \<open>
  What the driver keeps for an operation dropped in flight: the data of its entry, as long as its
  completion has not arrived. \<open>memory_kept\<close>: that data covers every block the submitted entry points to.
\<close>

fun abandoned ::
  "('r, 's, 'c, 'm, 't) op_env \<Rightarrow> nat option \<Rightarrow> ('r, 's, 'c, 'm, 't) any_driver option \<Rightarrow> mem list option" where
  "abandoned Z (Some k) (Some (IoUringDriver u)) =
     (case slab_get (x_comps (z_uring Z)) (u_completions u) k of
        None \<Rightarrow> None
      | Some c \<Rightarrow> if c_completed c = None then c_ignored c else None)"
| "abandoned Z _ _ = None"

definition memory_kept ::
  "('r, 's, 'c, 'm, 't) op_env \<Rightarrow> op_entry io_result \<Rightarrow> nat option \<Rightarrow>
   ('r, 's, 'c, 'm, 't) any_driver option \<Rightarrow> bool" where
  "memory_kept Z build token current =
     (case (build, abandoned Z token current) of
        (Inr e, Some kept) \<Rightarrow> set (entry_mem e) \<subseteq> set kept
      | _ \<Rightarrow> False)"

lemma push_entry_completions: "push_entry X e u = (u', res) \<Longrightarrow> u_completions u' = u_completions u"
  by (auto simp: push_entry_def split: prod.splits sum.splits)

locale op_driver =
  comps: slab "x_comps (z_uring Z)" for Z :: "('r, 's, 'c, 'm, 't) op_env"
begin

lemma abandoned_drop:
  assumes "completion_block Z b w None (IoUringDriver u) = (t, d, Pending)"
  shows "\<exists>e. b = Inr e \<and> abandoned Z t (drop_completion Z t kept (Some d)) = Some kept"
  using assms
  by (auto simp: completion_block_def uring_submit_completion_def uring_ignore_completion_def
      drop_completion_def Let_def dest!: push_entry_completions
      split: prod.splits completion_io_result.splits sum.splits)

lemma kept_drop:
  assumes "completion_block Z b w None (IoUringDriver u) = (t, d, Pending)"
    and "\<And>e. b = Inr e \<Longrightarrow> set (entry_mem e) \<subseteq> set kept"
  shows "memory_kept Z b t (drop_completion Z t kept (Some d))"
  using abandoned_drop [OF assms(1), of kept] assms(2) by (auto simp: memory_kept_def)

end

definition ex_op_env ::
  "(op_entry list_ring, handle_registration option list, mem list completion option list,
    nat list, registration option list) op_env" where
  "ex_op_env = \<lparr>z_uring = list_uring 8 (\<lambda>_. 5), z_mio = list_mio\<rparr>"

definition ex_op_uring ::
  "(op_entry list_ring, handle_registration option list, mem list completion option list) uring" where
  "ex_op_uring = \<lparr>u_ring = \<lparr>lr_sq = [EventfdRead INTERRUPT_KEY], lr_cq = []\<rparr>, u_registrations = [],
     u_completions = [], u_pending_submissions = True, u_ext_arg = True\<rparr>"

lemmas op_eval = ex_op_env_def ex_op_uring_def completion_block_def uring_submit_completion_def
  push_entry_def push_ring_def list_ring_def list_slab_def list_get_def complete_all_def

interpretation ex_op: op_driver ex_op_env
  by (simp add: op_driver_def ex_op_env_def ls.slab_axioms)

lemma finish_pending [simp]: "finish_completion p f = Pending \<longleftrightarrow> p = Pending"
  if "\<And>r. f r \<noteq> Pending" for p f
  using that by (auto simp: finish_completion_def split: poll.splits sum.splits)

end
