(* ===== verification/Ops_Path.thy ===== *)
theory Ops_Path
  imports Op_Base
begin

text \<open>
  The operations of \<open>op/\<close> that exist only for completion drivers: files and paths (\<open>mkdir.rs\<close>, \<open>open.rs\<close>,
  \<open>rename.rs\<close>, \<open>hard_link.rs\<close>, \<open>symlink.rs\<close>, \<open>unlink.rs\<close>, \<open>statx.rs\<close>, \<open>fsync.rs\<close>) and \<open>splice.rs\<close>, \<open>sendfile.rs\<close>.
  Each has its constructor, its entry, \<open>poll_completion\<close> and \<open>drop\<close>. A \<open>CString\<close> is the block of
  memory that holds it.
\<close>

definition poll_simple ::
  "('r, 's, 'c, 'm, 't) op_env \<Rightarrow> op_entry io_result \<Rightarrow> waker \<Rightarrow> nat option \<Rightarrow> ('r, 's, 'c, 'm, 't) any_driver \<Rightarrow> (int \<Rightarrow> 'a io_result poll) \<Rightarrow>
   nat option \<times> ('r, 's, 'c, 'm, 't) any_driver \<times> 'a io_result poll" where
  "poll_simple Z build w token d f =
     (case completion_block Z build w token d of (t, d, p) \<Rightarrow> (t, d, finish_completion p f))"

subsection \<open>\<open>MkDirOp\<close>\<close>

record mkdir_op =
  md_path :: "mem"
  md_mode :: "nat"
  md_token :: "nat option"

definition mkdir_new :: "mem \<Rightarrow> nat \<Rightarrow> mkdir_op" where
  "mkdir_new path mode = \<lparr>md_path = path, md_mode = mode, md_token = None\<rparr>"

definition mkdir_entry :: "mkdir_op \<Rightarrow> op_entry io_result" where
  "mkdir_entry op = Inr (EMkDirAt (md_path op) (md_mode op))"

definition mkdir_poll_completion ::
  "('r, 's, 'c, 'm, 't) op_env \<Rightarrow> waker \<Rightarrow> mkdir_op \<Rightarrow> ('r, 's, 'c, 'm, 't) any_driver \<Rightarrow>
   mkdir_op \<times> ('r, 's, 'c, 'm, 't) any_driver \<times> unit io_result poll" where
  "mkdir_poll_completion Z w op d =
     (case poll_simple Z (mkdir_entry op) w (md_token op) d (\<lambda>result. Ready (Inr ())) of
        (t, d, p) \<Rightarrow> (op\<lparr>md_token := t\<rparr>, d, p))"

definition mkdir_drop ::
  "('r, 's, 'c, 'm, 't) op_env \<Rightarrow> mkdir_op \<Rightarrow> ('r, 's, 'c, 'm, 't) any_driver option \<Rightarrow> ('r, 's, 'c, 'm, 't) any_driver option" where
  "mkdir_drop Z op current = drop_completion Z (md_token op) [] current"

subsection \<open>\<open>OpenOp\<close>\<close>

record open_op =
  on_path :: "mem"
  on_flags :: "int"
  on_mode :: "nat"
  on_token :: "nat option"

definition open_new :: "mem \<Rightarrow> int \<Rightarrow> nat \<Rightarrow> open_op" where
  "open_new path flags mode = \<lparr>on_path = path, on_flags = flags, on_mode = mode, on_token = None\<rparr>"

definition open_entry :: "open_op \<Rightarrow> op_entry io_result" where
  "open_entry op = Inr (EOpenAt (on_path op) (on_flags op) (on_mode op))"

definition open_poll_completion ::
  "('r, 's, 'c, 'm, 't) op_env \<Rightarrow> waker \<Rightarrow> open_op \<Rightarrow> ('r, 's, 'c, 'm, 't) any_driver \<Rightarrow>
   open_op \<times> ('r, 's, 'c, 'm, 't) any_driver \<times> int io_result poll" where
  "open_poll_completion Z w op d =
     (case poll_simple Z (open_entry op) w (on_token op) d (\<lambda>result. Ready (Inr result)) of
        (t, d, p) \<Rightarrow> (op\<lparr>on_token := t\<rparr>, d, p))"

definition open_drop ::
  "('r, 's, 'c, 'm, 't) op_env \<Rightarrow> open_op \<Rightarrow> ('r, 's, 'c, 'm, 't) any_driver option \<Rightarrow> ('r, 's, 'c, 'm, 't) any_driver option" where
  "open_drop Z op current = drop_completion Z (on_token op) [] current"

subsection \<open>\<open>RenameOp\<close>\<close>

record rename_op =
  rn_old_path :: "mem"
  rn_new_path :: "mem"
  rn_token :: "nat option"

definition rename_new :: "mem \<Rightarrow> mem \<Rightarrow> rename_op" where
  "rename_new old_path new_path = \<lparr>rn_old_path = old_path, rn_new_path = new_path, rn_token = None\<rparr>"

definition rename_entry :: "rename_op \<Rightarrow> op_entry io_result" where
  "rename_entry op = Inr (ERenameAt (rn_old_path op) (rn_new_path op))"

definition rename_poll_completion ::
  "('r, 's, 'c, 'm, 't) op_env \<Rightarrow> waker \<Rightarrow> rename_op \<Rightarrow> ('r, 's, 'c, 'm, 't) any_driver \<Rightarrow>
   rename_op \<times> ('r, 's, 'c, 'm, 't) any_driver \<times> unit io_result poll" where
  "rename_poll_completion Z w op d =
     (case poll_simple Z (rename_entry op) w (rn_token op) d (\<lambda>result. Ready (Inr ())) of
        (t, d, p) \<Rightarrow> (op\<lparr>rn_token := t\<rparr>, d, p))"

definition rename_drop ::
  "('r, 's, 'c, 'm, 't) op_env \<Rightarrow> rename_op \<Rightarrow> ('r, 's, 'c, 'm, 't) any_driver option \<Rightarrow> ('r, 's, 'c, 'm, 't) any_driver option" where
  "rename_drop Z op current = drop_completion Z (rn_token op) [] current"

subsection \<open>\<open>HardLinkOp\<close>\<close>

record hard_link_op =
  hl_old_path :: "mem"
  hl_new_path :: "mem"
  hl_token :: "nat option"

definition hard_link_new :: "mem \<Rightarrow> mem \<Rightarrow> hard_link_op" where
  "hard_link_new old_path new_path = \<lparr>hl_old_path = old_path, hl_new_path = new_path, hl_token = None\<rparr>"

definition hard_link_entry :: "hard_link_op \<Rightarrow> op_entry io_result" where
  "hard_link_entry op = Inr (ELinkAt (hl_old_path op) (hl_new_path op))"

definition hard_link_poll_completion ::
  "('r, 's, 'c, 'm, 't) op_env \<Rightarrow> waker \<Rightarrow> hard_link_op \<Rightarrow> ('r, 's, 'c, 'm, 't) any_driver \<Rightarrow>
   hard_link_op \<times> ('r, 's, 'c, 'm, 't) any_driver \<times> unit io_result poll" where
  "hard_link_poll_completion Z w op d =
     (case poll_simple Z (hard_link_entry op) w (hl_token op) d (\<lambda>result. Ready (Inr ())) of
        (t, d, p) \<Rightarrow> (op\<lparr>hl_token := t\<rparr>, d, p))"

definition hard_link_drop ::
  "('r, 's, 'c, 'm, 't) op_env \<Rightarrow> hard_link_op \<Rightarrow> ('r, 's, 'c, 'm, 't) any_driver option \<Rightarrow> ('r, 's, 'c, 'm, 't) any_driver option" where
  "hard_link_drop Z op current = drop_completion Z (hl_token op) [] current"

subsection \<open>\<open>SymlinkOp\<close>\<close>

record symlink_op =
  sl_old_path :: "mem"
  sl_new_path :: "mem"
  sl_token :: "nat option"

definition symlink_new :: "mem \<Rightarrow> mem \<Rightarrow> symlink_op" where
  "symlink_new old_path new_path = \<lparr>sl_old_path = old_path, sl_new_path = new_path, sl_token = None\<rparr>"

definition symlink_entry :: "symlink_op \<Rightarrow> op_entry io_result" where
  "symlink_entry op = Inr (ESymlinkAt (sl_old_path op) (sl_new_path op))"

definition symlink_poll_completion ::
  "('r, 's, 'c, 'm, 't) op_env \<Rightarrow> waker \<Rightarrow> symlink_op \<Rightarrow> ('r, 's, 'c, 'm, 't) any_driver \<Rightarrow>
   symlink_op \<times> ('r, 's, 'c, 'm, 't) any_driver \<times> unit io_result poll" where
  "symlink_poll_completion Z w op d =
     (case poll_simple Z (symlink_entry op) w (sl_token op) d (\<lambda>result. Ready (Inr ())) of
        (t, d, p) \<Rightarrow> (op\<lparr>sl_token := t\<rparr>, d, p))"

definition symlink_drop ::
  "('r, 's, 'c, 'm, 't) op_env \<Rightarrow> symlink_op \<Rightarrow> ('r, 's, 'c, 'm, 't) any_driver option \<Rightarrow> ('r, 's, 'c, 'm, 't) any_driver option" where
  "symlink_drop Z op current = drop_completion Z (sl_token op) [] current"

subsection \<open>\<open>UnlinkOp\<close>\<close>

record unlink_op =
  ul_path :: "mem"
  ul_is_dir :: "bool"
  ul_token :: "nat option"

definition unlink_new :: "mem \<Rightarrow> bool \<Rightarrow> unlink_op" where
  "unlink_new path is_dir = \<lparr>ul_path = path, ul_is_dir = is_dir, ul_token = None\<rparr>"

definition unlink_entry :: "unlink_op \<Rightarrow> op_entry io_result" where
  "unlink_entry op = Inr (EUnlinkAt (ul_path op) (ul_is_dir op))"

definition unlink_poll_completion ::
  "('r, 's, 'c, 'm, 't) op_env \<Rightarrow> waker \<Rightarrow> unlink_op \<Rightarrow> ('r, 's, 'c, 'm, 't) any_driver \<Rightarrow>
   unlink_op \<times> ('r, 's, 'c, 'm, 't) any_driver \<times> unit io_result poll" where
  "unlink_poll_completion Z w op d =
     (case poll_simple Z (unlink_entry op) w (ul_token op) d (\<lambda>result. Ready (Inr ())) of
        (t, d, p) \<Rightarrow> (op\<lparr>ul_token := t\<rparr>, d, p))"

definition unlink_drop ::
  "('r, 's, 'c, 'm, 't) op_env \<Rightarrow> unlink_op \<Rightarrow> ('r, 's, 'c, 'm, 't) any_driver option \<Rightarrow> ('r, 's, 'c, 'm, 't) any_driver option" where
  "unlink_drop Z op current = drop_completion Z (ul_token op) [] current"

subsection \<open>\<open>FsyncOp\<close>\<close>

record fsync_op =
  fs_handle :: "raw_handle"
  fs_data_only :: "bool"
  fs_token :: "nat option"

definition fsync_new :: "raw_handle \<Rightarrow> bool \<Rightarrow> fsync_op" where
  "fsync_new handle data_only = \<lparr>fs_handle = handle, fs_data_only = data_only, fs_token = None\<rparr>"

definition fsync_entry :: "fsync_op \<Rightarrow> op_entry io_result" where
  "fsync_entry op = Inr (EFsync (h_handle (fs_handle op)) (fs_data_only op))"

definition fsync_poll_completion ::
  "('r, 's, 'c, 'm, 't) op_env \<Rightarrow> waker \<Rightarrow> fsync_op \<Rightarrow> ('r, 's, 'c, 'm, 't) any_driver \<Rightarrow>
   fsync_op \<times> ('r, 's, 'c, 'm, 't) any_driver \<times> unit io_result poll" where
  "fsync_poll_completion Z w op d =
     (case poll_simple Z (fsync_entry op) w (fs_token op) d (\<lambda>result. Ready (Inr ())) of
        (t, d, p) \<Rightarrow> (op\<lparr>fs_token := t\<rparr>, d, p))"

definition fsync_drop ::
  "('r, 's, 'c, 'm, 't) op_env \<Rightarrow> fsync_op \<Rightarrow> ('r, 's, 'c, 'm, 't) any_driver option \<Rightarrow> ('r, 's, 'c, 'm, 't) any_driver option" where
  "fsync_drop Z op current = drop_completion Z (fs_token op) [] current"

subsection \<open>\<open>SpliceOp\<close>\<close>

record splice_op =
  sp_fd_in :: "int"
  sp_fd_out :: "raw_handle"
  sp_len :: "nat"
  sp_token :: "nat option"

definition splice_new :: "int \<Rightarrow> raw_handle \<Rightarrow> nat \<Rightarrow> splice_op" where
  "splice_new fd_in fd_out len = \<lparr>sp_fd_in = fd_in, sp_fd_out = fd_out, sp_len = len, sp_token = None\<rparr>"

definition splice_entry :: "splice_op \<Rightarrow> op_entry io_result" where
  "splice_entry op = Inr (ESplice (sp_fd_in op) (h_handle (sp_fd_out op)) (of_nat (sp_len op)))"

definition splice_poll_completion ::
  "('r, 's, 'c, 'm, 't) op_env \<Rightarrow> waker \<Rightarrow> splice_op \<Rightarrow> ('r, 's, 'c, 'm, 't) any_driver \<Rightarrow>
   splice_op \<times> ('r, 's, 'c, 'm, 't) any_driver \<times> nat io_result poll" where
  "splice_poll_completion Z w op d =
     (case poll_simple Z (splice_entry op) w (sp_token op) d (\<lambda>result. Ready (Inr (nat result))) of
        (t, d, p) \<Rightarrow> (op\<lparr>sp_token := t\<rparr>, d, p))"

definition splice_drop ::
  "('r, 's, 'c, 'm, 't) op_env \<Rightarrow> splice_op \<Rightarrow> ('r, 's, 'c, 'm, 't) any_driver option \<Rightarrow> ('r, 's, 'c, 'm, 't) any_driver option" where
  "splice_drop Z op current = drop_completion Z (sp_token op) [] current"

definition splice_poll_poll ::
  "('r, 's, 'c, 'm, 't) op_env \<Rightarrow> int \<Rightarrow> int \<Rightarrow> waker \<Rightarrow> splice_op \<Rightarrow> ('r, 's, 'c, 'm, 't) any_driver \<Rightarrow> ('r, 's, 'c, 'm, 't) any_driver \<times> nat io_result poll" where
  "splice_poll_poll Z ret errno w op d =
     poll_result_or_wait Z (syscall_result ret errno) (sp_fd_out op) w WRITABLE d"

subsection \<open>\<open>SendfileOp\<close>\<close>

text \<open>Poll only: it keeps the trait's default \<open>poll_completion\<close>, and its token is never set.\<close>

record sendfile_op =
  sf_fd_in :: int
  sf_fd_out :: raw_handle
  sf_len :: nat
  sf_token :: "nat option"

definition sendfile_new :: "int \<Rightarrow> raw_handle \<Rightarrow> nat \<Rightarrow> sendfile_op" where
  "sendfile_new fd_in fd_out len = \<lparr>sf_fd_in = fd_in, sf_fd_out = fd_out, sf_len = len, sf_token = None\<rparr>"

definition sendfile_poll_poll ::
  "('r, 's, 'c, 'm, 't) op_env \<Rightarrow> int \<Rightarrow> int \<Rightarrow> waker \<Rightarrow> sendfile_op \<Rightarrow> ('r, 's, 'c, 'm, 't) any_driver \<Rightarrow> ('r, 's, 'c, 'm, 't) any_driver \<times> nat io_result poll" where
  "sendfile_poll_poll Z ret errno w op d =
     poll_result_or_wait Z (syscall_result ret errno) (sf_fd_out op) w WRITABLE d"

definition sendfile_drop ::
  "('r, 's, 'c, 'm, 't) op_env \<Rightarrow> sendfile_op \<Rightarrow> ('r, 's, 'c, 'm, 't) any_driver option \<Rightarrow> ('r, 's, 'c, 'm, 't) any_driver option" where
  "sendfile_drop Z op current = drop_completion Z (sf_token op) [] current"

subsection \<open>\<open>StatxOp\<close>\<close>

text \<open>The result buffer is a box allocated by the first \<open>build_completion_entry\<close> in block \<open>fresh\<close>.\<close>

record statx_op =
  sx_dirfd :: int
  sx_pathname :: mem
  sx_flags :: int
  sx_mask :: u32
  sx_statxbuf :: "mem option"
  sx_token :: "nat option"

definition statx_new :: "int \<Rightarrow> mem \<Rightarrow> int \<Rightarrow> u32 \<Rightarrow> statx_op" where
  "statx_new dirfd pathname flags msk =
     \<lparr>sx_dirfd = dirfd, sx_pathname = pathname, sx_flags = flags, sx_mask = msk, sx_statxbuf = None,
      sx_token = None\<rparr>"

definition statx_buf :: "mem \<Rightarrow> statx_op \<Rightarrow> mem" where
  "statx_buf fresh op = (case sx_statxbuf op of Some b \<Rightarrow> b | None \<Rightarrow> fresh)"

definition statx_entry :: "mem \<Rightarrow> statx_op \<Rightarrow> op_entry io_result" where
  "statx_entry fresh op =
     Inr (EStatx (sx_dirfd op) (sx_pathname op) (sx_flags op) (sx_mask op) (statx_buf fresh op))"

text \<open>The output is the block that was filled in; a missing buffer is a panic, \<open>None\<close>.\<close>

definition statx_poll_completion ::
  "('r, 's, 'c, 'm, 't) op_env \<Rightarrow> mem \<Rightarrow> waker \<Rightarrow> statx_op \<Rightarrow> ('r, 's, 'c, 'm, 't) any_driver \<Rightarrow> (statx_op \<times> ('r, 's, 'c, 'm, 't) any_driver \<times> mem io_result poll) option" where
  "statx_poll_completion Z fresh w op d =
     (let op = (if sx_token op = None \<and> any_supports_completion d
                then op\<lparr>sx_statxbuf := Some (statx_buf fresh op)\<rparr> else op)
      in case poll_simple Z (statx_entry fresh op) w (sx_token op) d (\<lambda>result. Ready (Inr ())) of
           (t, d, Ready (Inr _)) \<Rightarrow>
             (case sx_statxbuf op of
                None \<Rightarrow> None
              | Some b \<Rightarrow> Some (op\<lparr>sx_token := t, sx_statxbuf := None\<rparr>, d, Ready (Inr b)))
         | (t, d, Ready (Inl err)) \<Rightarrow> Some (op\<lparr>sx_token := t\<rparr>, d, Ready (Inl err))
         | (t, d, Pending) \<Rightarrow> Some (op\<lparr>sx_token := t\<rparr>, d, Pending))"

definition statx_drop ::
  "('r, 's, 'c, 'm, 't) op_env \<Rightarrow> statx_op \<Rightarrow> ('r, 's, 'c, 'm, 't) any_driver option \<Rightarrow> ('r, 's, 'c, 'm, 't) any_driver option" where
  "statx_drop Z op current =
     drop_completion Z (sx_token op) (case sx_statxbuf op of None \<Rightarrow> [] | Some b \<Rightarrow> [b]) current"

subsection \<open>Memory of operations in flight\<close>

context op_driver
begin

lemma poll_simple_dropped:
  assumes "poll_simple Z b w None (IoUringDriver u) (\<lambda>r. Ready (f r)) = (t, d, Pending)"
  shows "abandoned Z t (drop_completion Z t kept (Some d)) = Some kept"
  using assms abandoned_drop by (fastforce simp: poll_simple_def split: prod.splits)

lemma mkdir_freed:
  assumes "mkdir_poll_completion Z w (mkdir_new path mode) (IoUringDriver u) = (op, d, Pending)"
  shows "\<not> memory_kept Z (mkdir_entry op) (md_token op) (mkdir_drop Z op (Some d))"
  using assms
  by (auto dest!: poll_simple_dropped [where kept = "[]"] simp: mkdir_poll_completion_def mkdir_new_def mkdir_drop_def mkdir_entry_def memory_kept_def
      split: prod.splits)

lemma open_freed:
  assumes "open_poll_completion Z w (open_new path flags mode) (IoUringDriver u) = (op, d, Pending)"
  shows "\<not> memory_kept Z (open_entry op) (on_token op) (open_drop Z op (Some d))"
  using assms
  by (auto dest!: poll_simple_dropped [where kept = "[]"] simp: open_poll_completion_def open_new_def open_drop_def open_entry_def memory_kept_def
      split: prod.splits)

lemma rename_freed:
  assumes "rename_poll_completion Z w (rename_new old new) (IoUringDriver u) = (op, d, Pending)"
  shows "\<not> memory_kept Z (rename_entry op) (rn_token op) (rename_drop Z op (Some d))"
  using assms
  by (auto dest!: poll_simple_dropped [where kept = "[]"] simp: rename_poll_completion_def rename_new_def rename_drop_def rename_entry_def memory_kept_def
      split: prod.splits)

lemma hard_link_freed:
  assumes "hard_link_poll_completion Z w (hard_link_new old new) (IoUringDriver u) = (op, d, Pending)"
  shows "\<not> memory_kept Z (hard_link_entry op) (hl_token op) (hard_link_drop Z op (Some d))"
  using assms
  by (auto dest!: poll_simple_dropped [where kept = "[]"] simp: hard_link_poll_completion_def hard_link_new_def hard_link_drop_def hard_link_entry_def memory_kept_def
      split: prod.splits)

lemma symlink_freed:
  assumes "symlink_poll_completion Z w (symlink_new old new) (IoUringDriver u) = (op, d, Pending)"
  shows "\<not> memory_kept Z (symlink_entry op) (sl_token op) (symlink_drop Z op (Some d))"
  using assms
  by (auto dest!: poll_simple_dropped [where kept = "[]"] simp: symlink_poll_completion_def symlink_new_def symlink_drop_def symlink_entry_def memory_kept_def
      split: prod.splits)

lemma unlink_freed:
  assumes "unlink_poll_completion Z w (unlink_new path dir) (IoUringDriver u) = (op, d, Pending)"
  shows "\<not> memory_kept Z (unlink_entry op) (ul_token op) (unlink_drop Z op (Some d))"
  using assms
  by (auto dest!: poll_simple_dropped [where kept = "[]"] simp: unlink_poll_completion_def unlink_new_def unlink_drop_def unlink_entry_def memory_kept_def
      split: prod.splits)

lemma statx_path_freed:
  assumes "statx_poll_completion Z fresh w (statx_new dirfd path flags msk) (IoUringDriver u) = Some (op, d, Pending)"
    and "path \<noteq> fresh"
  shows "\<not> memory_kept Z (statx_entry fresh op) (sx_token op) (statx_drop Z op (Some d))"
  using assms
  by (auto dest!: poll_simple_dropped [where kept = "[fresh]"] simp: statx_poll_completion_def statx_new_def statx_drop_def statx_entry_def statx_buf_def
      memory_kept_def split: prod.splits poll.splits sum.splits)

end

subsection \<open>Properties\<close>

text \<open>
  The operations on paths hand no path to the driver when they are dropped in flight: after
  \<open>drop\<close> the \<open>CString\<close> that the submitted entry points to is not among the memory the driver keeps. An
  entry that still waits in the submission queue (the kernel copies a path only when it takes the
  entry) then points to freed memory. \<open>StatxOp\<close> keeps its result buffer, but not its path.
\<close>
lemma dropped_paths_freed:
  assumes "slab (x_comps (z_uring Z))"
  shows
    "(\<forall>op d. mkdir_poll_completion Z w (mkdir_new path mode) (IoUringDriver u) = (op, d, Pending) \<longrightarrow>
        \<not> memory_kept Z (mkdir_entry op) (md_token op) (mkdir_drop Z op (Some d))) \<and>
     (\<forall>op d. open_poll_completion Z w (open_new path flags mode) (IoUringDriver u) = (op, d, Pending) \<longrightarrow>
        \<not> memory_kept Z (open_entry op) (on_token op) (open_drop Z op (Some d))) \<and>
     (\<forall>op d. rename_poll_completion Z w (rename_new old path) (IoUringDriver u) = (op, d, Pending) \<longrightarrow>
        \<not> memory_kept Z (rename_entry op) (rn_token op) (rename_drop Z op (Some d))) \<and>
     (\<forall>op d. hard_link_poll_completion Z w (hard_link_new old path) (IoUringDriver u) = (op, d, Pending) \<longrightarrow>
        \<not> memory_kept Z (hard_link_entry op) (hl_token op) (hard_link_drop Z op (Some d))) \<and>
     (\<forall>op d. symlink_poll_completion Z w (symlink_new old path) (IoUringDriver u) = (op, d, Pending) \<longrightarrow>
        \<not> memory_kept Z (symlink_entry op) (sl_token op) (symlink_drop Z op (Some d))) \<and>
     (\<forall>op d. unlink_poll_completion Z w (unlink_new path is_dir) (IoUringDriver u) = (op, d, Pending) \<longrightarrow>
        \<not> memory_kept Z (unlink_entry op) (ul_token op) (unlink_drop Z op (Some d))) \<and>
     (\<forall>op d. statx_poll_completion Z fresh w (statx_new dirfd path flags msk) (IoUringDriver u) =
          Some (op, d, Pending) \<and> path \<noteq> fresh \<longrightarrow>
        \<not> memory_kept Z (statx_entry fresh op) (sx_token op) (statx_drop Z op (Some d)))"
proof -
  have "op_driver Z"
    using assms by (simp add: op_driver_def)
  note freed = op_driver.mkdir_freed [OF this] op_driver.open_freed [OF this] op_driver.rename_freed [OF this]
    op_driver.hard_link_freed [OF this] op_driver.symlink_freed [OF this] op_driver.unlink_freed [OF this]
    op_driver.statx_path_freed [OF this]
  show ?thesis
    by (intro conjI allI impI; (elim conjE)?; rule freed; assumption)
qed

text \<open>
  A directory is to be created; the operation is dropped at once. Its entry is still in the
  submission queue, the completion table keeps nothing.
\<close>

end
