(* ===== verification/Sock_Addr.thy ===== *)
theory Sock_Addr
  imports Vibe_Prelude
begin

text \<open>
  Socket addresses and their representation for the operating system: \<open>socket_addr_to_raw\<close> of
  \<open>op/sendto.rs\<close> and \<open>sockaddr_storage_to_socketaddr\<close> of \<open>op/recvfrom.rs\<close> and \<open>op/accept.rs\<close>, on a
  little-endian machine (\<open>to_be\<close> and \<open>from_be\<close> swap the bytes, \<open>from_ne_bytes\<close> puts the first byte
  lowest).
\<close>

type_synonym ipv4 = "u8 \<times> u8 \<times> u8 \<times> u8"

datatype socket_addr =
    V4 ipv4 u16
  | V6 "u8 list" u16 u32 u32   \<comment> \<open>octets, port, flow information, scope\<close>

datatype sockaddr_storage =
    SockaddrIn u16 u32                    \<comment> \<open>\<open>sin_port\<close>, \<open>s_addr\<close>\<close>
  | SockaddrIn6 u16 u32 "u8 list" u32     \<comment> \<open>\<open>sin6_port\<close>, \<open>sin6_flowinfo\<close>, \<open>s6_addr\<close>, \<open>sin6_scope_id\<close>\<close>
  | OtherFamily nat

definition AF_INET :: nat where "AF_INET = 2"
definition AF_INET6 :: nat where "AF_INET6 = 10"

fun ss_family :: "sockaddr_storage \<Rightarrow> nat" where
  "ss_family (SockaddrIn port addr) = AF_INET"
| "ss_family (SockaddrIn6 port flow addr scope) = AF_INET6"
| "ss_family (OtherFamily f) = f"

definition swap16 :: "u16 \<Rightarrow> u16" where
  "swap16 x = push_bit 8 x OR drop_bit 8 x"

definition swap32 :: "u32 \<Rightarrow> u32" where
  "swap32 x = push_bit 24 x OR push_bit 16 (take_bit 8 (drop_bit 8 x)) OR
     push_bit 8 (take_bit 8 (drop_bit 16 x)) OR drop_bit 24 x"

fun u32_from_ne_bytes :: "ipv4 \<Rightarrow> u32" where
  "u32_from_ne_bytes (a, b, c, d) =
     ucast a OR push_bit 8 (ucast b) OR push_bit 16 (ucast c) OR push_bit 24 (ucast d)"

text \<open>\<open>Ipv4Addr::from(u32)\<close>: the most significant byte is the first octet.\<close>

definition ipv4_from :: "u32 \<Rightarrow> ipv4" where
  "ipv4_from x = (ucast (drop_bit 24 x), ucast (drop_bit 16 x), ucast (drop_bit 8 x), ucast x)"

fun socket_addr_to_raw :: "socket_addr \<Rightarrow> sockaddr_storage \<times> nat" where
  "socket_addr_to_raw (V4 ip port) = (SockaddrIn (swap16 port) (u32_from_ne_bytes ip), 16)"
| "socket_addr_to_raw (V6 ip port flow scope) = (SockaddrIn6 (swap16 port) flow ip scope, 28)"

definition sockaddr_storage_to_socketaddr :: "sockaddr_storage \<Rightarrow> socket_addr io_result" where
  "sockaddr_storage_to_socketaddr st =
     (case st of
        SockaddrIn port addr \<Rightarrow> Inr (V4 (ipv4_from (swap32 addr)) (swap16 port))
      | SockaddrIn6 port flow addr scope \<Rightarrow> Inr (V6 addr (swap16 port) flow scope)
      | OtherFamily f \<Rightarrow> Inl (Custom InvalidData))"

lemma swap16_swap16: "swap16 (swap16 x) = x"
  by (rule bit_word_eqI) (auto simp: swap16_def bit_simps)

lemma ipv4_roundtrip: "ipv4_from (swap32 (u32_from_ne_bytes ip)) = ip"
proof -
  obtain a b c d where ip: "ip = (a, b, c, d)"
    by (cases ip)
  show ?thesis
    unfolding ip ipv4_from_def swap32_def u32_from_ne_bytes.simps
    unfolding prod.inject
    by (intro conjI; rule bit_word_eqI) (auto simp: bit_simps dest: bit_imp_le_length)
qed

text \<open>
  Converting a socket address for the operating system and back gives the address: the bytes
  of an IPv4 address and the port come out in their order, flow information and scope of an IPv6
  address are kept.
\<close>
lemma sockaddr_roundtrip: "sockaddr_storage_to_socketaddr (fst (socket_addr_to_raw a)) = Inr a"
  by (cases a) (simp_all add: sockaddr_storage_to_socketaddr_def swap16_swap16 ipv4_roundtrip)

end
