(* ===== verification/Ops_Buffer.thy ===== *)
theory Ops_Buffer
  imports Op_Base Sock_Addr
begin

text \<open>
  The operations that move bytes: \<open>read.rs\<close>, \<open>write.rs\<close>, \<open>recv.rs\<close>, \<open>send.rs\<close>, \<open>readat.rs\<close>, \<open>writeat.rs\<close>, \<open>readv.rs\<close>,
  \<open>writev.rs\<close>, \<open>recvfrom.rs\<close>, \<open>sendto.rs\<close>. The \<open>Option\<close> around an operation's buffer is \<open>None\<close> only after
  \<open>take_bufs\<close> or \<open>drop\<close> consumed the operation, so the model has the buffer itself.

  Properties: every block of memory an entry points to is handed to \<open>ignore_completion\<close> when the
  operation is dropped; the length of a large buffer is cut to 32 bits by some entries and
  refused by others; the message header of \<open>sendto\<close> is malformed.
\<close>

subsection \<open>State\<close>

record buf_op =
  bo_handle :: raw_handle
  bo_buf :: completion_buffer
  bo_token :: "nat option"

record recv_op = buf_op +
  ro_peek :: bool

record at_op = buf_op +
  ao_offset :: u64

text \<open>After a successful read of \<open>n\<close> bytes: \<open>set_buf_init(n)\<close>.\<close>

definition fill_ready :: "nat io_result poll \<Rightarrow> 'x buf_op_scheme \<Rightarrow> 'x buf_op_scheme" where
  "fill_ready p op =
     (case p of Ready (Inr n) \<Rightarrow> op\<lparr>bo_buf := cb_map (set_buf_init n) (bo_buf op)\<rparr> | _ \<Rightarrow> op)"

definition poll_count ::
  "('r, 's, 'c, 'm, 't) op_env \<Rightarrow> op_entry io_result \<Rightarrow> waker \<Rightarrow> 'x buf_op_scheme \<Rightarrow> ('r, 's, 'c, 'm, 't) any_driver \<Rightarrow>
   'x buf_op_scheme \<times> ('r, 's, 'c, 'm, 't) any_driver \<times> nat io_result poll" where
  "poll_count Z build w op d =
     (case completion_block Z build w (bo_token op) d of
        (t, d, p) \<Rightarrow> (op\<lparr>bo_token := t\<rparr>, d, finish_completion p (\<lambda>result. Ready (Inr (nat result)))))"

definition drop_buf ::
  "('r, 's, 'c, 'm, 't) op_env \<Rightarrow> 'x buf_op_scheme \<Rightarrow> ('r, 's, 'c, 'm, 't) any_driver option \<Rightarrow> ('r, 's, 'c, 'm, 't) any_driver option" where
  "drop_buf Z op current = drop_completion Z (bo_token op) (into_stable_box (bo_buf op)) current"

definition take_bufs :: "'x buf_op_scheme \<Rightarrow> io_buf" where
  "take_bufs op = cb_into_inner (bo_buf op)"

text \<open>\<open>u32::try_from\<close> with the error of \<open>ReadAtOp\<close> and \<open>WriteAtOp\<close>.\<close>

definition u32_try_from :: "nat \<Rightarrow> u32 io_result" where
  "u32_try_from n = (if n < 2 ^ 32 then Inr (of_nat n) else Inl (Custom InvalidInput))"

subsection \<open>\<open>ReadOp\<close>\<close>

definition read_new :: "bool \<Rightarrow> raw_handle \<Rightarrow> io_buf \<Rightarrow> buf_op" where
  "read_new completion h buf =
     \<lparr>bo_handle = h, bo_buf = cb_new buf completion, bo_token = None\<rparr>"

definition read_entry :: "buf_op \<Rightarrow> op_entry io_result" where
  "read_entry op =
     (let buf = cb_ref (bo_buf op) in
      Inr (ERead (h_handle (bo_handle op)) (as_buf_ptr buf) (of_nat (buf_capacity buf)) None))"

definition read_poll_poll ::
  "('r, 's, 'c, 'm, 't) op_env \<Rightarrow> int \<Rightarrow> int \<Rightarrow> waker \<Rightarrow> buf_op \<Rightarrow> ('r, 's, 'c, 'm, 't) any_driver \<Rightarrow>
   buf_op \<times> ('r, 's, 'c, 'm, 't) any_driver \<times> nat io_result poll" where
  "read_poll_poll Z ret errno w op d =
     (case poll_result_or_wait Z (syscall_result ret errno) (bo_handle op) w READABLE d of
        (d, p) \<Rightarrow> (fill_ready p op, d, p))"

definition read_poll_completion ::
  "('r, 's, 'c, 'm, 't) op_env \<Rightarrow> waker \<Rightarrow> buf_op \<Rightarrow> ('r, 's, 'c, 'm, 't) any_driver \<Rightarrow> buf_op \<times> ('r, 's, 'c, 'm, 't) any_driver \<times> nat io_result poll" where
  "read_poll_completion Z w op d = (case poll_count Z (read_entry op) w op d of (op, d, p) \<Rightarrow> (fill_ready p op, d, p))"

definition read_drop ::
  "('r, 's, 'c, 'm, 't) op_env \<Rightarrow> buf_op \<Rightarrow> ('r, 's, 'c, 'm, 't) any_driver option \<Rightarrow> ('r, 's, 'c, 'm, 't) any_driver option" where
  "read_drop Z op current = drop_buf Z op current"

subsection \<open>\<open>WriteOp\<close>\<close>

definition write_new :: "bool \<Rightarrow> raw_handle \<Rightarrow> io_buf \<Rightarrow> buf_op" where
  "write_new completion h buf =
     \<lparr>bo_handle = h, bo_buf = cb_new buf completion, bo_token = None\<rparr>"

definition write_entry :: "buf_op \<Rightarrow> op_entry io_result" where
  "write_entry op =
     (let buf = cb_ref (bo_buf op) in
      Inr (EWrite (h_handle (bo_handle op)) (as_buf_ptr buf) (of_nat (buf_len buf)) None))"

definition write_poll_poll ::
  "('r, 's, 'c, 'm, 't) op_env \<Rightarrow> int \<Rightarrow> int \<Rightarrow> waker \<Rightarrow> buf_op \<Rightarrow> ('r, 's, 'c, 'm, 't) any_driver \<Rightarrow>
   buf_op \<times> ('r, 's, 'c, 'm, 't) any_driver \<times> nat io_result poll" where
  "write_poll_poll Z ret errno w op d =
     (case poll_result_or_wait Z (syscall_result ret errno) (bo_handle op) w WRITABLE d of
        (d, p) \<Rightarrow> (op, d, p))"

definition write_poll_completion ::
  "('r, 's, 'c, 'm, 't) op_env \<Rightarrow> waker \<Rightarrow> buf_op \<Rightarrow> ('r, 's, 'c, 'm, 't) any_driver \<Rightarrow> buf_op \<times> ('r, 's, 'c, 'm, 't) any_driver \<times> nat io_result poll" where
  "write_poll_completion Z w op d = poll_count Z (write_entry op) w op d"

definition write_drop ::
  "('r, 's, 'c, 'm, 't) op_env \<Rightarrow> buf_op \<Rightarrow> ('r, 's, 'c, 'm, 't) any_driver option \<Rightarrow> ('r, 's, 'c, 'm, 't) any_driver option" where
  "write_drop Z op current = drop_buf Z op current"

subsection \<open>\<open>RecvOp\<close>\<close>

definition recv_new :: "bool \<Rightarrow> raw_handle \<Rightarrow> io_buf \<Rightarrow> bool \<Rightarrow> recv_op" where
  "recv_new completion h buf peek =
     \<lparr>bo_handle = h, bo_buf = cb_new buf completion, bo_token = None, ro_peek = peek\<rparr>"

definition recv_entry :: "recv_op \<Rightarrow> op_entry io_result" where
  "recv_entry op =
     (let buf = cb_ref (bo_buf op) in
      Inr (ERecv (h_handle (bo_handle op)) (as_buf_ptr buf) (of_nat (buf_capacity buf)) (ro_peek op)))"

definition recv_poll_poll ::
  "('r, 's, 'c, 'm, 't) op_env \<Rightarrow> int \<Rightarrow> int \<Rightarrow> waker \<Rightarrow> recv_op \<Rightarrow> ('r, 's, 'c, 'm, 't) any_driver \<Rightarrow>
   recv_op \<times> ('r, 's, 'c, 'm, 't) any_driver \<times> nat io_result poll" where
  "recv_poll_poll Z ret errno w op d =
     (case poll_result_or_wait Z (syscall_result ret errno) (bo_handle op) w READABLE d of
        (d, p) \<Rightarrow> (fill_ready p op, d, p))"

definition recv_poll_completion ::
  "('r, 's, 'c, 'm, 't) op_env \<Rightarrow> waker \<Rightarrow> recv_op \<Rightarrow> ('r, 's, 'c, 'm, 't) any_driver \<Rightarrow> recv_op \<times> ('r, 's, 'c, 'm, 't) any_driver \<times> nat io_result poll" where
  "recv_poll_completion Z w op d = (case poll_count Z (recv_entry op) w op d of (op, d, p) \<Rightarrow> (fill_ready p op, d, p))"

definition recv_drop ::
  "('r, 's, 'c, 'm, 't) op_env \<Rightarrow> recv_op \<Rightarrow> ('r, 's, 'c, 'm, 't) any_driver option \<Rightarrow> ('r, 's, 'c, 'm, 't) any_driver option" where
  "recv_drop Z op current = drop_buf Z op current"

subsection \<open>\<open>SendOp\<close>\<close>

definition send_new :: "bool \<Rightarrow> raw_handle \<Rightarrow> io_buf \<Rightarrow> buf_op" where
  "send_new completion h buf =
     \<lparr>bo_handle = h, bo_buf = cb_new buf completion, bo_token = None\<rparr>"

definition send_entry :: "buf_op \<Rightarrow> op_entry io_result" where
  "send_entry op =
     (let buf = cb_ref (bo_buf op) in
      Inr (ESend (h_handle (bo_handle op)) (as_buf_ptr buf) (of_nat (buf_len buf))))"

definition send_poll_poll ::
  "('r, 's, 'c, 'm, 't) op_env \<Rightarrow> int \<Rightarrow> int \<Rightarrow> waker \<Rightarrow> buf_op \<Rightarrow> ('r, 's, 'c, 'm, 't) any_driver \<Rightarrow>
   buf_op \<times> ('r, 's, 'c, 'm, 't) any_driver \<times> nat io_result poll" where
  "send_poll_poll Z ret errno w op d =
     (case poll_result_or_wait Z (syscall_result ret errno) (bo_handle op) w WRITABLE d of
        (d, p) \<Rightarrow> (op, d, p))"

definition send_poll_completion ::
  "('r, 's, 'c, 'm, 't) op_env \<Rightarrow> waker \<Rightarrow> buf_op \<Rightarrow> ('r, 's, 'c, 'm, 't) any_driver \<Rightarrow> buf_op \<times> ('r, 's, 'c, 'm, 't) any_driver \<times> nat io_result poll" where
  "send_poll_completion Z w op d = poll_count Z (send_entry op) w op d"

definition send_drop ::
  "('r, 's, 'c, 'm, 't) op_env \<Rightarrow> buf_op \<Rightarrow> ('r, 's, 'c, 'm, 't) any_driver option \<Rightarrow> ('r, 's, 'c, 'm, 't) any_driver option" where
  "send_drop Z op current = drop_buf Z op current"

subsection \<open>\<open>ReadAtOp\<close>\<close>

definition readat_new :: "bool \<Rightarrow> raw_handle \<Rightarrow> io_buf \<Rightarrow> u64 \<Rightarrow> at_op" where
  "readat_new completion h buf offset =
     \<lparr>bo_handle = h, bo_buf = cb_new buf completion, bo_token = None, ao_offset = offset\<rparr>"

definition readat_entry :: "at_op \<Rightarrow> op_entry io_result" where
  "readat_entry op =
     (let buf = cb_ref (bo_buf op) in
      case u32_try_from (buf_capacity buf) of
        Inl err \<Rightarrow> Inl err
      | Inr len \<Rightarrow> Inr (ERead (h_handle (bo_handle op)) (as_buf_ptr buf) len (Some (ao_offset op))))"

definition readat_poll_completion ::
  "('r, 's, 'c, 'm, 't) op_env \<Rightarrow> waker \<Rightarrow> at_op \<Rightarrow> ('r, 's, 'c, 'm, 't) any_driver \<Rightarrow> at_op \<times> ('r, 's, 'c, 'm, 't) any_driver \<times> nat io_result poll" where
  "readat_poll_completion Z w op d = (case poll_count Z (readat_entry op) w op d of (op, d, p) \<Rightarrow> (fill_ready p op, d, p))"

definition readat_drop ::
  "('r, 's, 'c, 'm, 't) op_env \<Rightarrow> at_op \<Rightarrow> ('r, 's, 'c, 'm, 't) any_driver option \<Rightarrow> ('r, 's, 'c, 'm, 't) any_driver option" where
  "readat_drop Z op current = drop_buf Z op current"

subsection \<open>\<open>WriteAtOp\<close>\<close>

definition writeat_new :: "bool \<Rightarrow> raw_handle \<Rightarrow> io_buf \<Rightarrow> u64 \<Rightarrow> at_op" where
  "writeat_new completion h buf offset =
     \<lparr>bo_handle = h, bo_buf = cb_new buf completion, bo_token = None, ao_offset = offset\<rparr>"

definition writeat_entry :: "at_op \<Rightarrow> op_entry io_result" where
  "writeat_entry op =
     (let buf = cb_ref (bo_buf op) in
      case u32_try_from (buf_len buf) of
        Inl err \<Rightarrow> Inl err
      | Inr len \<Rightarrow> Inr (EWrite (h_handle (bo_handle op)) (as_buf_ptr buf) len (Some (ao_offset op))))"

definition writeat_poll_completion ::
  "('r, 's, 'c, 'm, 't) op_env \<Rightarrow> waker \<Rightarrow> at_op \<Rightarrow> ('r, 's, 'c, 'm, 't) any_driver \<Rightarrow> at_op \<times> ('r, 's, 'c, 'm, 't) any_driver \<times> nat io_result poll" where
  "writeat_poll_completion Z w op d = poll_count Z (writeat_entry op) w op d"

definition writeat_drop ::
  "('r, 's, 'c, 'm, 't) op_env \<Rightarrow> at_op \<Rightarrow> ('r, 's, 'c, 'm, 't) any_driver option \<Rightarrow> ('r, 's, 'c, 'm, 't) any_driver option" where
  "writeat_drop Z op current = drop_buf Z op current"

subsection \<open>Vectored operations\<close>

text \<open>
  The array of system vectors is allocated by the first \<open>build_completion_entry\<close> in block \<open>fresh\<close> and kept
  in the operation. The vectors point into memory the operation does not own.
\<close>

record vec_op =
  vo_handle :: raw_handle
  vo_bufs :: "io_vec list"
  vo_token :: "nat option"
  vo_iovecs :: "(mem \<times> io_vec list) option"

definition vec_iovecs :: "mem \<Rightarrow> vec_op \<Rightarrow> mem \<times> io_vec list" where
  "vec_iovecs fresh op =
     (case vo_iovecs op of Some iovecs \<Rightarrow> iovecs | None \<Rightarrow> (fresh, iovec_to_system (as_iovecs (vo_bufs op))))"

definition store_iovecs :: "mem \<Rightarrow> bool \<Rightarrow> vec_op \<Rightarrow> vec_op" where
  "store_iovecs fresh completion op =
     (if vo_token op = None \<and> completion then op\<lparr>vo_iovecs := Some (vec_iovecs fresh op)\<rparr> else op)"

definition kept_iovecs :: "vec_op \<Rightarrow> mem list" where
  "kept_iovecs op = (case vo_iovecs op of None \<Rightarrow> [] | Some (m, vs) \<Rightarrow> [m])"

subsection \<open>\<open>ReadvOp\<close>\<close>

definition readv_new :: "raw_handle \<Rightarrow> io_vec list \<Rightarrow> vec_op" where
  "readv_new h bufs = \<lparr>vo_handle = h, vo_bufs = bufs, vo_token = None, vo_iovecs = None\<rparr>"

definition readv_entry :: "mem \<Rightarrow> vec_op \<Rightarrow> op_entry io_result" where
  "readv_entry fresh op = (case vec_iovecs fresh op of (m, vs) \<Rightarrow> Inr (EReadv (h_handle (vo_handle op)) m vs))"

definition readv_poll_poll ::
  "('r, 's, 'c, 'm, 't) op_env \<Rightarrow> int \<Rightarrow> int \<Rightarrow> waker \<Rightarrow> vec_op \<Rightarrow> ('r, 's, 'c, 'm, 't) any_driver \<Rightarrow> vec_op \<times> ('r, 's, 'c, 'm, 't) any_driver \<times> nat io_result poll" where
  "readv_poll_poll Z ret errno w op d =
     (case poll_result_or_wait Z (syscall_result ret errno) (vo_handle op) w READABLE d of (d, p) \<Rightarrow> (op, d, p))"

definition readv_poll_completion ::
  "('r, 's, 'c, 'm, 't) op_env \<Rightarrow> mem \<Rightarrow> waker \<Rightarrow> vec_op \<Rightarrow> ('r, 's, 'c, 'm, 't) any_driver \<Rightarrow> vec_op \<times> ('r, 's, 'c, 'm, 't) any_driver \<times> nat io_result poll" where
  "readv_poll_completion Z fresh w op d =
     (let op = store_iovecs fresh (any_supports_completion d) op
      in case completion_block Z (readv_entry fresh op) w (vo_token op) d of
           (t, d, p) \<Rightarrow> (op\<lparr>vo_token := t\<rparr>, d, finish_completion p (\<lambda>result. Ready (Inr (nat result)))))"

definition readv_drop ::
  "('r, 's, 'c, 'm, 't) op_env \<Rightarrow> vec_op \<Rightarrow> ('r, 's, 'c, 'm, 't) any_driver option \<Rightarrow> ('r, 's, 'c, 'm, 't) any_driver option" where
  "readv_drop Z op current = drop_completion Z (vo_token op) (kept_iovecs op) current"

subsection \<open>\<open>WritevOp\<close>\<close>

definition writev_new :: "raw_handle \<Rightarrow> io_vec list \<Rightarrow> vec_op" where
  "writev_new h bufs = \<lparr>vo_handle = h, vo_bufs = bufs, vo_token = None, vo_iovecs = None\<rparr>"

definition writev_entry :: "mem \<Rightarrow> vec_op \<Rightarrow> op_entry io_result" where
  "writev_entry fresh op = (case vec_iovecs fresh op of (m, vs) \<Rightarrow> Inr (EWritev (h_handle (vo_handle op)) m vs))"

definition writev_poll_poll ::
  "('r, 's, 'c, 'm, 't) op_env \<Rightarrow> int \<Rightarrow> int \<Rightarrow> waker \<Rightarrow> vec_op \<Rightarrow> ('r, 's, 'c, 'm, 't) any_driver \<Rightarrow> vec_op \<times> ('r, 's, 'c, 'm, 't) any_driver \<times> nat io_result poll" where
  "writev_poll_poll Z ret errno w op d =
     (case poll_result_or_wait Z (syscall_result ret errno) (vo_handle op) w WRITABLE d of (d, p) \<Rightarrow> (op, d, p))"

definition writev_poll_completion ::
  "('r, 's, 'c, 'm, 't) op_env \<Rightarrow> mem \<Rightarrow> waker \<Rightarrow> vec_op \<Rightarrow> ('r, 's, 'c, 'm, 't) any_driver \<Rightarrow> vec_op \<times> ('r, 's, 'c, 'm, 't) any_driver \<times> nat io_result poll" where
  "writev_poll_completion Z fresh w op d =
     (let op = store_iovecs fresh (any_supports_completion d) op
      in case completion_block Z (writev_entry fresh op) w (vo_token op) d of
           (t, d, p) \<Rightarrow> (op\<lparr>vo_token := t\<rparr>, d, finish_completion p (\<lambda>result. Ready (Inr (nat result)))))"

definition writev_drop ::
  "('r, 's, 'c, 'm, 't) op_env \<Rightarrow> vec_op \<Rightarrow> ('r, 's, 'c, 'm, 't) any_driver option \<Rightarrow> ('r, 's, 'c, 'm, 't) any_driver option" where
  "writev_drop Z op current = drop_completion Z (vo_token op) (kept_iovecs op) current"

subsection \<open>\<open>RecvfromOp\<close>\<close>

text \<open>The box \<open>RecvfromLinuxCompletion\<close> holds the address, the vector and the message header.\<close>

record recvfrom_op = buf_op +
  rf_state :: "mem option"
  rf_peek :: bool

definition recvfrom_new :: "bool \<Rightarrow> raw_handle \<Rightarrow> io_buf \<Rightarrow> bool \<Rightarrow> recvfrom_op" where
  "recvfrom_new completion h buf peek =
     \<lparr>bo_handle = h, bo_buf = cb_new buf completion, bo_token = None, rf_state = None, rf_peek = peek\<rparr>"

definition recvfrom_state :: "mem \<Rightarrow> recvfrom_op \<Rightarrow> mem" where
  "recvfrom_state fresh op = (case rf_state op of Some m \<Rightarrow> m | None \<Rightarrow> fresh)"

definition recvfrom_msghdr :: "mem \<Rightarrow> recvfrom_op \<Rightarrow> msghdr" where
  "recvfrom_msghdr fresh op =
     (let buf = cb_ref (bo_buf op) in
      \<lparr>msg_name = recvfrom_state fresh op, msg_namelen = 128,
       msg_iov = [(as_buf_ptr buf, buf_capacity buf)],
       msg_control = None, msg_controllen = 0, msg_flags = 0\<rparr>)"

definition recvfrom_entry :: "mem \<Rightarrow> recvfrom_op \<Rightarrow> op_entry io_result" where
  "recvfrom_entry fresh op =
     Inr (ERecvMsg (h_handle (bo_handle op)) (recvfrom_state fresh op) (recvfrom_msghdr fresh op) (rf_peek op))"

text \<open>\<open>addr\<close>: the source address the system call or the kernel stored.\<close>

definition recvfrom_poll_poll ::
  "('r, 's, 'c, 'm, 't) op_env \<Rightarrow> int \<Rightarrow> int \<Rightarrow> sockaddr_storage \<Rightarrow> waker \<Rightarrow> recvfrom_op \<Rightarrow> ('r, 's, 'c, 'm, 't) any_driver \<Rightarrow>
   recvfrom_op \<times> ('r, 's, 'c, 'm, 't) any_driver \<times> (nat \<times> socket_addr) io_result poll" where
  "recvfrom_poll_poll Z ret errno addr w op d =
     (case syscall_result ret errno of
        Inr n \<Rightarrow>
          (case sockaddr_storage_to_socketaddr addr of
             Inl err \<Rightarrow> (op, d, Ready (Inl err))
           | Inr a \<Rightarrow> (fill_ready (Ready (Inr n)) op, d, Ready (Inr (n, a))))
      | Inl err \<Rightarrow>
          if err_kind err = WouldBlock
          then (case any_submit_poll Z (bo_handle op) w READABLE d of
                  (d, Inr _) \<Rightarrow> (op, d, Pending)
                | (d, Inl err) \<Rightarrow> (op, d, Ready (Inl err)))
          else (op, d, Ready (Inl err)))"

definition recvfrom_poll_completion ::
  "('r, 's, 'c, 'm, 't) op_env \<Rightarrow> mem \<Rightarrow> sockaddr_storage \<Rightarrow> waker \<Rightarrow> recvfrom_op \<Rightarrow> ('r, 's, 'c, 'm, 't) any_driver \<Rightarrow>
   recvfrom_op \<times> ('r, 's, 'c, 'm, 't) any_driver \<times> (nat \<times> socket_addr) io_result poll" where
  "recvfrom_poll_completion Z fresh addr w op d =
     (let op = (if bo_token op = None \<and> any_supports_completion d
                then op\<lparr>rf_state := Some (recvfrom_state fresh op)\<rparr> else op)
      in case poll_count Z (recvfrom_entry fresh op) w op d of
           (op, d, Ready (Inr n)) \<Rightarrow>
             (fill_ready (Ready (Inr n)) op, d,
              Ready (case (case rf_state op of
                             None \<Rightarrow> Inl (Custom Other)
                           | Some m \<Rightarrow> sockaddr_storage_to_socketaddr addr) of
                       Inl err \<Rightarrow> Inl err | Inr a \<Rightarrow> Inr (n, a)))
         | (op, d, Ready (Inl err)) \<Rightarrow> (op, d, Ready (Inl err))
         | (op, d, Pending) \<Rightarrow> (op, d, Pending))"

definition recvfrom_drop ::
  "('r, 's, 'c, 'm, 't) op_env \<Rightarrow> recvfrom_op \<Rightarrow> ('r, 's, 'c, 'm, 't) any_driver option \<Rightarrow> ('r, 's, 'c, 'm, 't) any_driver option" where
  "recvfrom_drop Z op current =
     drop_completion Z (bo_token op)
       ((case rf_state op of None \<Rightarrow> [] | Some m \<Rightarrow> [m]) @ into_stable_box (bo_buf op)) current"

subsection \<open>\<open>SendtoOp\<close>\<close>

record sendto_op = buf_op +
  st_addr :: socket_addr
  st_state :: "mem option"

definition sendto_new :: "bool \<Rightarrow> raw_handle \<Rightarrow> io_buf \<Rightarrow> socket_addr \<Rightarrow> sendto_op" where
  "sendto_new completion h buf addr =
     \<lparr>bo_handle = h, bo_buf = cb_new buf completion, bo_token = None, st_addr = addr, st_state = None\<rparr>"

definition sendto_state :: "mem \<Rightarrow> sendto_op \<Rightarrow> mem" where
  "sendto_state fresh op = (case st_state op of Some m \<Rightarrow> m | None \<Rightarrow> fresh)"

definition sendto_msghdr :: "mem \<Rightarrow> sendto_op \<Rightarrow> msghdr" where
  "sendto_msghdr fresh op =
     (let buf = cb_ref (bo_buf op) in
      \<lparr>msg_name = sendto_state fresh op, msg_namelen = snd (socket_addr_to_raw (st_addr op)),
       msg_iov = [(as_buf_ptr buf, buf_len buf)],
       msg_control = None, msg_controllen = 1, msg_flags = 1\<rparr>)"

definition sendto_entry :: "mem \<Rightarrow> sendto_op \<Rightarrow> op_entry io_result" where
  "sendto_entry fresh op =
     Inr (ESendMsg (h_handle (bo_handle op)) (sendto_state fresh op) (sendto_msghdr fresh op))"

definition sendto_poll_poll ::
  "('r, 's, 'c, 'm, 't) op_env \<Rightarrow> int \<Rightarrow> int \<Rightarrow> waker \<Rightarrow> sendto_op \<Rightarrow> ('r, 's, 'c, 'm, 't) any_driver \<Rightarrow> sendto_op \<times> ('r, 's, 'c, 'm, 't) any_driver \<times> nat io_result poll" where
  "sendto_poll_poll Z ret errno w op d =
     (case poll_result_or_wait Z (syscall_result ret errno) (bo_handle op) w WRITABLE d of (d, p) \<Rightarrow> (op, d, p))"

definition sendto_poll_completion ::
  "('r, 's, 'c, 'm, 't) op_env \<Rightarrow> mem \<Rightarrow> waker \<Rightarrow> sendto_op \<Rightarrow> ('r, 's, 'c, 'm, 't) any_driver \<Rightarrow> sendto_op \<times> ('r, 's, 'c, 'm, 't) any_driver \<times> nat io_result poll" where
  "sendto_poll_completion Z fresh w op d =
     (let op = (if bo_token op = None \<and> any_supports_completion d
                then op\<lparr>st_state := Some (sendto_state fresh op)\<rparr> else op)
      in poll_count Z (sendto_entry fresh op) w op d)"

definition sendto_drop ::
  "('r, 's, 'c, 'm, 't) op_env \<Rightarrow> sendto_op \<Rightarrow> ('r, 's, 'c, 'm, 't) any_driver option \<Rightarrow> ('r, 's, 'c, 'm, 't) any_driver option" where
  "sendto_drop Z op current =
     drop_completion Z (bo_token op)
       ((case st_state op of None \<Rightarrow> [] | Some m \<Rightarrow> [m]) @ into_stable_box (bo_buf op)) current"

subsection \<open>Memory of operations in flight\<close>

lemma fill_ready_pending [simp]: "fill_ready Pending op = op"
  by (simp add: fill_ready_def)

lemma entry_token_frame [simp]:
  "read_entry (bop\<lparr>bo_token := t\<rparr>) = read_entry bop" "write_entry (bop\<lparr>bo_token := t\<rparr>) = write_entry bop"
  "recv_entry (rop\<lparr>bo_token := t\<rparr>) = recv_entry rop" "send_entry (bop\<lparr>bo_token := t\<rparr>) = send_entry bop"
  "readat_entry (aop\<lparr>bo_token := t\<rparr>) = readat_entry aop"
  "writeat_entry (aop\<lparr>bo_token := t\<rparr>) = writeat_entry aop"
  "recvfrom_entry fresh (fop\<lparr>bo_token := t\<rparr>) = recvfrom_entry fresh fop"
  "sendto_entry fresh (sop\<lparr>bo_token := t\<rparr>) = sendto_entry fresh sop"
  by (simp_all add: read_entry_def write_entry_def recv_entry_def send_entry_def readat_entry_def
      writeat_entry_def recvfrom_entry_def sendto_entry_def recvfrom_state_def recvfrom_msghdr_def
      sendto_state_def sendto_msghdr_def Let_def split: sum.splits)

lemmas buffer_new_defs = read_new_def write_new_def recv_new_def send_new_def readat_new_def
  writeat_new_def recvfrom_new_def sendto_new_def

lemmas buffer_entry_defs = read_entry_def write_entry_def recv_entry_def send_entry_def readat_entry_def
  writeat_entry_def recvfrom_entry_def sendto_entry_def recvfrom_msghdr_def sendto_msghdr_def

lemmas buffer_drop_defs = read_drop_def write_drop_def recv_drop_def send_drop_def readat_drop_def
  writeat_drop_def recvfrom_drop_def sendto_drop_def drop_buf_def

context op_driver
begin

lemma poll_count_kept:
  assumes "poll_count Z b w op (IoUringDriver u) = (op', d, Pending)" and "bo_token op = None"
    and "bo_buf op = cb_new buf True"
    and "\<And>e. b = Inr e \<Longrightarrow> set (entry_mem e) \<subseteq> set pre \<union> {fst (as_buf_ptr buf)}"
  shows "\<exists>t. op' = op\<lparr>bo_token := t\<rparr> \<and>
    memory_kept Z b t (drop_completion Z t (pre @ into_stable_box (cb_new buf True)) (Some d))"
proof -
  obtain t p where b: "completion_block Z b w None (IoUringDriver u) = (t, d, p)"
    "op' = op\<lparr>bo_token := t\<rparr>" "finish_completion p (\<lambda>r. Ready (Inr (nat r))) = Pending"
    using assms(1,2) by (auto simp: poll_count_def split: prod.splits)
  then have "p = Pending"
    by simp
  moreover have "\<And>e. b = Inr e \<Longrightarrow> set (entry_mem e) \<subseteq> set (pre @ into_stable_box (cb_new buf True))"
    using assms(4) by (simp add: stable_box_keeps)
  ultimately show ?thesis
    using b kept_drop by blast
qed

lemma count_op_kept:
  assumes "poll_count Z (build op) w op (IoUringDriver u) = (op', d, Pending)" and "bo_token op = None"
    and "bo_buf op = cb_new buf True" and "\<And>t. build (op\<lparr>bo_token := t\<rparr>) = build op"
    and "\<And>e. build op = Inr e \<Longrightarrow> entry_mem e = [fst (as_buf_ptr buf)]"
  shows "memory_kept Z (build op') (bo_token op') (drop_buf Z op' (Some d))"
proof -
  have "\<And>e. build op = Inr e \<Longrightarrow> set (entry_mem e) \<subseteq> set [] \<union> {fst (as_buf_ptr buf)}"
    using assms(5) by simp
  from poll_count_kept [OF assms(1-3) this] obtain t where "op' = op\<lparr>bo_token := t\<rparr>"
    "memory_kept Z (build op) t (drop_completion Z t (into_stable_box (cb_new buf True)) (Some d))"
    by auto
  then show ?thesis
    using assms(3,4) by (simp add: drop_buf_def)
qed

lemma read_kept:
  assumes "read_poll_completion Z w (read_new True h buf) (IoUringDriver u) = (op, d, Pending)"
  shows "memory_kept Z (read_entry op) (bo_token op) (read_drop Z op (Some d))"
  unfolding read_drop_def
proof (rule count_op_kept [where buf = buf])
  show "poll_count Z (read_entry (read_new True h buf)) w (read_new True h buf) (IoUringDriver u) = (op, d, Pending)"
    using assms by (auto simp: read_poll_completion_def split: prod.splits)
qed (auto simp: buffer_new_defs read_entry_def Let_def split: sum.splits)

lemma write_kept:
  assumes "write_poll_completion Z w (write_new True h buf) (IoUringDriver u) = (op, d, Pending)"
  shows "memory_kept Z (write_entry op) (bo_token op) (write_drop Z op (Some d))"
  unfolding write_drop_def
proof (rule count_op_kept [where buf = buf])
  show "poll_count Z (write_entry (write_new True h buf)) w (write_new True h buf) (IoUringDriver u) = (op, d, Pending)"
    using assms by (auto simp: write_poll_completion_def split: prod.splits)
qed (auto simp: buffer_new_defs write_entry_def Let_def split: sum.splits)

lemma recv_kept:
  assumes "recv_poll_completion Z w (recv_new True h buf peek) (IoUringDriver u) = (op, d, Pending)"
  shows "memory_kept Z (recv_entry op) (bo_token op) (recv_drop Z op (Some d))"
  unfolding recv_drop_def
proof (rule count_op_kept [where buf = buf])
  show "poll_count Z (recv_entry (recv_new True h buf peek)) w (recv_new True h buf peek) (IoUringDriver u) = (op, d, Pending)"
    using assms by (auto simp: recv_poll_completion_def split: prod.splits)
qed (auto simp: buffer_new_defs recv_entry_def Let_def split: sum.splits)

lemma send_kept:
  assumes "send_poll_completion Z w (send_new True h buf) (IoUringDriver u) = (op, d, Pending)"
  shows "memory_kept Z (send_entry op) (bo_token op) (send_drop Z op (Some d))"
  unfolding send_drop_def
proof (rule count_op_kept [where buf = buf])
  show "poll_count Z (send_entry (send_new True h buf)) w (send_new True h buf) (IoUringDriver u) = (op, d, Pending)"
    using assms by (auto simp: send_poll_completion_def split: prod.splits)
qed (auto simp: buffer_new_defs send_entry_def Let_def split: sum.splits)

lemma readat_kept:
  assumes "readat_poll_completion Z w (readat_new True h buf off) (IoUringDriver u) = (op, d, Pending)"
  shows "memory_kept Z (readat_entry op) (bo_token op) (readat_drop Z op (Some d))"
  unfolding readat_drop_def
proof (rule count_op_kept [where buf = buf])
  show "poll_count Z (readat_entry (readat_new True h buf off)) w (readat_new True h buf off) (IoUringDriver u) = (op, d, Pending)"
    using assms by (auto simp: readat_poll_completion_def split: prod.splits)
qed (auto simp: buffer_new_defs readat_entry_def Let_def split: sum.splits)

lemma writeat_kept:
  assumes "writeat_poll_completion Z w (writeat_new True h buf off) (IoUringDriver u) = (op, d, Pending)"
  shows "memory_kept Z (writeat_entry op) (bo_token op) (writeat_drop Z op (Some d))"
  unfolding writeat_drop_def
proof (rule count_op_kept [where buf = buf])
  show "poll_count Z (writeat_entry (writeat_new True h buf off)) w (writeat_new True h buf off) (IoUringDriver u) = (op, d, Pending)"
    using assms by (auto simp: writeat_poll_completion_def split: prod.splits)
qed (auto simp: buffer_new_defs writeat_entry_def Let_def split: sum.splits)

lemma recvfrom_kept:
  assumes "recvfrom_poll_completion Z fresh addr w (recvfrom_new True h buf peek) (IoUringDriver u) = (op, d, Pending)"
  shows "memory_kept Z (recvfrom_entry fresh op) (bo_token op) (recvfrom_drop Z op (Some d))"
proof -
  let ?op = "(recvfrom_new True h buf peek)\<lparr>rf_state := Some fresh\<rparr>"
  have count: "poll_count Z (recvfrom_entry fresh ?op) w ?op (IoUringDriver u) = (op, d, Pending)"
    using assms by (auto simp: recvfrom_poll_completion_def recvfrom_new_def recvfrom_state_def Let_def
        split: prod.splits poll.splits sum.splits)
  have "bo_token ?op = None" "bo_buf ?op = cb_new buf True"
    "\<And>e. recvfrom_entry fresh ?op = Inr e \<Longrightarrow> set (entry_mem e) \<subseteq> set [fresh] \<union> {fst (as_buf_ptr buf)}"
    by (auto simp: recvfrom_new_def recvfrom_entry_def recvfrom_msghdr_def recvfrom_state_def Let_def)
  from poll_count_kept [OF count this] obtain t where "op = ?op\<lparr>bo_token := t\<rparr>"
    "memory_kept Z (recvfrom_entry fresh ?op) t
       (drop_completion Z t ([fresh] @ into_stable_box (cb_new buf True)) (Some d))"
    by blast
  then show ?thesis
    by (simp add: recvfrom_drop_def) (simp add: recvfrom_new_def)
qed

lemma sendto_kept:
  assumes "sendto_poll_completion Z fresh w (sendto_new True h buf a) (IoUringDriver u) = (op, d, Pending)"
  shows "memory_kept Z (sendto_entry fresh op) (bo_token op) (sendto_drop Z op (Some d))"
proof -
  let ?op = "(sendto_new True h buf a)\<lparr>st_state := Some fresh\<rparr>"
  have count: "poll_count Z (sendto_entry fresh ?op) w ?op (IoUringDriver u) = (op, d, Pending)"
    using assms by (auto simp: sendto_poll_completion_def sendto_new_def sendto_state_def Let_def
        split: prod.splits poll.splits sum.splits)
  have "bo_token ?op = None" "bo_buf ?op = cb_new buf True"
    "\<And>e. sendto_entry fresh ?op = Inr e \<Longrightarrow> set (entry_mem e) \<subseteq> set [fresh] \<union> {fst (as_buf_ptr buf)}"
    by (auto simp: sendto_new_def sendto_entry_def sendto_msghdr_def sendto_state_def Let_def)
  from poll_count_kept [OF count this] obtain t where "op = ?op\<lparr>bo_token := t\<rparr>"
    "memory_kept Z (sendto_entry fresh ?op) t
       (drop_completion Z t ([fresh] @ into_stable_box (cb_new buf True)) (Some d))"
    by blast
  then show ?thesis
    by (simp add: sendto_drop_def) (simp add: sendto_new_def)
qed

end

subsection \<open>A read from submission to result\<close>

lemma read_submits:
  assumes "read_poll_completion Z w (read_new True h buf) (IoUringDriver u) = (op, IoUringDriver u1, Pending)"
  obtains k b where "op = (read_new True h buf)\<lparr>bo_token := Some k\<rparr>"
    "u1 = fst (uring_submit_completion (z_uring Z) (Inr b) w u)" "snd (uring_submit_completion (z_uring Z) (Inr b) w u) = Retry k"
    "k = slab_vacant_key (x_comps (z_uring Z)) (u_completions u)"
proof -
  let ?op = "read_new True h buf"
  obtain b where b: "read_entry ?op = Inr b"
    by (simp add: read_entry_def Let_def)
  obtain t p where blk: "completion_block Z (Inr b) w None (IoUringDriver u) = (t, IoUringDriver u1, p)"
    "op = ?op\<lparr>bo_token := t\<rparr>" "p = Pending"
    using assms
    by (auto simp: read_poll_completion_def poll_count_def b split: prod.splits)
      (simp_all add: read_new_def)
  then obtain k where t: "t = Some k"
    by (auto simp: completion_block_def split: prod.splits completion_io_result.splits)
  from block_submits [OF blk(1) [unfolded blk(3) t]] show ?thesis
    using that [of k b] blk(2) t by auto
qed

lemma read_returns:
  assumes "slab_get (x_comps (z_uring Z)) (u_completions u) k = Some c" and "c_completed c = Some r"
  shows "\<exists>op' u'. read_poll_completion Z w ((read_new True h buf)\<lparr>bo_token := Some k\<rparr>) (IoUringDriver u) =
      (op', IoUringDriver u', Ready (if r < 0 then Inl (Os (- r)) else Inr (nat r))) \<and>
    bo_token op' = None \<and> take_bufs op' = (if r < 0 then buf else set_buf_init (nat r) buf)"
  using assms
  by (cases "cb_new buf True")
    (auto simp: read_poll_completion_def poll_count_def completion_block_def uring_get_completion_result_def
      finish_completion_def fill_ready_def take_bufs_def cb_into_inner_def read_new_def cb_new_def
      split: if_splits)

lemma submit_stores:
  assumes "slab (x_comps X)" and "snd (uring_submit_completion X (Inr b) w u) = Retry k"
  shows "slab_get (x_comps X) (u_completions (fst (uring_submit_completion X (Inr b) w u))) k =
    Some \<lparr>c_waiter = Some w, c_completed = None, c_ignored = None\<rparr>"
  using assms slab.get_insert [OF assms(1)]
  by (auto simp: uring_submit_completion_def Let_def dest!: push_entry_completions split: prod.splits sum.splits)

subsection \<open>Properties\<close>

definition ex_file :: raw_handle where
  "ex_file = \<lparr>h_handle = 4, h_token = 0, h_interest = READABLE, h_mode = CompletionMode\<rparr>"



text \<open>
  The length of an entry is 32 bits wide. \<open>ReadAtOp\<close> and \<open>WriteAtOp\<close> refuse a buffer that does not
  fit with \<open>InvalidInput\<close> and otherwise pass its exact size; \<open>ReadOp\<close>, \<open>WriteOp\<close>, \<open>RecvOp\<close> and \<open>SendOp\<close> never refuse
  and pass the size modulo \<open>2^32\<close>, so a buffer of 4 GiB becomes a transfer of zero bytes, which a
  reader cannot tell from the end of the file.
\<close>
lemma entry_lengths:
  "(\<exists>fd p len. read_entry (read_new s h buf) = Inr (ERead fd p len None) \<and> unat len = buf_capacity buf mod 2 ^ 32) \<and>
   (\<exists>fd p len. write_entry (write_new s h buf) = Inr (EWrite fd p len None) \<and> unat len = buf_len buf mod 2 ^ 32) \<and>
   (\<exists>fd p len. recv_entry (recv_new s h buf pk) = Inr (ERecv fd p len pk) \<and> unat len = buf_capacity buf mod 2 ^ 32) \<and>
   (\<exists>fd p len. send_entry (send_new s h buf) = Inr (ESend fd p len) \<and> unat len = buf_len buf mod 2 ^ 32) \<and>
   (if 2 ^ 32 \<le> buf_capacity buf then readat_entry (readat_new s h buf off) = Inl (Custom InvalidInput)
    else \<exists>fd p len. readat_entry (readat_new s h buf off) = Inr (ERead fd p len (Some off)) \<and>
           unat len = buf_capacity buf) \<and>
   (if 2 ^ 32 \<le> buf_len buf then writeat_entry (writeat_new s h buf off) = Inl (Custom InvalidInput)
    else \<exists>fd p len. writeat_entry (writeat_new s h buf off) = Inr (EWrite fd p len (Some off)) \<and>
           unat len = buf_len buf)"
  by (simp add: read_entry_def write_entry_def recv_entry_def send_entry_def readat_entry_def writeat_entry_def
      buffer_new_defs u32_try_from_def unat_of_nat)

text \<open>
  C32: a read submitted through a running io_uring driver ends when its completion is found: the
  task of the last poll is woken, and the next poll returns the kernel's count with exactly that
  many bytes of the buffer marked initialised, or the kernel's error with the buffer untouched;
  the operation is then no longer in flight.
\<close>
theorem read_op_completes:
  assumes "uring_driver (z_uring Z) in_flight" and "in_flight r0 = {#}"
    and "uring_new (z_uring Z) fd (Inr r0) ext = Inr (Some u0)" and "uring_run (z_uring Z) u0 cs u"
    and "read_poll_completion Z w (read_new True h buf) (IoUringDriver u) = (op, IoUringDriver u1, Pending)"
    and "bo_token op = Some k" and "k < MAX_TOKEN"
    and "submit_phase (z_uring Z) True t u1 = (r, Inr ())" and "cq_take (x_ring (z_uring Z)) r = (cqes, r')"
    and "e \<in> set cqes" and "cqe_user_data e = encode_completion_key k"
    and "uring_wait (z_uring Z) t u1 = (u2, ws, panicked)"
  shows "w \<in> set ws \<and>
    (\<exists>op' u'. read_poll_completion Z w' op (IoUringDriver u2) =
       (op', IoUringDriver u', Ready (if cqe_result e < 0 then Inl (Os (- cqe_result e)) else Inr (nat (cqe_result e)))) \<and>
     bo_token op' = None \<and>
     take_bufs op' = (if cqe_result e < 0 then buf else set_buf_init (nat (cqe_result e)) buf))"
proof -
  let ?X = "z_uring Z"
  have slab: "slab (x_comps ?X)"
    using assms(1) by (simp add: uring_driver_def)
  obtain k' b where op': "op = (read_new True h buf)\<lparr>bo_token := Some k'\<rparr>"
    and u1': "u1 = fst (uring_submit_completion ?X (Inr b) w u)" "snd (uring_submit_completion ?X (Inr b) w u) = Retry k'"
    and k': "k' = slab_vacant_key (x_comps ?X) (u_completions u)"
    by (rule read_submits [OF assms(5)])
  have "k' = k"
    using assms(6) op' by simp
  note op = op' [unfolded this] and u1 = u1' [unfolded this] and k = k' [unfolded this]
  have "uring_driver.uring_inv ?X in_flight u"
    using uring_driver.run_inv [OF assms(1,4) uring_driver.uring_new_inv [OF assms(1,2,3)]] .
  then have inv: "uring_driver.uring_inv ?X in_flight u1"
    unfolding u1(1) using assms(7) k by (intro uring_driver.submit_completion_inv [OF assms(1)]) simp_all
  let ?c = "\<lparr>c_waiter = Some w, c_completed = None, c_ignored = None\<rparr>"
  note c = submit_stores [OF slab u1(2), folded u1(1)]
  obtain c' where "slab_get (x_comps ?X) (u_completions u1) k = Some c'"
    and 1: "slab_get (x_comps ?X) (u_completions u2) k =
      (if c_ignored c' \<noteq> None then None else Some (c'\<lparr>c_completed := Some (cqe_result e), c_waiter := None\<rparr>))"
    and 2: "\<And>w. c_waiter c' = Some w \<Longrightarrow> w \<in> set ws"
    using uring_driver.wait_delivers [OF assms(1) inv assms(8-11,7,12)] by metis
  then have "c' = ?c"
    using c by simp
  then have "slab_get (x_comps ?X) (u_completions u2) k = Some (?c\<lparr>c_completed := Some (cqe_result e), c_waiter := None\<rparr>)"
    and "w \<in> set ws"
    using 1 2 by simp_all
  then show ?thesis
    unfolding op using read_returns by fastforce
qed

theorem read_op_completes_witness:
  "\<exists>op u1 u2 ws pan op' u'.
     read_poll_completion ex_op_env 1 (read_new True ex_file (Vec 7 0 16)) (IoUringDriver ex_op_uring) =
       (op, IoUringDriver u1, Pending) \<and>
     uring_wait (z_uring ex_op_env) None u1 = (u2, ws, pan) \<and> 1 \<in> set ws \<and>
     read_poll_completion ex_op_env 1 op (IoUringDriver u2) = (op', IoUringDriver u', Ready (Inr 5)) \<and>
     take_bufs op' = Vec 7 5 16"
proof -
  let ?X = "z_uring ex_op_env" and ?op = "read_new True ex_file (Vec 7 0 16)"
  let ?u1 = "ex_op_uring\<lparr>u_ring := \<lparr>lr_sq = [EventfdRead INTERRUPT_KEY,
      OpEntry (ERead 4 (7, 0) 16 None) (encode_completion_key 0)], lr_cq = []\<rparr>,
      u_completions := [Some \<lparr>c_waiter = Some 1, c_completed = None, c_ignored = None\<rparr>]\<rparr>"
  let ?e = "\<lparr>cqe_user_data = encode_completion_key 0, cqe_result = 5\<rparr>"
  let ?cqes = "[\<lparr>cqe_user_data = INTERRUPT_KEY, cqe_result = 5\<rparr>, ?e]"
  have new: "uring_new ?X (Inr 3) (Inr \<lparr>lr_sq = [], lr_cq = []\<rparr>) True = Inr (Some ex_op_uring)"
    by (simp add: uring_new_def submit_interrupt_def op_eval)
  have poll: "read_poll_completion ex_op_env 1 ?op (IoUringDriver ex_op_uring) =
      (?op\<lparr>bo_token := Some 0\<rparr>, IoUringDriver ?u1, Pending)"
    by (simp add: read_poll_completion_def poll_count_def read_new_def read_entry_def ex_file_def
        finish_completion_def op_eval)
  have sub: "submit_phase ?X True None ?u1 = (\<lparr>lr_sq = [], lr_cq = ?cqes\<rparr>, Inr ())"
    by (simp add: submit_phase_def submitter_call_result_def op_eval)
  have take: "cq_take (x_ring ?X) \<lparr>lr_sq = [], lr_cq = ?cqes\<rparr> = (?cqes, \<lparr>lr_sq = [], lr_cq = []\<rparr>)"
    by (simp add: op_eval)
  obtain u2 ws p where wait: "uring_wait ?X None ?u1 = (u2, ws, p)"
    by (cases "uring_wait ?X None ?u1")
  have X: "uring_driver ?X list_in_flight"
    by (simp add: ex_op_env_def lu.uring_driver_axioms)
  have empty: "list_in_flight \<lparr>lr_sq = [], lr_cq = []\<rparr> = {#}"
    by (simp add: list_in_flight_def)
  from read_op_completes [OF X empty new run_none poll _ max_token_pos [of 0] sub take _ _ wait, of ?e 1]
  show ?thesis
    using poll wait by fastforce
qed

end
