(* ===== verification/Ops_Net.thy ===== *)
theory Ops_Net
  imports Op_Base Sock_Addr
begin

text \<open>
  Connections: \<open>op/accept.rs\<close>, \<open>op/accept_unix.rs\<close> and \<open>op/connect.rs\<close> on Linux.

  The outcome of each system call a poll may make (\<open>accept4\<close>, \<open>fcntl\<close>, \<open>getpeername\<close>, \<open>connect\<close>, \<open>getsockopt\<close>)
  is an argument, a result or an error number. The address a connect entry points to belongs to
  the caller; \<open>mem\<close> is its block.
\<close>

definition EINPROGRESS :: int where "EINPROGRESS = 115"
definition EALREADY :: int where "EALREADY = 114"
definition EWOULDBLOCK :: int where "EWOULDBLOCK = 11"
definition ENOTCONN :: int where "ENOTCONN = 107"

text \<open>The two outcomes of a submission to the driver that follows a call that would block.\<close>

definition wait_for ::
  "('r, 's, 'c, 'm, 't) op_env \<Rightarrow> raw_handle \<Rightarrow> waker \<Rightarrow> interest \<Rightarrow> ('r, 's, 'c, 'm, 't) any_driver \<Rightarrow>
   ('r, 's, 'c, 'm, 't) any_driver \<times> 'a io_result poll" where
  "wait_for Z h w i d =
     (case any_submit_poll Z h w i d of
        (d, Inl err) \<Rightarrow> (d, Ready (Inl err))
      | (d, Inr _) \<Rightarrow> (d, Pending))"

subsection \<open>\<open>AcceptOp\<close>\<close>

record accept_op =
  ac_handle :: raw_handle
  ac_token :: "nat option"

definition accept_new :: "raw_handle \<Rightarrow> accept_op" where
  "accept_new h = \<lparr>ac_handle = h, ac_token = None\<rparr>"

text \<open>\<open>set_cloexec\<close>: \<open>getfd\<close> and \<open>setfd\<close> are the outcomes of the two calls of \<open>fcntl\<close>; \<open>FD_CLOEXEC\<close> is 1.\<close>

definition set_cloexec :: "int io_result \<Rightarrow> unit io_result \<Rightarrow> unit io_result" where
  "set_cloexec getfd setfd =
     (case getfd of
        Inl err \<Rightarrow> Inl err
      | Inr fdflags \<Rightarrow> if fdflags AND 1 = 0 then setfd else Inr ())"

definition accept_poll_poll ::
  "('r, 's, 'c, 'm, 't) op_env \<Rightarrow> int io_result \<Rightarrow> sockaddr_storage io_result \<Rightarrow> waker \<Rightarrow> accept_op \<Rightarrow>
   ('r, 's, 'c, 'm, 't) any_driver \<Rightarrow> ('r, 's, 'c, 'm, 't) any_driver \<times> (int \<times> socket_addr) io_result poll" where
  "accept_poll_poll Z accepted peer w op d =
     (case accepted of
        Inl err \<Rightarrow> if err_kind err = WouldBlock then wait_for Z (ac_handle op) w READABLE d else (d, Ready (Inl err))
      | Inr fd \<Rightarrow>
          (case peer of
             Inl err \<Rightarrow> if err_kind err = WouldBlock then wait_for Z (ac_handle op) w READABLE d else (d, Ready (Inl err))
           | Inr st \<Rightarrow>
               (case sockaddr_storage_to_socketaddr st of
                  Inl err \<Rightarrow> (d, Ready (Inl err))
                | Inr addr \<Rightarrow> (d, Ready (Inr (fd, addr))))))"

definition accept_entry :: "accept_op \<Rightarrow> op_entry io_result" where
  "accept_entry op = Inr (EAccept (h_handle (ac_handle op)) True)"

definition accept_poll_completion ::
  "('r, 's, 'c, 'm, 't) op_env \<Rightarrow> unit io_result \<Rightarrow> sockaddr_storage io_result \<Rightarrow> waker \<Rightarrow> accept_op \<Rightarrow>
   ('r, 's, 'c, 'm, 't) any_driver \<Rightarrow>
   accept_op \<times> ('r, 's, 'c, 'm, 't) any_driver \<times> (int \<times> socket_addr) io_result poll" where
  "accept_poll_completion Z cloexec peer w op d =
     (case completion_block Z (accept_entry op) w (ac_token op) d of
        (t, d, p) \<Rightarrow>
          (op\<lparr>ac_token := t\<rparr>, d, finish_completion p (\<lambda>fd.
             case cloexec of
               Inl err \<Rightarrow> Ready (Inl err)
             | Inr _ \<Rightarrow>
                 (case peer of
                    Inl err \<Rightarrow> Ready (Inl err)
                  | Inr st \<Rightarrow>
                      (case sockaddr_storage_to_socketaddr st of
                         Inl err \<Rightarrow> Ready (Inl err)
                       | Inr addr \<Rightarrow> Ready (Inr (fd, addr)))))))"

definition accept_drop ::
  "('r, 's, 'c, 'm, 't) op_env \<Rightarrow> accept_op \<Rightarrow> ('r, 's, 'c, 'm, 't) any_driver option \<Rightarrow>
   ('r, 's, 'c, 'm, 't) any_driver option" where
  "accept_drop Z op current = drop_completion Z (ac_token op) [] current"

subsection \<open>\<open>AcceptUnixOp\<close>\<close>

definition accept_unix_new :: "raw_handle \<Rightarrow> accept_op" where
  "accept_unix_new h = \<lparr>ac_handle = h, ac_token = None\<rparr>"

definition accept_unix_poll_poll ::
  "('r, 's, 'c, 'm, 't) op_env \<Rightarrow> int io_result \<Rightarrow> waker \<Rightarrow> accept_op \<Rightarrow> ('r, 's, 'c, 'm, 't) any_driver \<Rightarrow>
   ('r, 's, 'c, 'm, 't) any_driver \<times> int io_result poll" where
  "accept_unix_poll_poll Z accepted w op d =
     (case accepted of
        Inl err \<Rightarrow> if err_kind err = WouldBlock then wait_for Z (ac_handle op) w READABLE d else (d, Ready (Inl err))
      | Inr fd \<Rightarrow> (d, Ready (Inr fd)))"

text \<open>The flag of \<open>EAccept\<close>: \<open>SOCK_NONBLOCK | SOCK_CLOEXEC\<close>, which this entry lacks.\<close>

definition accept_unix_entry :: "accept_op \<Rightarrow> op_entry io_result" where
  "accept_unix_entry op = Inr (EAccept (h_handle (ac_handle op)) False)"

definition accept_unix_poll_completion ::
  "('r, 's, 'c, 'm, 't) op_env \<Rightarrow> unit io_result \<Rightarrow> waker \<Rightarrow> accept_op \<Rightarrow> ('r, 's, 'c, 'm, 't) any_driver \<Rightarrow>
   accept_op \<times> ('r, 's, 'c, 'm, 't) any_driver \<times> int io_result poll" where
  "accept_unix_poll_completion Z cloexec w op d =
     (case completion_block Z (accept_unix_entry op) w (ac_token op) d of
        (t, d, p) \<Rightarrow>
          (op\<lparr>ac_token := t\<rparr>, d, finish_completion p (\<lambda>fd.
             case cloexec of Inl err \<Rightarrow> Ready (Inl err) | Inr _ \<Rightarrow> Ready (Inr fd))))"

definition accept_unix_drop ::
  "('r, 's, 'c, 'm, 't) op_env \<Rightarrow> accept_op \<Rightarrow> ('r, 's, 'c, 'm, 't) any_driver option \<Rightarrow>
   ('r, 's, 'c, 'm, 't) any_driver option" where
  "accept_unix_drop Z op current = drop_completion Z (ac_token op) [] current"

subsection \<open>\<open>ConnectOp\<close>\<close>

record connect_op =
  co_handle :: raw_handle
  co_addr :: "mem \<times> nat"
  co_token :: "nat option"
  co_poll_connect_started :: bool

definition connect_new :: "raw_handle \<Rightarrow> mem \<Rightarrow> nat \<Rightarrow> connect_op" where
  "connect_new h addr addrlen =
     \<lparr>co_handle = h, co_addr = (addr, addrlen), co_token = None, co_poll_connect_started = False\<rparr>"

definition start_nonblocking_connect :: "unit io_result \<Rightarrow> unit io_result" where
  "start_nonblocking_connect connected =
     (case connected of
        Inl err \<Rightarrow>
          if raw_os_error err \<notin> {Some EINPROGRESS, Some EWOULDBLOCK, Some EALREADY} then Inl err else Inr ()
      | Inr _ \<Rightarrow> Inr ())"

text \<open>\<open>sockopt\<close>: the value of \<open>SO_ERROR\<close>; \<open>peer\<close>: the outcome of \<open>getpeername\<close>.\<close>

definition connect_check ::
  "('r, 's, 'c, 'm, 't) op_env \<Rightarrow> int io_result \<Rightarrow> unit io_result \<Rightarrow> waker \<Rightarrow> connect_op \<Rightarrow>
   ('r, 's, 'c, 'm, 't) any_driver \<Rightarrow> ('r, 's, 'c, 'm, 't) any_driver \<times> unit io_result poll" where
  "connect_check Z sockopt peer w op d =
     (case sockopt of
        Inl err \<Rightarrow> if err_kind err = WouldBlock then wait_for Z (co_handle op) w WRITABLE d else (d, Ready (Inl err))
      | Inr socket_error \<Rightarrow>
          if socket_error \<noteq> 0
          then (if socket_error \<in> {EINPROGRESS, EALREADY, EWOULDBLOCK}
                then wait_for Z (co_handle op) w WRITABLE d
                else (d, Ready (Inl (Os socket_error))))
          else (case peer of
                  Inl err \<Rightarrow>
                    if raw_os_error err \<in> {Some EINPROGRESS, Some EALREADY, Some EWOULDBLOCK, Some ENOTCONN}
                    then wait_for Z (co_handle op) w WRITABLE d
                    else (d, Ready (Inl err))
                | Inr _ \<Rightarrow> (d, Ready (Inr ()))))"

definition connect_poll_poll ::
  "('r, 's, 'c, 'm, 't) op_env \<Rightarrow> unit io_result \<Rightarrow> int io_result \<Rightarrow> unit io_result \<Rightarrow> waker \<Rightarrow> connect_op \<Rightarrow>
   ('r, 's, 'c, 'm, 't) any_driver \<Rightarrow> connect_op \<times> ('r, 's, 'c, 'm, 't) any_driver \<times> unit io_result poll" where
  "connect_poll_poll Z connected sockopt peer w op d =
     (if \<not> co_poll_connect_started op
      then (case start_nonblocking_connect connected of
              Inl err \<Rightarrow> (op, d, Ready (Inl err))
            | Inr _ \<Rightarrow>
                (let op = op\<lparr>co_poll_connect_started := True\<rparr> in
                 case connect_check Z sockopt peer w op d of (d, p) \<Rightarrow> (op, d, p)))
      else (case connect_check Z sockopt peer w op d of (d, p) \<Rightarrow> (op, d, p)))"

definition connect_entry :: "connect_op \<Rightarrow> op_entry io_result" where
  "connect_entry op = (case co_addr op of (addr, addrlen) \<Rightarrow> Inr (EConnect (h_handle (co_handle op)) addr addrlen))"

definition connect_poll_completion ::
  "('r, 's, 'c, 'm, 't) op_env \<Rightarrow> waker \<Rightarrow> connect_op \<Rightarrow> ('r, 's, 'c, 'm, 't) any_driver \<Rightarrow>
   connect_op \<times> ('r, 's, 'c, 'm, 't) any_driver \<times> unit io_result poll" where
  "connect_poll_completion Z w op d =
     (case completion_block Z (connect_entry op) w (co_token op) d of
        (t, d, p) \<Rightarrow> (op\<lparr>co_token := t\<rparr>, d, finish_completion p (\<lambda>result. Ready (Inr ()))))"

definition connect_drop ::
  "('r, 's, 'c, 'm, 't) op_env \<Rightarrow> connect_op \<Rightarrow> ('r, 's, 'c, 'm, 't) any_driver option \<Rightarrow>
   ('r, 's, 'c, 'm, 't) any_driver option" where
  "connect_drop Z op current = drop_completion Z (co_token op) [] current"

subsection \<open>Lemmas\<close>

text \<open>An accepted descriptor reaches the caller or, after a failed call on it, nobody: no branch closes it.\<close>

lemma accept_poll_result:
  assumes "accept_poll_poll Z (Inr fd) peer w op d = (d', p)"
  shows "(\<exists>st addr. peer = Inr st \<and> sockaddr_storage_to_socketaddr st = Inr addr \<and> p = Ready (Inr (fd, addr))) \<or>
    ((\<forall>v. p \<noteq> Ready (Inr v)) \<and> (case peer of Inl _ \<Rightarrow> True | Inr st \<Rightarrow> isl (sockaddr_storage_to_socketaddr st)))"
  using assms
  by (auto simp: accept_poll_poll_def wait_for_def split: sum.splits if_splits prod.splits)

text \<open>A connect that succeeds has been started, shows no error on the socket and has a peer.\<close>

lemma connect_ok:
  assumes "connect_poll_poll Z connected sockopt peer w op d = (op', d', Ready (Inr ()))"
  shows "co_poll_connect_started op' \<and> sockopt = Inr 0 \<and> peer = Inr () \<and>
    (co_poll_connect_started op \<or> isl (start_nonblocking_connect connected) = False)"
  using assms
  by (auto simp: connect_poll_poll_def connect_check_def wait_for_def Let_def split: sum.splits if_splits prod.splits)

text \<open>\<open>connect\<close> is called in the first poll only.\<close>

lemma connect_started_once:
  assumes "co_poll_connect_started op"
  shows "connect_poll_poll Z connected sockopt peer w op d = connect_poll_poll Z connected' sockopt peer w op d \<and>
    co_poll_connect_started (fst (connect_poll_poll Z connected sockopt peer w op d))"
  using assms by (simp add: connect_poll_poll_def split: prod.split)

context op_driver
begin

text \<open>Like the path operations, a connect that is dropped in flight leaves its address to the caller.\<close>

lemma connect_addr_freed:
  assumes "connect_poll_completion Z w (connect_new h addr len) (IoUringDriver u) = (op, d, Pending)"
  shows "\<not> memory_kept Z (connect_entry op) (co_token op) (connect_drop Z op (Some d))"
proof -
  obtain t p where b: "completion_block Z (connect_entry (connect_new h addr len)) w None (IoUringDriver u) = (t, d, p)"
    "op = (connect_new h addr len)\<lparr>co_token := t\<rparr>" "finish_completion p (\<lambda>r. Ready (Inr ())) = (Pending :: unit io_result poll)"
    using assms by (auto simp: connect_poll_completion_def connect_new_def split: prod.splits)
  then have "p = Pending"
    by simp
  with b abandoned_drop [where kept = "[]"] show ?thesis
    by (fastforce simp: memory_kept_def connect_drop_def connect_entry_def connect_new_def)
qed

end

end
