(* ===== verification/Ops_Process.thy ===== *)
theory Ops_Process
  imports Op_Base
begin

text \<open>
  Waiting for child processes: \<open>WaitPidOp\<close> (\<open>op/waitpid.rs\<close>) and the reaper for systems without pidfds
  (\<open>zombie_reaper_fn_unix\<close> of \<open>process/reaper.rs\<close>, with the feature \<open>signal\<close>).

  The outcomes of \<open>pidfd_open\<close>, of the \<open>read\<close> on the pidfd and of \<open>waitpid\<close> are arguments. Closing a
  descriptor is visible to the readiness poller; \<open>os_close\<close> is that effect, a parameter. The handle of
  a pidfd is registered with the driver of the runtime, which is the driver passed to the poll.
\<close>

subsection \<open>\<open>WaitPidOp\<close>\<close>

datatype waitpid_state = WInit int | WPolling int int raw_handle | WDone

definition waitpid_new :: "u32 \<Rightarrow> waitpid_state" where
  "waitpid_new pid = WInit (sint pid)"

text \<open>The close of a descriptor, as far as a driver can tell.\<close>

fun any_close ::
  "(int \<Rightarrow> 'm \<Rightarrow> 'm) \<Rightarrow> int \<Rightarrow> ('r, 's, 'c, 'm, 't) any_driver \<Rightarrow> ('r, 's, 'c, 'm, 't) any_driver" where
  "any_close os_close fd (MioDriver d) = MioDriver (d\<lparr>m_poll := os_close fd (m_poll d)\<rparr>)"
| "any_close os_close fd d = d"

definition open_pidfd :: "int \<Rightarrow> int \<Rightarrow> int io_result" where
  "open_pidfd fd errno = (if fd < 0 then Inl (Os errno) else Inr fd)"

text \<open>\<open>rc\<close> and \<open>status\<close>: what \<open>waitpid(pid, &status, WNOHANG)\<close> returns and stores.\<close>

definition reap :: "int \<Rightarrow> int \<Rightarrow> int \<Rightarrow> int io_result" where
  "reap rc status errno =
     (if rc < 0 then Inl (Os errno) else if rc = 0 then Inl (Custom WouldBlock) else Inr status)"

text \<open>
  The arm \<open>Polling\<close> of \<open>poll_poll\<close>. The assignment of \<open>Done\<close> drops the fields in their order: the pidfd
  is closed, then the handle deregisters.
\<close>

definition waitpid_polling ::
  "('r, 's, 'c, 'm, 't) op_env \<Rightarrow> (int \<Rightarrow> 'm \<Rightarrow> 'm) \<Rightarrow> nat io_result \<Rightarrow> int io_result \<Rightarrow> waker \<Rightarrow>
   int \<Rightarrow> int \<Rightarrow> raw_handle \<Rightarrow> ('r, 's, 'c, 'm, 't) any_driver \<Rightarrow>
   waitpid_state \<times> ('r, 's, 'c, 'm, 't) any_driver \<times> int io_result poll" where
  "waitpid_polling Z os_close rd reaped w pid pidfd h d =
     (if (case rd of Inl err \<Rightarrow> err_kind err = WouldBlock | Inr _ \<Rightarrow> False)
      then (case any_submit_poll Z h w READABLE d of
              (d, Inl err) \<Rightarrow> (WPolling pid pidfd h, d, Ready (Inl err))
            | (d, Inr _) \<Rightarrow> (WPolling pid pidfd h, d, Pending))
      else (WDone, handle_drop Z h (any_close os_close pidfd d), Ready reaped))"

text \<open>\<open>poll_poll\<close>: a fresh operation opens and registers the pidfd and goes on with the second arm.\<close>

definition waitpid_poll_poll ::
  "('r, 's, 'c, 'm, 't) op_env \<Rightarrow> (int \<Rightarrow> 'm \<Rightarrow> 'm) \<Rightarrow> int io_result \<Rightarrow> nat io_result \<Rightarrow> int io_result \<Rightarrow> waker \<Rightarrow>
   waitpid_state \<Rightarrow> ('r, 's, 'c, 'm, 't) any_driver \<Rightarrow>
   waitpid_state \<times> ('r, 's, 'c, 'm, 't) any_driver \<times> int io_result poll" where
  "waitpid_poll_poll Z os_close opened rd reaped w st d =
     (case st of
        WInit pid \<Rightarrow>
          (case opened of
             Inl err \<Rightarrow> (WInit pid, d, Ready (Inl err))
           | Inr fd \<Rightarrow>
               (case new_with_driver_and_mode Z d fd READABLE PollMode of
                  (d, Inl err) \<Rightarrow> (WInit pid, any_close os_close fd d, Ready (Inl err))
                | (d, Inr h) \<Rightarrow> waitpid_polling Z os_close rd reaped w pid fd h d))
      | WPolling pid pidfd h \<Rightarrow> waitpid_polling Z os_close rd reaped w pid pidfd h d
      | WDone \<Rightarrow> (WDone, d, Ready (Inl (Custom Other))))"

text \<open>\<open>poll_completion\<close>: a fresh operation always waits once; at the end the handle goes before the pidfd.\<close>

definition waitpid_poll_completion ::
  "('r, 's, 'c, 'm, 't) op_env \<Rightarrow> (int \<Rightarrow> 'm \<Rightarrow> 'm) \<Rightarrow> int io_result \<Rightarrow> nat io_result \<Rightarrow> int io_result \<Rightarrow> waker \<Rightarrow>
   waitpid_state \<Rightarrow> ('r, 's, 'c, 'm, 't) any_driver \<Rightarrow>
   waitpid_state \<times> ('r, 's, 'c, 'm, 't) any_driver \<times> int io_result poll" where
  "waitpid_poll_completion Z os_close opened rd reaped w st d =
     (case st of
        WInit pid \<Rightarrow>
          (case opened of
             Inl err \<Rightarrow> (WDone, d, Ready (Inl err))
           | Inr fd \<Rightarrow>
               (case new_with_driver_and_mode Z d fd READABLE PollMode of
                  (d, Inl err) \<Rightarrow> (WDone, any_close os_close fd d, Ready (Inl err))
                | (d, Inr h) \<Rightarrow>
                    (case any_submit_poll Z h w READABLE d of
                       (d, Inl err) \<Rightarrow> (WPolling pid fd h, d, Ready (Inl err))
                     | (d, Inr _) \<Rightarrow> (WPolling pid fd h, d, Pending))))
      | WPolling pid pidfd h \<Rightarrow>
          if (case rd of Inl err \<Rightarrow> err_kind err = WouldBlock | Inr _ \<Rightarrow> False)
          then (case any_submit_poll Z h w READABLE d of
                  (d, Inl err) \<Rightarrow> (WPolling pid pidfd h, d, Ready (Inl err))
                | (d, Inr _) \<Rightarrow> (WPolling pid pidfd h, d, Pending))
          else (WDone, any_close os_close pidfd (handle_drop Z h d), Ready reaped)
      | WDone \<Rightarrow> (WDone, d, Ready (Inl (Custom Other))))"

definition waitpid_poll ::
  "('r, 's, 'c, 'm, 't) op_env \<Rightarrow> (int \<Rightarrow> 'm \<Rightarrow> 'm) \<Rightarrow> int io_result \<Rightarrow> nat io_result \<Rightarrow> int io_result \<Rightarrow> waker \<Rightarrow>
   waitpid_state \<Rightarrow> ('r, 's, 'c, 'm, 't) any_driver \<Rightarrow>
   waitpid_state \<times> ('r, 's, 'c, 'm, 't) any_driver \<times> int io_result poll" where
  "waitpid_poll Z os_close opened rd reaped w st d =
     (if any_supports_completion d
      then waitpid_poll_completion Z os_close opened rd reaped w st d
      else waitpid_poll_poll Z os_close opened rd reaped w st d)"

subsection \<open>The reaper on signals\<close>

text \<open>
  A message is a child with the channel its exit status goes to; \<open>try_wait\<close> is its outcome at the time.
  The state: the children not yet reaped and the answers sent.
\<close>

type_synonym reaper_message = "nat \<times> nat option"

record reaper =
  rp_processes :: "reaper_message list"
  rp_sent :: "(nat \<times> int io_result) list"

definition answer :: "nat option \<Rightarrow> int io_result \<Rightarrow> reaper \<Rightarrow> reaper" where
  "answer sender res r = (case sender of None \<Rightarrow> r | Some s \<Rightarrow> r\<lparr>rp_sent := rp_sent r @ [(s, res)]\<rparr>)"

definition reap_process :: "(nat \<Rightarrow> int option io_result) \<Rightarrow> reaper_message \<Rightarrow> reaper \<Rightarrow> reaper" where
  "reap_process try_wait msg r =
     (case try_wait (fst msg) of
        Inr (Some exit_code) \<Rightarrow> answer (snd msg) (Inr exit_code) r
      | Inr None \<Rightarrow> r\<lparr>rp_processes := rp_processes r @ [msg]\<rparr>
      | Inl err \<Rightarrow> answer (snd msg) (Inl err) r)"

datatype reaper_event = NewChild reaper_message | ChildSignal

fun reaper_step :: "(nat \<Rightarrow> int option io_result) \<Rightarrow> reaper_event \<Rightarrow> reaper \<Rightarrow> reaper" where
  "reaper_step try_wait (NewChild msg) r = reap_process try_wait msg r"
| "reaper_step try_wait ChildSignal r =
     fold (reap_process try_wait) (rp_processes r) (r\<lparr>rp_processes := []\<rparr>)"

fun zombie_reaper_fn_unix :: "((nat \<Rightarrow> int option io_result) \<times> reaper_event) list \<Rightarrow> reaper \<Rightarrow> reaper" where
  "zombie_reaper_fn_unix [] r = r"
| "zombie_reaper_fn_unix ((tw, e) # es) r = zombie_reaper_fn_unix es (reaper_step tw e r)"

subsection \<open>Lemmas\<close>

text \<open>Channels with a pending or a given answer.\<close>

definition channels :: "reaper \<Rightarrow> nat list" where
  "channels r = map fst (rp_sent r) @ concat (map (case_option [] (\<lambda>s. [s]) \<circ> snd) (rp_processes r))"

definition message_channel :: "reaper_event \<Rightarrow> nat list" where
  "message_channel e = (case e of NewChild (c, Some s) \<Rightarrow> [s] | _ \<Rightarrow> [])"

lemma reap_process_channels:
  "mset (channels (reap_process tw msg r)) = mset (channels r) + mset (case_option [] (\<lambda>s. [s]) (snd msg))"
  by (cases msg) (auto simp: reap_process_def answer_def channels_def split: option.splits sum.splits)

lemma reap_all_channels:
  "mset (channels (fold (reap_process tw) msgs r)) =
     mset (channels r) + mset (concat (map (case_option [] (\<lambda>s. [s]) \<circ> snd) msgs))"
  by (induction msgs arbitrary: r) (simp_all add: reap_process_channels)

text \<open>Every channel that came in is answered or still waiting, and none is answered twice.\<close>

lemma reaper_channels:
  "mset (channels (zombie_reaper_fn_unix es r)) = mset (channels r) + mset (concat (map (message_channel \<circ> snd) es))"
proof (induction es r rule: zombie_reaper_fn_unix.induct)
  case (2 tw e es r)
  have "mset (channels (reaper_step tw e r)) = mset (channels r) + mset (message_channel e)"
  proof (cases e)
    case (NewChild msg)
    then show ?thesis
      by (cases msg) (simp add: reap_process_channels message_channel_def split: option.split)
  next
    case ChildSignal
    have "mset (channels r) = mset (channels (r\<lparr>rp_processes := []\<rparr>)) +
        mset (concat (map (case_option [] (\<lambda>s. [s]) \<circ> snd) (rp_processes r)))"
      by (simp add: channels_def)
    with ChildSignal show ?thesis
      by (simp add: reap_all_channels message_channel_def)
  qed
  with 2 show ?case
    by simp
qed simp

subsection \<open>Properties\<close>

text \<open>A poller that knows the open descriptors: only those can be (de)registered.\<close>

definition fd_poller :: "int list poller_ops" where
  "fd_poller = \<lparr>poller_poll = (\<lambda>t m. (m, [], Inr ())), poller_register = (\<lambda>fd tok i m. (fd # m, Inr ())),
     poller_reregister = (\<lambda>fd tok i m. if fd \<in> set m then (m, Inr ()) else (m, Inl (Os 9))),
     poller_deregister = (\<lambda>fd m. if fd \<in> set m then (remove1 fd m, Inr ()) else (m, Inl (Os 9)))\<rparr>"

definition fd_close :: "int \<Rightarrow> int list \<Rightarrow> int list" where
  "fd_close fd m = filter (\<lambda>x. x \<noteq> fd) m"

definition fd_env ::
  "(op_entry list_ring, handle_registration option list, mem list completion option list,
    int list, registration option list) op_env" where
  "fd_env = \<lparr>z_uring = list_uring 8 (\<lambda>_. 5), z_mio = \<lparr>y_poll = fd_poller, y_regs = list_slab\<rparr>\<rparr>"

text \<open>
  On the readiness driver the wait for a child that is still running fails at once. The kernel
  refuses \<open>read\<close> on a pidfd with \<open>EINVAL\<close>, which the operation takes for an exited child; \<open>waitpid\<close> then finds
  no exited child, and the first poll ends the operation with \<open>WouldBlock\<close> instead of waiting. Its
  registration stays in the driver's table, since the pidfd is closed before the handle
  deregisters and a closed descriptor cannot be deregistered. (The operation as the io_uring
  driver polls it waits.)
\<close>
lemma waitpid_running_child_fails:
  assumes "slab (y_regs (z_mio Z))" and "0 \<le> fd"
    and "poller_register (y_poll (z_mio Z)) fd (slab_vacant_key (y_regs (z_mio Z)) (m_regs d)) READABLE (m_poll d) = (m, Inr ())"
    and "poller_deregister (y_poll (z_mio Z)) fd (os_close fd m) = (m', Inl err)"
  shows "\<exists>d'. waitpid_poll Z os_close (open_pidfd fd e1) (Inl (Os 22)) (reap 0 status e2) w (waitpid_new pid) (MioDriver d) =
      (WDone, MioDriver d', Ready (Inl (Custom WouldBlock))) \<and>
    (\<exists>reg. slab_get (y_regs (z_mio Z)) (m_regs d') (slab_vacant_key (y_regs (z_mio Z)) (m_regs d)) = Some reg \<and>
       reg_fd reg = fd)"
  using assms slab.get_insert [OF assms(1)]
  by (auto simp: waitpid_poll_def waitpid_poll_poll_def waitpid_new_def open_pidfd_def reap_def
      new_with_driver_and_mode_def effective_mode_def mio_register_def waitpid_polling_def handle_drop_def
      mio_deregister_def decode_error_kind_def Let_def)

end
