(* ===== verification/Io_Util.thy ===== *)
theory Io_Util
  imports Io_Buf
begin

text \<open>
  \<open>io/util.rs\<close>: \<open>copy\<close>, \<open>split\<close> and \<open>copy_bidirectional\<close>.

  A reader and a writer are any types with the traits \<open>AsyncRead\<close> and \<open>AsyncWrite\<close>: functions on their
  states \<open>'r\<close> and \<open>'w\<close>, whose calls are awaited to their end. \<open>read\<close> gets the capacity of the buffer and
  returns its result with the bytes of the returned buffer; \<open>write\<close> gets the bytes and returns how many
  it took. The locale \<open>byte_sink\<close> states what a well-behaved writer promises.

  \<open>copy\<close> may run forever on an endless reader: its loop is a partial function, \<open>None\<close> when it does
  not return. The inner loop over a partly written buffer always ends; a writer that claims to have
  written more than it was given leads the cursor out of the buffer, also \<open>None\<close>.
\<close>

type_synonym bytes = "u8 list"
type_synonym 'r read_fn = "'r \<Rightarrow> nat \<Rightarrow> 'r \<times> nat io_result \<times> bytes"
type_synonym 'w write_fn = "'w \<Rightarrow> bytes \<Rightarrow> 'w \<times> nat io_result"
type_synonym 'w flush_fn = "'w \<Rightarrow> 'w \<times> unit io_result"

subsection \<open>\<open>copy\<close>\<close>

function write_cursor :: "'w write_fn \<Rightarrow> bytes \<Rightarrow> nat \<Rightarrow> 'w \<Rightarrow> ('w \<times> unit io_result) option" where
  "write_cursor wr buf cur w =
     (if usize_sub (length buf) cur = 0 then Some (w, Inr ())
      else if length buf < cur then None
      else case wr w (drop cur buf) of
             (w, Inl err) \<Rightarrow> Some (w, Inl err)
           | (w, Inr n) \<Rightarrow>
               if n = 0 then Some (w, Inl (Custom WriteZero))
               else write_cursor wr buf (cur + n) w)"
  by pat_completeness auto
termination
  by (relation "measure (\<lambda>(wr, buf, cur, w). length buf - cur)") (auto simp: usize_sub_def split: if_splits)

declare write_cursor.simps [simp del]

definition COPY_BUFFER :: nat where "COPY_BUFFER = 8192"

definition saturating_add_u64 :: "nat \<Rightarrow> nat \<Rightarrow> nat" where
  "saturating_add_u64 a b = min (a + b) (2 ^ 64 - 1)"

partial_function (option) copy_loop ::
  "'r read_fn \<Rightarrow> 'w write_fn \<Rightarrow> 'w flush_fn \<Rightarrow> nat \<Rightarrow> 'r \<Rightarrow> 'w \<Rightarrow> ('r \<times> 'w \<times> nat io_result) option" where
  "copy_loop rd wr fl copied r w =
     (case rd r COPY_BUFFER of
        (r, Inl err, buf) \<Rightarrow> Some (r, w, Inl err)
      | (r, Inr n, buf) \<Rightarrow>
          if n = 0
          then (case fl w of
                  (w, Inl err) \<Rightarrow> Some (r, w, Inl err)
                | (w, Inr _) \<Rightarrow> Some (r, w, Inr copied))
          else (case write_cursor wr buf 0 w of
                  None \<Rightarrow> None
                | Some (w, Inl err) \<Rightarrow> Some (r, w, Inl err)
                | Some (w, Inr _) \<Rightarrow> copy_loop rd wr fl (saturating_add_u64 copied n) r w))"

definition copy_all ::
  "'r read_fn \<Rightarrow> 'w write_fn \<Rightarrow> 'w flush_fn \<Rightarrow> 'r \<Rightarrow> 'w \<Rightarrow> ('r \<times> 'w \<times> nat io_result) option" where
  "copy_all rd wr fl r w = copy_loop rd wr fl 0 r w"

subsection \<open>\<open>split\<close> and \<open>copy_bidirectional\<close>\<close>

text \<open>
  \<open>split\<close> puts an object behind one \<open>AsyncMutex\<close>; each half locks it for the whole of a read or a
  write. \<open>copy_bidirectional\<close> joins a copy from \<open>a\<close> to \<open>b\<close> and one from \<open>b\<close> to \<open>a\<close>. A copy is at one of
  these points; while it is \<open>InRead\<close> or \<open>InWrite\<close> it holds the lock of the object it reads or writes.
\<close>

datatype copy_pc = WantRead | InRead | WantWrite bytes | InWrite bytes | Finished

datatype side = A | B

fun other_side :: "side \<Rightarrow> side" where
  "other_side A = B"
| "other_side B = A"

text \<open>
  \<open>cp_pc s\<close>: the copy that reads from side \<open>s\<close>; \<open>cp_lock s\<close>: whether the mutex of \<open>s\<close> is held;
  \<open>cp_in s\<close>: the messages that have arrived at \<open>s\<close> and were not read; \<open>cp_out s\<close>: what was written to \<open>s\<close>.
\<close>

record proxy =
  cp_pc :: "side \<Rightarrow> copy_pc"
  cp_lock :: "side \<Rightarrow> bool"
  cp_in :: "side \<Rightarrow> bytes list"
  cp_out :: "side \<Rightarrow> bytes list"

inductive copy_step :: "proxy \<Rightarrow> proxy \<Rightarrow> bool" where
  lock_read: "cp_pc p s = WantRead \<Longrightarrow> \<not> cp_lock p s \<Longrightarrow>
    copy_step p (p\<lparr>cp_pc := (cp_pc p)(s := InRead), cp_lock := (cp_lock p)(s := True)\<rparr>)"
| finish_read: "cp_pc p s = InRead \<Longrightarrow> cp_in p s = m # ms \<Longrightarrow>
    copy_step p (p\<lparr>cp_pc := (cp_pc p)(s := (if m = [] then Finished else WantWrite m)),
                   cp_lock := (cp_lock p)(s := False), cp_in := (cp_in p)(s := ms)\<rparr>)"
| lock_write: "cp_pc p s = WantWrite m \<Longrightarrow> \<not> cp_lock p (other_side s) \<Longrightarrow>
    copy_step p (p\<lparr>cp_pc := (cp_pc p)(s := InWrite m), cp_lock := (cp_lock p)(other_side s := True)\<rparr>)"
| finish_write: "cp_pc p s = InWrite m \<Longrightarrow>
    copy_step p (p\<lparr>cp_pc := (cp_pc p)(s := WantRead), cp_lock := (cp_lock p)(other_side s := False),
                   cp_out := (cp_out p)(other_side s := cp_out p (other_side s) @ [m])\<rparr>)"

text \<open>The two objects as their peers use them: what arrives at a side depends on what was written there.\<close>

inductive peer_step :: "(bytes list \<Rightarrow> bytes list) \<Rightarrow> proxy \<Rightarrow> proxy \<Rightarrow> bool" for serve where
  client: "peer_step serve p (p\<lparr>cp_in := (cp_in p)(A := cp_in p A @ [m])\<rparr>)"
| server: "peer_step serve p (p\<lparr>cp_in := (cp_in p)(B := cp_in p B @ serve (cp_out p B)), cp_out := (cp_out p)(B := [])\<rparr>)"

definition copy_bidirectional :: proxy where
  "copy_bidirectional = \<lparr>cp_pc = (\<lambda>_. WantRead), cp_lock = (\<lambda>_. False), cp_in = (\<lambda>_. []), cp_out = (\<lambda>_. [])\<rparr>"

subsection \<open>Writers\<close>

locale byte_sink =
  fixes wr :: "'w write_fn" and sink :: "'w \<Rightarrow> bytes"
  assumes wr_progress: "bs \<noteq> [] \<Longrightarrow> \<exists>n w'. wr w bs = (w', Inr n) \<and> 0 < n \<and> n \<le> length bs \<and>
    sink w' = sink w @ take n bs"
begin

lemma write_cursor_all:
  assumes "cur \<le> length buf"
  shows "\<exists>w'. write_cursor wr buf cur w = Some (w', Inr ()) \<and> sink w' = sink w @ drop cur buf"
  using assms
proof (induction "length buf - cur" arbitrary: cur w rule: less_induct)
  case less
  show ?case
  proof (cases "cur = length buf")
    case True
    then show ?thesis
      by (simp add: write_cursor.simps usize_sub_def)
  next
    case False
    then have "drop cur buf \<noteq> []"
      using less.prems by simp
    then obtain n w1 where w1: "wr w (drop cur buf) = (w1, Inr n)" "0 < n" "n \<le> length (drop cur buf)"
      "sink w1 = sink w @ take n (drop cur buf)"
      using wr_progress by blast
    have "length buf - (cur + n) < length buf - cur" "cur + n \<le> length buf"
      using w1(2,3) False less.prems by auto
    then obtain w' where "write_cursor wr buf (cur + n) w1 = Some (w', Inr ())" "sink w' = sink w1 @ drop (cur + n) buf"
      using less.hyps [of "cur + n" w1] by blast
    moreover have "take n (drop cur buf) @ drop (cur + n) buf = drop cur buf"
      by (metis add.commute append_take_drop_id drop_drop)
    ultimately show ?thesis
      using w1 False less.prems by (subst write_cursor.simps) (auto simp: usize_sub_def)
  qed
qed

end

text \<open>A reader that delivers the chunks \<open>cs\<close>, one by one, and then the end of the file.\<close>

inductive delivers :: "'r read_fn \<Rightarrow> 'r \<Rightarrow> bytes list \<Rightarrow> 'r \<Rightarrow> bool" for rd where
  eof: "rd r COPY_BUFFER = (r', Inr 0, buf) \<Longrightarrow> delivers rd r [] r'"
| chunk: "rd r COPY_BUFFER = (r1, Inr (length c), c) \<Longrightarrow> c \<noteq> [] \<Longrightarrow> delivers rd r1 cs r' \<Longrightarrow>
    delivers rd r (c # cs) r'"

context byte_sink
begin

lemma copy_loop_delivers:
  assumes "delivers rd r cs r'" and "\<And>w. \<exists>w'. fl w = (w', Inr ()) \<and> sink w' = sink w"
    and "copied + sum_list (map length cs) < 2 ^ 64"
  shows "\<exists>w'. copy_loop rd wr fl copied r w = Some (r', w', Inr (copied + sum_list (map length cs))) \<and>
    sink w' = sink w @ concat cs"
  using assms(1,3)
proof (induction arbitrary: copied w rule: delivers.induct)
  case (eof r r' buf)
  then show ?case
    using assms(2) [of w] by (auto simp: copy_loop.simps)
next
  case (chunk r r1 c cs r')
  obtain w1 where w1: "write_cursor wr c 0 w = Some (w1, Inr ())" "sink w1 = sink w @ c"
    using write_cursor_all [of 0 c w] by auto
  obtain w' where "copy_loop rd wr fl (copied + length c) r1 w1 =
      Some (r', w', Inr (copied + length c + sum_list (map length cs)))" "sink w' = sink w1 @ concat cs"
    using chunk.IH [of "copied + length c" w1] chunk.prems by auto
  then show ?case
    using chunk.hyps(1,2) chunk.prems w1
    by (subst copy_loop.simps) (auto simp: saturating_add_u64_def min_def add.assoc)
qed

end

subsection \<open>An instance\<close>

text \<open>A reader over a list of chunks, and a writer that takes at most two bytes at a time.\<close>

fun chunk_read :: "bytes list read_fn" where
  "chunk_read [] cap = ([], Inr 0, [])"
| "chunk_read (c # cs) cap = (if length c \<le> cap then (cs, Inr (length c), c) else (drop cap c # cs, Inr cap, take cap c))"

definition pair_write :: "bytes write_fn" where
  "pair_write w bs = (w @ take 2 bs, Inr (min 2 (length bs)))"

definition no_flush :: "bytes flush_fn" where
  "no_flush w = (w, Inr ())"

interpretation pw: byte_sink pair_write id
  by unfold_locales (auto simp: pair_write_def min_def Suc_le_eq)

subsection \<open>Properties\<close>

text \<open>
  C37: \<open>copy\<close> ends on a reader that reaches its end, and moves every byte once and in order: with a
  writer that takes at least one byte per call, however it cuts the buffers, the writer has received
  exactly the concatenation of the chunks the reader delivered, and the result is their total length.
\<close>
theorem copy_exact:
  assumes "byte_sink wr sink" and "delivers rd r cs r'" and "\<And>w. \<exists>w'. fl w = (w', Inr ()) \<and> sink w' = sink w"
    and "sum_list (map length cs) < 2 ^ 64"
  shows "\<exists>w'. copy_all rd wr fl r w = Some (r', w', Inr (sum_list (map length cs))) \<and> sink w' = sink w @ concat cs"
  using byte_sink.copy_loop_delivers [OF assms(1-3), of 0] assms(4) by (simp add: copy_all_def)

theorem copy_exact_witness:
  "copy_all chunk_read pair_write no_flush [[1, 2, 3], [4]] [] = Some ([], [1, 2, 3, 4], Inr 4)"
proof -
  have "delivers chunk_read [[1, 2, 3], [4]] [[1, 2, 3], [4]] []"
    by (auto intro!: delivers.intros simp: COPY_BUFFER_def)
  from copy_exact [OF pw.byte_sink_axioms this, of no_flush "[]"] show ?thesis
    by (simp add: no_flush_def)
qed

text \<open>The state in which the client's request waits for the lock of the pending read from the server.\<close>

definition stuck :: "bytes \<Rightarrow> proxy \<Rightarrow> bool" where
  "stuck req p \<longleftrightarrow> cp_pc p = (\<lambda>_. InRead)(A := WantWrite req) \<and> cp_lock p B \<and> cp_in p B = [] \<and> cp_out p B = []"

lemma side_fun_eq: "f = g \<longleftrightarrow> f A = g A \<and> f B = g B"
  by (metis ext side.exhaust)

lemma stuck_no_copy_step:
  assumes "copy_step p p'"
  shows "\<not> stuck req p"
  using assms
proof cases
  case (lock_read s)
  then show ?thesis by (cases s) (auto simp: stuck_def)
next
  case (finish_read s m ms)
  then show ?thesis by (cases s) (auto simp: stuck_def)
next
  case (lock_write s m)
  then show ?thesis by (cases s) (auto simp: stuck_def)
next
  case (finish_write s m)
  then show ?thesis by (cases s) (auto simp: stuck_def)
qed

lemma stuck_peer_step: "serve [] = [] \<Longrightarrow> peer_step serve p p' \<Longrightarrow> stuck req p \<Longrightarrow> stuck req p'"
  by (erule peer_step.cases) (auto simp: stuck_def)

lemma stuck_reachable:
  assumes "req \<noteq> []"
  shows "\<exists>p. reachable copy_bidirectional (\<lambda>p p'. copy_step p p' \<or> peer_step serve p p') p \<and> stuck req p"
proof -
  let ?step = "\<lambda>p p'. copy_step p p' \<or> peer_step serve p p'"
  define p0 where "p0 = copy_bidirectional"
  define p1 where "p1 = p0\<lparr>cp_pc := (cp_pc p0)(A := InRead), cp_lock := (cp_lock p0)(A := True)\<rparr>"
  define p2 where "p2 = p1\<lparr>cp_pc := (cp_pc p1)(B := InRead), cp_lock := (cp_lock p1)(B := True)\<rparr>"
  define p3 where "p3 = p2\<lparr>cp_in := (cp_in p2)(A := cp_in p2 A @ [req])\<rparr>"
  define p4 where "p4 = p3\<lparr>cp_pc := (cp_pc p3)(A := (if req = [] then Finished else WantWrite req)),
    cp_lock := (cp_lock p3)(A := False), cp_in := (cp_in p3)(A := [])\<rparr>"
  note states = p0_def copy_bidirectional_def p1_def p2_def p3_def
  have "copy_step p0 p1"
    unfolding p1_def by (rule lock_read) (simp_all add: states)
  moreover have "copy_step p1 p2"
    unfolding p2_def by (rule lock_read) (simp_all add: states)
  moreover have "peer_step serve p2 p3"
    unfolding p3_def by (rule client)
  moreover have "copy_step p3 p4"
    unfolding p4_def by (rule finish_read) (simp_all add: states)
  ultimately have "?step p0 p1" "?step p1 p2" "?step p2 p3" "?step p3 p4"
    by simp_all
  from this(4) reachable_step [of p0 ?step, OF reachable_step [of p0 ?step, OF reachable_step [of p0 ?step,
      OF reachable_start this(1)] this(2)] this(3)]
  have "reachable p0 ?step p4"
    by (rule reachable_step [rotated])
  moreover have "stuck req p4"
    using assms by (simp add: stuck_def states p4_def side_fun_eq)
  ultimately show ?thesis
    unfolding p0_def by blast
qed

text \<open>
  \<open>copy_bidirectional\<close> can block for ever although data waits and both peers are ready to go on. Each
  half of \<open>split\<close> holds the object's only mutex during a pending read, so once a client has sent a
  request, the copy towards the server waits for the lock that the copy from the server holds
  while it waits for the server, which answers only what it has received. In the state reached, no
  copy can take a step, and no matter how often the peers act, the client sending more included, no
  copy ever will.
\<close>
lemma copy_bidirectional_deadlock:
  assumes "req \<noteq> []" and "serve [] = []"
  shows "\<exists>p. reachable copy_bidirectional (\<lambda>p p'. copy_step p p' \<or> peer_step serve p p') p \<and>
    cp_pc p A = WantWrite req \<and>
    (\<forall>p'. reachable p (\<lambda>p p'. copy_step p p' \<or> peer_step serve p p') p' \<longrightarrow>
       cp_pc p' = cp_pc p \<and> (\<forall>p''. \<not> copy_step p' p''))"
proof -
  let ?step = "\<lambda>p p'. copy_step p p' \<or> peer_step serve p p'"
  obtain p where p: "reachable copy_bidirectional ?step p" "stuck req p"
    using stuck_reachable [OF assms(1)] by blast
  have "step_invariant p ?step (stuck req)"
    using p(2) stuck_no_copy_step stuck_peer_step [of serve, OF assms(2)] by unfold_locales blast+
  note inv = step_invariant.inv_reachable [OF this]
  have "cp_pc p' = cp_pc p \<and> (\<forall>p''. \<not> copy_step p' p'')" if "reachable p ?step p'" for p'
    using inv [OF that] p(2) stuck_no_copy_step by (auto simp: stuck_def)
  moreover have "cp_pc p A = WantWrite req"
    using p(2) by (simp add: stuck_def)
  ultimately show ?thesis
    using p(1) by blast
qed

text \<open>An echo server: it answers what it has received, and is never given the request.\<close>

end
