(* ===== verification/Async_Wrap.thy ===== *)
theory Async_Wrap
  imports Io_Util
begin

text \<open>
  \<open>util/async_wrap.rs\<close>: \<open>AsyncWrap\<close>, the adapter to tokio's traits.

  The wrapped object is any type with \<open>AsyncRead\<close> and \<open>AsyncWrite\<close>; it is given by the futures of one
  read, one write and one flush (records of type \<open>inner_io\<close>), each started on the object and polled until it
  gives the object back. \<open>poll_read\<close> returns the bytes it appends to the caller's buffer, of which
  \<open>remaining\<close> bytes are free. The write future is the loop around single writes; \<open>None\<close> is a poll that
  never returns or panics.
\<close>

subsection \<open>State\<close>

record ('t, 'rf, 'wf, 'ff) inner_io =
  ii_start_read :: "'t \<Rightarrow> nat \<Rightarrow> 'rf"
  ii_poll_read :: "'rf \<Rightarrow> 'rf + nat io_result \<times> bytes \<times> 't"
  ii_start_write :: "'t \<Rightarrow> bytes \<Rightarrow> 'wf"
  ii_poll_write :: "'wf \<Rightarrow> 'wf + nat io_result \<times> bytes \<times> 't"
  ii_start_flush :: "'t \<Rightarrow> 'ff"
  ii_poll_flush :: "'ff \<Rightarrow> 'ff + unit io_result \<times> 't"

record ('t, 'rf, 'wf, 'ff) async_wrap =
  aw_inner :: "'t option"
  aw_read_buf :: "(bytes \<times> nat \<times> nat) option"
  aw_read_fut :: "'rf option"
  aw_write_fut :: "('wf \<times> nat) option"
  aw_flush_fut :: "'ff option"

definition BUFFER_SIZE :: nat where "BUFFER_SIZE = 4096"

definition wrap_new :: "'t \<Rightarrow> ('t, 'rf, 'wf, 'ff) async_wrap" where
  "wrap_new inner =
     \<lparr>aw_inner = Some inner, aw_read_buf = None, aw_read_fut = None, aw_write_fut = None, aw_flush_fut = None\<rparr>"

subsection \<open>Operations\<close>

text \<open>The second half of \<open>poll_read\<close>: the future is there and is polled.\<close>

definition poll_read_fut ::
  "('t, 'rf, 'wf, 'ff) inner_io \<Rightarrow> nat \<Rightarrow> 'rf \<Rightarrow> ('t, 'rf, 'wf, 'ff) async_wrap \<Rightarrow>
   ('t, 'rf, 'wf, 'ff) async_wrap \<times> bytes io_result poll" where
  "poll_read_fut E remaining f aw =
     (case ii_poll_read E f of
        Inl f \<Rightarrow> (aw\<lparr>aw_read_fut := Some f\<rparr>, Pending)
      | Inr (read, buf_read, inner) \<Rightarrow>
          (let aw = aw\<lparr>aw_read_fut := None, aw_inner := Some inner\<rparr> in
           case read of
             Inl err \<Rightarrow> (aw, Ready (Inl err))
           | Inr n \<Rightarrow>
               (let copy_len = min n remaining in
                (if copy_len < n then aw\<lparr>aw_read_buf := Some (buf_read, copy_len, n)\<rparr> else aw,
                 Ready (Inr (take copy_len buf_read))))))"

definition poll_read ::
  "('t, 'rf, 'wf, 'ff) inner_io \<Rightarrow> nat \<Rightarrow> ('t, 'rf, 'wf, 'ff) async_wrap \<Rightarrow>
   ('t, 'rf, 'wf, 'ff) async_wrap \<times> bytes io_result poll" where
  "poll_read E remaining aw =
     (if remaining = 0 then (aw, Ready (Inr []))
      else case aw_read_fut aw of
        Some f \<Rightarrow> poll_read_fut E remaining f aw
      | None \<Rightarrow>
          (case aw_read_buf aw of
             Some (buf_read, advanced, n) \<Rightarrow>
               (let copy_len = min (n - advanced) remaining in
                (aw\<lparr>aw_read_buf := (if advanced + copy_len < n then Some (buf_read, advanced + copy_len, n) else None)\<rparr>,
                 Ready (Inr (take copy_len (drop advanced buf_read)))))
           | None \<Rightarrow>
               (case aw_inner aw of
                  None \<Rightarrow> (aw, Ready (Inl (Custom Other)))
                | Some inner \<Rightarrow>
                    poll_read_fut E remaining (ii_start_read E inner BUFFER_SIZE) (aw\<lparr>aw_inner := None\<rparr>))))"

text \<open>\<open>split_off(n)\<close> panics beyond the end.\<close>

partial_function (option) write_all_fut ::
  "('t, 'rf, 'wf, 'ff) inner_io \<Rightarrow> nat \<Rightarrow> 'wf \<Rightarrow> ('wf \<times> nat + nat io_result \<times> 't) option" where
  "write_all_fut E total_written f =
     (case ii_poll_write E f of
        Inl f \<Rightarrow> Some (Inl (f, total_written))
      | Inr (Inl err, buf_written, inner) \<Rightarrow> Some (Inr (Inl err, inner))
      | Inr (Inr n, buf_written, inner) \<Rightarrow>
          if length buf_written < n then None
          else let buf = drop n buf_written; total_written = total_written + n in
            if buf = [] then Some (Inr (Inr total_written, inner))
            else write_all_fut E total_written (ii_start_write E inner buf))"

definition poll_write_fut ::
  "('t, 'rf, 'wf, 'ff) inner_io \<Rightarrow> 'wf \<times> nat \<Rightarrow> ('t, 'rf, 'wf, 'ff) async_wrap \<Rightarrow>
   (('t, 'rf, 'wf, 'ff) async_wrap \<times> nat io_result poll) option" where
  "poll_write_fut E f aw =
     (case write_all_fut E (snd f) (fst f) of
        None \<Rightarrow> None
      | Some (Inl f) \<Rightarrow> Some (aw\<lparr>aw_write_fut := Some f\<rparr>, Pending)
      | Some (Inr (written, inner)) \<Rightarrow>
          Some (aw\<lparr>aw_write_fut := None, aw_inner := Some inner\<rparr>, Ready written))"

definition poll_write ::
  "('t, 'rf, 'wf, 'ff) inner_io \<Rightarrow> bytes \<Rightarrow> ('t, 'rf, 'wf, 'ff) async_wrap \<Rightarrow>
   (('t, 'rf, 'wf, 'ff) async_wrap \<times> nat io_result poll) option" where
  "poll_write E buf aw =
     (if buf = [] then Some (aw, Ready (Inr 0))
      else case aw_write_fut aw of
        Some f \<Rightarrow> poll_write_fut E f aw
      | None \<Rightarrow>
          (case aw_inner aw of
             None \<Rightarrow> Some (aw, Ready (Inl (Custom Other)))
           | Some inner \<Rightarrow> poll_write_fut E (ii_start_write E inner buf, 0) (aw\<lparr>aw_inner := None\<rparr>)))"

definition poll_flush_fut ::
  "('t, 'rf, 'wf, 'ff) inner_io \<Rightarrow> 'ff \<Rightarrow> ('t, 'rf, 'wf, 'ff) async_wrap \<Rightarrow>
   ('t, 'rf, 'wf, 'ff) async_wrap \<times> unit io_result poll" where
  "poll_flush_fut E f aw =
     (case ii_poll_flush E f of
        Inl f \<Rightarrow> (aw\<lparr>aw_flush_fut := Some f\<rparr>, Pending)
      | Inr (flush, inner) \<Rightarrow> (aw\<lparr>aw_flush_fut := None, aw_inner := Some inner\<rparr>, Ready flush))"

definition poll_flush ::
  "('t, 'rf, 'wf, 'ff) inner_io \<Rightarrow> ('t, 'rf, 'wf, 'ff) async_wrap \<Rightarrow>
   ('t, 'rf, 'wf, 'ff) async_wrap \<times> unit io_result poll" where
  "poll_flush E aw =
     (case aw_flush_fut aw of
        Some f \<Rightarrow> poll_flush_fut E f aw
      | None \<Rightarrow>
          (case aw_inner aw of
             None \<Rightarrow> (aw, Ready (Inl (Custom Other)))
           | Some inner \<Rightarrow> poll_flush_fut E (ii_start_flush E inner) (aw\<lparr>aw_inner := None\<rparr>)))"

definition poll_shutdown :: "('t, 'rf, 'wf, 'ff) async_wrap \<Rightarrow> ('t, 'rf, 'wf, 'ff) async_wrap \<times> unit io_result poll" where
  "poll_shutdown aw = (aw, Ready (Inr ()))"

subsection \<open>Reading\<close>

text \<open>Bytes the wrapper has taken from the object and not handed out.\<close>

definition leftover :: "('t, 'rf, 'wf, 'ff) async_wrap \<Rightarrow> bytes" where
  "leftover aw = (case aw_read_buf aw of None \<Rightarrow> [] | Some (b, a, n) \<Rightarrow> take (n - a) (drop a b))"

definition wrap_inv :: "('t, 'rf, 'wf, 'ff) async_wrap \<Rightarrow> bool" where
  "wrap_inv aw \<longleftrightarrow> (case aw_read_buf aw of None \<Rightarrow> True | Some (b, a, n) \<Rightarrow> a < n \<and> n \<le> length b) \<and>
     (aw_read_fut aw \<noteq> None \<longrightarrow> aw_read_buf aw = None)"

text \<open>The results of a sequence of reads with the given free sizes.\<close>

fun poll_reads ::
  "('t, 'rf, 'wf, 'ff) inner_io \<Rightarrow> nat list \<Rightarrow> ('t, 'rf, 'wf, 'ff) async_wrap \<Rightarrow>
   ('t, 'rf, 'wf, 'ff) async_wrap \<times> bytes io_result poll list" where
  "poll_reads E [] aw = (aw, [])"
| "poll_reads E (n # ns) aw =
     (case poll_read E n aw of (aw, p) \<Rightarrow> (case poll_reads E ns aw of (aw, ps) \<Rightarrow> (aw, p # ps)))"

fun read_bytes :: "bytes io_result poll \<Rightarrow> bytes" where
  "read_bytes (Ready (Inr bs)) = bs"
| "read_bytes _ = []"

text \<open>
  A source of bytes: \<open>src t\<close> and \<open>src_fut f\<close> are the bytes still to come from the object and from a read in
  progress.
\<close>

locale byte_source =
  fixes E :: "('t, 'rf, 'wf, 'ff) inner_io" and src :: "'t \<Rightarrow> bytes" and src_fut :: "'rf \<Rightarrow> bytes"
  assumes start_src: "src_fut (ii_start_read E t n) = src t"
    and pending_src: "ii_poll_read E f = Inl f' \<Longrightarrow> src_fut f' = src_fut f"
    and ready_src: "ii_poll_read E f = Inr (Inr n, b, t) \<Longrightarrow> n \<le> length b \<and> src_fut f = take n b @ src t"
    and error_src: "ii_poll_read E f = Inr (Inl e, b, t) \<Longrightarrow> src_fut f = src t"
begin

definition to_come :: "('t, 'rf, 'wf, 'ff) async_wrap \<Rightarrow> bytes" where
  "to_come aw = leftover aw @
     (case aw_read_fut aw of Some f \<Rightarrow> src_fut f | None \<Rightarrow> (case aw_inner aw of Some t \<Rightarrow> src t | None \<Rightarrow> []))"

lemma poll_read_fut_bytes:
  assumes "aw_read_buf aw = None" "poll_read_fut E n f aw = (aw', p)"
  shows "wrap_inv aw' \<and> read_bytes p @ to_come aw' = src_fut f"
proof (cases "ii_poll_read E f")
  case (Inl f')
  with assms pending_src [OF Inl] show ?thesis
    by (auto simp: poll_read_fut_def wrap_inv_def to_come_def leftover_def)
next
  case (Inr r)
  obtain read b t where r: "r = (read, b, t)"
    by (cases r)
  show ?thesis
  proof (cases read)
    case (Inl e)
    with assms error_src [OF \<open>ii_poll_read E f = Inr r\<close> [unfolded r Inl]] show ?thesis
      by (auto simp: poll_read_fut_def \<open>ii_poll_read E f = Inr r\<close> r wrap_inv_def to_come_def leftover_def)
  next
    case (Inr k)
    note k = ready_src [OF \<open>ii_poll_read E f = Inr r\<close> [unfolded r Inr]]
    then have "take (min k n) b @ take (k - min k n) (drop (min k n) b) = take k b"
      by (metis le_add_diff_inverse min.cobounded1 take_add)
    with assms k show ?thesis
      by (auto simp: poll_read_fut_def \<open>ii_poll_read E f = Inr r\<close> r Inr wrap_inv_def to_come_def leftover_def
          Let_def min_def split: if_splits)
  qed
qed

lemma poll_read_bytes:
  assumes "wrap_inv aw" "poll_read E n aw = (aw', p)"
  shows "wrap_inv aw' \<and> read_bytes p @ to_come aw' = to_come aw"
proof (cases "n = 0 \<or> aw_read_fut aw = None \<and> (aw_read_buf aw \<noteq> None \<or> aw_inner aw = None)")
  case True
  consider "n = 0" | b a m where "n \<noteq> 0" "aw_read_fut aw = None" "aw_read_buf aw = Some (b, a, m)"
    | "n \<noteq> 0" "aw_read_fut aw = None" "aw_read_buf aw = None" "aw_inner aw = None"
    using True by (cases "aw_read_buf aw") auto
  then show ?thesis
  proof cases
    case (2 b a m)
    let ?k = "min (m - a) n"
    have "take ?k (drop a b) @ take (m - (a + ?k)) (drop (a + ?k) b) = take (m - a) (drop a b)"
      by (metis (no_types, opaque_lifting) add.commute diff_diff_left drop_drop le_add_diff_inverse min.cobounded1 take_add)
    moreover have "a < m" "m \<le> length b"
      using assms(1) 2 by (simp_all add: wrap_inv_def)
    ultimately show ?thesis
      using assms(2) 2 by (auto simp: poll_read_def wrap_inv_def to_come_def leftover_def Let_def)
  qed (use assms in \<open>auto simp: poll_read_def to_come_def\<close>)
next
  case False
  have "\<exists>f aw0. poll_read_fut E n f aw0 = (aw', p) \<and> aw_read_buf aw0 = None \<and> src_fut f = to_come aw"
  proof (cases "aw_read_fut aw")
    case None
    then have nb: "aw_read_buf aw = None"
      using False by (cases "aw_read_buf aw") auto
    with None False assms obtain t where "aw_inner aw = Some t"
      "poll_read_fut E n (ii_start_read E t BUFFER_SIZE) (aw\<lparr>aw_inner := None\<rparr>) = (aw', p)"
      by (auto simp: poll_read_def)
    with None nb show ?thesis
      by (intro exI conjI) (assumption, simp_all add: to_come_def leftover_def start_src)
  next
    case (Some f)
    with False assms have "poll_read_fut E n f aw = (aw', p)" "aw_read_buf aw = None"
      by (auto simp: poll_read_def wrap_inv_def)
    with Some show ?thesis
      by (intro exI conjI) (assumption, simp_all add: to_come_def leftover_def)
  qed
  then show ?thesis
    using poll_read_fut_bytes by metis
qed

lemma poll_reads_bytes:
  "wrap_inv aw \<Longrightarrow> poll_reads E ns aw = (aw', ps) \<Longrightarrow>
     wrap_inv aw' \<and> concat (map read_bytes ps) @ to_come aw' = to_come aw"
proof (induction ns arbitrary: aw ps)
  case Nil
  then show ?case by simp
next
  case (Cons n ns)
  obtain aw1 p where p: "poll_read E n aw = (aw1, p)"
    by fastforce
  obtain aw2 ps2 where ps: "poll_reads E ns aw1 = (aw2, ps2)"
    by fastforce
  note 1 = poll_read_bytes [OF Cons.prems(1) p]
  note 2 = Cons.IH [of aw1 ps2]
  have eq: "aw' = aw2" "ps = p # ps2"
    using Cons.prems(2) p ps by simp_all
  then show ?case
    using 1 2 ps by simp
qed

end

subsection \<open>Writing\<close>

text \<open>
  A writer given by futures: \<open>taken f\<close> are the bytes the object had taken when the write in progress began,
  \<open>asked f\<close> the bytes of that write. A completed write takes a part of them, at least one byte.
\<close>

locale byte_writer =
  fixes E :: "('t, 'rf, 'wf, 'ff) inner_io" and got :: "'t \<Rightarrow> bytes"
    and taken :: "'wf \<Rightarrow> bytes" and asked :: "'wf \<Rightarrow> bytes"
  assumes start_write: "taken (ii_start_write E t bs) = got t" "asked (ii_start_write E t bs) = bs"
    and pending_write: "ii_poll_write E f = Inl f' \<Longrightarrow> taken f' = taken f \<and> asked f' = asked f"
    and ready_write: "ii_poll_write E f = Inr (Inr n, b, t) \<Longrightarrow> asked f \<noteq> [] \<Longrightarrow>
      b = asked f \<and> 0 < n \<and> n \<le> length b \<and> got t = taken f @ take n b"
begin

text \<open>One poll of the loop: what is still to be written, and the count.\<close>

definition wrote :: "bytes \<Rightarrow> nat \<Rightarrow> 'wf \<times> nat + nat io_result \<times> 't \<Rightarrow> bool" where
  "wrote all m r =
    (case r of
       Inl (f, tot) \<Rightarrow> asked f \<noteq> [] \<and> taken f @ asked f = all \<and> tot + length (asked f) = m
     | Inr (Inr k, t) \<Rightarrow> got t = all \<and> k = m
     | Inr (Inl e, t) \<Rightarrow> True)"

lemma write_all_fut_progress:
  assumes "asked f \<noteq> []"
  shows "\<exists>r. write_all_fut E tot f = Some r \<and> wrote (taken f @ asked f) (tot + length (asked f)) r"
  using assms
proof (induction "length (asked f)" arbitrary: f tot rule: less_induct)
  case less
  show ?case
  proof (cases "ii_poll_write E f")
    case (Inl f')
    with less.prems pending_write [OF Inl] show ?thesis
      by (auto simp: write_all_fut.simps wrote_def)
  next
    case (Inr r)
    obtain res b t where r: "r = (res, b, t)"
      by (cases r)
    show ?thesis
    proof (cases res)
      case (Inl e)
      with \<open>ii_poll_write E f = Inr r\<close> r show ?thesis
        by (auto simp: write_all_fut.simps wrote_def)
    next
      case (Inr n)
      note n = ready_write [OF \<open>ii_poll_write E f = Inr r\<close> [unfolded r Inr] less.prems]
      have eq: "write_all_fut E tot f =
          (if drop n b = [] then Some (Inr (Inr (tot + n), t))
           else write_all_fut E (tot + n) (ii_start_write E t (drop n b)))"
        using n \<open>ii_poll_write E f = Inr r\<close> r Inr 
        by (subst write_all_fut.simps [of E tot f]) (auto simp: Let_def)
      show ?thesis
      proof (cases "drop n b = []")
        case True
        with eq n show ?thesis
          by (auto simp: wrote_def)
      next
        case False
        let ?f = "ii_start_write E t (drop n b)"
        have "length (asked ?f) < length (asked f)" "asked ?f \<noteq> []"
          using False n by (auto simp: start_write)
        from less.hyps [OF this, of "tot + n"] show ?thesis
          using eq False n by (auto simp: start_write)
      qed
    qed
  qed
qed

end

text \<open>The loop has no guard against a writer that takes nothing: it never ends, where \<open>copy\<close> reports \<open>WriteZero\<close>.\<close>

lemma write_zero_hangs:
  assumes "\<And>t bs. bs \<noteq> [] \<Longrightarrow> ii_poll_write E (ii_start_write E t bs) = Inr (Inr 0, bs, t)" and "bs \<noteq> []"
  shows "write_all_fut E tot (ii_start_write E t bs) = None"
proof -
  have "E = E \<longrightarrow> (\<forall>t. f \<noteq> ii_start_write E t bs)" if "write_all_fut E tot f = Some y" for f y
  proof (rule write_all_fut.raw_induct [where P = "\<lambda>E' tot f y. E' = E \<longrightarrow> (\<forall>t. f \<noteq> ii_start_write E t bs)"])
    fix rec :: "('a, 'c, 'b, 'd) inner_io \<Rightarrow> nat \<Rightarrow> 'b \<Rightarrow> ('b \<times> nat + nat io_result \<times> 'a) option"
    fix E' m g z
    assume IH: "\<And>E' m g z. rec E' m g = Some z \<Longrightarrow> E' = E \<longrightarrow> (\<forall>t. g \<noteq> ii_start_write E t bs)"
      and body: "(case ii_poll_write E' g of Inl f \<Rightarrow> Some (Inl (f, m))
        | Inr (Inl err, buf_written, inner) \<Rightarrow> Some (Inr (Inl err, inner))
        | Inr (Inr n, buf_written, inner) \<Rightarrow>
            if length buf_written < n then None
            else let buf = drop n buf_written; m = m + n in
              if buf = [] then Some (Inr (Inr m, inner)) else rec E' m (ii_start_write E' inner buf)) = Some z"
    show "E' = E \<longrightarrow> (\<forall>t. g \<noteq> ii_start_write E t bs)"
    proof (intro impI allI notI)
      fix t assume "E' = E" and g: "g = ii_start_write E t bs"
      then have "rec E m (ii_start_write E t bs) = Some z"
        using body assms by (simp add: Let_def)
      with IH show False
        by blast
    qed
  qed (rule that)
  then show ?thesis
    by (metis not_Some_eq)
qed

subsection \<open>An instance\<close>

text \<open>
  An object with input and output: a read hands out up to the free size of the input, a write is
  pending once and then takes at most two bytes.
\<close>

type_synonym pipe = "bytes \<times> bytes"

fun pipe_read :: "pipe \<times> nat \<Rightarrow> pipe \<times> nat + nat io_result \<times> bytes \<times> pipe" where
  "pipe_read ((inp, out), cap) = Inr (Inr (min cap (length inp)), take cap inp, (drop cap inp, out))"

fun pipe_write :: "pipe \<times> bytes \<times> bool \<Rightarrow> pipe \<times> bytes \<times> bool + nat io_result \<times> bytes \<times> pipe" where
  "pipe_write (t, bs, False) = Inl (t, bs, True)"
| "pipe_write ((inp, out), bs, True) = Inr (Inr (min 2 (length bs)), bs, (inp, out @ take 2 bs))"

definition pipe_io :: "(pipe, pipe \<times> nat, pipe \<times> bytes \<times> bool, pipe) inner_io" where
  "pipe_io = \<lparr>ii_start_read = Pair, ii_poll_read = pipe_read, ii_start_write = (\<lambda>t bs. (t, bs, False)),
     ii_poll_write = pipe_write, ii_start_flush = id, ii_poll_flush = (\<lambda>t. Inr (Inr (), t))\<rparr>"

interpretation ps: byte_source pipe_io fst "fst \<circ> fst"
  by unfold_locales (auto simp: pipe_io_def min_def elim: pipe_read.elims)

interpretation pwr: byte_writer pipe_io snd "snd \<circ> fst" "fst \<circ> snd"
  by unfold_locales (auto simp: pipe_io_def Suc_le_eq min_def elim!: pipe_write.elims)

subsection \<open>Properties\<close>

text \<open>
  C39: reading through \<open>AsyncWrap\<close> loses, repeats and reorders nothing: over any sequence of polls with
  any buffer sizes, pending polls and errors included, the bytes handed out, followed by what the
  wrapper still holds and what the object still has to give, are what was to come at the start.
\<close>
theorem wrap_reads_exact:
  assumes "byte_source E src src_fut" and "poll_reads E ns (wrap_new t) = (aw', ps)"
  shows "concat (map read_bytes ps) @ leftover aw' @
     (case aw_read_fut aw' of Some f \<Rightarrow> src_fut f | None \<Rightarrow> (case aw_inner aw' of Some t' \<Rightarrow> src t' | None \<Rightarrow> [])) = src t"
proof -
  note reads = byte_source.poll_reads_bytes [OF assms(1) _ assms(2)]
  show ?thesis
    using reads by (simp add: byte_source.to_come_def [OF assms(1)] wrap_inv_def wrap_new_def leftover_def)
qed

theorem wrap_reads_exact_witness:
  "\<exists>aw ps. poll_reads pipe_io [3, 4] (wrap_new ([1, 2, 3, 4, 5], [])) = (aw, ps) \<and>
     concat (map read_bytes ps) = [1, 2, 3, 4, 5]"
proof -
  obtain aw ps where r: "poll_reads pipe_io [3, 4] (wrap_new ([1, 2, 3, 4, 5], [])) = (aw, ps)"
    by (cases "poll_reads pipe_io [3, 4] (wrap_new ([1, 2, 3, 4, 5], []))")
  then have "leftover aw = []" "aw_read_fut aw = None" "aw_inner aw = Some ([], [])"
    by (auto simp: poll_read_def poll_read_fut_def wrap_new_def pipe_io_def BUFFER_SIZE_def leftover_def Let_def)
  with wrap_reads_exact [OF ps.byte_source_axioms r] r show ?thesis
    by auto
qed



end
