(* ===== verification/Signal.thy ===== *)
theory Signal
  imports Vibe_Prelude
begin

text \<open>
  Signals on Unix, \<open>signal/unix.rs\<close>: the registry of handlers, the pipe from the handler to the dispatch
  thread, and the listeners.

  The state of a signal (\<open>Arc<SignalState>\<close>) lives in a store under a number, since listeners share it
  beyond its entry in the registry. The actions the operating system has installed are part of the
  state; whether a call of \<open>sigaction\<close> succeeds is an argument. The counter is a 64-bit word. The
  critical sections of one function are definitions of their own, so that threads can be
  interleaved between them.
\<close>

subsection \<open>State\<close>

datatype sig_action = VibeHandler | OsAction nat

record signal_state =
  ss_counter :: u64
  ss_wakers :: "waker list"

record registered_signal =
  rs_state :: nat
  rs_refs :: nat
  rs_prev_action :: sig_action

record sig_registry =
  sr_signals :: "int \<Rightarrow> registered_signal option"
  sr_states :: "nat \<Rightarrow> signal_state"
  sr_next :: nat
  sr_action :: "int \<Rightarrow> sig_action"
  sr_ready :: bool               \<comment> \<open>\<open>REGISTRY\<close> is initialised\<close>
  sr_write_fd :: int             \<comment> \<open>\<open>SIGNAL_WRITE_FD\<close>\<close>

text \<open>What the operating system answers: the pipe, the spawn of the dispatch thread, \<open>sigaction\<close>.\<close>

record sig_env =
  se_pipe :: "(int \<times> int) io_result"
  se_spawn :: "unit io_result"
  se_sigaction :: "unit io_result"

record signal =
  sg_kind :: int
  sg_state :: nat
  sg_last_seen :: u64

subsection \<open>Registration\<close>

definition install_handler :: "unit io_result \<Rightarrow> int \<Rightarrow> sig_registry \<Rightarrow> sig_registry \<times> sig_action io_result" where
  "install_handler rc signum r =
     (case rc of
        Inl err \<Rightarrow> (r, Inl err)
      | Inr _ \<Rightarrow> (r\<lparr>sr_action := (sr_action r)(signum := VibeHandler)\<rparr>, Inr (sr_action r signum)))"

definition restore_handler :: "unit io_result \<Rightarrow> int \<Rightarrow> sig_action \<Rightarrow> sig_registry \<Rightarrow> sig_registry \<times> unit io_result" where
  "restore_handler rc signum prev r =
     (case rc of
        Inl err \<Rightarrow> (r, Inl err)
      | Inr _ \<Rightarrow> (r\<lparr>sr_action := (sr_action r)(signum := prev)\<rparr>, Inr ()))"

definition init_registry :: "sig_env \<Rightarrow> sig_registry \<Rightarrow> sig_registry \<times> unit io_result" where
  "init_registry env r =
     (case se_pipe env of
        Inl err \<Rightarrow> (r, Inl err)
      | Inr (read_fd, write_fd) \<Rightarrow>
          (case se_spawn env of
             Inl err \<Rightarrow> (r\<lparr>sr_write_fd := write_fd\<rparr>, Inl err)
           | Inr _ \<Rightarrow> (r\<lparr>sr_write_fd := write_fd, sr_signals := (\<lambda>_. None), sr_ready := True\<rparr>, Inr ())))"

definition registry :: "sig_env \<Rightarrow> sig_registry \<Rightarrow> sig_registry \<times> unit io_result" where
  "registry env r = (if sr_ready r then (r, Inr ()) else init_registry env r)"

definition register_entry :: "unit io_result \<Rightarrow> int \<Rightarrow> sig_registry \<Rightarrow> sig_registry \<times> nat io_result" where
  "register_entry rc kind r =
     (case sr_signals r kind of
        Some entry \<Rightarrow>
          (r\<lparr>sr_signals := (sr_signals r)(kind \<mapsto> entry\<lparr>rs_refs := rs_refs entry + 1\<rparr>)\<rparr>, Inr (rs_state entry))
      | None \<Rightarrow>
          (case install_handler rc kind r of
             (r, Inl err) \<Rightarrow> (r, Inl err)
           | (r, Inr prev) \<Rightarrow>
               (let k = sr_next r in
                (r\<lparr>sr_states := (sr_states r)(k := \<lparr>ss_counter = 0, ss_wakers = []\<rparr>), sr_next := k + 1,
                   sr_signals := (sr_signals r)(kind \<mapsto> \<lparr>rs_state = k, rs_refs = 1, rs_prev_action = prev\<rparr>)\<rparr>,
                 Inr k))))"

definition register_signal :: "sig_env \<Rightarrow> int \<Rightarrow> sig_registry \<Rightarrow> sig_registry \<times> nat io_result" where
  "register_signal env kind r =
     (case registry env r of
        (r, Inl err) \<Rightarrow> (r, Inl err)
      | (r, Inr _) \<Rightarrow> register_entry (se_sigaction env) kind r)"

text \<open>The critical section of \<open>unregister_signal\<close>: \<open>Some prev\<close> when the handler is to be restored.\<close>

definition unregister_entry :: "int \<Rightarrow> sig_registry \<Rightarrow> sig_registry \<times> sig_action option" where
  "unregister_entry kind r =
     (case sr_signals r kind of
        None \<Rightarrow> (r, None)
      | Some entry \<Rightarrow>
          if rs_refs entry > 1
          then (r\<lparr>sr_signals := (sr_signals r)(kind \<mapsto> entry\<lparr>rs_refs := rs_refs entry - 1\<rparr>)\<rparr>, None)
          else (r\<lparr>sr_signals := (sr_signals r)(kind := None)\<rparr>, Some (rs_prev_action entry)))"

definition unregister_signal :: "sig_env \<Rightarrow> int \<Rightarrow> sig_registry \<Rightarrow> sig_registry" where
  "unregister_signal env kind r =
     (case registry env r of
        (r, Inl _) \<Rightarrow> r
      | (r, Inr _) \<Rightarrow>
          (case unregister_entry kind r of
             (r, None) \<Rightarrow> r
           | (r, Some prev) \<Rightarrow> fst (restore_handler (se_sigaction env) kind prev r)))"

subsection \<open>Listeners\<close>

definition signal_new :: "sig_env \<Rightarrow> int \<Rightarrow> sig_registry \<Rightarrow> sig_registry \<times> signal io_result" where
  "signal_new env kind r =
     (case register_signal env kind r of
        (r, Inl err) \<Rightarrow> (r, Inl err)
      | (r, Inr k) \<Rightarrow> (r, Inr \<lparr>sg_kind = kind, sg_state = k, sg_last_seen = ss_counter (sr_states r k)\<rparr>))"

definition signal_drop :: "sig_env \<Rightarrow> signal \<Rightarrow> sig_registry \<Rightarrow> sig_registry" where
  "signal_drop env s r = unregister_signal env (sg_kind s) r"

definition register_waker :: "waker \<Rightarrow> signal_state \<Rightarrow> signal_state" where
  "register_waker w st =
     (if w \<in> set (ss_wakers st) then st else st\<lparr>ss_wakers := ss_wakers st @ [w]\<rparr>)"

text \<open>\<open>poll_recv\<close>: the load of the counter, and what follows it.\<close>

definition poll_recv_loaded ::
  "waker \<Rightarrow> u64 \<Rightarrow> u64 \<Rightarrow> signal_state \<Rightarrow> u64 \<times> signal_state \<times> unit io_result poll" where
  "poll_recv_loaded w current last_seen st =
     (if current \<noteq> last_seen then (current, st, Ready (Inr ())) else (last_seen, register_waker w st, Pending))"

definition poll_recv :: "waker \<Rightarrow> signal \<Rightarrow> sig_registry \<Rightarrow> signal \<times> sig_registry \<times> unit io_result poll" where
  "poll_recv w s r =
     (let st = sr_states r (sg_state s) in
      case poll_recv_loaded w (ss_counter st) (sg_last_seen s) st of
        (seen, st, p) \<Rightarrow> (s\<lparr>sg_last_seen := seen\<rparr>, r\<lparr>sr_states := (sr_states r)(sg_state s := st)\<rparr>, p))"

subsection \<open>Dispatch\<close>

definition dispatch_count :: "signal_state \<Rightarrow> signal_state" where
  "dispatch_count st = st\<lparr>ss_counter := ss_counter st + 1\<rparr>"

definition dispatch_take :: "signal_state \<Rightarrow> signal_state \<times> waker list" where
  "dispatch_take st = (st\<lparr>ss_wakers := []\<rparr>, ss_wakers st)"

definition dispatch_signal :: "int \<Rightarrow> sig_registry \<Rightarrow> sig_registry \<times> waker list" where
  "dispatch_signal signum r =
     (case sr_signals r signum of
        None \<Rightarrow> (r, [])
      | Some entry \<Rightarrow>
          (case dispatch_take (dispatch_count (sr_states r (rs_state entry))) of
             (st, ws) \<Rightarrow> (r\<lparr>sr_states := (sr_states r)(rs_state entry := st)\<rparr>, ws)))"

text \<open>\<open>to_ne_bytes\<close> and \<open>from_ne_bytes\<close> of an \<open>i32\<close>, little endian.\<close>

definition to_ne_bytes :: "i32 \<Rightarrow> u8 list" where
  "to_ne_bytes x = [ucast x, ucast (drop_bit 8 x), ucast (drop_bit 16 x), ucast (drop_bit 24 x)]"

fun from_ne_bytes :: "u8 list \<Rightarrow> i32" where
  "from_ne_bytes [a, b, c, d] =
     ucast a OR push_bit 8 (ucast b) OR push_bit 16 (ucast c) OR push_bit 24 (ucast d)"
| "from_ne_bytes _ = 0"

text \<open>What the handler writes to the pipe.\<close>

definition signal_handler :: "int \<Rightarrow> i32 \<Rightarrow> u8 list" where
  "signal_handler fd signum = (if fd < 0 then [] else to_ne_bytes signum)"

text \<open>One read of the dispatch loop: \<open>pending\<close> holds up to three bytes; the signals are dispatched in order.\<close>

fun dispatch_bytes :: "u8 list \<Rightarrow> u8 list \<Rightarrow> u8 list \<times> i32 list" where
  "dispatch_bytes pending [] = (pending, [])"
| "dispatch_bytes pending (b # bs) =
     (let pending = pending @ [b] in
      if length pending = 4
      then (case dispatch_bytes [] bs of (p, sigs) \<Rightarrow> (p, from_ne_bytes pending # sigs))
      else dispatch_bytes pending bs)"

text \<open>The loop over the reads; errors and empty reads change nothing.\<close>

fun dispatch_loop :: "u8 list \<Rightarrow> u8 list io_result list \<Rightarrow> u8 list \<times> i32 list" where
  "dispatch_loop pending [] = (pending, [])"
| "dispatch_loop pending (Inl err # rs) = dispatch_loop pending rs"
| "dispatch_loop pending (Inr bs # rs) =
     (case dispatch_bytes pending bs of (p, sigs) \<Rightarrow> (case dispatch_loop p rs of (p', sigs') \<Rightarrow> (p', sigs @ sigs')))"

subsection \<open>Bytes of signals\<close>

lemma ne_bytes_roundtrip: "from_ne_bytes (to_ne_bytes x) = x"
  unfolding to_ne_bytes_def from_ne_bytes.simps
  by (rule bit_word_eqI) (auto simp: bit_simps not_less less_diff_conv2 dest: bit_imp_le_length,
      metis le_add_diff_inverse not_less)

lemma dispatch_bytes_append:
  "dispatch_bytes p (xs @ ys) =
     (case dispatch_bytes p xs of (p', s) \<Rightarrow> (case dispatch_bytes p' ys of (p'', s') \<Rightarrow> (p'', s @ s')))"
  by (induction p xs rule: dispatch_bytes.induct) (auto simp: Let_def split: prod.splits)

lemma dispatch_bytes_signals:
  "dispatch_bytes [] (concat (map to_ne_bytes sigs)) = ([], sigs)"
proof (induction sigs)
  case (Cons x sigs)
  have "dispatch_bytes [] (to_ne_bytes x) = ([], [from_ne_bytes (to_ne_bytes x)])"
    by (simp add: to_ne_bytes_def)
  with Cons show ?case
    by (simp add: dispatch_bytes_append ne_bytes_roundtrip)
qed simp

definition received :: "u8 list io_result list \<Rightarrow> u8 list" where
  "received rs = concat (map (case_sum (\<lambda>_. []) id) rs)"

lemma dispatch_loop_bytes: "dispatch_loop p rs = dispatch_bytes p (received rs)"
  by (induction p rs rule: dispatch_loop.induct)
    (auto simp: received_def dispatch_bytes_append split: prod.splits)

subsection \<open>The registry over its users\<close>

text \<open>Sequences of registrations and drops, by one thread at a time.\<close>

datatype sig_call = NewSignal sig_env int | DropSignal sig_env int | Deliver int

fun sig_step :: "sig_call \<Rightarrow> sig_registry \<Rightarrow> sig_registry" where
  "sig_step (NewSignal env kind) r = fst (signal_new env kind r)"
| "sig_step (DropSignal env kind) r = unregister_signal env kind r"
| "sig_step (Deliver signum) r = fst (dispatch_signal signum r)"

fun restorable :: "sig_call \<Rightarrow> bool" where
  "restorable (DropSignal env kind) \<longleftrightarrow> (\<not> isl (se_sigaction env))"
| "restorable _ \<longleftrightarrow> True"

text \<open>
  \<open>orig\<close>: the actions before the library was used. A signal with an entry has the library's handler
  installed and its own action saved, every other signal its own action; before the registry is
  initialised there are no entries.
\<close>

definition sig_entry_ok :: "(int \<Rightarrow> sig_action) \<Rightarrow> sig_registry \<Rightarrow> int \<Rightarrow> bool" where
  "sig_entry_ok orig r k \<longleftrightarrow>
     (sr_signals r k = None \<longrightarrow> sr_action r k = orig k) \<and>
     (\<forall>e. sr_signals r k = Some e \<longrightarrow> sr_action r k = VibeHandler \<and> rs_prev_action e = orig k \<and> 0 < rs_refs e)"

definition sig_inv :: "(int \<Rightarrow> sig_action) \<Rightarrow> sig_registry \<Rightarrow> bool" where
  "sig_inv orig r \<longleftrightarrow> (\<forall>k. sig_entry_ok orig r k) \<and> (\<not> sr_ready r \<longrightarrow> sr_signals r = (\<lambda>_. None))"

lemma registry_inv: "sig_inv orig r \<Longrightarrow> registry env r = (r', res) \<Longrightarrow> sig_inv orig r'"
  by (auto simp: sig_inv_def sig_entry_ok_def registry_def init_registry_def
      split: option.splits sum.splits prod.splits if_splits)

lemma registry_ready: "registry env r = (r', Inr u) \<Longrightarrow> sr_ready r'"
  by (auto simp: registry_def init_registry_def split: sum.splits prod.splits if_splits)

lemma register_entry_inv:
  "sig_inv orig r \<Longrightarrow> sr_ready r \<Longrightarrow> sig_inv orig (fst (register_entry rc kind r))"
  by (auto simp: sig_inv_def sig_entry_ok_def register_entry_def install_handler_def Let_def
      split: option.splits sum.splits)

lemma unregister_entry_inv:
  "sig_inv orig r \<Longrightarrow> sr_ready r \<Longrightarrow> unregister_entry kind r = (r', p) \<Longrightarrow> rc = Inr () \<Longrightarrow>
   sig_inv orig (case p of None \<Rightarrow> r' | Some prev \<Rightarrow> fst (restore_handler rc kind prev r'))"
  by (auto simp: sig_inv_def sig_entry_ok_def unregister_entry_def restore_handler_def
      split: option.splits if_splits)

lemma dispatch_signal_inv: "sig_inv orig r \<Longrightarrow> sig_inv orig (fst (dispatch_signal n r))"
  by (auto simp: sig_inv_def sig_entry_ok_def dispatch_signal_def dispatch_take_def
      split: option.splits)

lemma signal_new_inv:
  assumes "sig_inv orig r"
  shows "sig_inv orig (fst (signal_new env kind r))"
proof (cases "registry env r")
  case (Pair r1 res)
  show ?thesis
    using Pair registry_inv [OF assms Pair] registry_ready [of env r r1]
      register_entry_inv [of orig r1 "se_sigaction env" kind]
    by (auto simp: signal_new_def register_signal_def split: prod.splits sum.splits)
qed

lemma unregister_signal_inv:
  assumes "sig_inv orig r" and "\<not> isl (se_sigaction env)"
  shows "sig_inv orig (unregister_signal env kind r)"
proof (cases "registry env r")
  case (Pair r1 res)
  have "se_sigaction env = Inr ()"
    using assms(2) by (cases "se_sigaction env") auto
  then show ?thesis
    using Pair registry_inv [OF assms(1) Pair] registry_ready [of env r r1]
      unregister_entry_inv [of orig r1 kind _ _ "se_sigaction env"]
    by (auto simp: unregister_signal_def split: sum.splits prod.splits option.splits)
qed

lemma sig_step_inv: "sig_inv orig r \<Longrightarrow> restorable c \<Longrightarrow> sig_inv orig (sig_step c r)"
  by (cases c) (simp_all add: signal_new_inv unregister_signal_inv dispatch_signal_inv)

lemma sig_run_inv:
  "sig_inv orig r \<Longrightarrow> \<forall>c\<in>set cs. restorable c \<Longrightarrow> sig_inv orig (fold sig_step cs r)"
  by (induction cs arbitrary: r) (simp_all add: sig_step_inv)

text \<open>
  Two threads: one drops the last listener of a signal, one registers a new one between the two
  critical sections of the drop. The new listener has an entry but not the handler, and its drop
  would install the library's handler for good.
\<close>

lemma unregister_race:
  assumes "sr_signals r kind = Some e" and "rs_refs e = 1" and "sr_action r kind = VibeHandler"
    and "rs_prev_action e = OsAction n" and "sr_ready r" and "se_sigaction env = Inr ()"
    and "unregister_entry kind r = (r1, Some prev)" and "signal_new env kind r1 = (r2, Inr s)"
    and "r3 = fst (restore_handler (Inr ()) kind prev r2)"
  shows "sr_action r3 kind = OsAction n \<and> (\<exists>e'. sr_signals r3 kind = Some e' \<and> rs_prev_action e' = VibeHandler)"
  using assms
  by (auto simp: unregister_entry_def signal_new_def register_signal_def register_entry_def registry_def
      install_handler_def restore_handler_def Let_def)

subsection \<open>A listener against the dispatch thread\<close>

datatype listener_pc = LPoll | LLoaded u64 | LPending | LReady

record sig_race =
  ra_state :: signal_state
  ra_last_seen :: u64
  ra_listener :: listener_pc
  ra_counted :: bool              \<comment> \<open>the dispatch thread is between its two accesses\<close>
  ra_woken :: bool                \<comment> \<open>a wake of the listener's task is on its way\<close>

inductive race_step :: "waker \<Rightarrow> sig_race \<Rightarrow> sig_race \<Rightarrow> bool" for w where
  load: "ra_listener s = LPoll \<Longrightarrow> race_step w s (s\<lparr>ra_listener := LLoaded (ss_counter (ra_state s))\<rparr>)"
| decide: "ra_listener s = LLoaded c \<Longrightarrow> poll_recv_loaded w c (ra_last_seen s) (ra_state s) = (seen, st, p) \<Longrightarrow>
    race_step w s (s\<lparr>ra_last_seen := seen, ra_state := st,
                     ra_listener := (case p of Pending \<Rightarrow> LPending | Ready _ \<Rightarrow> LReady)\<rparr>)"
| wake_up: "ra_listener s = LPending \<Longrightarrow> ra_woken s \<Longrightarrow>
    race_step w s (s\<lparr>ra_listener := LPoll, ra_woken := False\<rparr>)"
| count: "\<not> ra_counted s \<Longrightarrow> race_step w s (s\<lparr>ra_state := dispatch_count (ra_state s), ra_counted := True\<rparr>)"
| take: "ra_counted s \<Longrightarrow> dispatch_take (ra_state s) = (st, ws) \<Longrightarrow>
    race_step w s (s\<lparr>ra_state := st, ra_counted := False, ra_woken := ra_woken s \<or> w \<in> set ws\<rparr>)"

definition race_start :: sig_race where
  "race_start = \<lparr>ra_state = \<lparr>ss_counter = 0, ss_wakers = []\<rparr>, ra_last_seen = 0, ra_listener = LPoll,
     ra_counted = False, ra_woken = False\<rparr>"

subsection \<open>Properties\<close>

text \<open>
  A listener can miss a signal for good. \<open>poll_recv\<close> loads the counter and registers its waker
  afterwards; a dispatch between the two counts the signal, finds no waker and wakes nobody. A run
  leads to a state in which the signal was counted and not seen, the dispatch is over, no wake is on
  its way, and the listener is pending: nothing but a further signal makes it move.
\<close>
lemma signal_lost_wakeup:
  "\<exists>s. reachable race_start (race_step w) s \<and> ra_listener s = LPending \<and>
     ss_counter (ra_state s) \<noteq> ra_last_seen s \<and> \<not> ra_counted s \<and> \<not> ra_woken s \<and>
     {s'. race_step w s s'} = {s\<lparr>ra_state := dispatch_count (ra_state s), ra_counted := True\<rparr>}"
proof -
  define s1 where "s1 = race_start\<lparr>ra_listener := LLoaded 0\<rparr>"
  define s2 where "s2 = s1\<lparr>ra_state := \<lparr>ss_counter = 1, ss_wakers = []\<rparr>, ra_counted := True\<rparr>"
  define s3 where "s3 = s2\<lparr>ra_counted := False\<rparr>"
  define s4 where "s4 = s3\<lparr>ra_state := \<lparr>ss_counter = 1, ss_wakers = [w]\<rparr>, ra_listener := LPending\<rparr>"
  have 1: "race_step w race_start s1"
    using load [of race_start w] by (simp add: s1_def race_start_def)
  have 2: "race_step w s1 s2"
    using count [of s1 w] by (simp add: s2_def s1_def race_start_def dispatch_count_def)
  have 3: "race_step w s2 s3"
    using take [of s2 "\<lparr>ss_counter = 1, ss_wakers = []\<rparr>" "[]" w]
    by (simp add: s3_def s2_def s1_def race_start_def dispatch_take_def)
  have 4: "race_step w s3 s4"
    using decide [of s3 0 w 0 "\<lparr>ss_counter = 1, ss_wakers = [w]\<rparr>" Pending]
    by (simp add: s4_def s3_def s2_def s1_def race_start_def poll_recv_loaded_def register_waker_def)
  note run = reachable_step [where start = race_start and step = "race_step w"]
  have "reachable race_start (race_step w) s4"
    by (rule run [OF run [OF run [OF run [OF reachable_start 1] 2] 3] 4])
  moreover have "ra_listener s4 = LPending" "ss_counter (ra_state s4) \<noteq> ra_last_seen s4" "\<not> ra_counted s4" "\<not> ra_woken s4"
    by (simp_all add: s4_def s3_def s2_def s1_def race_start_def)
  moreover from this have "{s'. race_step w s4 s'} = {s4\<lparr>ra_state := dispatch_count (ra_state s4), ra_counted := True\<rparr>}"
    by (auto elim!: race_step.cases intro: count)
  ultimately show ?thesis
    by blast
qed

text \<open>
  C28: the pipe carries signals faithfully: however the reads of the dispatch thread cut the bytes the
  handlers wrote, and whatever failed reads come between, exactly the signals written are
  dispatched, in order, and no byte is left over.
\<close>
theorem dispatch_loop_signals:
  assumes "received rs = concat (map (signal_handler fd) sigs)" and "0 \<le> fd"
  shows "dispatch_loop [] rs = ([], sigs)"
proof -
  have "signal_handler fd = to_ne_bytes"
    using assms(2) by (simp add: signal_handler_def fun_eq_iff)
  with assms(1) show ?thesis
    by (simp add: dispatch_loop_bytes dispatch_bytes_signals)
qed

theorem dispatch_loop_signals_witness:
  "dispatch_loop [] [Inr [15, 0, 0], Inl (Os 4), Inr [0, 17, 0, 0, 0]] = ([], [15, 17])"
  by (rule dispatch_loop_signals [of _ 4]) (simp_all add: received_def signal_handler_def to_ne_bytes_def)

end
