(* ===== verification/Ctrl_C.thy ===== *)
theory Ctrl_C
  imports Signal
begin

text \<open>
  Ctrl-C on Windows, \<open>signal/windows.rs\<close>: a counter and wakers like those of a signal on Unix, in a static cell that the
  first listener fills. Listeners on both systems share one contract, the locale \<open>signal_listener\<close>: as long as a
  poll and a delivery do not overlap (\<open>Signal\<close> has the race), every delivery after a pending poll reaches
  the listener.
\<close>

subsection \<open>The console handler\<close>

definition CTRL_C_EVENT :: u32 where "CTRL_C_EVENT = 0"

text \<open>\<open>CTRL_C_STATE\<close> is \<open>None\<close> until it is initialised. \<open>rc\<close>: what \<open>SetConsoleCtrlHandler\<close> returned, \<open>errno\<close>: the last error.\<close>

definition ctrl_c_state :: "int \<Rightarrow> int \<Rightarrow> signal_state option \<Rightarrow> signal_state option \<times> signal_state io_result" where
  "ctrl_c_state rc errno cell =
     (case cell of
        Some st \<Rightarrow> (cell, Inr st)
      | None \<Rightarrow>
          let st = \<lparr>ss_counter = 0, ss_wakers = []\<rparr> in
          if rc = 0 then (None, Inl (Os errno)) else (Some st, Inr st))"

record ctrl_c =
  cc_last_seen :: u64

definition ctrl_c_new :: "int \<Rightarrow> int \<Rightarrow> signal_state option \<Rightarrow> signal_state option \<times> ctrl_c io_result" where
  "ctrl_c_new rc errno cell =
     (case ctrl_c_state rc errno cell of
        (cell, Inl err) \<Rightarrow> (cell, Inl err)
      | (cell, Inr st) \<Rightarrow> (cell, Inr \<lparr>cc_last_seen = ss_counter st\<rparr>))"

definition ctrl_c_register_waker :: "waker \<Rightarrow> signal_state \<Rightarrow> signal_state" where
  "ctrl_c_register_waker w st =
     (if w \<in> set (ss_wakers st) then st else st\<lparr>ss_wakers := ss_wakers st @ [w]\<rparr>)"

definition ctrl_c_poll_recv :: "waker \<Rightarrow> ctrl_c \<Rightarrow> signal_state \<Rightarrow> ctrl_c \<times> signal_state \<times> unit io_result poll" where
  "ctrl_c_poll_recv w c st =
     (if ss_counter st \<noteq> cc_last_seen c then (c\<lparr>cc_last_seen := ss_counter st\<rparr>, st, Ready (Inr ()))
      else (c, ctrl_c_register_waker w st, Pending))"

text \<open>The wakers it wakes, and its result: whether the event was handled.\<close>

definition ctrl_c_handler :: "u32 \<Rightarrow> signal_state option \<Rightarrow> signal_state option \<times> waker list \<times> int" where
  "ctrl_c_handler ctrl_type cell =
     (if ctrl_type = CTRL_C_EVENT
      then (case cell of
              None \<Rightarrow> (None, [], 1)
            | Some st \<Rightarrow> (Some (st\<lparr>ss_counter := ss_counter st + 1, ss_wakers := []\<rparr>), ss_wakers st, 1))
      else (cell, [], 0))"

text \<open>A listener keeps its own reference to the state, which the cell never gives up.\<close>

definition ctrl_c_poll :: "waker \<Rightarrow> ctrl_c \<Rightarrow> signal_state option \<Rightarrow> ctrl_c \<times> signal_state option \<times> unit io_result poll" where
  "ctrl_c_poll w c cell =
     (case cell of
        None \<Rightarrow> (c, None, Pending)
      | Some st \<Rightarrow> (case ctrl_c_poll_recv w c st of (c, st, p) \<Rightarrow> (c, Some st, p)))"

definition ctrl_c_deliver :: "signal_state option \<Rightarrow> signal_state option \<times> waker list" where
  "ctrl_c_deliver cell = (case ctrl_c_handler CTRL_C_EVENT cell of (cell, ws, rc) \<Rightarrow> (cell, ws))"

subsection \<open>The contract of a listener\<close>

text \<open>Deliveries, and polls of other listeners, in any order.\<close>

datatype 'l listener_event = Delivery | OtherPoll waker 'l

primrec listener_run ::
  "(waker \<Rightarrow> 'l \<Rightarrow> 's \<Rightarrow> 'l \<times> 's \<times> unit io_result poll) \<Rightarrow> ('s \<Rightarrow> 's \<times> waker list) \<Rightarrow> 'l listener_event list \<Rightarrow> 's \<Rightarrow> 's" where
  "listener_run poll deliver [] s = s"
| "listener_run poll deliver (e # es) s = listener_run poll deliver es
     (case e of Delivery \<Rightarrow> fst (deliver s) | OtherPoll w k \<Rightarrow> fst (snd (poll w k s)))"

definition deliveries :: "'l listener_event list \<Rightarrow> nat" where
  "deliveries es = length (filter (\<lambda>e. e = Delivery) es)"

definition events_of :: "('l \<Rightarrow> bool) \<Rightarrow> 'l listener_event list \<Rightarrow> bool" where
  "events_of listens es \<longleftrightarrow> list_all (\<lambda>e. case e of Delivery \<Rightarrow> True | OtherPoll w k \<Rightarrow> listens k) es"

text \<open>
  \<open>listens\<close>: the listener belongs to the state; \<open>unseen\<close>: the deliveries it has not reported, modulo \<open>2 ^ 64\<close>;
  \<open>registered\<close>: the waker is kept for the next delivery.
\<close>

locale signal_listener =
  fixes poll :: "waker \<Rightarrow> 'l \<Rightarrow> 's \<Rightarrow> 'l \<times> 's \<times> unit io_result poll"
    and deliver :: "'s \<Rightarrow> 's \<times> waker list"
    and listens :: "'l \<Rightarrow> 's \<Rightarrow> bool"
    and unseen :: "'l \<Rightarrow> 's \<Rightarrow> u64"
    and registered :: "waker \<Rightarrow> 's \<Rightarrow> bool"
  assumes poll_unseen: "listens l s \<Longrightarrow> unseen l s \<noteq> 0 \<Longrightarrow>
      \<exists>l' s'. poll w l s = (l', s', Ready (Inr ())) \<and> listens l' s' \<and> unseen l' s' = 0"
    and poll_seen: "listens l s \<Longrightarrow> unseen l s = 0 \<Longrightarrow>
      \<exists>l' s'. poll w l s = (l', s', Pending) \<and> listens l' s' \<and> unseen l' s' = 0 \<and> registered w s'"
    and poll_others: "listens k s \<Longrightarrow> listens l s \<Longrightarrow> poll w k s = (k', s', p) \<Longrightarrow>
      listens l s' \<and> unseen l s' = unseen l s \<and> (registered v s \<longrightarrow> registered v s')"
    and deliver_counts: "listens l s \<Longrightarrow> listens l (fst (deliver s)) \<and> unseen l (fst (deliver s)) = unseen l s + 1"
    and deliver_wakes: "listens l s \<Longrightarrow> registered w s \<Longrightarrow> w \<in> set (snd (deliver s))"
begin

lemma poll_pending_iff:
  assumes "listens l s"
  shows "snd (snd (poll w l s)) = Pending \<longleftrightarrow> unseen l s = 0"
  using poll_unseen [OF assms, of w] poll_seen [OF assms, of w] by (cases "unseen l s = 0") auto

lemma poll_again:
  assumes "listens l s" and "unseen l s \<noteq> 0"
  shows "\<exists>l1 s1 l2 s2. poll w l s = (l1, s1, Ready (Inr ())) \<and> poll w' l1 s1 = (l2, s2, Pending)"
  using poll_unseen [OF assms, of w] poll_seen [of _ _ w'] by metis

lemma other_keeps:
  assumes "listens l s" and "case e of Delivery \<Rightarrow> True | OtherPoll w k \<Rightarrow> listens k s"
  defines "s' \<equiv> (case e of Delivery \<Rightarrow> fst (deliver s) | OtherPoll w k \<Rightarrow> fst (snd (poll w k s)))"
  shows "listens l s' \<and> unseen l s' = unseen l s + (if e = Delivery then 1 else 0) \<and>
    (e \<noteq> Delivery \<longrightarrow> registered v s \<longrightarrow> registered v s')"
proof (cases e)
  case Delivery
  then show ?thesis
    using deliver_counts [OF assms(1)] by (simp add: s'_def)
next
  case (OtherPoll w k)
  obtain k' s2 p where "poll w k s = (k', s2, p)"
    by (metis prod_cases3)
  with OtherPoll show ?thesis
    using poll_others [of k s l w k' s2 p v] assms(1,2) by (simp add: s'_def)
qed

lemma run_counts:
  assumes "listens l s" and "events_of (\<lambda>k. listens k s) es"
  shows "listens l (listener_run poll deliver es s) \<and> unseen l (listener_run poll deliver es s) = unseen l s + of_nat (deliveries es) \<and>
    (deliveries es = 0 \<longrightarrow> registered v s \<longrightarrow> registered v (listener_run poll deliver es s))"
  using assms
proof (induction es arbitrary: s)
  case Nil
  then show ?case
    by (simp add: deliveries_def)
next
  case (Cons e es)
  define s' where "s' = (case e of Delivery \<Rightarrow> fst (deliver s) | OtherPoll w k \<Rightarrow> fst (snd (poll w k s)))"
  have ok: "case e of Delivery \<Rightarrow> True | OtherPoll w k \<Rightarrow> listens k s"
    using Cons.prems(2) by (simp add: events_of_def)
  have "events_of (\<lambda>k. listens k s') es"
    using Cons.prems(2) other_keeps [OF _ ok] unfolding events_of_def s'_def
    by (auto simp: list_all_iff split: listener_event.splits)
  with Cons.IH [of s'] Cons.prems(1) other_keeps [OF Cons.prems(1) ok, of v] show ?case
    by (auto simp: deliveries_def s'_def)
qed

lemma deliveries_reported:
  assumes "listens l s" and "poll w l s = (l1, s1, Pending)" and "events_of (\<lambda>k. listens k s) es" and "deliveries es < 2 ^ 64"
  defines "s2 \<equiv> listener_run poll deliver es s1"
  shows "(deliveries es = 0 \<longrightarrow> w \<in> set (snd (deliver s2)) \<and> snd (snd (poll w' l1 s2)) = Pending) \<and>
    (0 < deliveries es \<longrightarrow>
      (\<exists>l3 s3 l4 s4. poll w' l1 s2 = (l3, s3, Ready (Inr ())) \<and> poll w' l3 s3 = (l4, s4, Pending)))"
proof -
  have 1: "listens l1 s1" "unseen l1 s1 = 0" "registered w s1"
    using poll_seen [OF assms(1), of w] poll_pending_iff [OF assms(1), of w] assms(2) by auto
  have "events_of (\<lambda>k. listens k s1) es"
    using assms(3) poll_others [OF assms(1) _ assms(2)]
    by (auto simp: events_of_def list_all_iff split: listener_event.splits)
  note run = run_counts [OF 1(1) this, of w, folded s2_def]
  show ?thesis
  proof (intro conjI impI)
    assume "0 < deliveries es"
    then have "unseen l1 s2 \<noteq> 0"
      using run 1(2) assms(4) by (simp add: word_of_nat_eq_0_iff nat_dvd_not_less)
    then show "\<exists>l3 s3 l4 s4. poll w' l1 s2 = (l3, s3, Ready (Inr ())) \<and> poll w' l3 s3 = (l4, s4, Pending)"
      using poll_again run by blast
  qed (use run 1 poll_pending_iff [of l1 s2 w'] deliver_wakes [of l1 s2 w] in simp_all)
qed

end

subsection \<open>Both systems keep it\<close>

definition unix_listens :: "int \<Rightarrow> signal \<Rightarrow> sig_registry \<Rightarrow> bool" where
  "unix_listens n l r \<longleftrightarrow> (\<exists>entry. sr_signals r n = Some entry \<and> rs_state entry = sg_state l)"

definition unix_unseen :: "signal \<Rightarrow> sig_registry \<Rightarrow> u64" where
  "unix_unseen l r = ss_counter (sr_states r (sg_state l)) - sg_last_seen l"

definition unix_registered :: "int \<Rightarrow> waker \<Rightarrow> sig_registry \<Rightarrow> bool" where
  "unix_registered n w r \<longleftrightarrow> (\<exists>entry. sr_signals r n = Some entry \<and> w \<in> set (ss_wakers (sr_states r (rs_state entry))))"

lemmas unix_defs = unix_listens_def unix_unseen_def unix_registered_def poll_recv_def poll_recv_loaded_def register_waker_def
  dispatch_signal_def dispatch_take_def dispatch_count_def

interpretation unix_signal: signal_listener poll_recv "dispatch_signal n" "unix_listens n" unix_unseen "unix_registered n"
  for n
  by unfold_locales (auto simp: unix_defs Let_def split: if_splits)

interpretation ctrl_c_signal: signal_listener ctrl_c_poll ctrl_c_deliver "\<lambda>c cell. cell \<noteq> None"
  "\<lambda>c cell. ss_counter (the cell) - cc_last_seen c" "\<lambda>w cell. w \<in> set (ss_wakers (the cell))"
  by unfold_locales (auto simp: ctrl_c_poll_def ctrl_c_poll_recv_def ctrl_c_deliver_def ctrl_c_handler_def ctrl_c_register_waker_def
      split: if_splits option.splits)

text \<open>A new listener listens, and has nothing to report.\<close>

lemma signal_new_listens:
  assumes "signal_new env kind r = (r', Inr l)"
  shows "unix_listens kind l r' \<and> unix_unseen l r' = 0"
  using assms by (auto simp: signal_new_def register_signal_def register_entry_def install_handler_def unix_listens_def unix_unseen_def
      Let_def split: prod.splits sum.splits option.splits)

lemma ctrl_c_new_listens:
  assumes "ctrl_c_new rc errno cell = (cell', Inr c)"
  shows "cell' \<noteq> None \<and> ss_counter (the cell') - cc_last_seen c = 0"
  using assms by (auto simp: ctrl_c_new_def ctrl_c_state_def Let_def split: option.splits if_splits)

text \<open>On Windows: after a new listener's first poll.\<close>

lemma ctrl_c_reported:
  assumes "ctrl_c_new rc errno cell = (cell', Inr c)" and "deliveries es < 2 ^ 64"
    and "listener_run ctrl_c_poll ctrl_c_deliver es (fst (snd (ctrl_c_poll w c cell'))) = cell2"
  shows "(deliveries es = 0 \<longrightarrow> w \<in> set (snd (ctrl_c_deliver cell2))) \<and>
    (0 < deliveries es \<longrightarrow> (\<exists>c3 cell3 c4 cell4. ctrl_c_poll w' c cell2 = (c3, cell3, Ready (Inr ())) \<and>
      ctrl_c_poll w' c3 cell3 = (c4, cell4, Pending)))"
proof -
  note new = ctrl_c_new_listens [OF assms(1)]
  then have "ctrl_c_poll w c cell' = (c, fst (snd (ctrl_c_poll w c cell')), Pending)"
    by (auto simp: ctrl_c_poll_def ctrl_c_poll_recv_def)
  moreover have "events_of (\<lambda>k. cell' \<noteq> None) es"
    using new by (simp add: events_of_def list_all_iff split: listener_event.split)
  ultimately show ?thesis
    using ctrl_c_signal.deliveries_reported [of cell' w c c _ es w'] new assms(2,3) by auto
qed

subsection \<open>Properties\<close>

text \<open>
  C12: a signal reaches its listeners. After a pending poll of a listener on Unix, while deliveries of the signal and
  polls of its other listeners follow in any order, the first delivery wakes the waker of that poll; before
  it the listener stays pending, and after any number of deliveries below \<open>2 ^ 64\<close> its next poll is ready,
  once for all of them, and pending again.
\<close>
theorem signal_reaches_listener:
  assumes "unix_listens n l r" and "poll_recv w l r = (l1, r1, Pending)"
    and "events_of (\<lambda>k. unix_listens n k r) es" and "deliveries es < 2 ^ 64"
    and "listener_run poll_recv (dispatch_signal n) es r1 = r2"
  shows "(deliveries es = 0 \<longrightarrow> w \<in> set (snd (dispatch_signal n r2)) \<and> snd (snd (poll_recv w' l1 r2)) = Pending) \<and>
    (0 < deliveries es \<longrightarrow>
      (\<exists>l3 r3 l4 r4. poll_recv w' l1 r2 = (l3, r3, Ready (Inr ())) \<and> poll_recv w' l3 r3 = (l4, r4, Pending)))"
  using unix_signal.deliveries_reported [OF assms(1-4), of w'] assms(5) by simp

definition ex_listener :: signal where
  "ex_listener = \<lparr>sg_kind = 2, sg_state = 0, sg_last_seen = 0\<rparr>"

definition ex_registry :: sig_registry where
  "ex_registry = \<lparr>sr_signals = [2 \<mapsto> \<lparr>rs_state = 0, rs_refs = 2, rs_prev_action = OsAction 0\<rparr>],
     sr_states = (\<lambda>_. \<lparr>ss_counter = 0, ss_wakers = []\<rparr>), sr_next = 1, sr_action = (\<lambda>_. VibeHandler), sr_ready = True, sr_write_fd = 4\<rparr>"

theorem signal_reaches_listener_witness:
  "\<exists>r1. poll_recv 7 ex_listener ex_registry = (ex_listener, r1, Pending) \<and>
     (\<exists>l3 r3. poll_recv 8 ex_listener (listener_run poll_recv (dispatch_signal 2)
        [OtherPoll 9 ex_listener, Delivery, Delivery] r1) = (l3, r3, Ready (Inr ())))"
proof -
  define r1 where "r1 = fst (snd (poll_recv 7 ex_listener ex_registry))"
  have "unix_listens 2 ex_listener ex_registry" "poll_recv 7 ex_listener ex_registry = (ex_listener, r1, Pending)"
    by (simp_all add: r1_def unix_listens_def poll_recv_def poll_recv_loaded_def Let_def ex_listener_def ex_registry_def)
  moreover have "events_of (\<lambda>k. unix_listens 2 k ex_registry) [OtherPoll 9 ex_listener, Delivery, Delivery]"
    using calculation(1) by (simp add: events_of_def)
  moreover have "deliveries [OtherPoll 9 ex_listener, Delivery, Delivery] = 2"
    by (simp add: deliveries_def)
  ultimately show ?thesis
    using signal_reaches_listener [of 2 ex_listener ex_registry 7 ex_listener r1 "[OtherPoll 9 ex_listener, Delivery, Delivery]" _ 8, OF _ _ _ _ refl]
    by auto
qed

end
