(* ===== verification/Fs_File.thy ===== *)
theory Fs_File
  imports Ops_Buffer Ops_Path Io_Util
begin

text \<open>
  Files, \<open>fs/file.rs\<close>. A file is used through the completion driver, through the pool of blocking
  threads, or with blocking calls. The calls are awaited to their end: an operation on the
  completion path has the entry of \<open>Ops_Buffer\<close> or \<open>Ops_Path\<close> executed by the kernel and the result
  processed the way its \<open>poll_completion\<close> does (the polls in between are the subject of those theories).

  The operating system is a parameter, a record of its calls on a state \<open>'o\<close>: the memory the buffers
  point into is part of that state, since the kernel writes there. \<open>honest_fs\<close> collects what it
  documents: reads and writes may be short, but transfer something where there is something to
  transfer. Offsets are 64-bit words.
\<close>

subsection \<open>Memory\<close>

type_synonym memory = "mem \<Rightarrow> nat \<Rightarrow> u8"

definition mem_write :: "ptr \<Rightarrow> bytes \<Rightarrow> memory \<Rightarrow> memory" where
  "mem_write p bs M =
     M(fst p := (\<lambda>i. if snd p \<le> i \<and> i < snd p + length bs then bs ! (i - snd p) else M (fst p) i))"

definition mem_read :: "ptr \<Rightarrow> nat \<Rightarrow> memory \<Rightarrow> bytes" where
  "mem_read p n M = map (M (fst p)) [snd p ..< snd p + n]"

subsection \<open>State\<close>

record 'o fs_sys =
  fs_kernel :: "op_entry \<Rightarrow> 'o \<Rightarrow> 'o \<times> int"
  fs_pread :: "int \<Rightarrow> ptr \<Rightarrow> nat \<Rightarrow> u64 \<Rightarrow> 'o \<Rightarrow> 'o \<times> nat io_result"
  fs_pwrite :: "int \<Rightarrow> ptr \<Rightarrow> nat \<Rightarrow> u64 \<Rightarrow> 'o \<Rightarrow> 'o \<times> nat io_result"
  fs_sync :: "int \<Rightarrow> bool \<Rightarrow> 'o \<Rightarrow> 'o \<times> unit io_result"
  fs_dup :: "int \<Rightarrow> 'o \<Rightarrow> 'o \<times> int io_result"
  fs_close :: "int \<Rightarrow> 'o \<Rightarrow> 'o"
  fs_pool :: "'o \<Rightarrow> bool"          \<comment> \<open>the pool runs the closure it is given\<close>

datatype file_io = CompletionIo raw_handle | BlockingIo

record vibe_file =
  fl_inner :: int
  fl_io :: file_io
  fl_cursor :: u64

subsection \<open>Construction and destruction\<close>

definition from_std_with_cursor ::
  "('r, 's, 'c, 'm, 't) op_env \<Rightarrow> int \<Rightarrow> u64 \<Rightarrow> ('r, 's, 'c, 'm, 't) any_driver option \<Rightarrow>
   ('r, 's, 'c, 'm, 't) any_driver option \<times> vibe_file" where
  "from_std_with_cursor Z inner cursor current =
     (case current of
        None \<Rightarrow> (None, \<lparr>fl_inner = inner, fl_io = BlockingIo, fl_cursor = cursor\<rparr>)
      | Some d \<Rightarrow>
          if any_supports_completion d
          then (case new_with_driver_and_mode Z d inner READ_WRITE CompletionMode of
                  (d, Inr h) \<Rightarrow> (Some d, \<lparr>fl_inner = inner, fl_io = CompletionIo h, fl_cursor = cursor\<rparr>)
                | (d, Inl _) \<Rightarrow> (Some d, \<lparr>fl_inner = inner, fl_io = BlockingIo, fl_cursor = cursor\<rparr>))
          else (Some d, \<lparr>fl_inner = inner, fl_io = BlockingIo, fl_cursor = cursor\<rparr>))"

definition from_std ::
  "('r, 's, 'c, 'm, 't) op_env \<Rightarrow> int \<Rightarrow> ('r, 's, 'c, 'm, 't) any_driver option \<Rightarrow>
   ('r, 's, 'c, 'm, 't) any_driver option \<times> vibe_file" where
  "from_std Z inner current = from_std_with_cursor Z inner 0 current"

text \<open>Only a file with a handle has a driver to tell; \<open>d\<close> is the driver of that handle.\<close>

definition release_io ::
  "('r, 's, 'c, 'm, 't) op_env \<Rightarrow> vibe_file \<Rightarrow> ('r, 's, 'c, 'm, 't) any_driver \<Rightarrow> ('r, 's, 'c, 'm, 't) any_driver" where
  "release_io Z f d = (case fl_io f of CompletionIo h \<Rightarrow> handle_drop Z h d | BlockingIo \<Rightarrow> d)"

definition into_std ::
  "('r, 's, 'c, 'm, 't) op_env \<Rightarrow> vibe_file \<Rightarrow> ('r, 's, 'c, 'm, 't) any_driver \<Rightarrow> ('r, 's, 'c, 'm, 't) any_driver \<times> int" where
  "into_std Z f d = (release_io Z f d, fl_inner f)"

definition file_drop ::
  "('r, 's, 'c, 'm, 't) op_env \<Rightarrow> ('o, 'x) fs_sys_scheme \<Rightarrow> vibe_file \<Rightarrow> ('r, 's, 'c, 'm, 't) any_driver \<Rightarrow> 'o \<Rightarrow>
   ('r, 's, 'c, 'm, 't) any_driver \<times> 'o" where
  "file_drop Z os f d s = (release_io Z f d, fs_close os (fl_inner f) s)"

subsection \<open>Awaited operations\<close>

definition await_entry :: "('o, 'x) fs_sys_scheme \<Rightarrow> op_entry io_result \<Rightarrow> 'o \<Rightarrow> 'o \<times> int io_result" where
  "await_entry os build s =
     (case build of
        Inl err \<Rightarrow> (s, Inl err)
      | Inr e \<Rightarrow> (case fs_kernel os e s of (s, result) \<Rightarrow> (s, Inr result)))"

definition await_count :: "int io_result \<Rightarrow> nat io_result" where
  "await_count res =
     (case res of
        Inl err \<Rightarrow> Inl err
      | Inr result \<Rightarrow> if result < 0 then Inl (Os (- result)) else Inr (nat result))"

definition blocking_pool_io_error :: io_error where
  "blocking_pool_io_error = Custom Other"

definition in_blocking_pool ::
  "('o, 'x) fs_sys_scheme \<Rightarrow> int \<Rightarrow> (int \<Rightarrow> 'o \<Rightarrow> 'o \<times> 'a io_result) \<Rightarrow> 'o \<Rightarrow> 'o \<times> 'a io_result" where
  "in_blocking_pool os fd call s =
     (case fs_dup os fd s of
        (s, Inl err) \<Rightarrow> (s, Inl err)
      | (s, Inr fd') \<Rightarrow>
          if fs_pool os s
          then (case call fd' s of (s, res) \<Rightarrow> (fs_close os fd' s, res))
          else (fs_close os fd' s, Inl blocking_pool_io_error))"

subsection \<open>Reading\<close>

definition read_at_blocking :: "('o, 'x) fs_sys_scheme \<Rightarrow> io_buf \<Rightarrow> u64 \<Rightarrow> int \<Rightarrow> 'o \<Rightarrow> 'o \<times> nat io_result" where
  "read_at_blocking os buf offset fd s = fs_pread os fd (as_buf_ptr buf) (buf_len buf) offset s"

definition read_at_in_blocking_pool ::
  "('o, 'x) fs_sys_scheme \<Rightarrow> int \<Rightarrow> io_buf \<Rightarrow> u64 \<Rightarrow> 'o \<Rightarrow> 'o \<times> nat io_result \<times> io_buf" where
  "read_at_in_blocking_pool os fd buf offset s =
     (case in_blocking_pool os fd (read_at_blocking os buf offset) s of (s, res) \<Rightarrow> (s, res, buf))"

text \<open>\<open>offload\<close>: \<open>offload_fs()\<close> with a current driver.\<close>

definition read_at ::
  "('o, 'x) fs_sys_scheme \<Rightarrow> bool \<Rightarrow> vibe_file \<Rightarrow> io_buf \<Rightarrow> u64 \<Rightarrow> 'o \<Rightarrow> 'o \<times> nat io_result \<times> io_buf" where
  "read_at os offload f buf offset s =
     (if buf_len buf = 0 then (s, Inr 0, buf)
      else case fl_io f of
             CompletionIo h \<Rightarrow>
               (let op = readat_new True h buf offset in
                case await_entry os (readat_entry op) s of
                  (s, res) \<Rightarrow> (s, await_count res, take_bufs (fill_ready (Ready (await_count res)) op)))
           | BlockingIo \<Rightarrow>
               if offload then read_at_in_blocking_pool os (fl_inner f) buf offset s
               else (case read_at_blocking os buf offset (fl_inner f) s of (s, res) \<Rightarrow> (s, res, buf)))"

definition saturating_add :: "u64 \<Rightarrow> nat \<Rightarrow> u64" where
  "saturating_add a n = (if unat a + n < 2 ^ 64 then a + of_nat n else - 1)"

partial_function (option) read_exact_loop ::
  "('o, 'x) fs_sys_scheme \<Rightarrow> bool \<Rightarrow> vibe_file \<Rightarrow> io_buf \<Rightarrow> u64 \<Rightarrow> 'o \<Rightarrow> ('o \<times> unit io_result \<times> io_buf) option" where
  "read_exact_loop os offload f buf offset s =
     (if 0 < buf_len buf
      then (case read_at os offload f buf offset s of
              (s, Inl err, buf) \<Rightarrow> Some (s, Inl err, cursor_into_inner buf)
            | (s, Inr n, buf) \<Rightarrow>
                if n = 0 then Some (s, Inl (Custom UnexpectedEof), cursor_into_inner buf)
                else read_exact_loop os offload f (cursor_advance n buf) (saturating_add offset n) s)
      else Some (s, Inr (), cursor_into_inner buf))"

definition read_exact_at ::
  "('o, 'x) fs_sys_scheme \<Rightarrow> bool \<Rightarrow> vibe_file \<Rightarrow> io_buf \<Rightarrow> u64 \<Rightarrow> 'o \<Rightarrow> ('o \<times> unit io_result \<times> io_buf) option" where
  "read_exact_at os offload f buf offset s = read_exact_loop os offload f (cursor_new buf) offset s"

definition file_read ::
  "('o, 'x) fs_sys_scheme \<Rightarrow> bool \<Rightarrow> io_buf \<Rightarrow> vibe_file \<Rightarrow> 'o \<Rightarrow> vibe_file \<times> 'o \<times> nat io_result \<times> io_buf" where
  "file_read os offload buf f s =
     (case read_at os offload f buf (fl_cursor f) s of
        (s, Inr n, buf) \<Rightarrow> (f\<lparr>fl_cursor := saturating_add (fl_cursor f) n\<rparr>, s, Inr n, buf)
      | (s, Inl err, buf) \<Rightarrow> (f, s, Inl err, buf))"

subsection \<open>Writing\<close>

definition write_at_blocking :: "('o, 'x) fs_sys_scheme \<Rightarrow> io_buf \<Rightarrow> u64 \<Rightarrow> int \<Rightarrow> 'o \<Rightarrow> 'o \<times> nat io_result" where
  "write_at_blocking os buf offset fd s = fs_pwrite os fd (as_buf_ptr buf) (buf_len buf) offset s"

definition write_at_in_blocking_pool ::
  "('o, 'x) fs_sys_scheme \<Rightarrow> int \<Rightarrow> io_buf \<Rightarrow> u64 \<Rightarrow> 'o \<Rightarrow> 'o \<times> nat io_result \<times> io_buf" where
  "write_at_in_blocking_pool os fd buf offset s =
     (case in_blocking_pool os fd (write_at_blocking os buf offset) s of (s, res) \<Rightarrow> (s, res, buf))"

definition write_at ::
  "('o, 'x) fs_sys_scheme \<Rightarrow> bool \<Rightarrow> vibe_file \<Rightarrow> io_buf \<Rightarrow> u64 \<Rightarrow> 'o \<Rightarrow> 'o \<times> nat io_result \<times> io_buf" where
  "write_at os offload f buf offset s =
     (if buf_len buf = 0 then (s, Inr 0, buf)
      else case fl_io f of
             CompletionIo h \<Rightarrow>
               (let op = writeat_new True h buf offset in
                case await_entry os (writeat_entry op) s of (s, res) \<Rightarrow> (s, await_count res, take_bufs op))
           | BlockingIo \<Rightarrow>
               if offload then write_at_in_blocking_pool os (fl_inner f) buf offset s
               else (case write_at_blocking os buf offset (fl_inner f) s of (s, res) \<Rightarrow> (s, res, buf)))"

partial_function (option) write_exact_loop ::
  "('o, 'x) fs_sys_scheme \<Rightarrow> bool \<Rightarrow> vibe_file \<Rightarrow> io_buf \<Rightarrow> u64 \<Rightarrow> 'o \<Rightarrow> ('o \<times> unit io_result \<times> io_buf) option" where
  "write_exact_loop os offload f buf offset s =
     (if 0 < buf_len buf
      then (case write_at os offload f buf offset s of
              (s, Inl err, buf) \<Rightarrow> Some (s, Inl err, cursor_into_inner buf)
            | (s, Inr n, buf) \<Rightarrow>
                if n = 0 then Some (s, Inl (Custom UnexpectedEof), cursor_into_inner buf)
                else write_exact_loop os offload f (cursor_advance n buf) (saturating_add offset n) s)
      else Some (s, Inr (), cursor_into_inner buf))"

definition write_exact_at ::
  "('o, 'x) fs_sys_scheme \<Rightarrow> bool \<Rightarrow> vibe_file \<Rightarrow> io_buf \<Rightarrow> u64 \<Rightarrow> 'o \<Rightarrow> ('o \<times> unit io_result \<times> io_buf) option" where
  "write_exact_at os offload f buf offset s = write_exact_loop os offload f (cursor_new buf) offset s"

definition file_write ::
  "('o, 'x) fs_sys_scheme \<Rightarrow> bool \<Rightarrow> io_buf \<Rightarrow> vibe_file \<Rightarrow> 'o \<Rightarrow> vibe_file \<times> 'o \<times> nat io_result \<times> io_buf" where
  "file_write os offload buf f s =
     (case write_at os offload f buf (fl_cursor f) s of
        (s, Inr n, buf) \<Rightarrow> (f\<lparr>fl_cursor := saturating_add (fl_cursor f) n\<rparr>, s, Inr n, buf)
      | (s, Inl err, buf) \<Rightarrow> (f, s, Inl err, buf))"

definition file_flush :: "vibe_file \<Rightarrow> vibe_file \<times> unit io_result" where
  "file_flush f = (f, Inr ())"

subsection \<open>Synchronisation\<close>

definition file_sync :: "('o, 'x) fs_sys_scheme \<Rightarrow> bool \<Rightarrow> bool \<Rightarrow> vibe_file \<Rightarrow> 'o \<Rightarrow> 'o \<times> unit io_result" where
  "file_sync os offload data_only f s =
     (case fl_io f of
        CompletionIo h \<Rightarrow>
          (case await_entry os (fsync_entry (fsync_new h data_only)) s of
             (s, res) \<Rightarrow> (s, map_sum id (\<lambda>_. ()) (await_count res)))
      | BlockingIo \<Rightarrow>
          if offload then in_blocking_pool os (fl_inner f) (\<lambda>fd. fs_sync os fd data_only) s
          else fs_sync os (fl_inner f) data_only s)"

definition sync_all :: "('o, 'x) fs_sys_scheme \<Rightarrow> bool \<Rightarrow> vibe_file \<Rightarrow> 'o \<Rightarrow> 'o \<times> unit io_result" where
  "sync_all os offload f s = file_sync os offload False f s"

definition sync_data :: "('o, 'x) fs_sys_scheme \<Rightarrow> bool \<Rightarrow> vibe_file \<Rightarrow> 'o \<Rightarrow> 'o \<times> unit io_result" where
  "sync_data os offload f s = file_sync os offload True f s"

subsection \<open>The operating system's promises\<close>

definition overwrite :: "nat \<Rightarrow> bytes \<Rightarrow> bytes \<Rightarrow> bytes" where
  "overwrite off bs d =
     (if bs = [] then d else take off (d @ replicate (off - length d) 0) @ bs @ drop (off + length bs) d)"

text \<open>
  One file, seen through the descriptors \<open>fds\<close>: its contents are \<open>data\<close>. A read transfers a prefix of
  what there is at the offset, a write a prefix of what it is given; neither is empty without need.
  The kernel executes an entry as it executes the call. A duplicate denotes the same file.
\<close>

definition honest_pread :: "('o, 'x) fs_sys_scheme \<Rightarrow> ('o \<Rightarrow> bytes) \<Rightarrow> ('o \<Rightarrow> memory) \<Rightarrow> ('o \<Rightarrow> int set) \<Rightarrow> bool" where
  "honest_pread os data memory fds \<longleftrightarrow>
     (\<forall>fd p len off s. fd \<in> fds s \<longrightarrow>
        (\<exists>n s'. fs_pread os fd p len off s = (s', Inr n) \<and> n \<le> len \<and> n \<le> length (data s) - unat off \<and>
           (0 < len \<and> unat off < length (data s) \<longrightarrow> 0 < n) \<and>
           memory s' = mem_write p (take n (drop (unat off) (data s))) (memory s) \<and>
           data s' = data s \<and> fds s' = fds s))"

definition honest_pwrite :: "('o, 'x) fs_sys_scheme \<Rightarrow> ('o \<Rightarrow> bytes) \<Rightarrow> ('o \<Rightarrow> memory) \<Rightarrow> ('o \<Rightarrow> int set) \<Rightarrow> bool" where
  "honest_pwrite os data memory fds \<longleftrightarrow>
     (\<forall>fd p len off s. fd \<in> fds s \<longrightarrow>
        (\<exists>n s'. fs_pwrite os fd p len off s = (s', Inr n) \<and> n \<le> len \<and> (0 < len \<longrightarrow> 0 < n) \<and>
           data s' = overwrite (unat off) (mem_read p n (memory s)) (data s) \<and>
           memory s' = memory s \<and> fds s' = fds s))"

definition honest_kernel :: "('o, 'x) fs_sys_scheme \<Rightarrow> bool" where
  "honest_kernel os \<longleftrightarrow>
     (\<forall>fd p len off s s' n. fs_pread os fd p (unat len) off s = (s', Inr n) \<longrightarrow>
        fs_kernel os (ERead fd p len (Some off)) s = (s', int n)) \<and>
     (\<forall>fd p len off s s' n. fs_pwrite os fd p (unat len) off s = (s', Inr n) \<longrightarrow>
        fs_kernel os (EWrite fd p len (Some off)) s = (s', int n))"

definition honest_pool :: "('o, 'x) fs_sys_scheme \<Rightarrow> ('o \<Rightarrow> bytes) \<Rightarrow> ('o \<Rightarrow> memory) \<Rightarrow> ('o \<Rightarrow> int set) \<Rightarrow> bool" where
  "honest_pool os data memory fds \<longleftrightarrow>
     (\<forall>s. fs_pool os s) \<and>
     (\<forall>fd s. fd \<in> fds s \<longrightarrow>
        (\<exists>fd' s'. fs_dup os fd s = (s', Inr fd') \<and> fd' \<notin> fds s \<and> fds s' = insert fd' (fds s) \<and>
           data s' = data s \<and> memory s' = memory s)) \<and>
     (\<forall>fd s. fds (fs_close os fd s) = fds s - {fd} \<and> data (fs_close os fd s) = data s \<and>
        memory (fs_close os fd s) = memory s)"

definition honest_fs :: "('o, 'x) fs_sys_scheme \<Rightarrow> ('o \<Rightarrow> bytes) \<Rightarrow> ('o \<Rightarrow> memory) \<Rightarrow> ('o \<Rightarrow> int set) \<Rightarrow> bool" where
  "honest_fs os data memory fds \<longleftrightarrow>
     honest_pread os data memory fds \<and> honest_pwrite os data memory fds \<and> honest_kernel os \<and>
     honest_pool os data memory fds"

text \<open>A file whose handle is for its own descriptor; \<open>from_std_with_cursor\<close> makes no other.\<close>

definition file_wf :: "vibe_file \<Rightarrow> bool" where
  "file_wf f \<longleftrightarrow> (case fl_io f of CompletionIo h \<Rightarrow> h_handle h = fl_inner f \<and> h_mode h = CompletionMode | BlockingIo \<Rightarrow> True)"

lemma from_std_wf:
  "from_std_with_cursor Z inner cursor current = (current', f) \<Longrightarrow>
   file_wf f \<and> fl_inner f = inner \<and> fl_cursor f = cursor"
  by (auto simp: from_std_with_cursor_def file_wf_def new_with_driver_and_mode_def effective_mode_def Let_def
      split: option.splits if_splits prod.splits sum.splits)

text \<open>Buffers whose length a read does not change, on the path the file uses.\<close>

fun fixed_len :: "io_buf \<Rightarrow> bool" where
  "fixed_len (Array m n) = True"
| "fixed_len (BoxSlice m l) = True"
| "fixed_len (TemporaryPoll p l) = True"
| "fixed_len (WithCursor b cur) = fixed_len b"
| "fixed_len _ = False"

definition read_keeps_len :: "vibe_file \<Rightarrow> io_buf \<Rightarrow> bool" where
  "read_keeps_len f buf \<longleftrightarrow> buf_len buf < 2 ^ 32 \<and> (fl_io f = BlockingIo \<or> fixed_len buf)"

lemma fixed_len_facts:
  "fixed_len b \<Longrightarrow> set_buf_init n b = b" "fixed_len b \<Longrightarrow> buf_capacity b = buf_len b"
  by (induction n b rule: set_buf_init.induct) auto

subsection \<open>Memory and contents\<close>

lemma length_mem_read [simp]: "length (mem_read p n M) = n"
  by (simp add: mem_read_def)

lemma mem_read_0 [simp]: "mem_read p 0 M = []"
  by (simp add: mem_read_def)

lemma mem_read_add: "mem_read (m, o') (a + b) M = mem_read (m, o') a M @ mem_read (m, o' + a) b M"
  unfolding mem_read_def fst_conv snd_conv by (metis add.assoc map_append upt_add_eq_append le_add1)

lemma mem_read_write: "mem_read p (length bs) (mem_write p bs M) = bs"
  by (rule nth_equalityI) (simp_all add: mem_read_def mem_write_def)

lemma mem_read_write_later: "mem_read (m, o') a (mem_write (m, o' + a) bs M) = mem_read (m, o') a M"
  by (simp add: mem_read_def mem_write_def)

lemma overwrite_append: "overwrite (off + length xs) ys (overwrite off xs d) = overwrite off (xs @ ys) d"
proof (cases "xs = [] \<or> ys = []")
  case False
  then have "off + length xs - length d \<le> off - length d \<Longrightarrow> off + length xs - length d = off - length d"
    by (cases "length d \<le> off") auto
  with False show ?thesis
    by (simp add: overwrite_def min_def ac_simps)
qed (auto simp: overwrite_def)

lemma take_drop_overwrite: "take (length bs) (drop off (overwrite off bs d)) = bs"
  by (simp add: overwrite_def)

lemma length_overwrite: "bs \<noteq> [] \<Longrightarrow> off + length bs \<le> length (overwrite off bs d)"
  by (simp add: overwrite_def)

subsection \<open>One read, one write\<close>

definition transferred ::
  "nat \<Rightarrow> nat \<Rightarrow> nat \<Rightarrow> ptr \<Rightarrow> bytes \<Rightarrow> memory \<Rightarrow> bytes \<Rightarrow> memory \<Rightarrow> bool" where
  "transferred n len off p d M d' M' \<longleftrightarrow>
     n \<le> len \<and> n \<le> length d - off \<and> (0 < len \<and> off < length d \<longrightarrow> 0 < n) \<and>
     M' = mem_write p (take n (drop off d)) M \<and> d' = d"

definition stored :: "nat \<Rightarrow> nat \<Rightarrow> nat \<Rightarrow> ptr \<Rightarrow> bytes \<Rightarrow> memory \<Rightarrow> bytes \<Rightarrow> memory \<Rightarrow> bool" where
  "stored n len off p d M d' M' \<longleftrightarrow>
     n \<le> len \<and> (0 < len \<longrightarrow> 0 < n) \<and> d' = overwrite off (mem_read p n M) d \<and> M' = M"

lemma honest_preadE:
  assumes "honest_fs os data memory fds" "fd \<in> fds s"
  obtains n s' where "fs_pread os fd p len off s = (s', Inr n)" "fds s' = fds s"
    "transferred n len (unat off) p (data s) (memory s) (data s') (memory s')"
  using assms unfolding honest_fs_def honest_pread_def transferred_def by metis

lemma honest_pwriteE:
  assumes "honest_fs os data memory fds" "fd \<in> fds s"
  obtains n s' where "fs_pwrite os fd p len off s = (s', Inr n)" "fds s' = fds s"
    "stored n len (unat off) p (data s) (memory s) (data s') (memory s')"
  using assms unfolding honest_fs_def honest_pwrite_def stored_def by metis

lemma pool_call:
  assumes honest: "honest_fs os data memory fds" and fd: "fd \<in> fds s"
    and call: "\<And>fd' s1. fd' \<in> fds s1 \<Longrightarrow> data s1 = data s \<Longrightarrow> memory s1 = memory s \<Longrightarrow>
      \<exists>n s2. call fd' s1 = (s2, Inr n) \<and> fds s2 = fds s1 \<and> Q n (data s2) (memory s2)"
  shows "\<exists>n s'. in_blocking_pool os fd call s = (s', Inr n) \<and> fds s' = fds s \<and> Q n (data s') (memory s')"
proof -
  have pool: "honest_pool os data memory fds"
    using honest by (simp add: honest_fs_def)
  then obtain fd' s1 where s1: "fs_dup os fd s = (s1, Inr fd')" "fd' \<notin> fds s" "fds s1 = insert fd' (fds s)"
    "data s1 = data s" "memory s1 = memory s"
    using fd unfolding honest_pool_def by metis
  obtain n s2 where s2: "call fd' s1 = (s2, Inr n)" "fds s2 = fds s1" "Q n (data s2) (memory s2)"
    using call [of fd' s1] s1 by auto
  show ?thesis
    using pool s1 s2 by (simp add: in_blocking_pool_def honest_pool_def)
qed

lemma readat_entry_new:
  "buf_capacity buf < 2 ^ 32 \<Longrightarrow>
   readat_entry (readat_new b h buf off) = Inr (ERead (h_handle h) (as_buf_ptr buf) (of_nat (buf_capacity buf)) (Some off))"
  by (simp add: readat_entry_def readat_new_def u32_try_from_def Let_def)

lemma writeat_entry_new:
  "buf_len buf < 2 ^ 32 \<Longrightarrow>
   writeat_entry (writeat_new b h buf off) = Inr (EWrite (h_handle h) (as_buf_ptr buf) (of_nat (buf_len buf)) (Some off))"
  by (simp add: writeat_entry_def writeat_new_def u32_try_from_def Let_def)

lemma take_bufs_filled:
  "take_bufs (fill_ready (Ready (Inr n)) (readat_new b h buf off)) = set_buf_init n buf"
  by (simp add: take_bufs_def fill_ready_def readat_new_def cb_into_inner_def cb_new_def)

lemma take_bufs_writeat: "take_bufs (writeat_new b h buf off) = buf"
  by (simp add: take_bufs_def writeat_new_def cb_into_inner_def)

text \<open>On the completion path a read asks for the whole capacity and then sets the length.\<close>

lemma read_at_completion:
  assumes "honest_kernel os" and "fl_io f = CompletionIo h" and "0 < buf_len buf" and "buf_capacity buf < 2 ^ 32"
    and "fs_pread os (h_handle h) (as_buf_ptr buf) (buf_capacity buf) off s = (s', Inr n)"
  shows "read_at os offload f buf off s = (s', Inr n, set_buf_init n buf)"
proof -
  have "fs_kernel os (ERead (h_handle h) (as_buf_ptr buf) (of_nat (buf_capacity buf)) (Some off)) s = (s', int n)"
    using assms(1,5) unat_of_nat_u32 [OF assms(4)] unfolding honest_kernel_def by metis
  then show ?thesis
    using assms(2,3,4)
    by (simp add: read_at_def readat_entry_new await_entry_def await_count_def take_bufs_filled Let_def)
qed

lemma read_at_step:
  assumes honest: "honest_fs os data memory fds" and wf: "file_wf f" and fd: "fl_inner f \<in> fds s"
    and buf: "0 < buf_len buf" "read_keeps_len f buf"
  shows "\<exists>n s'. read_at os offload f buf off s = (s', Inr n, buf) \<and> fds s' = fds s \<and>
    transferred n (buf_len buf) (unat off) (as_buf_ptr buf) (data s) (memory s) (data s') (memory s')"
proof (cases "fl_io f")
  case (CompletionIo h)
  have h: "h_handle h = fl_inner f" and k: "honest_kernel os"
    using wf honest by (simp_all add: file_wf_def CompletionIo honest_fs_def)
  have c: "buf_capacity buf = buf_len buf" "\<And>n. set_buf_init n buf = buf" "buf_len buf < 2 ^ 32"
    using buf(2) CompletionIo by (simp_all add: read_keeps_len_def fixed_len_facts)
  obtain n s' where r: "fs_pread os (h_handle h) (as_buf_ptr buf) (buf_capacity buf) off s = (s', Inr n)"
    "fds s' = fds s" "transferred n (buf_capacity buf) (unat off) (as_buf_ptr buf) (data s) (memory s) (data s') (memory s')"
    using honest_preadE [OF honest] fd h by metis
  have "read_at os offload f buf off s = (s', Inr n, buf)"
    using read_at_completion [OF k CompletionIo buf(1) _ r(1)] c by simp
  then show ?thesis
    using r c by auto
next
  case BlockingIo
  have call: "\<exists>n s2. read_at_blocking os buf off fd' s1 = (s2, Inr n) \<and> fds s2 = fds s1 \<and>
      transferred n (buf_len buf) (unat off) (as_buf_ptr buf) (data s) (memory s) (data s2) (memory s2)"
    if "fd' \<in> fds s1" "data s1 = data s" "memory s1 = memory s" for fd' s1
    using honest_preadE [OF honest that(1), of "as_buf_ptr buf" "buf_len buf" off] that
    unfolding read_at_blocking_def by metis
  show ?thesis
    using call [OF fd] pool_call [OF honest fd, of "read_at_blocking os buf off", OF call] buf(1) BlockingIo
    by (cases offload) (fastforce simp: read_at_def read_at_in_blocking_pool_def)+
qed

lemma write_at_step:
  assumes honest: "honest_fs os data memory fds" and wf: "file_wf f" and fd: "fl_inner f \<in> fds s"
    and buf: "0 < buf_len buf" "buf_len buf < 2 ^ 32"
  shows "\<exists>n s'. write_at os offload f buf off s = (s', Inr n, buf) \<and> fds s' = fds s \<and>
    stored n (buf_len buf) (unat off) (as_buf_ptr buf) (data s) (memory s) (data s') (memory s')"
proof (cases "fl_io f")
  case (CompletionIo h)
  have h: "h_handle h = fl_inner f" and k: "honest_kernel os"
    using wf honest by (simp_all add: file_wf_def CompletionIo honest_fs_def)
  obtain n s' where r: "fs_pwrite os (h_handle h) (as_buf_ptr buf) (buf_len buf) off s = (s', Inr n)"
    "fds s' = fds s" "stored n (buf_len buf) (unat off) (as_buf_ptr buf) (data s) (memory s) (data s') (memory s')"
    using honest_pwriteE [OF honest] fd h by metis
  have "fs_kernel os (EWrite (h_handle h) (as_buf_ptr buf) (of_nat (buf_len buf)) (Some off)) s = (s', int n)"
    using k r(1) unat_of_nat_u32 [OF buf(2)] unfolding honest_kernel_def by metis
  then have "write_at os offload f buf off s = (s', Inr n, buf)"
    using CompletionIo buf
    by (simp add: write_at_def writeat_entry_new await_entry_def await_count_def take_bufs_writeat Let_def)
  then show ?thesis
    using r by auto
next
  case BlockingIo
  have call: "\<exists>n s2. write_at_blocking os buf off fd' s1 = (s2, Inr n) \<and> fds s2 = fds s1 \<and>
      stored n (buf_len buf) (unat off) (as_buf_ptr buf) (data s) (memory s) (data s2) (memory s2)"
    if "fd' \<in> fds s1" "data s1 = data s" "memory s1 = memory s" for fd' s1
    using honest_pwriteE [OF honest that(1), of "as_buf_ptr buf" "buf_len buf" off] that
    unfolding write_at_blocking_def by metis
  show ?thesis
    using call [OF fd] pool_call [OF honest fd, of "write_at_blocking os buf off", OF call] buf(1) BlockingIo
    by (cases offload) (fastforce simp: write_at_def write_at_in_blocking_pool_def)+
qed

subsection \<open>The loops\<close>

lemma unat_saturating_add: "unat a + n < 2 ^ 64 \<Longrightarrow> unat (saturating_add a n) = unat a + n"
  by (simp add: saturating_add_def unat_word_ariths unat_of_nat take_bit_eq_mod)

lemma cursor_facts:
  "cur \<le> buf_len b \<Longrightarrow> buf_len (WithCursor b cur) = buf_len b - cur"
  "as_buf_ptr (WithCursor b cur) = (fst (as_buf_ptr b), snd (as_buf_ptr b) + cur)"
  by (simp_all add: usize_sub_def split: prod.splits)

lemma take_drop_add: "take (a + b) (drop off d) = take a (drop off d) @ take b (drop (off + a) d)"
  by (simp add: take_add add.commute)

text \<open>
  The read loop from position \<open>cur\<close>, with the first \<open>cur\<close> bytes in place. \<open>filled\<close> is what it promises: the
  whole buffer, or the error of a file that is too short.
\<close>

definition filled :: "io_buf \<Rightarrow> nat \<Rightarrow> bytes \<Rightarrow> unit io_result \<Rightarrow> memory \<Rightarrow> bool" where
  "filled b off d res M \<longleftrightarrow>
     (if buf_len b = 0 \<or> off + buf_len b \<le> length d
      then res = Inr () \<and> mem_read (as_buf_ptr b) (buf_len b) M = take (buf_len b) (drop off d)
      else res = Inl (Custom UnexpectedEof))"

lemma read_exact_loop_fills:
  assumes honest: "honest_fs os data memory fds" and wf: "file_wf f" and keep: "read_keeps_len f b"
    and "fl_inner f \<in> fds s" and "cur \<le> buf_len b" and "cur = 0 \<or> off + cur \<le> length (data s)"
    and "mem_read (as_buf_ptr b) cur (memory s) = take cur (drop off (data s))"
    and "unat o' = off + cur" and "off + buf_len b < 2 ^ 64"
  shows "\<exists>s' res. read_exact_loop os offload f (WithCursor b cur) o' s = Some (s', res, b) \<and>
    fds s' = fds s \<and> data s' = data s \<and> filled b off (data s) res (memory s')"
  using assms(4-9)
proof (induction "buf_len b - cur" arbitrary: cur o' s rule: less_induct)
  case less
  show ?case
  proof (cases "cur = buf_len b")
    case True
    then show ?thesis
      using less.prems by (auto simp: read_exact_loop.simps usize_sub_def filled_def)
  next
    case False
    let ?B = "WithCursor b cur"
    have B: "0 < buf_len ?B" "buf_len ?B = buf_len b - cur" "read_keeps_len f ?B"
      using False less.prems(2) keep by (auto simp: read_keeps_len_def usize_sub_def)
    obtain n s1 where r: "read_at os offload f ?B o' s = (s1, Inr n, ?B)" "fds s1 = fds s"
      and t: "transferred n (buf_len ?B) (unat o') (as_buf_ptr ?B) (data s) (memory s) (data s1) (memory s1)"
      using read_at_step [OF honest wf less.prems(1) B(1,3)] by blast
    note t' = t [unfolded transferred_def B(2) less.prems(5) cursor_facts(2)]
    show ?thesis
    proof (cases "n = 0")
      case True
      then have "length (data s) < off + buf_len b" "0 < buf_len b"
        using t' False less.prems(2) by auto
      then show ?thesis
        using r True t' B(1) by (subst read_exact_loop.simps) (simp add: filled_def)
    next
      case n: False
      have "mem_read (as_buf_ptr b) (cur + n) (memory s1) = take (cur + n) (drop off (data s))"
        using t' less.prems(4) mem_read_add [of "fst (as_buf_ptr b)" "snd (as_buf_ptr b)" cur n "memory s1"]
          mem_read_write_later [of "fst (as_buf_ptr b)" "snd (as_buf_ptr b)" cur "take n (drop (off + cur) (data s))" "memory s"]
          mem_read_write [of "(fst (as_buf_ptr b), snd (as_buf_ptr b) + cur)" "take n (drop (off + cur) (data s))" "memory s"]
        by (simp add: take_drop_add)
      moreover have "buf_len b - (cur + n) < buf_len b - cur" "cur + n \<le> buf_len b" "off + (cur + n) \<le> length (data s)"
        using t' n False less.prems(2) by auto
      moreover from this have "unat (saturating_add o' n) = off + (cur + n)"
        using less.prems(5,6) unat_saturating_add [of o' n] by simp
      ultimately obtain s' res where
        "read_exact_loop os offload f (WithCursor b (cur + n)) (saturating_add o' n) s1 = Some (s', res, b)"
        "fds s' = fds s1" "data s' = data s1" "filled b off (data s1) res (memory s')"
        using less.hyps [of "cur + n" s1 "saturating_add o' n"] less.prems t' r(2) by auto
      then show ?thesis
        using r t' n B(1) by (subst read_exact_loop.simps) simp
    qed
  qed
qed

lemma write_exact_loop_stores:
  assumes honest: "honest_fs os data memory fds" and wf: "file_wf f" and len: "buf_len b < 2 ^ 32"
    and "fl_inner f \<in> fds s" and "cur \<le> buf_len b"
    and "data s = overwrite off (mem_read (as_buf_ptr b) cur (memory s)) d"
    and "unat o' = off + cur" and "off + buf_len b < 2 ^ 64"
  shows "\<exists>s'. write_exact_loop os offload f (WithCursor b cur) o' s = Some (s', Inr (), b) \<and>
    fds s' = fds s \<and> memory s' = memory s \<and>
    data s' = overwrite off (mem_read (as_buf_ptr b) (buf_len b) (memory s)) d"
  using assms(4-8)
proof (induction "buf_len b - cur" arbitrary: cur o' s rule: less_induct)
  case less
  show ?case
  proof (cases "cur = buf_len b")
    case True
    then show ?thesis
      using less.prems by (auto simp: write_exact_loop.simps usize_sub_def)
  next
    case False
    let ?B = "WithCursor b cur"
    have B: "0 < buf_len ?B" "buf_len ?B = buf_len b - cur" "buf_len ?B < 2 ^ 32"
      using False less.prems(2) len by (auto simp: usize_sub_def)
    obtain n s1 where r: "write_at os offload f ?B o' s = (s1, Inr n, ?B)" "fds s1 = fds s"
      and t: "stored n (buf_len ?B) (unat o') (as_buf_ptr ?B) (data s) (memory s) (data s1) (memory s1)"
      using write_at_step [OF honest wf less.prems(1) B(1,3)] by blast
    note t' = t [unfolded stored_def B(2) less.prems(4) cursor_facts(2)]
    have n: "0 < n" "n \<le> buf_len b - cur"
      using t' False less.prems(2) by auto
    have "data s1 = overwrite off (mem_read (as_buf_ptr b) (cur + n) (memory s1)) d"
      using t' less.prems(3) mem_read_add [of "fst (as_buf_ptr b)" "snd (as_buf_ptr b)" cur n "memory s"]
        overwrite_append [of off "mem_read (as_buf_ptr b) cur (memory s)"]
      by simp
    moreover have "buf_len b - (cur + n) < buf_len b - cur" "cur + n \<le> buf_len b"
      using n False less.prems(2) by auto
    moreover have "unat (saturating_add o' n) = off + (cur + n)"
      using less.prems(2,4,5) n unat_saturating_add [of o' n] by auto
    ultimately obtain s' where
      "write_exact_loop os offload f (WithCursor b (cur + n)) (saturating_add o' n) s1 = Some (s', Inr (), b)"
      "fds s' = fds s1" "memory s' = memory s1"
      "data s' = overwrite off (mem_read (as_buf_ptr b) (buf_len b) (memory s1)) d"
      using less.hyps [of "cur + n" s1 "saturating_add o' n"] less.prems r(2) by auto
    then show ?thesis
      using r t' n B(1) by (subst write_exact_loop.simps) simp
  qed
qed

lemma read_exact_at_fills:
  assumes "honest_fs os data memory fds" and "file_wf f" and "read_keeps_len f b" and "fl_inner f \<in> fds s"
    and "unat off + buf_len b < 2 ^ 64"
  shows "\<exists>s' res. read_exact_at os offload f b off s = Some (s', res, b) \<and>
    fds s' = fds s \<and> data s' = data s \<and> filled b (unat off) (data s) res (memory s')"
  using read_exact_loop_fills [OF assms(1-4), of 0 "unat off" off] assms(5)
  by (simp add: read_exact_at_def cursor_new_def)

lemma write_exact_at_stores:
  assumes "honest_fs os data memory fds" and "file_wf f" and "buf_len b < 2 ^ 32" and "fl_inner f \<in> fds s"
    and "unat off + buf_len b < 2 ^ 64"
  shows "\<exists>s'. write_exact_at os offload f b off s = Some (s', Inr (), b) \<and> fds s' = fds s \<and> memory s' = memory s \<and>
    data s' = overwrite (unat off) (mem_read (as_buf_ptr b) (buf_len b) (memory s)) (data s)"
  using write_exact_loop_stores [OF assms(1-4), of 0 "unat off" "data s" off] assms(5)
  by (simp add: write_exact_at_def cursor_new_def overwrite_def)

subsection \<open>A file as the reader of \<open>copy\<close>\<close>

text \<open>\<open>copy\<close> hands an empty \<open>Vec\<close> in block \<open>m\<close> to the reader and looks at the bytes of what comes back.\<close>

definition file_reader ::
  "('o, 'x) fs_sys_scheme \<Rightarrow> ('o \<Rightarrow> memory) \<Rightarrow> bool \<Rightarrow> mem \<Rightarrow> (vibe_file \<times> 'o) read_fn" where
  "file_reader os memory offload m r cap =
     (case file_read os offload (Vec m 0 cap) (fst r) (snd r) of
        (f, s, res, buf) \<Rightarrow> ((f, s), res, mem_read (as_buf_ptr buf) (buf_len buf) (memory s)))"

text \<open>An empty \<open>Vec\<close> is a read of nothing: \<open>copy\<close> from a file copies nothing and succeeds.\<close>

lemma copy_from_file_copies_nothing:
  assumes "fl w = (w', Inr ())"
  shows "copy_all (file_reader os memory offload m) wr fl (f, s) w =
    Some ((f\<lparr>fl_cursor := saturating_add (fl_cursor f) 0\<rparr>, s), w', Inr 0)"
  using assms
  by (simp add: copy_all_def copy_loop.simps file_reader_def file_read_def read_at_def)

subsection \<open>A disk\<close>

text \<open>A file in memory whose calls transfer at most \<open>k\<close> bytes at a time.\<close>

record disk =
  dk_data :: bytes
  dk_mem :: memory
  dk_fds :: "int list"

definition disk_pread :: "nat \<Rightarrow> int \<Rightarrow> ptr \<Rightarrow> nat \<Rightarrow> u64 \<Rightarrow> disk \<Rightarrow> disk \<times> nat io_result" where
  "disk_pread k fd p len off s =
     (let bs = take (min k len) (drop (unat off) (dk_data s))
      in (s\<lparr>dk_mem := mem_write p bs (dk_mem s)\<rparr>, Inr (length bs)))"

definition disk_pwrite :: "nat \<Rightarrow> int \<Rightarrow> ptr \<Rightarrow> nat \<Rightarrow> u64 \<Rightarrow> disk \<Rightarrow> disk \<times> nat io_result" where
  "disk_pwrite k fd p len off s =
     (s\<lparr>dk_data := overwrite (unat off) (mem_read p (min k len) (dk_mem s)) (dk_data s)\<rparr>, Inr (min k len))"

fun disk_kernel :: "nat \<Rightarrow> op_entry \<Rightarrow> disk \<Rightarrow> disk \<times> int" where
  "disk_kernel k (ERead fd p len (Some off)) s =
     (case disk_pread k fd p (unat len) off s of (s, res) \<Rightarrow> (s, case res of Inr n \<Rightarrow> int n | Inl _ \<Rightarrow> -5))"
| "disk_kernel k (EWrite fd p len (Some off)) s =
     (case disk_pwrite k fd p (unat len) off s of (s, res) \<Rightarrow> (s, case res of Inr n \<Rightarrow> int n | Inl _ \<Rightarrow> -5))"
| "disk_kernel k _ s = (s, 0)"

definition disk_fs :: "nat \<Rightarrow> disk fs_sys" where
  "disk_fs k = \<lparr>fs_kernel = disk_kernel k, fs_pread = disk_pread k, fs_pwrite = disk_pwrite k,
     fs_sync = (\<lambda>_ _ s. (s, Inr ())),
     fs_dup = (\<lambda>_ s. let fd = foldr max (dk_fds s) 0 + 1 in (s\<lparr>dk_fds := fd # dk_fds s\<rparr>, Inr fd)),
     fs_close = (\<lambda>fd s. s\<lparr>dk_fds := removeAll fd (dk_fds s)\<rparr>), fs_pool = (\<lambda>_. True)\<rparr>"

lemma disk_kernel_honest: "honest_kernel (disk_fs k)"
  by (simp add: honest_kernel_def disk_fs_def)

lemma disk_honest: "0 < k \<Longrightarrow> honest_fs (disk_fs k) dk_data dk_mem (set \<circ> dk_fds)"
  unfolding honest_fs_def using disk_kernel_honest
  by (auto simp: honest_pread_def honest_pwrite_def honest_pool_def disk_fs_def disk_pread_def
      disk_pwrite_def Let_def foldr_max_fresh min_def)

subsection \<open>Properties\<close>

text \<open>
  \<open>read_exact_at\<close> into a \<open>Vec\<close> on the completion path succeeds after its first read, whatever that
  transferred: the operation sets the length of the \<open>Vec\<close> to what was read, so that the loop finds
  nothing left to fill. A short read, or a file that is too short, gives \<open>Ok\<close> with a shorter \<open>Vec\<close>
  instead of further reads or the error \<open>UnexpectedEof\<close>; a read that fills the capacity gives a longer one.
\<close>
lemma read_exact_at_vec_stops:
  assumes "honest_kernel os" and "fl_io f = CompletionIo h" and "0 < l" and "c < 2 ^ 32"
    and "fs_pread os (h_handle h) (m, 0) c off s = (s', Inr n)" and "0 < n"
  shows "read_exact_at os offload f (Vec m l c) off s = Some (s', Inr (), Vec m n c)"
proof -
  have "read_at os offload f (WithCursor (Vec m l c) 0) off s = (s', Inr n, WithCursor (Vec m n c) 0)"
    using read_at_completion [OF assms(1,2), of "WithCursor (Vec m l c) 0"] assms(3,4,5)
    by (simp add: usize_sub_def)
  then show ?thesis
    using assms(3,6)
    by (simp add: read_exact_at_def cursor_new_def read_exact_loop.simps [of _ _ _ "WithCursor (Vec m l c) 0"]
        read_exact_loop.simps [of _ _ _ "WithCursor (Vec m n c) n"] usize_sub_def)
qed

definition ex_disk :: disk where
  "ex_disk = \<lparr>dk_data = [1, 2, 3], dk_mem = (\<lambda>m i. if m = 7 then of_nat (i + 40) else 0), dk_fds = [3]\<rparr>"

definition ex_uring_file :: vibe_file where
  "ex_uring_file = \<lparr>fl_inner = 3, fl_io = CompletionIo \<lparr>h_handle = 3, h_token = 0, h_interest = READ_WRITE, h_mode = CompletionMode\<rparr>, fl_cursor = 0\<rparr>"



end
