(* ===== verification/Fs_Open.thy ===== *)
theory Fs_Open
  imports Fs_File
begin

text \<open>
  Opening files, \<open>fs/open_options.rs\<close>. The flags are 32-bit words with Linux's values.
  \<open>std_open_flags\<close> is what \<open>std::fs::OpenOptions\<close> makes of the same options: its two checks and its flags.

  A path is its list of components with a flag for a leading slash; \<open>ps_cstring\<close> is the block of memory
  its C string lives in. The calls of the standard library that open a file are part of the
  operating system parameter.
\<close>

subsection \<open>Paths\<close>

datatype path = Path bool "bytes list"

fun join_components :: "bytes list \<Rightarrow> bytes" where
  "join_components [] = []"
| "join_components [c] = c"
| "join_components (c # cs) = c @ 47 # join_components cs"

fun path_bytes :: "path \<Rightarrow> bytes" where
  "path_bytes (Path absolute cs) = (if absolute then [47] else []) @ join_components cs"

fun parent :: "path \<Rightarrow> path option" where
  "parent (Path absolute cs) = (if cs = [] then None else Some (Path absolute (butlast cs)))"

text \<open>\<open>CString::new\<close>: a path with a null byte is refused.\<close>

definition has_nul :: "path \<Rightarrow> bool" where
  "has_nul p \<longleftrightarrow> 0 \<in> set (path_bytes p)"

record 'o path_sys = "'o fs_sys" +
  ps_cstring :: "path \<Rightarrow> mem"
  ps_open :: "path \<Rightarrow> u32 \<Rightarrow> nat \<Rightarrow> 'o \<Rightarrow> 'o \<times> int io_result"
  ps_len :: "int \<Rightarrow> 'o \<Rightarrow> u64 io_result"

subsection \<open>Options\<close>

record open_options =
  oo_read :: bool
  oo_write :: bool
  oo_append :: bool
  oo_truncate :: bool
  oo_create :: bool
  oo_create_new :: bool

definition oo_new :: open_options where
  "oo_new = \<lparr>oo_read = False, oo_write = False, oo_append = False, oo_truncate = False, oo_create = False,
     oo_create_new = False\<rparr>"

definition validate :: "open_options \<Rightarrow> unit io_result" where
  "validate opts =
     (let writing = oo_write opts \<or> oo_append opts in
      if \<not> oo_read opts \<and> \<not> writing then Inl (Custom InvalidInput)
      else if (oo_truncate opts \<or> oo_create opts \<or> oo_create_new opts) \<and> \<not> writing then Inl (Custom InvalidInput)
      else Inr ())"

definition O_RDONLY :: u32 where "O_RDONLY = 0"
definition O_WRONLY :: u32 where "O_WRONLY = 1"
definition O_RDWR :: u32 where "O_RDWR = 2"
definition O_CREAT :: u32 where "O_CREAT = 0x40"
definition O_EXCL :: u32 where "O_EXCL = 0x80"
definition O_TRUNC :: u32 where "O_TRUNC = 0x200"
definition O_APPEND :: u32 where "O_APPEND = 0x400"
definition O_CLOEXEC :: u32 where "O_CLOEXEC = 0x80000"

lemmas open_flag_defs =
  O_RDONLY_def O_WRONLY_def O_RDWR_def O_CREAT_def O_EXCL_def O_TRUNC_def O_APPEND_def O_CLOEXEC_def

definition build_open_flags :: "open_options \<Rightarrow> u32 io_result" where
  "build_open_flags opts =
     (let writing = oo_write opts \<or> oo_append opts;
          access = (if oo_read opts then (if writing then Some O_RDWR else Some O_RDONLY)
                    else (if writing then Some O_WRONLY else None))
      in case access of
           None \<Rightarrow> Inl (Custom InvalidInput)
         | Some flags \<Rightarrow>
             (let flags = (if oo_append opts then flags OR O_APPEND else flags);
                  flags = (if oo_truncate opts then flags OR O_TRUNC else flags);
                  flags = (if oo_create_new opts then flags OR (O_CREAT OR O_EXCL)
                           else if oo_create opts then flags OR O_CREAT else flags)
              in Inr (flags OR O_CLOEXEC)))"

definition OPEN_MODE :: nat where "OPEN_MODE = 438"

definition build_open_op :: "('o, 'x) path_sys_scheme \<Rightarrow> open_options \<Rightarrow> path \<Rightarrow> open_op io_result" where
  "build_open_op os opts path =
     (case build_open_flags opts of
        Inl err \<Rightarrow> Inl err
      | Inr flags \<Rightarrow>
          if has_nul path then Inl (Custom InvalidInput)
          else Inr (open_new (ps_cstring os path) (uint flags) OPEN_MODE))"

subsection \<open>The standard library's options\<close>

definition std_access_mode :: "open_options \<Rightarrow> u32 io_result" where
  "std_access_mode opts =
     (if oo_append opts then Inr ((if oo_read opts then O_RDWR else O_WRONLY) OR O_APPEND)
      else if oo_write opts then Inr (if oo_read opts then O_RDWR else O_WRONLY)
      else if oo_read opts then Inr O_RDONLY
      else Inl (Custom InvalidInput))"

definition std_creation_mode :: "open_options \<Rightarrow> u32 io_result" where
  "std_creation_mode opts =
     (if \<not> oo_append opts \<and> \<not> oo_write opts \<and> (oo_truncate opts \<or> oo_create opts \<or> oo_create_new opts)
      then Inl (Custom InvalidInput)
      else if oo_append opts \<and> oo_truncate opts \<and> \<not> oo_create_new opts then Inl (Custom InvalidInput)
      else Inr (if oo_create_new opts then O_CREAT OR O_EXCL
                else (if oo_create opts then O_CREAT else 0) OR (if oo_truncate opts then O_TRUNC else 0)))"

definition std_open_flags :: "open_options \<Rightarrow> u32 io_result" where
  "std_open_flags opts =
     (case std_access_mode opts of
        Inl err \<Rightarrow> Inl err
      | Inr access \<Rightarrow>
          (case std_creation_mode opts of
             Inl err \<Rightarrow> Inl err
           | Inr creation \<Rightarrow> Inr (O_CLOEXEC OR access OR creation)))"

definition open_blocking ::
  "('o, 'x) path_sys_scheme \<Rightarrow> open_options \<Rightarrow> path \<Rightarrow> 'o \<Rightarrow> 'o \<times> int io_result" where
  "open_blocking os opts path s =
     (if has_nul path then (s, Inl (Custom InvalidInput))
      else case std_open_flags opts of
             Inl err \<Rightarrow> (s, Inl err)
           | Inr flags \<Rightarrow> ps_open os path flags OPEN_MODE s)"

definition open_in_blocking_pool ::
  "('o, 'x) path_sys_scheme \<Rightarrow> open_options \<Rightarrow> path \<Rightarrow> 'o \<Rightarrow> 'o \<times> int io_result" where
  "open_in_blocking_pool os opts path s =
     (if fs_pool os s then open_blocking os opts path s else (s, Inl blocking_pool_io_error))"

subsection \<open>\<open>open\<close>\<close>

definition initial_cursor_for_append :: "('o, 'x) path_sys_scheme \<Rightarrow> open_options \<Rightarrow> int \<Rightarrow> 'o \<Rightarrow> u64 io_result" where
  "initial_cursor_for_append os opts fd s = (if oo_append opts then ps_len os fd s else Inr 0)"

definition open_std ::
  "('o, 'x) path_sys_scheme \<Rightarrow> bool \<Rightarrow> open_options \<Rightarrow> path \<Rightarrow> ('r, 's, 'c, 'm, 't) any_driver option \<Rightarrow> 'o \<Rightarrow>
   'o \<times> int io_result" where
  "open_std os offload opts path current s =
     (case current of
        None \<Rightarrow> open_blocking os opts path s
      | Some d \<Rightarrow>
          if any_supports_completion d
          then (case build_open_op os opts path of
                  Inl err \<Rightarrow> (s, Inl err)
                | Inr op \<Rightarrow>
                    (case await_entry os (open_entry op) s of
                       (s, res) \<Rightarrow> (s, map_sum id int (await_count res))))
          else if offload then open_in_blocking_pool os opts path s
          else open_blocking os opts path s)"

text \<open>A file whose length cannot be read is closed again.\<close>

definition open_file ::
  "('r, 's, 'c, 'm, 't) op_env \<Rightarrow> ('o, 'x) path_sys_scheme \<Rightarrow> bool \<Rightarrow> open_options \<Rightarrow> path \<Rightarrow>
   ('r, 's, 'c, 'm, 't) any_driver option \<Rightarrow> 'o \<Rightarrow>
   ('r, 's, 'c, 'm, 't) any_driver option \<times> 'o \<times> vibe_file io_result" where
  "open_file Z os offload opts path current s =
     (case validate opts of
        Inl err \<Rightarrow> (current, s, Inl err)
      | Inr _ \<Rightarrow>
          (case open_std os offload opts path current s of
             (s, Inl err) \<Rightarrow> (current, s, Inl err)
           | (s, Inr fd) \<Rightarrow>
               (case initial_cursor_for_append os opts fd s of
                  Inl err \<Rightarrow> (current, fs_close os fd s, Inl err)
                | Inr cursor \<Rightarrow>
                    (case from_std_with_cursor Z fd cursor current of (current, f) \<Rightarrow> (current, s, Inr f)))))"

definition file_open ::
  "('r, 's, 'c, 'm, 't) op_env \<Rightarrow> ('o, 'x) path_sys_scheme \<Rightarrow> bool \<Rightarrow> path \<Rightarrow>
   ('r, 's, 'c, 'm, 't) any_driver option \<Rightarrow> 'o \<Rightarrow>
   ('r, 's, 'c, 'm, 't) any_driver option \<times> 'o \<times> vibe_file io_result" where
  "file_open Z os offload path current s = open_file Z os offload (oo_new\<lparr>oo_read := True\<rparr>) path current s"

definition file_create ::
  "('r, 's, 'c, 'm, 't) op_env \<Rightarrow> ('o, 'x) path_sys_scheme \<Rightarrow> bool \<Rightarrow> path \<Rightarrow>
   ('r, 's, 'c, 'm, 't) any_driver option \<Rightarrow> 'o \<Rightarrow>
   ('r, 's, 'c, 'm, 't) any_driver option \<times> 'o \<times> vibe_file io_result" where
  "file_create Z os offload path current s =
     open_file Z os offload (oo_new\<lparr>oo_write := True, oo_create := True, oo_truncate := True\<rparr>) path current s"

subsection \<open>Properties\<close>

text \<open>
  C25: the flags of the completion path against the standard library's, for every choice of options.
  What \<open>validate\<close> refuses the standard library refuses; what it accepts opens with the same flags on
  both paths, with two exceptions. With \<open>create_new\<close> the completion path passes \<open>O_TRUNC\<close> too, where the
  file is new anyway. With \<open>append\<close> and \<open>truncate\<close> but not \<open>create_new\<close> the standard library refuses the
  options, so that the blocking paths fail, and the completion path truncates the file.
\<close>
theorem open_flags_equivalent:
  "case validate opts of
     Inl err \<Rightarrow> err = Custom InvalidInput \<and> std_open_flags opts = Inl err
   | Inr _ \<Rightarrow>
       (\<exists>flags. build_open_flags opts = Inr flags \<and>
          std_open_flags opts =
            (if oo_append opts \<and> oo_truncate opts \<and> \<not> oo_create_new opts then Inl (Custom InvalidInput)
             else Inr (if oo_create_new opts then flags AND NOT O_TRUNC else flags)))"
proof (cases opts)
  case (fields r w a t c n)
  then show ?thesis
    by (cases r; cases w; cases a; cases t; cases c; cases n)
      (simp_all add: validate_def build_open_flags_def std_open_flags_def std_access_mode_def std_creation_mode_def
        open_flag_defs Let_def)
qed

end
