(* ===== verification/Fs_Metadata.thy ===== *)
theory Fs_Metadata
  imports Fs_Open
begin

text \<open>
  \<open>fs/metadata.rs\<close>: the metadata of a file, from \<open>statx\<close> on the completion path and from the standard library on
  the others, with every accessor. Proved: both representations of one file agree, but for times before the epoch.
\<close>

subsection \<open>Metadata\<close>

text \<open>Seconds are signed 64-bit integers; the nanoseconds count forward, below a second.\<close>

record timestamp =
  tv_sec :: int
  tv_nsec :: nat

record statx =
  stx_blksize :: u32
  stx_attributes :: u64
  stx_nlink :: u32
  stx_uid :: u32
  stx_gid :: u32
  stx_mode :: u16
  stx_ino :: u64
  stx_size :: u64
  stx_blocks :: u64
  stx_atime :: timestamp
  stx_btime :: timestamp
  stx_ctime :: timestamp
  stx_mtime :: timestamp
  stx_rdev_major :: u32
  stx_rdev_minor :: u32
  stx_dev_major :: u32
  stx_dev_minor :: u32
  stx_subvol :: u64

text \<open>
  What the standard library's \<open>Metadata\<close> returns; a time is a number of nanoseconds since the epoch, or the seconds
  and nanoseconds of \<open>stat\<close>.
\<close>

record std_metadata =
  sm_mode :: u32
  sm_len :: u64
  sm_accessed :: "int io_result"
  sm_created :: "int io_result"
  sm_modified :: "int io_result"
  sm_dev :: u64
  sm_ino :: u64
  sm_nlink :: u64
  sm_uid :: u32
  sm_gid :: u32
  sm_rdev :: u64
  sm_atime :: timestamp
  sm_mtime :: timestamp
  sm_ctime :: timestamp
  sm_blksize :: u64
  sm_blocks :: u64

datatype metadata_inner = Statx statx | Std std_metadata

record file_type =
  ft_is_dir :: bool
  ft_is_file :: bool
  ft_is_symlink :: bool

definition S_IFMT :: u32 where "S_IFMT = 0xF000"
definition S_IFDIR :: u32 where "S_IFDIR = 0x4000"
definition S_IFREG :: u32 where "S_IFREG = 0x8000"
definition S_IFLNK :: u32 where "S_IFLNK = 0xA000"

fun md_len :: "metadata_inner \<Rightarrow> u64" where
  "md_len (Statx st) = stx_size st"
| "md_len (Std md) = sm_len md"

text \<open>Permissions are the mode.\<close>

fun md_permissions :: "metadata_inner \<Rightarrow> u32" where
  "md_permissions (Statx st) = ucast (stx_mode st)"
| "md_permissions (Std md) = sm_mode md"

fun md_is_dir :: "metadata_inner \<Rightarrow> bool" where
  "md_is_dir (Statx st) = (ucast (stx_mode st) AND S_IFMT = S_IFDIR)"
| "md_is_dir (Std md) = (sm_mode md AND S_IFMT = S_IFDIR)"

fun md_is_file :: "metadata_inner \<Rightarrow> bool" where
  "md_is_file (Statx st) = (ucast (stx_mode st) AND S_IFMT = S_IFREG)"
| "md_is_file (Std md) = (sm_mode md AND S_IFMT = S_IFREG)"

fun md_is_symlink :: "metadata_inner \<Rightarrow> bool" where
  "md_is_symlink (Statx st) = (ucast (stx_mode st) AND S_IFMT = S_IFLNK)"
| "md_is_symlink (Std md) = (sm_mode md AND S_IFMT = S_IFLNK)"

definition md_file_type :: "metadata_inner \<Rightarrow> file_type" where
  "md_file_type md = \<lparr>ft_is_dir = md_is_dir md, ft_is_file = md_is_file md, ft_is_symlink = md_is_symlink md\<rparr>"

text \<open>
  \<open>UNIX_EPOCH + Duration\<close> and \<open>checked_sub\<close> on a \<open>SystemTime\<close>: a time whose seconds leave the range of \<open>i64\<close> is a
  panic (\<open>None\<close>) for the first and an error for the second. The negation of the least \<open>i64\<close> wraps, and
  its conversion to \<open>u64\<close> is the right number again.
\<close>

definition NANOS :: int where "NANOS = 10 ^ 9"

definition statx_timestamp_to_system_time :: "timestamp \<Rightarrow> int io_result option" where
  "statx_timestamp_to_system_time ts =
     (let secs = tv_sec ts; nanos = int (tv_nsec ts) in
      if 0 \<le> secs
      then (if secs + nanos div NANOS < 2 ^ 63 then Some (Inr (secs * NANOS + nanos)) else None)
      else if - (2 ^ 63) \<le> - (- secs * NANOS + nanos) div NANOS then Some (Inr (- (- secs * NANOS + nanos)))
      else Some (Inl (Custom InvalidData)))"

fun md_accessed :: "metadata_inner \<Rightarrow> int io_result option" where
  "md_accessed (Statx st) = statx_timestamp_to_system_time (stx_atime st)"
| "md_accessed (Std md) = Some (sm_accessed md)"

fun md_created :: "metadata_inner \<Rightarrow> int io_result option" where
  "md_created (Statx st) = statx_timestamp_to_system_time (stx_btime st)"
| "md_created (Std md) = Some (sm_created md)"

fun md_modified :: "metadata_inner \<Rightarrow> int io_result option" where
  "md_modified (Statx st) = statx_timestamp_to_system_time (stx_mtime st)"
| "md_modified (Std md) = Some (sm_modified md)"

text \<open>A time before the epoch with nanoseconds comes out too early, by twice the nanoseconds.\<close>

lemma statx_time_before_epoch:
  assumes "tv_sec ts < 0" "- (2 ^ 63) < tv_sec ts" "tv_nsec ts < 10 ^ 9"
  shows "statx_timestamp_to_system_time ts =
    Some (Inr ((tv_sec ts * NANOS + int (tv_nsec ts)) - 2 * int (tv_nsec ts)))"
  using assms by (simp add: statx_timestamp_to_system_time_def Let_def NANOS_def)

lemma statx_time_since_epoch:
  assumes "0 \<le> tv_sec ts" "tv_sec ts < 2 ^ 63" "tv_nsec ts < 10 ^ 9"
  shows "statx_timestamp_to_system_time ts = Some (Inr (tv_sec ts * NANOS + int (tv_nsec ts)))"
  using assms by (simp add: statx_timestamp_to_system_time_def Let_def NANOS_def)

subsection \<open>The other accessors\<close>

text \<open>
  On Linux each has a method of \<open>std::os::linux\<close> and one of \<open>std::os::unix\<close>. \<open>makedev\<close> is the function of the crate \<open>libc\<close>.
\<close>

fun st_dev :: "(u32 \<Rightarrow> u32 \<Rightarrow> u64) \<Rightarrow> metadata_inner \<Rightarrow> u64" where
  "st_dev makedev (Statx st) = makedev (stx_dev_major st) (stx_dev_minor st)"
| "st_dev makedev (Std md) = sm_dev md"

fun st_ino :: "metadata_inner \<Rightarrow> u64" where
  "st_ino (Statx st) = stx_ino st"
| "st_ino (Std md) = sm_ino md"

fun st_mode :: "metadata_inner \<Rightarrow> u32" where
  "st_mode (Statx st) = ucast (stx_mode st)"
| "st_mode (Std md) = sm_mode md"

fun st_nlink :: "metadata_inner \<Rightarrow> u64" where
  "st_nlink (Statx st) = ucast (stx_nlink st)"
| "st_nlink (Std md) = sm_nlink md"

fun st_uid :: "metadata_inner \<Rightarrow> u32" where
  "st_uid (Statx st) = stx_uid st"
| "st_uid (Std md) = sm_uid md"

fun st_gid :: "metadata_inner \<Rightarrow> u32" where
  "st_gid (Statx st) = stx_gid st"
| "st_gid (Std md) = sm_gid md"

fun st_rdev :: "(u32 \<Rightarrow> u32 \<Rightarrow> u64) \<Rightarrow> metadata_inner \<Rightarrow> u64" where
  "st_rdev makedev (Statx st) = makedev (stx_rdev_major st) (stx_rdev_minor st)"
| "st_rdev makedev (Std md) = sm_rdev md"

fun st_size :: "metadata_inner \<Rightarrow> u64" where
  "st_size (Statx st) = stx_size st"
| "st_size (Std md) = sm_len md"

fun st_atime :: "metadata_inner \<Rightarrow> int" where
  "st_atime (Statx st) = tv_sec (stx_atime st)"
| "st_atime (Std md) = tv_sec (sm_atime md)"

fun st_atime_nsec :: "metadata_inner \<Rightarrow> int" where
  "st_atime_nsec (Statx st) = int (tv_nsec (stx_atime st))"
| "st_atime_nsec (Std md) = int (tv_nsec (sm_atime md))"

fun st_mtime :: "metadata_inner \<Rightarrow> int" where
  "st_mtime (Statx st) = tv_sec (stx_mtime st)"
| "st_mtime (Std md) = tv_sec (sm_mtime md)"

fun st_mtime_nsec :: "metadata_inner \<Rightarrow> int" where
  "st_mtime_nsec (Statx st) = int (tv_nsec (stx_mtime st))"
| "st_mtime_nsec (Std md) = int (tv_nsec (sm_mtime md))"

fun st_ctime :: "metadata_inner \<Rightarrow> int" where
  "st_ctime (Statx st) = tv_sec (stx_ctime st)"
| "st_ctime (Std md) = tv_sec (sm_ctime md)"

fun st_ctime_nsec :: "metadata_inner \<Rightarrow> int" where
  "st_ctime_nsec (Statx st) = int (tv_nsec (stx_ctime st))"
| "st_ctime_nsec (Std md) = int (tv_nsec (sm_ctime md))"

fun st_blksize :: "metadata_inner \<Rightarrow> u64" where
  "st_blksize (Statx st) = ucast (stx_blksize st)"
| "st_blksize (Std md) = sm_blksize md"

fun st_blocks :: "metadata_inner \<Rightarrow> u64" where
  "st_blocks (Statx st) = stx_blocks st"
| "st_blocks (Std md) = sm_blocks md"

fun st_subvol :: "metadata_inner \<Rightarrow> u64 option" where
  "st_subvol (Statx st) = Some (stx_subvol st)"
| "st_subvol (Std md) = None"

fun st_attributes :: "metadata_inner \<Rightarrow> u64 option" where
  "st_attributes (Statx st) = Some (stx_attributes st)"
| "st_attributes (Std md) = None"

fun md_dev :: "(u32 \<Rightarrow> u32 \<Rightarrow> u64) \<Rightarrow> metadata_inner \<Rightarrow> u64" where
  "md_dev makedev (Std md) = sm_dev md"
| "md_dev makedev (Statx st) = makedev (stx_dev_major st) (stx_dev_minor st)"

fun md_ino :: "metadata_inner \<Rightarrow> u64" where
  "md_ino (Std md) = sm_ino md"
| "md_ino (Statx st) = stx_ino st"

fun md_mode :: "metadata_inner \<Rightarrow> u32" where
  "md_mode (Std md) = sm_mode md"
| "md_mode (Statx st) = ucast (stx_mode st)"

fun md_nlink :: "metadata_inner \<Rightarrow> u64" where
  "md_nlink (Std md) = sm_nlink md"
| "md_nlink (Statx st) = ucast (stx_nlink st)"

fun md_uid :: "metadata_inner \<Rightarrow> u32" where
  "md_uid (Std md) = sm_uid md"
| "md_uid (Statx st) = stx_uid st"

fun md_gid :: "metadata_inner \<Rightarrow> u32" where
  "md_gid (Std md) = sm_gid md"
| "md_gid (Statx st) = stx_gid st"

fun md_rdev :: "(u32 \<Rightarrow> u32 \<Rightarrow> u64) \<Rightarrow> metadata_inner \<Rightarrow> u64" where
  "md_rdev makedev (Std md) = sm_rdev md"
| "md_rdev makedev (Statx st) = makedev (stx_rdev_major st) (stx_rdev_minor st)"

fun md_size :: "metadata_inner \<Rightarrow> u64" where
  "md_size (Std md) = sm_len md"
| "md_size (Statx st) = stx_size st"

fun md_atime :: "metadata_inner \<Rightarrow> int" where
  "md_atime (Std md) = tv_sec (sm_atime md)"
| "md_atime (Statx st) = tv_sec (stx_atime st)"

fun md_atime_nsec :: "metadata_inner \<Rightarrow> int" where
  "md_atime_nsec (Std md) = int (tv_nsec (sm_atime md))"
| "md_atime_nsec (Statx st) = int (tv_nsec (stx_atime st))"

fun md_mtime :: "metadata_inner \<Rightarrow> int" where
  "md_mtime (Std md) = tv_sec (sm_mtime md)"
| "md_mtime (Statx st) = tv_sec (stx_mtime st)"

fun md_mtime_nsec :: "metadata_inner \<Rightarrow> int" where
  "md_mtime_nsec (Std md) = int (tv_nsec (sm_mtime md))"
| "md_mtime_nsec (Statx st) = int (tv_nsec (stx_mtime st))"

fun md_ctime :: "metadata_inner \<Rightarrow> int" where
  "md_ctime (Std md) = tv_sec (sm_ctime md)"
| "md_ctime (Statx st) = tv_sec (stx_ctime st)"

fun md_ctime_nsec :: "metadata_inner \<Rightarrow> int" where
  "md_ctime_nsec (Std md) = int (tv_nsec (sm_ctime md))"
| "md_ctime_nsec (Statx st) = int (tv_nsec (stx_ctime st))"

fun md_blksize :: "metadata_inner \<Rightarrow> u64" where
  "md_blksize (Std md) = sm_blksize md"
| "md_blksize (Statx st) = ucast (stx_blksize st)"

fun md_blocks :: "metadata_inner \<Rightarrow> u64" where
  "md_blocks (Std md) = sm_blocks md"
| "md_blocks (Statx st) = stx_blocks st"

subsection \<open>The two representations\<close>

text \<open>
  What the kernel knows of a file, as \<open>statx\<close> and \<open>stat\<close> report it (\<open>statx(2)\<close>): the first splits device numbers,
  the second has them whole. A number of links and a block size fit 32 bits.
\<close>

record file_attr =
  fa_mode :: u16
  fa_size :: u64
  fa_ino :: u64
  fa_nlink :: u32
  fa_uid :: u32
  fa_gid :: u32
  fa_dev :: u64
  fa_rdev :: u64
  fa_blksize :: u32
  fa_blocks :: u64
  fa_atime :: timestamp
  fa_btime :: timestamp
  fa_ctime :: timestamp
  fa_mtime :: timestamp
  fa_subvol :: u64
  fa_attributes :: u64

definition kernel_statx :: "(u64 \<Rightarrow> u32 \<times> u32) \<Rightarrow> file_attr \<Rightarrow> statx" where
  "kernel_statx split_dev f =
     \<lparr>stx_blksize = fa_blksize f, stx_attributes = fa_attributes f, stx_nlink = fa_nlink f, stx_uid = fa_uid f, stx_gid = fa_gid f,
      stx_mode = fa_mode f, stx_ino = fa_ino f, stx_size = fa_size f, stx_blocks = fa_blocks f, stx_atime = fa_atime f,
      stx_btime = fa_btime f, stx_ctime = fa_ctime f, stx_mtime = fa_mtime f,
      stx_rdev_major = fst (split_dev (fa_rdev f)), stx_rdev_minor = snd (split_dev (fa_rdev f)),
      stx_dev_major = fst (split_dev (fa_dev f)), stx_dev_minor = snd (split_dev (fa_dev f)), stx_subvol = fa_subvol f\<rparr>"

definition std_time :: "timestamp \<Rightarrow> int" where
  "std_time ts = tv_sec ts * NANOS + int (tv_nsec ts)"

definition kernel_stat :: "file_attr \<Rightarrow> std_metadata" where
  "kernel_stat f =
     \<lparr>sm_mode = ucast (fa_mode f), sm_len = fa_size f, sm_accessed = Inr (std_time (fa_atime f)),
      sm_created = Inr (std_time (fa_btime f)), sm_modified = Inr (std_time (fa_mtime f)), sm_dev = fa_dev f, sm_ino = fa_ino f,
      sm_nlink = ucast (fa_nlink f), sm_uid = fa_uid f, sm_gid = fa_gid f, sm_rdev = fa_rdev f, sm_atime = fa_atime f,
      sm_mtime = fa_mtime f, sm_ctime = fa_ctime f, sm_blksize = ucast (fa_blksize f), sm_blocks = fa_blocks f\<rparr>"

definition valid_time :: "timestamp \<Rightarrow> bool" where
  "valid_time ts \<longleftrightarrow> - (2 ^ 63) < tv_sec ts \<and> tv_sec ts < 2 ^ 63 \<and> tv_nsec ts < 10 ^ 9"

lemma statx_time_exact_iff:
  assumes "valid_time ts"
  shows "statx_timestamp_to_system_time ts = Some (Inr (std_time ts)) \<longleftrightarrow> 0 \<le> tv_sec ts \<or> tv_nsec ts = 0"
proof (cases "0 \<le> tv_sec ts")
  case True
  then show ?thesis
    using assms statx_time_since_epoch [of ts] by (simp add: valid_time_def std_time_def)
next
  case False
  then show ?thesis
    using assms statx_time_before_epoch [of ts] by (simp add: valid_time_def std_time_def)
qed

text \<open>
  The two representations of the metadata of one file agree in every accessor, and in the three times exactly
  where these are not before the epoch with a fraction of a second.
\<close>

lemma metadata_accessors_agree:
  assumes "\<And>dev. (case split_dev dev of (ma, mi) \<Rightarrow> makedev ma mi) = dev"
  defines "x f \<equiv> Statx (kernel_statx split_dev f)" and "y f \<equiv> Std (kernel_stat f)"
  shows "md_len (x f) = md_len (y f)" "md_permissions (x f) = md_permissions (y f)" "md_file_type (x f) = md_file_type (y f)"
    "st_dev makedev (x f) = st_dev makedev (y f)" "md_dev makedev (x f) = md_dev makedev (y f)" "st_ino (x f) = st_ino (y f)"
    "md_ino (x f) = md_ino (y f)" "st_mode (x f) = st_mode (y f)" "md_mode (x f) = md_mode (y f)"
    "st_nlink (x f) = st_nlink (y f)" "md_nlink (x f) = md_nlink (y f)" "st_uid (x f) = st_uid (y f)"
    "md_uid (x f) = md_uid (y f)" "st_gid (x f) = st_gid (y f)" "md_gid (x f) = md_gid (y f)"
    "st_rdev makedev (x f) = st_rdev makedev (y f)" "md_rdev makedev (x f) = md_rdev makedev (y f)" "st_size (x f) = st_size (y f)"
    "md_size (x f) = md_size (y f)" "st_atime (x f) = st_atime (y f)" "md_atime (x f) = md_atime (y f)"
    "st_atime_nsec (x f) = st_atime_nsec (y f)" "md_atime_nsec (x f) = md_atime_nsec (y f)" "st_mtime (x f) = st_mtime (y f)"
    "md_mtime (x f) = md_mtime (y f)" "st_mtime_nsec (x f) = st_mtime_nsec (y f)" "md_mtime_nsec (x f) = md_mtime_nsec (y f)"
    "st_ctime (x f) = st_ctime (y f)" "md_ctime (x f) = md_ctime (y f)" "st_ctime_nsec (x f) = st_ctime_nsec (y f)"
    "md_ctime_nsec (x f) = md_ctime_nsec (y f)" "st_blksize (x f) = st_blksize (y f)" "md_blksize (x f) = md_blksize (y f)"
    "st_blocks (x f) = st_blocks (y f)" "md_blocks (x f) = md_blocks (y f)"
  using assms(1) by (simp_all add: x_def y_def kernel_statx_def kernel_stat_def md_file_type_def case_prod_beta)

lemma metadata_times_agree:
  assumes "valid_time (fa_mtime f)" "valid_time (fa_atime f)" "valid_time (fa_btime f)"
  shows "md_modified (Statx (kernel_statx split_dev f)) = md_modified (Std (kernel_stat f)) \<longleftrightarrow>
      0 \<le> tv_sec (fa_mtime f) \<or> tv_nsec (fa_mtime f) = 0"
    "md_accessed (Statx (kernel_statx split_dev f)) = md_accessed (Std (kernel_stat f)) \<longleftrightarrow>
      0 \<le> tv_sec (fa_atime f) \<or> tv_nsec (fa_atime f) = 0"
    "md_created (Statx (kernel_statx split_dev f)) = md_created (Std (kernel_stat f)) \<longleftrightarrow>
      0 \<le> tv_sec (fa_btime f) \<or> tv_nsec (fa_btime f) = 0"
  using assms by (simp_all add: kernel_statx_def kernel_stat_def statx_time_exact_iff)

text \<open>Exactly one of the three types, or none of them for a device, a socket or a pipe.\<close>

lemma file_type_exclusive:
  "\<not> (md_is_dir md \<and> md_is_file md)" "\<not> (md_is_dir md \<and> md_is_symlink md)" "\<not> (md_is_file md \<and> md_is_symlink md)"
  by (cases md; simp add: S_IFDIR_def S_IFREG_def S_IFLNK_def)+

text \<open>A file with a mode and nothing else.\<close>

definition sim_attr :: "u16 \<Rightarrow> file_attr" where
  "sim_attr mode = (let t = \<lparr>tv_sec = 0, tv_nsec = 0\<rparr> in
     \<lparr>fa_mode = mode, fa_size = 0, fa_ino = 0, fa_nlink = 1, fa_uid = 0, fa_gid = 0, fa_dev = 0, fa_rdev = 0, fa_blksize = 0,
      fa_blocks = 0, fa_atime = t, fa_btime = t, fa_ctime = t, fa_mtime = t, fa_subvol = 0, fa_attributes = 0\<rparr>)"

lemma sim_attr_mode [simp]: "fa_mode (sim_attr mode) = mode"
  by (simp add: sim_attr_def Let_def)

end
