(* ===== verification/Fs_Path.thy ===== *)
theory Fs_Path
  imports Fs_Metadata "HOL-Library.Countable"
begin

text \<open>
  The functions on paths: \<open>fs/stat.rs\<close>, \<open>fs/dirs.rs\<close>, \<open>fs/links.rs\<close>, \<open>fs/paths.rs\<close>. Each exists on three
  ways: an operation of \<open>Ops_Path\<close> executed by the kernel, a call of the standard library in the pool of
  blocking threads, or the call itself. The standard library's calls are parameters, like the kernel.

  \<open>create_dir_all\<close> and the loops of \<open>read\<close> and \<open>write\<close> are the program's own; the properties are about them.
\<close>

subsection \<open>The calls on paths\<close>

record 'o dir_sys = "'o path_sys" +
  ds_mkdir :: "path \<Rightarrow> 'o \<Rightarrow> 'o \<times> unit io_result"
  ds_unlink :: "bool \<Rightarrow> path \<Rightarrow> 'o \<Rightarrow> 'o \<times> unit io_result"       \<comment> \<open>\<open>remove_dir\<close>, \<open>remove_file\<close>\<close>
  ds_rename :: "path \<Rightarrow> path \<Rightarrow> 'o \<Rightarrow> 'o \<times> unit io_result"
  ds_link :: "path \<Rightarrow> path \<Rightarrow> 'o \<Rightarrow> 'o \<times> unit io_result"
  ds_symlink :: "path \<Rightarrow> path \<Rightarrow> 'o \<Rightarrow> 'o \<times> unit io_result"
  ds_stat :: "bool \<Rightarrow> path \<Rightarrow> 'o \<Rightarrow> 'o \<times> std_metadata io_result"  \<comment> \<open>\<open>symlink_metadata\<close>, \<open>metadata\<close>\<close>
  ds_statx_buf :: "mem \<Rightarrow> 'o \<Rightarrow> statx"
  ds_canonicalize :: "path \<Rightarrow> 'o \<Rightarrow> 'o \<times> path io_result"

text \<open>\<open>completion\<close>: there is a current driver and it supports completions.\<close>

definition offload_call :: "('o, 'x) fs_sys_scheme \<Rightarrow> bool \<Rightarrow> ('o \<Rightarrow> 'o \<times> 'a io_result) \<Rightarrow> 'o \<Rightarrow> 'o \<times> 'a io_result" where
  "offload_call os offload call s =
     (if offload \<and> \<not> fs_pool os s then (s, Inl blocking_pool_io_error) else call s)"

definition await_unit :: "int io_result \<Rightarrow> unit io_result" where
  "await_unit res = map_sum id (\<lambda>_. ()) (await_count res)"

definition await_paths ::
  "('o, 'x) fs_sys_scheme \<Rightarrow> path list \<Rightarrow> op_entry io_result \<Rightarrow> 'o \<Rightarrow> 'o \<times> unit io_result" where
  "await_paths os ps build s =
     (if \<exists>p\<in>set ps. has_nul p then (s, Inl (Custom InvalidInput))
      else case await_entry os build s of (s, res) \<Rightarrow> (s, await_unit res))"

definition fs_rename ::
  "('o, 'x) dir_sys_scheme \<Rightarrow> bool \<Rightarrow> bool \<Rightarrow> path \<Rightarrow> path \<Rightarrow> 'o \<Rightarrow> 'o \<times> unit io_result" where
  "fs_rename os completion offload from to s =
     (if completion
      then await_paths os [from, to] (rename_entry (rename_new (ps_cstring os from) (ps_cstring os to))) s
      else offload_call os offload (ds_rename os from to) s)"

definition fs_remove_dir :: "('o, 'x) dir_sys_scheme \<Rightarrow> bool \<Rightarrow> bool \<Rightarrow> path \<Rightarrow> 'o \<Rightarrow> 'o \<times> unit io_result" where
  "fs_remove_dir os completion offload p s =
     (if completion then await_paths os [p] (unlink_entry (unlink_new (ps_cstring os p) True)) s
      else offload_call os offload (ds_unlink os True p) s)"

definition fs_remove_file :: "('o, 'x) dir_sys_scheme \<Rightarrow> bool \<Rightarrow> bool \<Rightarrow> path \<Rightarrow> 'o \<Rightarrow> 'o \<times> unit io_result" where
  "fs_remove_file os completion offload p s =
     (if completion then await_paths os [p] (unlink_entry (unlink_new (ps_cstring os p) False)) s
      else offload_call os offload (ds_unlink os False p) s)"

definition DIR_MODE :: nat where "DIR_MODE = 511"

definition fs_create_dir :: "('o, 'x) dir_sys_scheme \<Rightarrow> bool \<Rightarrow> bool \<Rightarrow> path \<Rightarrow> 'o \<Rightarrow> 'o \<times> unit io_result" where
  "fs_create_dir os completion offload p s =
     (if completion then await_paths os [p] (mkdir_entry (mkdir_new (ps_cstring os p) DIR_MODE)) s
      else offload_call os offload (ds_mkdir os p) s)"

definition fs_hard_link ::
  "('o, 'x) dir_sys_scheme \<Rightarrow> bool \<Rightarrow> bool \<Rightarrow> path \<Rightarrow> path \<Rightarrow> 'o \<Rightarrow> 'o \<times> unit io_result" where
  "fs_hard_link os completion offload src dst s =
     (if completion
      then await_paths os [src, dst] (hard_link_entry (hard_link_new (ps_cstring os src) (ps_cstring os dst))) s
      else offload_call os offload (ds_link os src dst) s)"

definition fs_symlink_file ::
  "('o, 'x) dir_sys_scheme \<Rightarrow> bool \<Rightarrow> bool \<Rightarrow> path \<Rightarrow> path \<Rightarrow> 'o \<Rightarrow> 'o \<times> unit io_result" where
  "fs_symlink_file os completion offload src dst s =
     (if completion
      then await_paths os [src, dst] (symlink_entry (symlink_new (ps_cstring os src) (ps_cstring os dst))) s
      else offload_call os offload (ds_symlink os src dst) s)"

definition fs_symlink_dir ::
  "('o, 'x) dir_sys_scheme \<Rightarrow> bool \<Rightarrow> bool \<Rightarrow> path \<Rightarrow> path \<Rightarrow> 'o \<Rightarrow> 'o \<times> unit io_result" where
  "fs_symlink_dir os completion offload src dst s =
     (if completion
      then await_paths os [src, dst] (symlink_entry (symlink_new (ps_cstring os src) (ps_cstring os dst))) s
      else offload_call os offload (ds_symlink os src dst) s)"

definition fs_symlink ::
  "('o, 'x) dir_sys_scheme \<Rightarrow> bool \<Rightarrow> bool \<Rightarrow> path \<Rightarrow> path \<Rightarrow> 'o \<Rightarrow> 'o \<times> unit io_result" where
  "fs_symlink os completion offload src dst s = fs_symlink_file os completion offload src dst s"

definition fs_canonicalize :: "('o, 'x) dir_sys_scheme \<Rightarrow> bool \<Rightarrow> path \<Rightarrow> 'o \<Rightarrow> 'o \<times> path io_result" where
  "fs_canonicalize os offload p s = offload_call os offload (ds_canonicalize os p) s"

definition AT_FDCWD :: int where "AT_FDCWD = -100"
definition AT_SYMLINK_NOFOLLOW :: int where "AT_SYMLINK_NOFOLLOW = 256"
definition STATX_ALL :: u32 where "STATX_ALL = 0xFFF"

text \<open>\<open>b\<close>: the block of memory of the operation's statx buffer.\<close>

definition fs_stat ::
  "('o, 'x) dir_sys_scheme \<Rightarrow> bool \<Rightarrow> int \<Rightarrow> bool \<Rightarrow> bool \<Rightarrow> mem \<Rightarrow> path \<Rightarrow> 'o \<Rightarrow> 'o \<times> metadata_inner io_result" where
  "fs_stat os follow flags completion offload b p s =
     (if completion
      then (case await_paths os [p] (statx_entry b (statx_new AT_FDCWD (ps_cstring os p) flags STATX_ALL)) s of
              (s, res) \<Rightarrow> (s, map_sum id (\<lambda>_. Statx (ds_statx_buf os b s)) res))
      else (case offload_call os offload (ds_stat os follow p) s of (s, res) \<Rightarrow> (s, map_sum id Std res)))"

definition fs_metadata ::
  "('o, 'x) dir_sys_scheme \<Rightarrow> bool \<Rightarrow> bool \<Rightarrow> mem \<Rightarrow> path \<Rightarrow> 'o \<Rightarrow> 'o \<times> metadata_inner io_result" where
  "fs_metadata os completion offload b p s = fs_stat os True 0 completion offload b p s"

definition fs_symlink_metadata ::
  "('o, 'x) dir_sys_scheme \<Rightarrow> bool \<Rightarrow> bool \<Rightarrow> mem \<Rightarrow> path \<Rightarrow> 'o \<Rightarrow> 'o \<times> metadata_inner io_result" where
  "fs_symlink_metadata os completion offload b p s =
     fs_stat os False AT_SYMLINK_NOFOLLOW completion offload b p s"

text \<open>
  \<open>File::metadata\<close> (\<open>fs/file.rs\<close>): the statx of an empty path relative to the descriptor, or \<open>fstat\<close>, a parameter, on the
  descriptor or a duplicate of it.
\<close>

definition AT_EMPTY_PATH :: int where "AT_EMPTY_PATH = 4096"

definition metadata_blocking ::
  "(int \<Rightarrow> 'o \<Rightarrow> 'o \<times> std_metadata io_result) \<Rightarrow> int \<Rightarrow> 'o \<Rightarrow> 'o \<times> metadata_inner io_result" where
  "metadata_blocking fstat fd s = (case fstat fd s of (s, res) \<Rightarrow> (s, map_sum id Std res))"

definition metadata_in_blocking_pool ::
  "('o, 'x) dir_sys_scheme \<Rightarrow> (int \<Rightarrow> 'o \<Rightarrow> 'o \<times> std_metadata io_result) \<Rightarrow> int \<Rightarrow> 'o \<Rightarrow> 'o \<times> metadata_inner io_result" where
  "metadata_in_blocking_pool os fstat fd s = in_blocking_pool os fd (metadata_blocking fstat) s"

definition file_metadata ::
  "('o, 'x) dir_sys_scheme \<Rightarrow> (int \<Rightarrow> 'o \<Rightarrow> 'o \<times> std_metadata io_result) \<Rightarrow> bool \<Rightarrow> mem \<Rightarrow> vibe_file \<Rightarrow> 'o \<Rightarrow>
   'o \<times> metadata_inner io_result" where
  "file_metadata os fstat offload b f s =
     (case fl_io f of
        CompletionIo h \<Rightarrow>
          (case await_entry os (statx_entry b (statx_new (h_handle h) (ps_cstring os (Path False [])) AT_EMPTY_PATH STATX_ALL)) s of
             (s, res) \<Rightarrow> (s, map_sum id (\<lambda>_. Statx (ds_statx_buf os b s)) (await_unit res)))
      | BlockingIo \<Rightarrow>
          if offload then metadata_in_blocking_pool os fstat (fl_inner f) s else metadata_blocking fstat (fl_inner f) s)"

text \<open>The three ways report the same attributes of an open file, whatever represents them.\<close>

lemma file_metadata_agrees:
  assumes "fs_kernel os (EStatx fd (ps_cstring os (Path False [])) AT_EMPTY_PATH STATX_ALL b) s = (s1, 0)"
    and "ds_statx_buf os b s1 = kernel_statx split_dev fa"
    and "fs_dup os fd s = (s2, Inr fd')" and "fs_pool os s2" and "fstat fd' s2 = (s3, Inr (kernel_stat fa))"
    and "fstat fd s = (s4, Inr (kernel_stat fa))"
    and "fl_io f = CompletionIo h" and "h_handle h = fd" and "fl_io g = BlockingIo" and "fl_inner g = fd"
  shows "snd (file_metadata os fstat offload b f s) = Inr (Statx (kernel_statx split_dev fa))"
    "snd (file_metadata os fstat offload b g s) = Inr (Std (kernel_stat fa))"
  using assms
  by (auto simp: file_metadata_def await_entry_def statx_entry_def statx_new_def statx_buf_def await_unit_def await_count_def
      metadata_in_blocking_pool_def in_blocking_pool_def metadata_blocking_def)

subsection \<open>\<open>create_dir_all\<close>\<close>

text \<open>The directory exists already: an error unless it is one.\<close>

definition existing_dir ::
  "('o, 'x) dir_sys_scheme \<Rightarrow> bool \<Rightarrow> bool \<Rightarrow> mem \<Rightarrow> path \<Rightarrow> 'o \<Rightarrow> 'o \<times> bool" where
  "existing_dir os completion offload b p s =
     (case fs_metadata os completion offload b p s of
        (s, Inr md) \<Rightarrow> (s, md_is_dir md)
      | (s, Inl _) \<Rightarrow> (s, False))"

text \<open>The first loop walks up to a directory that can be made or exists; the paths below it are the stack.\<close>

function climb ::
  "('o, 'x) dir_sys_scheme \<Rightarrow> bool \<Rightarrow> bool \<Rightarrow> mem \<Rightarrow> path list \<Rightarrow> path \<Rightarrow> 'o \<Rightarrow> 'o \<times> path list io_result" where
  "climb os completion offload b stack p s =
     (case fs_create_dir os completion offload p s of
        (s, Inr _) \<Rightarrow> (s, Inr stack)
      | (s, Inl err) \<Rightarrow>
          if err_kind err = AlreadyExists
          then (case existing_dir os completion offload b p s of
                  (s, is_dir) \<Rightarrow> if is_dir then (s, Inr stack) else (s, Inl err))
          else if err_kind err = NotFound
          then (case parent p of
                  None \<Rightarrow> (s, Inl err)
                | Some q \<Rightarrow> climb os completion offload b (p # stack) q s)
          else (s, Inl err))"
  by pat_completeness auto
termination
  by (relation "measure (\<lambda>(os, completion, offload, b, stack, p, s). case p of Path a cs \<Rightarrow> length cs)")
    (auto split: path.splits if_splits)

declare climb.simps [simp del]

fun descend ::
  "('o, 'x) dir_sys_scheme \<Rightarrow> bool \<Rightarrow> bool \<Rightarrow> mem \<Rightarrow> path list \<Rightarrow> 'o \<Rightarrow> 'o \<times> unit io_result" where
  "descend os completion offload b [] s = (s, Inr ())"
| "descend os completion offload b (p # stack) s =
     (case fs_create_dir os completion offload p s of
        (s, Inr _) \<Rightarrow> descend os completion offload b stack s
      | (s, Inl err) \<Rightarrow>
          if err_kind err = AlreadyExists
          then (case existing_dir os completion offload b p s of
                  (s, is_dir) \<Rightarrow> if is_dir then descend os completion offload b stack s else (s, Inl err))
          else (s, Inl err))"

definition fs_create_dir_all ::
  "('o, 'x) dir_sys_scheme \<Rightarrow> bool \<Rightarrow> bool \<Rightarrow> mem \<Rightarrow> path \<Rightarrow> 'o \<Rightarrow> 'o \<times> unit io_result" where
  "fs_create_dir_all os completion offload b p s =
     (case climb os completion offload b [] p s of
        (s, Inl err) \<Rightarrow> (s, Inl err)
      | (s, Inr stack) \<Rightarrow> descend os completion offload b stack s)"

subsection \<open>Directory trees\<close>

datatype node = DirNode | FileNode

type_synonym tree = "path \<Rightarrow> node option"

text \<open>\<open>mkdir(2)\<close> on a tree.\<close>

fun mkdir_spec :: "tree \<Rightarrow> path \<Rightarrow> tree \<times> unit io_result" where
  "mkdir_spec t (Path a cs) =
     (if cs = [] then (t, Inl (Os (if a then 17 else 2)))
      else if \<exists>k<length cs. t (Path a (take k cs)) = Some FileNode then (t, Inl (Os 20))
      else if t (Path a cs) \<noteq> None then (t, Inl (Os 17))
      else if t (Path a (butlast cs)) = None then (t, Inl (Os 2))
      else (t(Path a cs \<mapsto> DirNode), Inr ()))"

definition tree_ok :: "tree \<Rightarrow> bool" where
  "tree_ok t \<longleftrightarrow>
     (\<forall>a. t (Path a []) = Some DirNode) \<and> (\<forall>a cs c. t (Path a (cs @ [c])) \<noteq> None \<longrightarrow> t (Path a cs) = Some DirNode)"

fun errno_result :: "unit io_result \<Rightarrow> int" where
  "errno_result (Inr _) = 0"
| "errno_result (Inl (Os e)) = - e"
| "errno_result (Inl (Custom _)) = -5"

text \<open>What \<open>create_dir\<close> and \<open>metadata\<close> rely on, on the tree of the operating system's state.\<close>

definition honest_dirs :: "('o, 'x) dir_sys_scheme \<Rightarrow> ('o \<Rightarrow> tree) \<Rightarrow> mem \<Rightarrow> bool" where
  "honest_dirs os tree b \<longleftrightarrow>
     (\<forall>s. fs_pool os s) \<and>
     (\<forall>p s. \<exists>s' res. ds_mkdir os p s = (s', res) \<and> mkdir_spec (tree s) p = (tree s', res) \<and>
        fs_kernel os (EMkDirAt (ps_cstring os p) DIR_MODE) s = (s', errno_result res)) \<and>
     (\<forall>p s n. tree s p = Some n \<longrightarrow>
        (\<exists>s' md. ds_stat os True p s = (s', Inr md) \<and> tree s' = tree s \<and>
           (sm_mode md AND S_IFMT = S_IFDIR \<longleftrightarrow> n = DirNode))) \<and>
     (\<forall>p s n. tree s p = Some n \<longrightarrow>
        (\<exists>s'. fs_kernel os (EStatx AT_FDCWD (ps_cstring os p) 0 STATX_ALL b) s = (s', 0) \<and> tree s' = tree s \<and>
           (ucast (stx_mode (ds_statx_buf os b s')) AND S_IFMT = S_IFDIR \<longleftrightarrow> n = DirNode)))"

lemma mkdir_spec_errno:
  "mkdir_spec t p = (t', Inl err) \<Longrightarrow> \<exists>e. err = Os e \<and> 0 < e"
  by (cases p) (auto split: if_splits)

lemma fs_create_dir_spec:
  assumes "honest_dirs os tree b" "\<not> has_nul p"
  shows "\<exists>s' res. fs_create_dir os completion offload p s = (s', res) \<and> mkdir_spec (tree s) p = (tree s', res)"
proof -
  obtain s' res where r: "ds_mkdir os p s = (s', res)" "mkdir_spec (tree s) p = (tree s', res)"
    "fs_kernel os (EMkDirAt (ps_cstring os p) DIR_MODE) s = (s', errno_result res)" "\<forall>s. fs_pool os s"
    using assms(1) unfolding honest_dirs_def by metis
  have "await_unit (Inr (errno_result res)) = res"
    using mkdir_spec_errno [of "tree s" p "tree s'"] r(2)
    by (cases res) (auto simp: await_unit_def await_count_def)
  with r assms(2) show ?thesis
    by (simp add: fs_create_dir_def await_paths_def mkdir_entry_def mkdir_new_def await_entry_def offload_call_def)
qed

lemma existing_dir_spec:
  assumes "honest_dirs os tree b" "\<not> has_nul p" "tree s p = Some n"
  shows "\<exists>s'. existing_dir os completion offload b p s = (s', n = DirNode) \<and> tree s' = tree s"
proof -
  obtain s1 md where 1: "ds_stat os True p s = (s1, Inr md)" "tree s1 = tree s"
    "sm_mode md AND S_IFMT = S_IFDIR \<longleftrightarrow> n = DirNode" "\<forall>s. fs_pool os s"
    using assms(1,3) unfolding honest_dirs_def by metis
  obtain s2 where 2: "fs_kernel os (EStatx AT_FDCWD (ps_cstring os p) 0 STATX_ALL b) s = (s2, 0)" "tree s2 = tree s"
    "ucast (stx_mode (ds_statx_buf os b s2)) AND S_IFMT = S_IFDIR \<longleftrightarrow> n = DirNode"
    using assms(1,3) unfolding honest_dirs_def by metis
  show ?thesis
    using 1 2 assms(2)
    by (cases completion)
      (simp_all add: existing_dir_def fs_metadata_def fs_stat_def await_paths_def statx_entry_def statx_new_def
        statx_buf_def await_entry_def await_unit_def await_count_def offload_call_def)
qed

lemma set_join_components: "set (join_components cs) \<subseteq> insert 47 (\<Union>c\<in>set cs. set c)"
  by (induction cs rule: join_components.induct) auto

lemma no_nul: "\<forall>c\<in>set cs. 0 \<notin> set c \<Longrightarrow> \<not> has_nul (Path a (take k cs))"
  using set_join_components [of "take k cs"] by (auto simp: has_nul_def dest!: in_set_takeD)

text \<open>The tree with the first \<open>j\<close> levels of a path made.\<close>

definition grown :: "bool \<Rightarrow> bytes list \<Rightarrow> nat \<Rightarrow> tree \<Rightarrow> tree" where
  "grown a cs j t = (\<lambda>q. if \<exists>i\<le>j. q = Path a (take i cs) then Some DirNode else t q)"

definition no_file_above :: "bool \<Rightarrow> bytes list \<Rightarrow> tree \<Rightarrow> bool" where
  "no_file_above a cs t \<longleftrightarrow> (\<forall>k\<le>length cs. t (Path a (take k cs)) \<noteq> Some FileNode)"

lemma tree_ok_prefix:
  assumes "tree_ok t" "t (Path a (take k cs)) \<noteq> None" "i < k" "k \<le> length cs"
  shows "t (Path a (take i cs)) = Some DirNode"
  using assms(2-4)
proof (induction k)
  case (Suc k)
  have "t (Path a (take k cs)) = Some DirNode"
    using assms(1) Suc.prems(1,3) unfolding tree_ok_def by (metis take_Suc_conv_app_nth Suc_le_lessD)
  then show ?case
    using Suc by (cases "i = k") auto
qed simp

lemma grown_existing:
  assumes "tree_ok t" "no_file_above a cs t" "k \<le> length cs" "t (Path a (take k cs)) \<noteq> None"
  shows "grown a cs k t = t"
proof -
  have "t (Path a (take i cs)) = Some DirNode" if "i \<le> k" for i
  proof (cases "i = k")
    case True
    obtain n where "t (Path a (take k cs)) = Some n"
      using assms(4) by blast
    with True assms(2,3) show ?thesis
      by (cases n) (auto simp: no_file_above_def)
  qed (use that tree_ok_prefix [OF assms(1,4)] assms(3) in simp)
  then show ?thesis
    by (auto simp: grown_def fun_eq_iff)
qed

lemma grown_Suc: "grown a cs (Suc k) t = (grown a cs k t)(Path a (take (Suc k) cs) \<mapsto> DirNode)"
  by (auto simp: grown_def fun_eq_iff le_Suc_eq)

lemma take_eq_length: "k \<le> length cs \<Longrightarrow> i \<le> length cs \<Longrightarrow> take i cs = take k cs \<longleftrightarrow> i = k"
  by (metis length_take min.absorb2)

text \<open>
  \<open>mkdir\<close> at level \<open>Suc k\<close> of a tree that has been grown to level \<open>j\<close>: made, found, or its parent is missing.
\<close>

lemma mkdir_grown:
  assumes ok: "tree_ok t" "no_file_above a cs t" and k: "k < length cs" and j: "j \<le> k"
    and t': "t' = grown a cs j t"
  shows "if t' (Path a (take (Suc k) cs)) \<noteq> None
     then mkdir_spec t' (Path a (take (Suc k) cs)) = (t', Inl (Os 17)) \<and>
       t' (Path a (take (Suc k) cs)) = Some DirNode \<and> grown a cs (Suc k) t = t'
     else if t' (Path a (take k cs)) \<noteq> None
     then mkdir_spec t' (Path a (take (Suc k) cs)) = (grown a cs (Suc k) t, Inr ())
     else mkdir_spec t' (Path a (take (Suc k) cs)) = (t', Inl (Os 2))"
proof -
  have nofile: "t' (Path a (take i cs)) \<noteq> Some FileNode" if "i \<le> length cs" for i
    using ok(2) that by (auto simp: t' grown_def no_file_above_def)
  have level: "t' (Path a (take i cs)) = t (Path a (take i cs))" if "j < i" "i \<le> length cs" for i
    using that take_eq_length [of _ cs] j k by (auto simp: t' grown_def)
  have butlast: "butlast (take (Suc k) cs) = take k cs" "take (Suc k) cs \<noteq> []"
    using k by (simp_all add: take_Suc_conv_app_nth)
  have spec: "mkdir_spec t' (Path a (take (Suc k) cs)) =
      (if t' (Path a (take (Suc k) cs)) \<noteq> None then (t', Inl (Os 17))
       else if t' (Path a (take k cs)) = None then (t', Inl (Os 2))
       else (t'(Path a (take (Suc k) cs) \<mapsto> DirNode), Inr ()))"
    using butlast nofile k by (auto simp: min_def)
  show ?thesis
  proof (cases "t' (Path a (take (Suc k) cs)) = None")
    case False
    then have "t (Path a (take (Suc k) cs)) \<noteq> None"
      using level [of "Suc k"] j k by simp
    then have "grown a cs (Suc k) t = t" "grown a cs j t = t"
      using grown_existing [OF ok] tree_ok_prefix [OF ok(1)] k j by (auto simp: Suc_le_eq intro!: grown_existing [OF ok])
    then show ?thesis
      using False spec nofile [of "Suc k"] k t' by (auto, (metis node.exhaust)+)
  next
    case True
    have "grown a cs (Suc k) t = t'(Path a (take (Suc k) cs) \<mapsto> DirNode)" if "t' (Path a (take k cs)) \<noteq> None"
    proof (cases "j = k")
      case False
      then have "t (Path a (take k cs)) \<noteq> None"
        using that level [of k] j k by simp
      then have "grown a cs k t = t" "grown a cs j t = t"
        using grown_existing [OF ok] tree_ok_prefix [OF ok(1)] k j False by (auto intro!: grown_existing [OF ok])
      then show ?thesis
        by (simp add: t' grown_Suc)
    qed (simp add: t' grown_Suc)
    then show ?thesis
      using True spec by auto
  qed
qed

lemma descend_grows:
  assumes honest: "honest_dirs os tree b" and ok: "tree_ok t" "no_file_above a cs t"
    and nul: "\<forall>c\<in>set cs. 0 \<notin> set c" and "j \<le> n" "n \<le> length cs" and "tree s = grown a cs j t"
  shows "\<exists>s'. descend os completion offload b (map (\<lambda>i. Path a (take i cs)) [Suc j..<Suc n]) s = (s', Inr ()) \<and>
    tree s' = grown a cs n t"
  using assms(5-7)
proof (induction "n - j" arbitrary: j s)
  case (Suc d)
  let ?p = "Path a (take (Suc j) cs)"
  have up: "[Suc j..<Suc n] = Suc j # [Suc (Suc j)..<Suc n]"
    using Suc.hyps(2) by (intro upt_conv_Cons) simp
  obtain s1 res where s1: "fs_create_dir os completion offload ?p s = (s1, res)" "mkdir_spec (tree s) ?p = (tree s1, res)"
    using fs_create_dir_spec [OF honest no_nul [OF nul]] by blast
  have IH: "\<exists>s'. descend os completion offload b (map (\<lambda>i. Path a (take i cs)) [Suc (Suc j)..<Suc n]) s2 = (s', Inr ()) \<and>
      tree s' = grown a cs n t" if "tree s2 = grown a cs (Suc j) t" for s2
    using Suc.hyps(1) [of "Suc j" s2] Suc.hyps(2) Suc.prems that by auto
  have "tree s (Path a (take j cs)) \<noteq> None" "j < length cs"
    using Suc.hyps(2) Suc.prems(2) by (auto simp: Suc.prems(3) grown_def)
  then consider "res = Inr ()" "tree s1 = grown a cs (Suc j) t"
    | "res = Inl (Os 17)" "tree s1 = grown a cs (Suc j) t" "tree s1 ?p = Some DirNode"
    using mkdir_grown [OF ok _ order_refl Suc.prems(3)] s1(2)
    by (auto simp del: mkdir_spec.simps split: if_splits)
  then show ?case
  proof cases
    case 1
    then show ?thesis
      using IH [of s1] s1(1) up by simp
  next
    case 2
    obtain s2 where "existing_dir os completion offload b ?p s1 = (s2, True)" "tree s2 = tree s1"
      using existing_dir_spec [OF honest no_nul [OF nul] 2(3)] by auto
    then show ?thesis
      using IH [of s2] s1(1) up 2 by (simp add: decode_error_kind_def)
  qed
qed simp

lemma climb_grows:
  assumes honest: "honest_dirs os tree b" and ok: "tree_ok t" "no_file_above a cs t"
    and nul: "\<forall>c\<in>set cs. 0 \<notin> set c" and "k \<le> length cs" and "0 < k \<or> a" and "tree s = t"
  shows "\<exists>s' j. climb os completion offload b stack (Path a (take k cs)) s =
      (s', Inr (map (\<lambda>i. Path a (take i cs)) [Suc j..<Suc k] @ stack)) \<and> j \<le> k \<and> tree s' = grown a cs j t"
  using assms(5-7)
proof (induction k arbitrary: s stack)
  case 0
  have g: "grown a cs 0 t = t"
    using ok(1) by (auto simp: grown_def tree_ok_def fun_eq_iff)
  obtain s1 res where s1: "fs_create_dir os completion offload (Path a (take 0 cs)) s = (s1, res)"
    "mkdir_spec (tree s) (Path a (take 0 cs)) = (tree s1, res)"
    using fs_create_dir_spec [OF honest no_nul [OF nul]] by blast
  then have r: "res = Inl (Os 17)" "tree s1 = t"
    using 0 by auto
  obtain s2 where s2: "existing_dir os completion offload b (Path a (take 0 cs)) s1 = (s2, True)" "tree s2 = t"
    using existing_dir_spec [OF honest no_nul [OF nul], of s1 a 0 DirNode completion offload] r ok(1) by (auto simp: tree_ok_def)
  show ?case
    using s1(1) s2 r g by (intro exI [of _ s2] exI [of _ 0]) (simp add: climb.simps decode_error_kind_def)
next
  case (Suc k)
  let ?p = "Path a (take (Suc k) cs)"
  obtain s1 res where s1: "fs_create_dir os completion offload ?p s = (s1, res)" "mkdir_spec (tree s) ?p = (tree s1, res)"
    using fs_create_dir_spec [OF honest no_nul [OF nul]] by blast
  have t: "t = grown a cs 0 t"
    using ok(1) by (auto simp: grown_def tree_ok_def fun_eq_iff)
  consider "res = Inr ()" "tree s1 = grown a cs (Suc k) t"
    | "res = Inl (Os 17)" "tree s1 = grown a cs (Suc k) t" "tree s1 ?p = Some DirNode"
    | "res = Inl (Os 2)" "tree s1 = t" "t (Path a (take k cs)) = None"
    using mkdir_grown [OF ok _ _ t, of k] s1(2) Suc.prems by (auto simp del: mkdir_spec.simps split: if_splits)
  then show ?case
  proof cases
    case 1
    then show ?thesis
      using s1(1) by (intro exI [of _ s1] exI [of _ "Suc k"]) (simp add: climb.simps)
  next
    case 2
    obtain s2 where "existing_dir os completion offload b ?p s1 = (s2, True)" "tree s2 = tree s1"
      using existing_dir_spec [OF honest no_nul [OF nul] 2(3)] by auto
    then show ?thesis
      using s1(1) 2 by (intro exI [of _ s2] exI [of _ "Suc k"]) (simp add: climb.simps decode_error_kind_def)
  next
    case 3
    have "0 < k"
      using 3(3) ok(1) by (cases k) (auto simp: tree_ok_def)
    moreover have "parent ?p = Some (Path a (take k cs))"
      using Suc.prems(1) by (simp add: take_Suc_conv_app_nth)
    moreover obtain s' j where "climb os completion offload b (?p # stack) (Path a (take k cs)) s1 =
        (s', Inr (map (\<lambda>i. Path a (take i cs)) [Suc j..<Suc k] @ ?p # stack))" "j \<le> k" "tree s' = grown a cs j t"
      using Suc.IH [of s1 "?p # stack"] Suc.prems \<open>0 < k\<close> 3(2) by auto
    ultimately show ?thesis
      using s1(1) 3(1) by (intro exI [of _ s'] exI [of _ j]) (subst climb.simps, simp add: decode_error_kind_def)
  qed
qed

text \<open>A file in the way: the first \<open>mkdir\<close> says so.\<close>

lemma climb_file_in_the_way:
  assumes honest: "honest_dirs os tree b" and nul: "\<forall>c\<in>set cs. 0 \<notin> set c" and ok: "tree_ok (tree s)"
    and k: "k \<le> length cs" "tree s (Path a (take k cs)) = Some FileNode"
  shows "\<exists>s' err. climb os completion offload b [] (Path a cs) s = (s', Inl err) \<and> tree s' = tree s"
proof -
  have cs: "cs \<noteq> []" "\<not> has_nul (Path a cs)"
    using k ok no_nul [OF nul, of a "length cs"] by (auto simp: tree_ok_def)
  obtain s1 res where s1: "fs_create_dir os completion offload (Path a cs) s = (s1, res)"
    "mkdir_spec (tree s) (Path a cs) = (tree s1, res)"
    using fs_create_dir_spec [OF honest cs(2)] by blast
  show ?thesis
  proof (cases "k = length cs")
    case True
    then have "\<not> (\<exists>i<length cs. tree s (Path a (take i cs)) = Some FileNode)"
      using tree_ok_prefix [OF ok, of a "length cs" cs] k by auto
    then have r: "res = Inl (Os 17)" "tree s1 = tree s"
      using s1(2) cs True k by (auto split: if_splits)
    obtain s2 where "existing_dir os completion offload b (Path a cs) s1 = (s2, False)" "tree s2 = tree s1"
      using existing_dir_spec [OF honest cs(2), of s1 FileNode completion offload] True k r by auto
    then show ?thesis
      using s1(1) r by (simp add: climb.simps decode_error_kind_def)
  next
    case False
    then have "res = Inl (Os 20)" "tree s1 = tree s"
      using s1(2) cs k by (auto simp: le_less split: if_splits)
    then show ?thesis
      using s1(1) by (simp add: climb.simps decode_error_kind_def)
  qed
qed

text \<open>The empty path has no parent to climb to.\<close>

lemma create_dir_all_empty:
  assumes "honest_dirs os tree b"
  shows "\<exists>s'. fs_create_dir_all os completion offload b (Path False []) s = (s', Inl (Os 2))"
proof -
  obtain s1 where "fs_create_dir os completion offload (Path False []) s = (s1, Inl (Os 2))"
    using fs_create_dir_spec [OF assms, of "Path False []" completion offload s] by (auto simp: has_nul_def)
  then show ?thesis
    by (simp add: fs_create_dir_all_def climb.simps decode_error_kind_def)
qed

subsection \<open>A tree in memory\<close>

instance path :: countable
  by countable_datatype

record tree_sim =
  ts_tree :: tree
  ts_mode :: u16

definition sim_mkdir :: "path \<Rightarrow> tree_sim \<Rightarrow> tree_sim \<times> unit io_result" where
  "sim_mkdir p s = (case mkdir_spec (ts_tree s) p of (t, res) \<Rightarrow> (s\<lparr>ts_tree := t\<rparr>, res))"

definition sim_mode :: "path \<Rightarrow> tree_sim \<Rightarrow> u16" where
  "sim_mode p s = (if ts_tree s p = Some DirNode then 0x4000 else 0x8000)"

fun sim_kernel :: "op_entry \<Rightarrow> tree_sim \<Rightarrow> tree_sim \<times> int" where
  "sim_kernel (EMkDirAt m mode) s = (case sim_mkdir (from_nat m) s of (s, res) \<Rightarrow> (s, errno_result res))"
| "sim_kernel (EStatx fd m flags msk b) s = (s\<lparr>ts_mode := sim_mode (from_nat m) s\<rparr>, 0)"
| "sim_kernel _ s = (s, 0)"

definition sim_dirs :: "tree_sim dir_sys" where
  "sim_dirs = \<lparr>fs_kernel = sim_kernel, fs_pread = (\<lambda>_ _ _ _ s. (s, Inr 0)), fs_pwrite = (\<lambda>_ _ _ _ s. (s, Inr 0)),
     fs_sync = (\<lambda>_ _ s. (s, Inr ())), fs_dup = (\<lambda>fd s. (s, Inr fd)), fs_close = (\<lambda>_ s. s), fs_pool = (\<lambda>_. True),
     ps_cstring = to_nat, ps_open = (\<lambda>_ _ _ s. (s, Inl (Os 2))), ps_len = (\<lambda>_ _. Inr 0),
     ds_mkdir = sim_mkdir, ds_unlink = (\<lambda>_ _ s. (s, Inl (Os 2))), ds_rename = (\<lambda>_ _ s. (s, Inl (Os 2))),
     ds_link = (\<lambda>_ _ s. (s, Inl (Os 2))), ds_symlink = (\<lambda>_ _ s. (s, Inl (Os 2))),
     ds_stat = (\<lambda>_ p s. (s, Inr (kernel_stat (sim_attr (sim_mode p s))))),
     ds_statx_buf = (\<lambda>_ s. kernel_statx (\<lambda>_. (0, 0)) (sim_attr (ts_mode s))),
     ds_canonicalize = (\<lambda>p s. (s, Inr p))\<rparr>"

lemma sim_honest: "honest_dirs sim_dirs ts_tree b"
  unfolding honest_dirs_def
  by (auto simp: sim_dirs_def sim_mkdir_def sim_mode_def kernel_stat_def kernel_statx_def S_IFMT_def S_IFDIR_def
      split: prod.splits)

definition sim_start :: tree_sim where
  "sim_start = \<lparr>ts_tree = (\<lambda>p. case p of Path a cs \<Rightarrow> if cs = [] then Some DirNode else None), ts_mode = 0\<rparr>"

lemma sim_start_ok: "tree_ok (ts_tree sim_start)"
  by (simp add: tree_ok_def sim_start_def)

subsection \<open>Properties\<close>

text \<open>
  C20: \<open>create_dir_all\<close> ends and makes exactly the missing directories of its path, on each of the three
  ways to reach the file system: when no component of the path is a file it succeeds, every
  prefix of the path is a directory afterwards and nothing else has changed; otherwise it fails and
  has changed nothing.
\<close>
theorem create_dir_all_exact:
  assumes honest: "honest_dirs os tree b" and ok: "tree_ok (tree s)"
    and nul: "\<forall>c\<in>set cs. 0 \<notin> set c" and "cs \<noteq> [] \<or> a"
  shows "\<exists>s' res. fs_create_dir_all os completion offload b (Path a cs) s = (s', res) \<and>
    (if no_file_above a cs (tree s) then res = Inr () \<and> tree s' = grown a cs (length cs) (tree s)
     else isl res \<and> tree s' = tree s)"
proof (cases "no_file_above a cs (tree s)")
  case True
  obtain s1 j where s1: "climb os completion offload b [] (Path a cs) s =
      (s1, Inr (map (\<lambda>i. Path a (take i cs)) [Suc j..<Suc (length cs)]))" "j \<le> length cs" "tree s1 = grown a cs j (tree s)"
    using climb_grows [OF honest ok True nul, of "length cs" s completion offload "[]"] assms(4) by auto
  obtain s2 where "descend os completion offload b (map (\<lambda>i. Path a (take i cs)) [Suc j..<Suc (length cs)]) s1 = (s2, Inr ())"
    "tree s2 = grown a cs (length cs) (tree s)"
    using descend_grows [OF honest ok True nul s1(2) order_refl s1(3)] by blast
  then show ?thesis
    using s1(1) True unfolding fs_create_dir_all_def by simp
next
  case False
  then obtain k where k: "k \<le> length cs" "tree s (Path a (take k cs)) = Some FileNode"
    by (auto simp: no_file_above_def)
  show ?thesis
    using climb_file_in_the_way [OF honest nul ok k, of completion offload] False
    by (auto simp: fs_create_dir_all_def)
qed

theorem create_dir_all_exact_witness:
  "\<exists>s'. fs_create_dir_all sim_dirs True False 0 (Path True [[97], [98], [99]]) sim_start = (s', Inr ()) \<and>
     ts_tree s' = grown True [[97], [98], [99]] 3 (ts_tree sim_start)"
proof -
  have "no_file_above True [[97], [98], [99]] (ts_tree sim_start)"
    by (simp add: no_file_above_def sim_start_def)
  then show ?thesis
    using create_dir_all_exact [OF sim_honest sim_start_ok, of "[[97], [98], [99]]" True True False 0] by (auto simp: numeral_3_eq_3)
qed

end
