(* ===== verification/Fs_Content.thy ===== *)
theory Fs_Content
  imports Fs_Open
begin

text \<open>
  The contents of files as a whole, \<open>fs/paths.rs\<close>: \<open>read\<close> and \<open>write\<close>. The file is opened, used with its cursor
  and dropped at the end, on success and on error. \<open>read\<close> uses an array of 8192 bytes in block \<open>m\<close>; each
  round of \<open>write\<close> copies the rest of the contents into a fresh \<open>Vec\<close>. The loops are partial functions:
  \<open>None\<close> when they do not end, or when the slice \<open>slice[w..]\<close> is out of range, a panic.
\<close>

record 'o content_sys = "'o path_sys" +
  cs_mem :: "'o \<Rightarrow> memory"
  cs_to_vec :: "bytes \<Rightarrow> 'o \<Rightarrow> 'o \<times> mem"

definition READ_BUFFER :: nat where "READ_BUFFER = 8192"

text \<open>The file goes out of scope: deregistration, then close.\<close>

definition drop_opened ::
  "('r, 's, 'c, 'm, 't) op_env \<Rightarrow> ('o, 'x) fs_sys_scheme \<Rightarrow> vibe_file \<Rightarrow> ('r, 's, 'c, 'm, 't) any_driver option \<Rightarrow> 'o \<Rightarrow>
   ('r, 's, 'c, 'm, 't) any_driver option \<times> 'o" where
  "drop_opened Z os f current s = (map_option (release_io Z f) current, fs_close os (fl_inner f) s)"

partial_function (option) read_loop ::
  "('o, 'x) content_sys_scheme \<Rightarrow> bool \<Rightarrow> mem \<Rightarrow> bytes \<Rightarrow> vibe_file \<Rightarrow> 'o \<Rightarrow> (vibe_file \<times> 'o \<times> bytes io_result) option" where
  "read_loop os offload m bytes f s =
     (case file_read os offload (Array m READ_BUFFER) f s of
        (f, s, Inl err, buf) \<Rightarrow> Some (f, s, Inl err)
      | (f, s, Inr n, buf) \<Rightarrow>
          if n = 0 then Some (f, s, Inr bytes)
          else read_loop os offload m (bytes @ mem_read (as_buf_ptr buf) (min (buf_len buf) n) (cs_mem os s)) f s)"

partial_function (option) write_loop ::
  "('o, 'x) content_sys_scheme \<Rightarrow> bool \<Rightarrow> bytes \<Rightarrow> vibe_file \<Rightarrow> 'o \<Rightarrow> (vibe_file \<times> 'o \<times> unit io_result) option" where
  "write_loop os offload rest f s =
     (if rest = [] then (case file_flush f of (f, res) \<Rightarrow> Some (f, s, res))
      else case cs_to_vec os rest s of
             (s, m) \<Rightarrow>
               (case file_write os offload (Vec m (length rest) (length rest)) f s of
                  (f, s, Inl err, buf) \<Rightarrow> Some (f, s, Inl err)
                | (f, s, Inr n, buf) \<Rightarrow>
                    if n = 0 then Some (f, s, Inl (Custom WriteZero))
                    else if length rest < n then None
                    else write_loop os offload (drop n rest) f s))"

text \<open>\<open>offload\<close> is \<open>offload_fs()\<close>, which needs a runtime, as \<open>current\<close> does.\<close>

definition fs_read ::
  "('r, 's, 'c, 'm, 't) op_env \<Rightarrow> ('o, 'x) content_sys_scheme \<Rightarrow> bool \<Rightarrow> mem \<Rightarrow> path \<Rightarrow>
   ('r, 's, 'c, 'm, 't) any_driver option \<Rightarrow> 'o \<Rightarrow>
   (('r, 's, 'c, 'm, 't) any_driver option \<times> 'o \<times> bytes io_result) option" where
  "fs_read Z os offload m path current s =
     (case open_file Z os offload (oo_new\<lparr>oo_read := True\<rparr>) path current s of
        (current, s, Inl err) \<Rightarrow> Some (current, s, Inl err)
      | (current, s, Inr f) \<Rightarrow>
          (case read_loop os offload m [] f s of
             None \<Rightarrow> None
           | Some (f, s, res) \<Rightarrow> (case drop_opened Z os f current s of (current, s) \<Rightarrow> Some (current, s, res))))"

definition fs_write ::
  "('r, 's, 'c, 'm, 't) op_env \<Rightarrow> ('o, 'x) content_sys_scheme \<Rightarrow> bool \<Rightarrow> path \<Rightarrow> bytes \<Rightarrow>
   ('r, 's, 'c, 'm, 't) any_driver option \<Rightarrow> 'o \<Rightarrow>
   (('r, 's, 'c, 'm, 't) any_driver option \<times> 'o \<times> unit io_result) option" where
  "fs_write Z os offload path contents current s =
     (case open_file Z os offload (oo_new\<lparr>oo_write := True, oo_create := True, oo_truncate := True\<rparr>) path current s of
        (current, s, Inl err) \<Rightarrow> Some (current, s, Inl err)
      | (current, s, Inr f) \<Rightarrow>
          (case write_loop os offload contents f s of
             None \<Rightarrow> None
           | Some (f, s, res) \<Rightarrow> (case drop_opened Z os f current s of (current, s) \<Rightarrow> Some (current, s, res))))"

text \<open>\<open>from_utf8\<close> of the standard library is a parameter.\<close>

definition fs_read_to_string ::
  "(bytes \<Rightarrow> 'a option) \<Rightarrow> ('r, 's, 'c, 'm, 't) op_env \<Rightarrow> ('o, 'x) content_sys_scheme \<Rightarrow> bool \<Rightarrow> mem \<Rightarrow> path \<Rightarrow>
   ('r, 's, 'c, 'm, 't) any_driver option \<Rightarrow> 'o \<Rightarrow>
   (('r, 's, 'c, 'm, 't) any_driver option \<times> 'o \<times> 'a io_result) option" where
  "fs_read_to_string from_utf8 Z os offload m path current s =
     (case fs_read Z os offload m path current s of
        None \<Rightarrow> None
      | Some (current, s, Inl err) \<Rightarrow> Some (current, s, Inl err)
      | Some (current, s, Inr bytes) \<Rightarrow>
          Some (current, s, (case from_utf8 bytes of None \<Rightarrow> Inl (Custom InvalidData) | Some str \<Rightarrow> Inr str)))"

subsection \<open>The loops on an honest file system\<close>

lemma file_wf_cursor [simp]: "file_wf (f\<lparr>fl_cursor := c\<rparr>) = file_wf f"
  by (cases "fl_io f") (simp_all add: file_wf_def)

lemma read_loop_all:
  assumes honest: "honest_fs os data (cs_mem os) fds" and "file_wf f" and "fl_inner f \<in> fds s"
    and "unat (fl_cursor f) \<le> length (data s)" and "length (data s) < 2 ^ 63"
    and "acc = take (unat (fl_cursor f)) (data s)"
  shows "\<exists>f' s'. read_loop os offload m acc f s = Some (f', s', Inr (data s)) \<and> fds s' = fds s \<and> data s' = data s \<and>
    fl_inner f' = fl_inner f \<and> fl_io f' = fl_io f"
  using assms(2-6)
proof (induction "length (data s) - unat (fl_cursor f)" arbitrary: f s acc rule: less_induct)
  case less
  let ?B = "Array m READ_BUFFER" and ?c = "unat (fl_cursor f)"
  have "0 < buf_len ?B" "read_keeps_len f ?B"
    by (simp_all add: READ_BUFFER_def read_keeps_len_def)
  then obtain n s1 where r: "read_at os offload f ?B (fl_cursor f) s = (s1, Inr n, ?B)" "fds s1 = fds s"
    and t: "transferred n READ_BUFFER ?c (m, 0) (data s) (cs_mem os s) (data s1) (cs_mem os s1)"
    using read_at_step [OF honest less.prems(1,2), of ?B offload "fl_cursor f"] by auto
  note t' = t [unfolded transferred_def]
  let ?f = "f\<lparr>fl_cursor := saturating_add (fl_cursor f) n\<rparr>"
  have fr: "file_read os offload ?B f s = (?f, s1, Inr n, ?B)"
    using r(1) by (simp add: file_read_def)
  show ?case
  proof (cases "n = 0")
    case True
    then have "?c = length (data s)"
      using t' less.prems(3) by (auto simp: READ_BUFFER_def)
    then show ?thesis
      using fr True t' r(2) less.prems(5) by (subst read_loop.simps) simp
  next
    case False
    have c: "unat (saturating_add (fl_cursor f) n) = ?c + n"
      using t' less.prems(3,4) by (intro unat_saturating_add) auto
    have "mem_read (m, 0) n (cs_mem os s1) = take n (drop ?c (data s))"
      using t' mem_read_write [of "(m, 0)" "take n (drop ?c (data s))" "cs_mem os s"] by simp
    then have "acc @ mem_read (m, 0) (min READ_BUFFER n) (cs_mem os s1) = take (?c + n) (data s)"
      using t' less.prems(5) by (simp add: take_add min_absorb2)
    moreover have "length (data s) - (?c + n) < length (data s) - ?c" "?c + n \<le> length (data s)"
      using t' False by auto
    ultimately have "\<exists>f' s'. read_loop os offload m (acc @ mem_read (m, 0) (min READ_BUFFER n) (cs_mem os s1)) ?f s1 =
        Some (f', s', Inr (data s1)) \<and> fds s' = fds s1 \<and> data s' = data s1 \<and>
        fl_inner f' = fl_inner ?f \<and> fl_io f' = fl_io ?f"
      using less.hyps [of s1 ?f] less.prems t' r(2) c by simp
    then show ?thesis
      using fr False t' r(2) by (subst read_loop.simps) simp
  qed
qed

lemma write_loop_all:
  assumes honest: "honest_fs os data (cs_mem os) fds"
    and vec: "\<And>bs s. \<exists>s' m. cs_to_vec os bs s = (s', m) \<and> mem_read (m, 0) (length bs) (cs_mem os s') = bs \<and>
      data s' = data s \<and> fds s' = fds s"
    and "file_wf f" and "fl_inner f \<in> fds s" and "data s = done" and "unat (fl_cursor f) = length done"
    and "length done + length rest < 2 ^ 32"
  shows "\<exists>f' s'. write_loop os offload rest f s = Some (f', s', Inr ()) \<and> fds s' = fds s \<and> data s' = done @ rest \<and>
    fl_inner f' = fl_inner f \<and> fl_io f' = fl_io f"
  using assms(3-7)
proof (induction "length rest" arbitrary: f s "done" rest rule: less_induct)
  case less
  show ?case
  proof (cases "rest = []")
    case True
    then show ?thesis
      using less.prems by (auto simp: write_loop.simps file_flush_def)
  next
    case False
    obtain s0 m where s0: "cs_to_vec os rest s = (s0, m)" "mem_read (m, 0) (length rest) (cs_mem os s0) = rest"
      "data s0 = data s" "fds s0 = fds s"
      using vec by blast
    let ?B = "Vec m (length rest) (length rest)"
    obtain n s1 where r: "write_at os offload f ?B (fl_cursor f) s0 = (s1, Inr n, ?B)" "fds s1 = fds s0"
      and t: "stored n (length rest) (length done) (m, 0) (data s0) (cs_mem os s0) (data s1) (cs_mem os s1)"
      using write_at_step [OF honest less.prems(1), of s0 ?B offload "fl_cursor f"] less.prems(2,4,5) s0(4) False by auto
    let ?f = "f\<lparr>fl_cursor := saturating_add (fl_cursor f) n\<rparr>"
    have n: "0 < n" "n \<le> length rest"
      using t False by (auto simp: stored_def)
    have "take n rest = mem_read (m, 0) n (cs_mem os s0)"
      using mem_read_add [of m 0 n "length rest - n" "cs_mem os s0"] s0(2) n(2) by (metis append_eq_conv_conj le_add_diff_inverse length_mem_read)
    then have d: "data s1 = done @ take n rest"
      using t n less.prems(3) s0(3) by (simp add: stored_def overwrite_def)
    have "unat (fl_cursor ?f) = length (done @ take n rest)"
      using less.prems(4,5) n unat_saturating_add [of "fl_cursor f" n] by simp
    then obtain f' s' where "write_loop os offload (drop n rest) ?f s1 = Some (f', s', Inr ())" "fds s' = fds s1"
      "data s' = (done @ take n rest) @ drop n rest" "fl_inner f' = fl_inner ?f" "fl_io f' = fl_io ?f"
      using less.hyps [of "drop n rest" ?f s1 "done @ take n rest"] less.prems d n r(2) s0(4) False by auto
    moreover have "file_write os offload ?B f s0 = (?f, s1, Inr n, ?B)"
      using r(1) by (simp add: file_write_def)
    ultimately show ?thesis
      using s0 r(2) n False by (subst write_loop.simps) simp
  qed
qed

subsection \<open>Opening\<close>

definition READ_FLAGS :: u32 where "READ_FLAGS = O_RDONLY OR O_CLOEXEC"
definition WRITE_FLAGS :: u32 where "WRITE_FLAGS = O_WRONLY OR O_CREAT OR O_TRUNC OR O_CLOEXEC"

text \<open>
  What opening the file at \<open>p\<close> relies on: to create and truncate it succeeds and empties it; to read it
  succeeds when the file is \<open>present\<close>, as it is after an open descriptor was closed.
\<close>

definition honest_open ::
  "('o, 'x) content_sys_scheme \<Rightarrow> path \<Rightarrow> ('o \<Rightarrow> bytes) \<Rightarrow> ('o \<Rightarrow> int set) \<Rightarrow> ('o \<Rightarrow> bool) \<Rightarrow> bool" where
  "honest_open os p data fds present \<longleftrightarrow>
     (\<forall>s. \<exists>fd s'. ps_open os p WRITE_FLAGS OPEN_MODE s = (s', Inr fd) \<and> 0 \<le> fd \<and> fd \<in> fds s' \<and> data s' = []) \<and>
     (\<forall>s. present s \<longrightarrow>
        (\<exists>fd s'. ps_open os p READ_FLAGS OPEN_MODE s = (s', Inr fd) \<and> 0 \<le> fd \<and> fd \<in> fds s' \<and> data s' = data s)) \<and>
     (\<forall>s fd. fd \<in> fds s \<longrightarrow> present (fs_close os fd s)) \<and>
     (\<forall>flags s s' fd. ps_open os p flags OPEN_MODE s = (s', Inr fd) \<longrightarrow>
        fs_kernel os (EOpenAt (ps_cstring os p) (uint flags) OPEN_MODE) s = (s', fd)) \<and>
     (\<forall>bs s. \<exists>s' m. cs_to_vec os bs s = (s', m) \<and> mem_read (m, 0) (length bs) (cs_mem os s') = bs \<and>
        data s' = data s \<and> fds s' = fds s)"

lemma open_std_flags:
  assumes "build_open_flags opts = Inr flags" "std_open_flags opts = Inr flags" "\<not> has_nul p" "\<forall>s. fs_pool os s"
    and "ps_open os p flags OPEN_MODE s = (s', Inr fd)" "0 \<le> fd"
    and "fs_kernel os (EOpenAt (ps_cstring os p) (uint flags) OPEN_MODE) s = (s', fd)"
  shows "open_std os offload opts p current s = (s', Inr fd)"
  using assms
  by (auto simp: open_std_def build_open_op_def open_new_def open_entry_def await_entry_def await_count_def
      open_in_blocking_pool_def open_blocking_def split: option.splits)

lemma open_file_opened:
  assumes "validate opts = Inr ()" "\<not> oo_append opts" "open_std os offload opts p current s = (s', Inr fd)"
  shows "\<exists>current' f. open_file Z os offload opts p current s = (current', s', Inr f) \<and>
    file_wf f \<and> fl_inner f = fd \<and> fl_cursor f = 0"
  using assms from_std_wf [of Z fd 0 current]
  by (auto simp: open_file_def initial_cursor_for_append_def split: prod.splits)

lemma fs_flags:
  "build_open_flags (oo_new\<lparr>oo_read := True\<rparr>) = Inr READ_FLAGS"
  "std_open_flags (oo_new\<lparr>oo_read := True\<rparr>) = Inr READ_FLAGS"
  "build_open_flags (oo_new\<lparr>oo_write := True, oo_create := True, oo_truncate := True\<rparr>) = Inr WRITE_FLAGS"
  "std_open_flags (oo_new\<lparr>oo_write := True, oo_create := True, oo_truncate := True\<rparr>) = Inr WRITE_FLAGS"
  "validate (oo_new\<lparr>oo_read := True\<rparr>) = Inr ()"
  "validate (oo_new\<lparr>oo_write := True, oo_create := True, oo_truncate := True\<rparr>) = Inr ()"
  by (simp_all add: build_open_flags_def std_open_flags_def std_access_mode_def std_creation_mode_def validate_def
      oo_new_def READ_FLAGS_def WRITE_FLAGS_def open_flag_defs Let_def)

subsection \<open>The disk with paths\<close>

text \<open>Every path is the one file of the disk.\<close>

definition disk_open :: "u32 \<Rightarrow> disk \<Rightarrow> disk \<times> int io_result" where
  "disk_open flags s =
     (let fd = foldr max (dk_fds s) 0 + 1
      in (s\<lparr>dk_fds := fd # dk_fds s, dk_data := (if flags AND O_TRUNC = 0 then dk_data s else [])\<rparr>, Inr fd))"

fun content_kernel :: "nat \<Rightarrow> op_entry \<Rightarrow> disk \<Rightarrow> disk \<times> int" where
  "content_kernel k (EOpenAt m flags mode) s =
     (case disk_open (word_of_int flags) s of (s, res) \<Rightarrow> (s, case res of Inr fd \<Rightarrow> fd | Inl _ \<Rightarrow> -5))"
| "content_kernel k e s = disk_kernel k e s"

definition disk_content :: "nat \<Rightarrow> disk content_sys" where
  "disk_content k = \<lparr>fs_kernel = content_kernel k, fs_pread = disk_pread k, fs_pwrite = disk_pwrite k,
     fs_sync = (\<lambda>_ _ s. (s, Inr ())), fs_dup = fs_dup (disk_fs k), fs_close = fs_close (disk_fs k), fs_pool = (\<lambda>_. True),
     ps_cstring = (\<lambda>_. 0), ps_open = (\<lambda>_ flags _. disk_open flags), ps_len = (\<lambda>_ s. Inr (of_nat (length (dk_data s)))),
     cs_mem = dk_mem, cs_to_vec = (\<lambda>bs s. (s\<lparr>dk_mem := mem_write (9, 0) bs (dk_mem s)\<rparr>, 9))\<rparr>"

lemma disk_content_honest:
  assumes "0 < k"
  shows "honest_fs (disk_content k) dk_data (cs_mem (disk_content k)) (set \<circ> dk_fds)"
proof -
  have "honest_kernel (disk_content k)"
    by (simp add: honest_kernel_def disk_content_def)
  then show ?thesis
    using disk_honest [OF assms]
    by (simp add: honest_fs_def honest_pread_def honest_pwrite_def honest_pool_def disk_content_def disk_fs_def)
qed

lemma disk_content_opens: "honest_open (disk_content k) p dk_data (set \<circ> dk_fds) (\<lambda>_. True)"
  using foldr_max_nonneg mem_read_write
  by (auto simp: honest_open_def disk_content_def disk_open_def Let_def READ_FLAGS_def WRITE_FLAGS_def open_flag_defs
      intro!: exI)

subsection \<open>Properties\<close>

text \<open>
  C27: what \<open>fs::write\<close> writes \<open>fs::read\<close> reads: both end and succeed, and the result is the contents, byte for
  byte, with and without a runtime, on the completion driver, in the pool and with blocking calls,
  and however the operating system cuts the transfers.
\<close>
theorem fs_write_read:
  assumes honest: "honest_fs os data (cs_mem os) fds" and opens: "honest_open os p data fds present"
    and nul: "\<not> has_nul p" and len: "length contents < 2 ^ 32"
  shows "\<exists>current1 s1 current2 s2. fs_write Z os offload p contents current s = Some (current1, s1, Inr ()) \<and>
    fs_read Z os offload m p current1 s1 = Some (current2, s2, Inr contents)"
proof -
  have pool: "\<forall>s. fs_pool os s" and close: "\<And>fd s. data (fs_close os fd s) = data s"
    using honest by (simp_all add: honest_fs_def honest_pool_def)
  have kernel: "\<And>flags s s' fd. ps_open os p flags OPEN_MODE s = (s', Inr fd) \<Longrightarrow>
      fs_kernel os (EOpenAt (ps_cstring os p) (uint flags) OPEN_MODE) s = (s', fd)"
    using opens unfolding honest_open_def by blast
  obtain fd s0 where s0: "ps_open os p WRITE_FLAGS OPEN_MODE s = (s0, Inr fd)" "0 \<le> fd" "fd \<in> fds s0" "data s0 = []"
    using opens unfolding honest_open_def by metis
  obtain current0 f where f: "open_file Z os offload (oo_new\<lparr>oo_write := True, oo_create := True, oo_truncate := True\<rparr>) p current s =
      (current0, s0, Inr f)" "file_wf f" "fl_inner f = fd" "fl_cursor f = 0"
    using open_file_opened [where Z = Z and current = current and offload = offload, OF fs_flags(6) _ open_std_flags [OF fs_flags(3,4) nul pool s0(1,2) kernel [OF s0(1)]]]
    by (auto simp: oo_new_def)
  obtain f' s' where w: "write_loop os offload contents f s0 = Some (f', s', Inr ())" "fds s' = fds s0" "data s' = contents"
    "fl_inner f' = fd"
    using write_loop_all [OF honest _ f(2), of s0 "[]" contents offload] opens f(3,4) s0(3,4) len
    unfolding honest_open_def by auto
  obtain current1 s1 where d: "drop_opened Z os f' current0 s' = (current1, s1)" "s1 = fs_close os fd s'"
    by (simp add: drop_opened_def w(4))
  have "present s1" "data s1 = contents"
    using opens w s0(3) d(2) close unfolding honest_open_def by auto
  then obtain fd2 s2 where s2: "ps_open os p READ_FLAGS OPEN_MODE s1 = (s2, Inr fd2)" "0 \<le> fd2" "fd2 \<in> fds s2" "data s2 = contents"
    using opens unfolding honest_open_def by metis
  obtain current2 g where g: "open_file Z os offload (oo_new\<lparr>oo_read := True\<rparr>) p current1 s1 = (current2, s2, Inr g)"
    "file_wf g" "fl_inner g = fd2" "fl_cursor g = 0"
    using open_file_opened [where Z = Z and current = current1 and offload = offload, OF fs_flags(5) _ open_std_flags [OF fs_flags(1,2) nul pool s2(1,2) kernel [OF s2(1)]]]
    by (auto simp: oo_new_def)
  obtain g' s3 where "read_loop os offload m [] g s2 = Some (g', s3, Inr contents)"
    using read_loop_all [OF honest g(2), of s2 "[]" offload m] g(3,4) s2(3,4) len by auto
  with f(1) w(1) d(1) g(1) show ?thesis
    by (auto simp: fs_write_def fs_read_def split: prod.splits)
qed

theorem fs_write_read_witness:
  "\<exists>current1 s1 current2 s2.
     fs_write ex_op_env (disk_content 3) False (Path True [[97]]) [1, 2, 3, 4, 5] (Some (IoUringDriver ex_op_uring)) ex_disk =
       Some (current1, s1, Inr ()) \<and>
     fs_read ex_op_env (disk_content 3) False 8 (Path True [[97]]) current1 s1 = Some (current2, s2, Inr [1, 2, 3, 4, 5])"
  by (rule fs_write_read [where data = dk_data and fds = "set \<circ> dk_fds" and present = "\<lambda>_. True"])
    (simp_all add: disk_content_honest disk_content_opens has_nul_def)

end
