(* ===== verification/Net_Socket.thy ===== *)
theory Net_Socket
  imports Ops_Net
begin

text \<open>
  Sockets: \<open>net/tcp/stream.rs\<close>, \<open>net/tcp/listener.rs\<close>, \<open>net/udp/mod.rs\<close>, \<open>net/udp/poll.rs\<close>; the
  Unix ones are in \<open>Net_Unix\<close>. A socket is a descriptor of the standard library with a handle of the driver;
  its reads and writes are the operations of \<open>Ops_Buffer\<close> on that handle. This theory has what the socket
  types do themselves: creation, the change between the two modes, the loops over addresses,
  readiness, and what is closed and deregistered on every path.

  The calls of the operating system are a parameter, a record on the state \<open>'o\<close>. The driver is the
  current one; a socket keeps its driver alive, so the operations on a socket take a driver.
\<close>

subsection \<open>State\<close>

record 'o sock_sys =
  sk_socket :: "nat \<Rightarrow> 'o \<Rightarrow> 'o \<times> int io_result"
  sk_setsockopt :: "int \<Rightarrow> nat \<Rightarrow> 'o \<Rightarrow> 'o \<times> unit io_result"
  sk_bind :: "int \<Rightarrow> sockaddr_storage \<times> nat \<Rightarrow> 'o \<Rightarrow> 'o \<times> unit io_result"
  sk_listen :: "int \<Rightarrow> 'o \<Rightarrow> 'o \<times> unit io_result"
  sk_connect :: "bool \<Rightarrow> int \<Rightarrow> sockaddr_storage \<times> nat \<Rightarrow> 'o \<Rightarrow> 'o \<times> unit io_result"
  sk_sendto :: "bool \<Rightarrow> int \<Rightarrow> io_buf \<Rightarrow> socket_addr \<Rightarrow> 'o \<Rightarrow> 'o \<times> nat io_result \<times> io_buf"
  sk_accept :: "bool \<Rightarrow> int \<Rightarrow> 'o \<Rightarrow> 'o \<times> (int \<times> socket_addr) io_result"
  sk_udp_bind :: "socket_addr list \<Rightarrow> 'o \<Rightarrow> 'o \<times> int io_result"
  sk_set_nonblocking :: "int \<Rightarrow> bool \<Rightarrow> 'o \<Rightarrow> 'o \<times> unit io_result"
  sk_dup :: "int \<Rightarrow> 'o \<Rightarrow> 'o \<times> int io_result"
  sk_close :: "int \<Rightarrow> 'o \<Rightarrow> 'o"

record socket =
  so_inner :: int
  so_handle :: raw_handle

record poll_socket =
  po_stream :: socket
  po_write_ready :: bool
  po_read_ready :: bool

subsection \<open>Sockets and handles\<close>

text \<open>
  \<open>from_std_with_mode\<close>. An error after the registration closes the descriptor and leaves the handle, which
  is a \<open>ManuallyDrop\<close> not owned by a socket yet, registered.
\<close>

definition socket_from_std ::
  "('r, 's, 'c, 'm, 't) op_env \<Rightarrow> 'o sock_sys \<Rightarrow> interest \<Rightarrow> registration_mode \<Rightarrow> int \<Rightarrow>
   ('r, 's, 'c, 'm, 't) any_driver option \<Rightarrow> 'o \<Rightarrow> ('r, 's, 'c, 'm, 't) any_driver option \<times> 'o \<times> socket io_result" where
  "socket_from_std Z os i mode fd current s =
     (case new_with_mode Z current fd i mode of
        (current, Inl err) \<Rightarrow> (current, sk_close os fd s, Inl err)
      | (current, Inr h) \<Rightarrow>
          (let completion = (case current of None \<Rightarrow> False | Some d \<Rightarrow> uses_completion d h) in
           case sk_set_nonblocking os fd (\<not> completion) s of
             (s, Inl err) \<Rightarrow> (current, sk_close os fd s, Inl err)
           | (s, Inr _) \<Rightarrow> (current, s, Inr \<lparr>so_inner = fd, so_handle = h\<rparr>)))"

definition socket_drop ::
  "('r, 's, 'c, 'm, 't) op_env \<Rightarrow> 'o sock_sys \<Rightarrow> socket \<Rightarrow> ('r, 's, 'c, 'm, 't) any_driver \<Rightarrow> 'o \<Rightarrow>
   ('r, 's, 'c, 'm, 't) any_driver \<times> 'o" where
  "socket_drop Z os k d s = (handle_drop Z (so_handle k) d, sk_close os (so_inner k) s)"

definition socket_into_raw_fd ::
  "('r, 's, 'c, 'm, 't) op_env \<Rightarrow> socket \<Rightarrow> ('r, 's, 'c, 'm, 't) any_driver \<Rightarrow> ('r, 's, 'c, 'm, 't) any_driver \<times> int" where
  "socket_into_raw_fd Z k d = (handle_drop Z (so_handle k) d, so_inner k)"

text \<open>The change of mode. The socket is owned here: an error drops it.\<close>

definition socket_rebind ::
  "('r, 's, 'c, 'm, 't) op_env \<Rightarrow> 'o sock_sys \<Rightarrow> registration_mode \<Rightarrow> socket \<Rightarrow> ('r, 's, 'c, 'm, 't) any_driver \<Rightarrow> 'o \<Rightarrow>
   ('r, 's, 'c, 'm, 't) any_driver \<times> 'o \<times> socket io_result" where
  "socket_rebind Z os mode k d s =
     (case rebind_mode Z mode (so_handle k) d of
        (d, h, Inl err) \<Rightarrow> (case socket_drop Z os (k\<lparr>so_handle := h\<rparr>) d s of (d, s) \<Rightarrow> (d, s, Inl err))
      | (d, h, Inr _) \<Rightarrow>
          (let k = k\<lparr>so_handle := h\<rparr> in
           case sk_set_nonblocking os (so_inner k) (\<not> uses_completion d h) s of
             (s, Inl err) \<Rightarrow> (case socket_drop Z os k d s of (d, s) \<Rightarrow> (d, s, Inl err))
           | (s, Inr _) \<Rightarrow> (d, s, Inr k)))"

definition poll_wrap :: "socket \<Rightarrow> poll_socket" where
  "poll_wrap k = \<lparr>po_stream = k, po_write_ready = False, po_read_ready = False\<rparr>"

subsection \<open>\<open>TcpStream\<close>\<close>

definition new_socket ::
  "'o sock_sys \<Rightarrow> socket_addr \<Rightarrow> 'o \<Rightarrow> 'o \<times> (int \<times> sockaddr_storage \<times> nat) io_result" where
  "new_socket os address s =
     (case socket_addr_to_raw address of
        (raw, len) \<Rightarrow>
          (case sk_socket os (ss_family raw) s of
             (s, Inl err) \<Rightarrow> (s, Inl err)
           | (s, Inr fd) \<Rightarrow> (s, Inr (fd, raw, len))))"

definition tcp_from_std_with_mode ::
  "('r, 's, 'c, 'm, 't) op_env \<Rightarrow> 'o sock_sys \<Rightarrow> registration_mode \<Rightarrow> int \<Rightarrow>
   ('r, 's, 'c, 'm, 't) any_driver option \<Rightarrow> 'o \<Rightarrow> ('r, 's, 'c, 'm, 't) any_driver option \<times> 'o \<times> socket io_result" where
  "tcp_from_std_with_mode Z os mode fd current s = socket_from_std Z os READ_WRITE mode fd current s"

text \<open>\<open>connect_one\<close> with its descriptor made: the stream of a failed connect is dropped.\<close>

definition connect_stream ::
  "('r, 's, 'c, 'm, 't) op_env \<Rightarrow> 'o sock_sys \<Rightarrow> registration_mode \<Rightarrow> int \<Rightarrow> (bool \<Rightarrow> 'o \<Rightarrow> 'o \<times> unit io_result) \<Rightarrow>
   ('r, 's, 'c, 'm, 't) any_driver option \<Rightarrow> 'o \<Rightarrow> ('r, 's, 'c, 'm, 't) any_driver option \<times> 'o \<times> socket io_result" where
  "connect_stream Z os mode fd call current s =
     (case socket_from_std Z os READ_WRITE mode fd current s of
        (Some d, s, Inr k) \<Rightarrow>
          (case call (uses_completion d (so_handle k)) s of
             (s, Inl err) \<Rightarrow> (case socket_drop Z os k d s of (d, s) \<Rightarrow> (Some d, s, Inl err))
           | (s, Inr _) \<Rightarrow> (Some d, s, Inr k))
      | (None, s, Inr k) \<Rightarrow> (None, s, Inr k)
      | (current, s, Inl err) \<Rightarrow> (current, s, Inl err))"

definition connect_with_mode ::
  "('r, 's, 'c, 'm, 't) op_env \<Rightarrow> 'o sock_sys \<Rightarrow> registration_mode \<Rightarrow> socket_addr \<Rightarrow>
   ('r, 's, 'c, 'm, 't) any_driver option \<Rightarrow> 'o \<Rightarrow> ('r, 's, 'c, 'm, 't) any_driver option \<times> 'o \<times> socket io_result" where
  "connect_with_mode Z os mode address current s =
     (case new_socket os address s of
        (s, Inl err) \<Rightarrow> (current, s, Inl err)
      | (s, Inr (fd, raw)) \<Rightarrow> connect_stream Z os mode fd (\<lambda>completion. sk_connect os completion fd raw) current s)"

fun connect_loop ::
  "('r, 's, 'c, 'm, 't) op_env \<Rightarrow> 'o sock_sys \<Rightarrow> registration_mode \<Rightarrow> io_error option \<Rightarrow> socket_addr list \<Rightarrow>
   ('r, 's, 'c, 'm, 't) any_driver option \<Rightarrow> 'o \<Rightarrow> ('r, 's, 'c, 'm, 't) any_driver option \<times> 'o \<times> socket io_result" where
  "connect_loop Z os mode last_error [] current s =
     (current, s, Inl (case last_error of None \<Rightarrow> Custom InvalidInput | Some err \<Rightarrow> err))"
| "connect_loop Z os mode last_error (a # as) current s =
     (case connect_with_mode Z os mode a current s of
        (current, s, Inr k) \<Rightarrow> (current, s, Inr k)
      | (current, s, Inl err) \<Rightarrow> connect_loop Z os mode (Some err) as current s)"

text \<open>\<open>addresses\<close>: the outcome of \<open>to_socket_addrs\<close>.\<close>

definition tcp_connect ::
  "('r, 's, 'c, 'm, 't) op_env \<Rightarrow> 'o sock_sys \<Rightarrow> socket_addr list io_result \<Rightarrow>
   ('r, 's, 'c, 'm, 't) any_driver option \<Rightarrow> 'o \<Rightarrow> ('r, 's, 'c, 'm, 't) any_driver option \<times> 'o \<times> socket io_result" where
  "tcp_connect Z os addresses current s =
     (case addresses of
        Inl err \<Rightarrow> (current, s, Inl err)
      | Inr as \<Rightarrow> connect_loop Z os CompletionMode None as current s)"

definition poll_tcp_connect ::
  "('r, 's, 'c, 'm, 't) op_env \<Rightarrow> 'o sock_sys \<Rightarrow> socket_addr list io_result \<Rightarrow>
   ('r, 's, 'c, 'm, 't) any_driver option \<Rightarrow> 'o \<Rightarrow> ('r, 's, 'c, 'm, 't) any_driver option \<times> 'o \<times> poll_socket io_result" where
  "poll_tcp_connect Z os addresses current s =
     (case addresses of
        Inl err \<Rightarrow> (current, s, Inl err)
      | Inr as \<Rightarrow>
          (case connect_loop Z os PollMode None as current s of
             (current, s, res) \<Rightarrow> (current, s, map_sum id poll_wrap res)))"

definition tcp_into_poll ::
  "('r, 's, 'c, 'm, 't) op_env \<Rightarrow> 'o sock_sys \<Rightarrow> socket \<Rightarrow> ('r, 's, 'c, 'm, 't) any_driver \<Rightarrow> 'o \<Rightarrow>
   ('r, 's, 'c, 'm, 't) any_driver \<times> 'o \<times> poll_socket io_result" where
  "tcp_into_poll Z os k d s =
     (case socket_rebind Z os PollMode k d s of (d, s, res) \<Rightarrow> (d, s, map_sum id poll_wrap res))"

definition poll_tcp_into_completion ::
  "('r, 's, 'c, 'm, 't) op_env \<Rightarrow> 'o sock_sys \<Rightarrow> poll_socket \<Rightarrow> ('r, 's, 'c, 'm, 't) any_driver \<Rightarrow> 'o \<Rightarrow>
   ('r, 's, 'c, 'm, 't) any_driver \<times> 'o \<times> socket io_result" where
  "poll_tcp_into_completion Z os p d s = socket_rebind Z os CompletionMode (po_stream p) d s"

definition poll_tcp_into_adaptive :: "poll_socket \<Rightarrow> socket" where
  "poll_tcp_into_adaptive p = po_stream p"

text \<open>\<open>shutdown\<close>: the outcome of the standard library's call; a socket without a peer is shut down already.\<close>

definition tcp_shutdown :: "unit io_result \<Rightarrow> unit io_result" where
  "tcp_shutdown res =
     (case res of Inl err \<Rightarrow> if err_kind err = NotConnected then Inr () else Inl err | Inr _ \<Rightarrow> Inr ())"

subsection \<open>Readiness\<close>

text \<open>\<open>poll_readable\<close> and \<open>poll_writable\<close>: the flag is set by every poll that does not fail, a pending one too.\<close>

definition readiness_methods ::
  "('r, 's, 'c, 'm, 't) op_env \<Rightarrow> (readiness_op, ('r, 's, 'c, 'm, 't) any_driver, unit) op_methods" where
  "readiness_methods Z =
     \<lparr>op_poll_completion = (\<lambda>w op d. (op, d, default_poll_completion)),
      op_poll_poll = (\<lambda>w op d. case readiness_poll_poll Z w op d of (d, p) \<Rightarrow> (op, d, p))\<rparr>"

definition poll_readable ::
  "('r, 's, 'c, 'm, 't) op_env \<Rightarrow> waker \<Rightarrow> poll_socket \<Rightarrow> ('r, 's, 'c, 'm, 't) any_driver \<Rightarrow>
   poll_socket \<times> ('r, 's, 'c, 'm, 't) any_driver \<times> unit io_result poll" where
  "poll_readable Z w p d =
     (if po_read_ready p then (p, d, Ready (Inr ()))
      else let h = so_handle (po_stream p) in
           case poll_op_poll (readiness_methods Z) h w (new_readable h) d of
             (op, d, Ready (Inl err)) \<Rightarrow> (p, d, Ready (Inl err))
           | (op, d, poll) \<Rightarrow> (p\<lparr>po_read_ready := True\<rparr>, d, poll))"

definition poll_writable ::
  "('r, 's, 'c, 'm, 't) op_env \<Rightarrow> waker \<Rightarrow> poll_socket \<Rightarrow> ('r, 's, 'c, 'm, 't) any_driver \<Rightarrow>
   poll_socket \<times> ('r, 's, 'c, 'm, 't) any_driver \<times> unit io_result poll" where
  "poll_writable Z w p d =
     (if po_write_ready p then (p, d, Ready (Inr ()))
      else let h = so_handle (po_stream p) in
           case poll_op_poll (readiness_methods Z) h w (new_writable h) d of
             (op, d, Ready (Inl err)) \<Rightarrow> (p, d, Ready (Inl err))
           | (op, d, poll) \<Rightarrow> (p\<lparr>po_write_ready := True\<rparr>, d, poll))"

text \<open>\<open>try_io\<close>: \<open>io\<close> is the caller's attempt.\<close>

definition try_io_readable :: "('o \<Rightarrow> 'o \<times> 'a io_result) \<Rightarrow> poll_socket \<Rightarrow> 'o \<Rightarrow> poll_socket \<times> 'o \<times> 'a io_result" where
  "try_io_readable io p s =
     (if po_read_ready p
      then (case io s of
              (s, Inl err) \<Rightarrow> (p\<lparr>po_read_ready := False\<rparr>, s, Inl err)
            | (s, Inr v) \<Rightarrow> (p, s, Inr v))
      else (p, s, Inl (Custom WouldBlock)))"

definition try_io_writable :: "('o \<Rightarrow> 'o \<times> 'a io_result) \<Rightarrow> poll_socket \<Rightarrow> 'o \<Rightarrow> poll_socket \<times> 'o \<times> 'a io_result" where
  "try_io_writable io p s =
     (if po_write_ready p
      then (case io s of
              (s, Inl err) \<Rightarrow> (p\<lparr>po_write_ready := False\<rparr>, s, Inl err)
            | (s, Inr v) \<Rightarrow> (p, s, Inr v))
      else (p, s, Inl (Custom WouldBlock)))"

subsection \<open>\<open>TcpListener\<close>\<close>

definition SO_REUSEADDR :: nat where "SO_REUSEADDR = 2"
definition IPV6_V6ONLY :: nat where "IPV6_V6ONLY = 26"

text \<open>A call on a fresh descriptor: an error closes it.\<close>

definition or_close ::
  "'o sock_sys \<Rightarrow> int \<Rightarrow> ('o \<Rightarrow> 'o \<times> unit io_result) \<Rightarrow> ('o \<Rightarrow> 'o \<times> 'a io_result) \<Rightarrow> 'o \<Rightarrow> 'o \<times> 'a io_result" where
  "or_close os fd call rest s =
     (case call s of
        (s, Inl err) \<Rightarrow> (sk_close os fd s, Inl err)
      | (s, Inr _) \<Rightarrow> rest s)"

definition bind_one :: "'o sock_sys \<Rightarrow> socket_addr \<Rightarrow> 'o \<Rightarrow> 'o \<times> int io_result" where
  "bind_one os address s =
     (case socket_addr_to_raw address of
        (raw, len) \<Rightarrow>
          (case sk_socket os (ss_family raw) s of
             (s, Inl err) \<Rightarrow> (s, Inl err)
           | (s, Inr fd) \<Rightarrow>
               or_close os fd (sk_setsockopt os fd SO_REUSEADDR)
                 (or_close os fd (if ss_family raw = AF_INET6 then sk_setsockopt os fd IPV6_V6ONLY else (\<lambda>s. (s, Inr ())))
                   (or_close os fd (sk_bind os fd (raw, len))
                     (or_close os fd (sk_listen os fd) (\<lambda>s. (s, Inr fd))))) s))"

definition handle_new_mode :: "('r, 's, 'c, 'm, 't) any_driver option \<Rightarrow> registration_mode" where
  "handle_new_mode current =
     (if (case current of None \<Rightarrow> False | Some d \<Rightarrow> any_supports_completion d) then CompletionMode else PollMode)"

definition listener_from_std ::
  "('r, 's, 'c, 'm, 't) op_env \<Rightarrow> 'o sock_sys \<Rightarrow> int \<Rightarrow>
   ('r, 's, 'c, 'm, 't) any_driver option \<Rightarrow> 'o \<Rightarrow> ('r, 's, 'c, 'm, 't) any_driver option \<times> 'o \<times> socket io_result" where
  "listener_from_std Z os fd current s = socket_from_std Z os READABLE (handle_new_mode current) fd current s"

fun bind_loop ::
  "('r, 's, 'c, 'm, 't) op_env \<Rightarrow> 'o sock_sys \<Rightarrow> io_error option \<Rightarrow> socket_addr list \<Rightarrow>
   ('r, 's, 'c, 'm, 't) any_driver option \<Rightarrow> 'o \<Rightarrow> ('r, 's, 'c, 'm, 't) any_driver option \<times> 'o \<times> socket io_result" where
  "bind_loop Z os last_error [] current s =
     (current, s, Inl (case last_error of None \<Rightarrow> Custom InvalidInput | Some err \<Rightarrow> err))"
| "bind_loop Z os last_error (a # as) current s =
     (case bind_one os a s of
        (s, Inr fd) \<Rightarrow> listener_from_std Z os fd current s
      | (s, Inl err) \<Rightarrow> bind_loop Z os (Some err) as current s)"

definition listener_bind ::
  "('r, 's, 'c, 'm, 't) op_env \<Rightarrow> 'o sock_sys \<Rightarrow> socket_addr list io_result \<Rightarrow>
   ('r, 's, 'c, 'm, 't) any_driver option \<Rightarrow> 'o \<Rightarrow> ('r, 's, 'c, 'm, 't) any_driver option \<times> 'o \<times> socket io_result" where
  "listener_bind Z os addresses current s =
     (case addresses of
        Inl err \<Rightarrow> (current, s, Inl err)
      | Inr as \<Rightarrow> bind_loop Z os None as current s)"

definition listener_accept ::
  "('r, 's, 'c, 'm, 't) op_env \<Rightarrow> 'o sock_sys \<Rightarrow> socket \<Rightarrow> ('r, 's, 'c, 'm, 't) any_driver \<Rightarrow> 'o \<Rightarrow>
   ('r, 's, 'c, 'm, 't) any_driver option \<times> 'o \<times> (socket \<times> socket_addr) io_result" where
  "listener_accept Z os l d s =
     (case sk_accept os (uses_completion d (so_handle l)) (so_inner l) s of
        (s, Inl err) \<Rightarrow> (Some d, s, Inl err)
      | (s, Inr (fd, address)) \<Rightarrow>
          (case tcp_from_std_with_mode Z os CompletionMode fd (Some d) s of
             (current, s, Inl err) \<Rightarrow> (current, s, Inl err)
           | (current, s, Inr k) \<Rightarrow> (current, s, Inr (k, address))))"

subsection \<open>\<open>UdpSocket\<close>\<close>

definition udp_from_std_with_mode ::
  "('r, 's, 'c, 'm, 't) op_env \<Rightarrow> 'o sock_sys \<Rightarrow> registration_mode \<Rightarrow> int \<Rightarrow>
   ('r, 's, 'c, 'm, 't) any_driver option \<Rightarrow> 'o \<Rightarrow> ('r, 's, 'c, 'm, 't) any_driver option \<times> 'o \<times> socket io_result" where
  "udp_from_std_with_mode Z os mode fd current s = socket_from_std Z os READ_WRITE mode fd current s"

definition udp_bind ::
  "('r, 's, 'c, 'm, 't) op_env \<Rightarrow> 'o sock_sys \<Rightarrow> socket_addr list \<Rightarrow>
   ('r, 's, 'c, 'm, 't) any_driver option \<Rightarrow> 'o \<Rightarrow> ('r, 's, 'c, 'm, 't) any_driver option \<times> 'o \<times> socket io_result" where
  "udp_bind Z os addresses current s =
     (case sk_udp_bind os addresses s of
        (s, Inl err) \<Rightarrow> (current, s, Inl err)
      | (s, Inr fd) \<Rightarrow> udp_from_std_with_mode Z os CompletionMode fd current s)"

fun udp_connect_loop ::
  "'o sock_sys \<Rightarrow> io_error option \<Rightarrow> socket_addr list \<Rightarrow> socket \<Rightarrow> ('r, 's, 'c, 'm, 't) any_driver \<Rightarrow> 'o \<Rightarrow>
   'o \<times> unit io_result" where
  "udp_connect_loop os last_error [] k d s = (s, Inl (case last_error of None \<Rightarrow> Custom InvalidInput | Some err \<Rightarrow> err))"
| "udp_connect_loop os last_error (a # as) k d s =
     (case sk_connect os (uses_completion d (so_handle k)) (so_inner k) (socket_addr_to_raw a) s of
        (s, Inr _) \<Rightarrow> (s, Inr ())
      | (s, Inl err) \<Rightarrow> udp_connect_loop os (Some err) as k d s)"

fun udp_send_loop ::
  "'o sock_sys \<Rightarrow> io_error option \<Rightarrow> socket_addr list \<Rightarrow> io_buf \<Rightarrow> socket \<Rightarrow> ('r, 's, 'c, 'm, 't) any_driver \<Rightarrow> 'o \<Rightarrow>
   'o \<times> nat io_result \<times> io_buf" where
  "udp_send_loop os last_error [] buf k d s =
     (s, Inl (case last_error of None \<Rightarrow> Custom InvalidInput | Some err \<Rightarrow> err), buf)"
| "udp_send_loop os last_error (a # as) buf k d s =
     (case sk_sendto os (uses_completion d (so_handle k)) (so_inner k) buf a s of
        (s, Inr n, buf) \<Rightarrow> (s, Inr n, buf)
      | (s, Inl err, buf) \<Rightarrow> udp_send_loop os (Some err) as buf k d s)"

definition udp_connect ::
  "'o sock_sys \<Rightarrow> socket_addr list io_result \<Rightarrow> socket \<Rightarrow> ('r, 's, 'c, 'm, 't) any_driver \<Rightarrow> 'o \<Rightarrow> 'o \<times> unit io_result" where
  "udp_connect os addresses k d s =
     (case addresses of
        Inl err \<Rightarrow> (s, Inl err)
      | Inr as \<Rightarrow> udp_connect_loop os None as k d s)"

definition udp_send_to ::
  "'o sock_sys \<Rightarrow> io_buf \<Rightarrow> socket_addr list io_result \<Rightarrow> socket \<Rightarrow> ('r, 's, 'c, 'm, 't) any_driver \<Rightarrow> 'o \<Rightarrow>
   'o \<times> nat io_result \<times> io_buf" where
  "udp_send_to os buf addresses k d s =
     (case addresses of
        Inl err \<Rightarrow> (s, Inl err, buf)
      | Inr as \<Rightarrow> udp_send_loop os None as buf k d s)"

definition udp_try_clone ::
  "('r, 's, 'c, 'm, 't) op_env \<Rightarrow> 'o sock_sys \<Rightarrow> socket \<Rightarrow> ('r, 's, 'c, 'm, 't) any_driver option \<Rightarrow> 'o \<Rightarrow>
   ('r, 's, 'c, 'm, 't) any_driver option \<times> 'o \<times> socket io_result" where
  "udp_try_clone Z os k current s =
     (case sk_dup os (so_inner k) s of
        (s, Inl err) \<Rightarrow> (current, s, Inl err)
      | (s, Inr fd) \<Rightarrow> udp_from_std_with_mode Z os CompletionMode fd current s)"

definition poll_udp_try_clone ::
  "('r, 's, 'c, 'm, 't) op_env \<Rightarrow> 'o sock_sys \<Rightarrow> poll_socket \<Rightarrow> ('r, 's, 'c, 'm, 't) any_driver option \<Rightarrow> 'o \<Rightarrow>
   ('r, 's, 'c, 'm, 't) any_driver option \<times> 'o \<times> poll_socket io_result" where
  "poll_udp_try_clone Z os p current s =
     (case udp_try_clone Z os (po_stream p) current s of (current, s, res) \<Rightarrow> (current, s, map_sum id poll_wrap res))"

definition poll_udp_from_std ::
  "('r, 's, 'c, 'm, 't) op_env \<Rightarrow> 'o sock_sys \<Rightarrow> int \<Rightarrow> ('r, 's, 'c, 'm, 't) any_driver option \<Rightarrow> 'o \<Rightarrow>
   ('r, 's, 'c, 'm, 't) any_driver option \<times> 'o \<times> poll_socket io_result" where
  "poll_udp_from_std Z os fd current s =
     (case udp_from_std_with_mode Z os PollMode fd current s of (current, s, res) \<Rightarrow> (current, s, map_sum id poll_wrap res))"

definition udp_into_poll ::
  "('r, 's, 'c, 'm, 't) op_env \<Rightarrow> 'o sock_sys \<Rightarrow> socket \<Rightarrow> ('r, 's, 'c, 'm, 't) any_driver \<Rightarrow> 'o \<Rightarrow>
   ('r, 's, 'c, 'm, 't) any_driver \<times> 'o \<times> poll_socket io_result" where
  "udp_into_poll Z os k d s =
     (case socket_rebind Z os PollMode k d s of (d, s, res) \<Rightarrow> (d, s, map_sum id poll_wrap res))"

definition poll_udp_into_completion ::
  "('r, 's, 'c, 'm, 't) op_env \<Rightarrow> 'o sock_sys \<Rightarrow> poll_socket \<Rightarrow> ('r, 's, 'c, 'm, 't) any_driver \<Rightarrow> 'o \<Rightarrow>
   ('r, 's, 'c, 'm, 't) any_driver \<times> 'o \<times> socket io_result" where
  "poll_udp_into_completion Z os p d s = socket_rebind Z os CompletionMode (po_stream p) d s"

subsection \<open>The operating system's promises\<close>

text \<open>
  \<open>opened\<close>: the open descriptors; \<open>desc\<close>: the open file description of a descriptor, which a duplicate shares;
  \<open>nonblock\<close>: the flag \<open>O_NONBLOCK\<close>, which belongs to the description.
\<close>

record 'o sock_view =
  sv_opened :: "'o \<Rightarrow> int set"
  sv_desc :: "'o \<Rightarrow> int \<Rightarrow> nat"
  sv_nonblock :: "'o \<Rightarrow> nat \<Rightarrow> bool"

definition same_view :: "'o sock_view \<Rightarrow> 'o \<Rightarrow> 'o \<Rightarrow> bool" where
  "same_view V s s' \<longleftrightarrow> sv_opened V s' = sv_opened V s \<and> sv_desc V s' = sv_desc V s \<and> sv_nonblock V s' = sv_nonblock V s"

definition quiet :: "'o sock_view \<Rightarrow> ('o \<Rightarrow> 'o \<times> 'a) \<Rightarrow> bool" where
  "quiet V call \<longleftrightarrow> (\<forall>s s' res. call s = (s', res) \<longrightarrow> same_view V s s')"

definition honest_create :: "'o sock_view \<Rightarrow> ('o \<Rightarrow> 'o \<times> int io_result) \<Rightarrow> bool" where
  "honest_create V call \<longleftrightarrow>
     (\<forall>s s' res. call s = (s', res) \<longrightarrow>
        (case res of
           Inl _ \<Rightarrow> sv_opened V s' = sv_opened V s
         | Inr fd \<Rightarrow> fd \<notin> sv_opened V s \<and> sv_opened V s' = insert fd (sv_opened V s)))"

definition honest_sock :: "'o sock_sys \<Rightarrow> 'o sock_view \<Rightarrow> bool" where
  "honest_sock os V \<longleftrightarrow>
     (\<forall>domain. honest_create V (sk_socket os domain)) \<and>
     (\<forall>fd s s' res. sk_dup os fd s = (s', res) \<longrightarrow>
        (case res of
           Inl _ \<Rightarrow> same_view V s s'
         | Inr fd' \<Rightarrow> fd' \<notin> sv_opened V s \<and> sv_opened V s' = insert fd' (sv_opened V s) \<and>
             sv_desc V s' = (sv_desc V s)(fd' := sv_desc V s fd) \<and> sv_nonblock V s' = sv_nonblock V s)) \<and>
     (\<forall>fd b s s' res. sk_set_nonblocking os fd b s = (s', res) \<longrightarrow>
        sv_opened V s' = sv_opened V s \<and> sv_desc V s' = sv_desc V s \<and>
        (res = Inr () \<longrightarrow> sv_nonblock V s' = (sv_nonblock V s)(sv_desc V s fd := b))) \<and>
     (\<forall>fd s. sv_opened V (sk_close os fd s) = sv_opened V s - {fd}) \<and>
     (\<forall>completion fd raw. quiet V (sk_connect os completion fd raw)) \<and>
     (\<forall>fd opt. quiet V (sk_setsockopt os fd opt)) \<and> (\<forall>fd raw. quiet V (sk_bind os fd raw)) \<and>
     (\<forall>fd. quiet V (sk_listen os fd))"

definition socket_nonblock :: "'o sock_view \<Rightarrow> 'o \<Rightarrow> socket \<Rightarrow> bool" where
  "socket_nonblock V s k = sv_nonblock V s (sv_desc V s (so_inner k))"

text \<open>A descriptor just created, and what has become of it: closed again, or the socket's.\<close>

definition fd_owned :: "'o sock_view \<Rightarrow> 'o \<Rightarrow> 'o \<Rightarrow> socket io_result \<Rightarrow> bool" where
  "fd_owned V s s' res \<longleftrightarrow>
     (case res of
        Inl _ \<Rightarrow> sv_opened V s' = sv_opened V s
      | Inr k \<Rightarrow> so_inner k \<notin> sv_opened V s \<and> sv_opened V s' = insert (so_inner k) (sv_opened V s))"

text \<open>A socket whose flag fits the way its handle is used.\<close>

definition socket_fits :: "'o sock_view \<Rightarrow> 'o \<Rightarrow> ('r, 's, 'c, 'm, 't) any_driver option \<Rightarrow> socket \<Rightarrow> bool" where
  "socket_fits V s current k \<longleftrightarrow>
     (\<exists>d. current = Some d \<and> h_handle (so_handle k) = so_inner k \<and>
        (socket_nonblock V s k \<longleftrightarrow> \<not> uses_completion d (so_handle k)))"

subsection \<open>Sockets own their descriptors\<close>

lemma quietD: "quiet V call \<Longrightarrow> call s = (s', res) \<Longrightarrow> same_view V s s'"
  unfolding quiet_def by blast

lemma honest_sockD:
  assumes "honest_sock os V"
  shows "sk_socket os domain s = (s', res) \<Longrightarrow>
      (case res of Inl _ \<Rightarrow> sv_opened V s' = sv_opened V s
       | Inr fd \<Rightarrow> fd \<notin> sv_opened V s \<and> sv_opened V s' = insert fd (sv_opened V s))"
    and "sk_set_nonblocking os fd b s = (s', res') \<Longrightarrow> sv_opened V s' = sv_opened V s \<and> sv_desc V s' = sv_desc V s \<and>
      (res' = Inr () \<longrightarrow> sv_nonblock V s' = (sv_nonblock V s)(sv_desc V s fd := b))"
    and "sv_opened V (sk_close os fd s) = sv_opened V s - {fd}"
  using assms [unfolded honest_sock_def honest_create_def, THEN conjunct1]
    assms [unfolded honest_sock_def, THEN conjunct2, THEN conjunct2, THEN conjunct1]
    assms [unfolded honest_sock_def, THEN conjunct2, THEN conjunct2, THEN conjunct2, THEN conjunct1]
  by blast+

lemma honest_quiet:
  assumes "honest_sock os V"
  shows "sk_connect os completion fd raw s = (s', res) \<Longrightarrow> same_view V s s'"
    and "sk_setsockopt os fd opt s = (s', res) \<Longrightarrow> same_view V s s'"
    and "sk_bind os fd raw s = (s', res) \<Longrightarrow> same_view V s s'"
    and "sk_listen os fd s = (s', res) \<Longrightarrow> same_view V s s'"
proof -
  note calls = assms [unfolded honest_sock_def, THEN conjunct2, THEN conjunct2, THEN conjunct2, THEN conjunct2]
  show "sk_connect os completion fd raw s = (s', res) \<Longrightarrow> same_view V s s'"
    by (rule quietD [OF calls [THEN conjunct1, THEN spec, THEN spec, THEN spec]])
  show "sk_setsockopt os fd opt s = (s', res) \<Longrightarrow> same_view V s s'"
    by (rule quietD [OF calls [THEN conjunct2, THEN conjunct1, THEN spec, THEN spec]])
  show "sk_bind os fd raw s = (s', res) \<Longrightarrow> same_view V s s'"
    by (rule quietD [OF calls [THEN conjunct2, THEN conjunct2, THEN conjunct1, THEN spec, THEN spec]])
  show "sk_listen os fd s = (s', res) \<Longrightarrow> same_view V s s'"
    by (rule quietD [OF calls [THEN conjunct2, THEN conjunct2, THEN conjunct2, THEN spec]])
qed

lemma new_with_mode_handle:
  "new_with_mode Z current fd i mode = (current', Inr h) \<Longrightarrow>
   \<exists>d. current' = Some d \<and> h_handle h = fd \<and> (h_mode h = CompletionMode \<longrightarrow> mode = CompletionMode)"
  by (auto simp: new_with_mode_def new_with_driver_and_mode_def effective_mode_def Let_def
      split: option.splits prod.splits sum.splits if_splits)

lemma socket_from_std_sound:
  assumes honest: "honest_sock os V" and fd: "fd \<notin> X" "sv_opened V s = insert fd X"
    and r: "socket_from_std Z os i mode fd current s = (current', s', res)"
  shows "case res of
     Inl _ \<Rightarrow> sv_opened V s' = X
   | Inr k \<Rightarrow> so_inner k = fd \<and> sv_opened V s' = insert fd X \<and> socket_fits V s' current' k"
proof (cases "new_with_mode Z current fd i mode")
  case (Pair c1 r1)
  show ?thesis
  proof (cases r1)
    case (Inl err)
    then show ?thesis
      using r Pair fd honest_sockD(3) [OF honest] by (auto simp: socket_from_std_def)
  next
    case (Inr h)
    obtain d where d: "c1 = Some d" "h_handle h = fd"
      using new_with_mode_handle Pair Inr by blast
    obtain s1 r2 where s1: "sk_set_nonblocking os fd (\<not> uses_completion d h) s = (s1, r2)"
      by fastforce
    show ?thesis
      using r Pair Inr d s1 fd honest_sockD(2) [OF honest s1] honest_sockD(3) [OF honest, of fd s1]
      by (cases r2) (auto simp: socket_from_std_def Let_def socket_fits_def socket_nonblock_def)
  qed
qed

lemma connect_stream_sound:
  assumes honest: "honest_sock os V" and fd: "fd \<notin> sv_opened V s0" "sv_opened V s = insert fd (sv_opened V s0)"
    and call: "\<And>completion s s' res. call completion s = (s', res) \<Longrightarrow> same_view V s s'"
    and r: "connect_stream Z os mode fd call current s = (current', s', res)"
  shows "fd_owned V s0 s' res \<and> (\<forall>k. res = Inr k \<longrightarrow> socket_fits V s' current' k)"
proof -
  obtain c2 s2 r2 where s2: "socket_from_std Z os READ_WRITE mode fd current s = (c2, s2, r2)"
    using prod_cases3 by blast
  note from_std = socket_from_std_sound [OF honest fd s2]
  show ?thesis
  proof (cases r2)
    case (Inl err)
    then show ?thesis
      using from_std s2 r by (cases c2) (auto simp: fd_owned_def connect_stream_def)
  next
    case (Inr k)
    obtain d where d: "c2 = Some d"
      using from_std Inr by (auto simp: socket_fits_def)
    obtain s3 r3 where s3: "call (uses_completion d (so_handle k)) s2 = (s3, r3)"
      by fastforce
    show ?thesis
      using r s2 d Inr s3 from_std fd call [OF s3] honest_sockD(3) [OF honest, of fd s3]
      by (cases r3) (auto simp: fd_owned_def same_view_def socket_drop_def socket_fits_def socket_nonblock_def
          connect_stream_def)
  qed
qed

lemma connect_with_mode_sound:
  assumes honest: "honest_sock os V" and r: "connect_with_mode Z os mode a current s = (current', s', res)"
  shows "fd_owned V s s' res \<and> (\<forall>k. res = Inr k \<longrightarrow> socket_fits V s' current' k)"
proof -
  obtain raw len where raw: "socket_addr_to_raw a = (raw, len)"
    by fastforce
  obtain s1 r1 where s1: "sk_socket os (ss_family raw) s = (s1, r1)"
    by fastforce
  note created = honest_sockD(1) [OF honest s1]
  show ?thesis
  proof (cases r1)
    case (Inl err)
    then show ?thesis
      using r raw s1 created by (auto simp: connect_with_mode_def new_socket_def fd_owned_def)
  next
    case (Inr fd)
    then have "connect_stream Z os mode fd (\<lambda>completion. sk_connect os completion fd (raw, len)) current s1 = (current', s', res)"
      using r raw s1 by (simp add: connect_with_mode_def new_socket_def)
    from connect_stream_sound [OF honest _ _ honest_quiet(1) [OF honest] this, of s] show ?thesis
      using created Inr by simp
  qed
qed

lemma connect_loop_sound:
  assumes "honest_sock os V" and "connect_loop Z os mode last_error as current s = (current', s', res)"
  shows "fd_owned V s s' res \<and> (\<forall>k. res = Inr k \<longrightarrow> socket_fits V s' current' k)"
  using assms(2)
proof (induction as arbitrary: last_error current s)
  case Nil
  then show ?case
    by (auto simp: fd_owned_def)
next
  case (Cons a as)
  obtain c1 s1 r1 where r1: "connect_with_mode Z os mode a current s = (c1, s1, r1)"
    using prod_cases3 by blast
  show ?case
  proof (cases r1)
    case (Inl err)
    then have "sv_opened V s1 = sv_opened V s"
      using connect_with_mode_sound [OF assms(1) r1] by (simp add: fd_owned_def)
    then show ?thesis
      using Cons.IH [of "Some err" c1 s1] Cons.prems r1 Inl by (cases res) (simp_all add: fd_owned_def)
  next
    case (Inr k)
    then show ?thesis
      using connect_with_mode_sound [OF assms(1) r1] Cons.prems r1 by auto
  qed
qed

lemma map_sum_Inr: "map_sum f g x = Inr z \<longleftrightarrow> (\<exists>y. x = Inr y \<and> z = g y)"
  by (cases x) auto

subsection \<open>Binding\<close>

lemma or_close_sound:
  assumes honest: "honest_sock os V" and "fd \<notin> X" "sv_opened V s = insert fd X"
    and call: "\<And>s s' res. call s = (s', res) \<Longrightarrow> same_view V s s'"
    and rest: "\<And>s s' res. sv_opened V s = insert fd X \<Longrightarrow> rest s = (s', res) \<Longrightarrow>
      (case res of Inl _ \<Rightarrow> sv_opened V s' = X | Inr g \<Rightarrow> g = fd \<and> sv_opened V s' = insert fd X)"
    and r: "or_close os fd call rest s = (s', res)"
  shows "case res of Inl _ \<Rightarrow> sv_opened V s' = X | Inr g \<Rightarrow> g = fd \<and> sv_opened V s' = insert fd X"
proof -
  obtain s1 r1 where s1: "call s = (s1, r1)"
    by fastforce
  then have o1: "sv_opened V s1 = insert fd X"
    using call [OF s1] assms(3) by (simp add: same_view_def)
  show ?thesis
    using r s1 o1 assms(2) honest_sockD(3) [OF honest, of fd s1] rest [OF o1]
    by (cases r1) (auto simp: or_close_def)
qed

lemma bind_one_sound:
  assumes honest: "honest_sock os V" and r: "bind_one os a s = (s', res)"
  shows "case res of
     Inl _ \<Rightarrow> sv_opened V s' = sv_opened V s
   | Inr fd \<Rightarrow> fd \<notin> sv_opened V s \<and> sv_opened V s' = insert fd (sv_opened V s)"
proof -
  obtain raw len where raw: "socket_addr_to_raw a = (raw, len)"
    by fastforce
  obtain s1 r1 where s1: "sk_socket os (ss_family raw) s = (s1, r1)"
    by fastforce
  show ?thesis
  proof (cases r1)
    case (Inl err)
    then show ?thesis
      using r raw s1 honest_sockD(1) [OF honest s1] by (auto simp: bind_one_def)
  next
    case (Inr fd)
    then have fd: "fd \<notin> sv_opened V s" "sv_opened V s1 = insert fd (sv_opened V s)"
      using honest_sockD(1) [OF honest s1] by auto
    note oc = or_close_sound [OF honest fd(1)]
    let ?v6 = "if ss_family raw = AF_INET6 then sk_setsockopt os fd IPV6_V6ONLY else (\<lambda>s. (s, Inr ()))"
    have v6: "?v6 s = (s', res) \<Longrightarrow> same_view V s s'" for s s' res
      using honest_quiet(2) [OF honest] by (auto simp: same_view_def split: if_splits)
    have "case res of Inl _ \<Rightarrow> sv_opened V s' = sv_opened V s
        | Inr g \<Rightarrow> g = fd \<and> sv_opened V s' = insert fd (sv_opened V s)"
    proof (rule oc [OF fd(2) honest_quiet(2) [OF honest]])
      show "or_close os fd (sk_setsockopt os fd SO_REUSEADDR) (or_close os fd ?v6 (or_close os fd (sk_bind os fd (raw, len))
          (or_close os fd (sk_listen os fd) (\<lambda>s. (s, Inr fd))))) s1 = (s', res)"
        using r raw s1 Inr by (simp add: bind_one_def)
    qed (assumption | erule (1) oc [OF _ v6, rotated -1] oc [OF _ honest_quiet(3) [OF honest], rotated -1]
        oc [OF _ honest_quiet(4) [OF honest], rotated -1] | auto)+
    then show ?thesis
      using fd by (cases res) auto
  qed
qed

lemma listener_bind_sound:
  assumes "honest_sock os V" and "bind_loop Z os last_error as current s = (current', s', res)"
  shows "fd_owned V s s' res \<and> (\<forall>k. res = Inr k \<longrightarrow> socket_fits V s' current' k)"
  using assms(2)
proof (induction as arbitrary: last_error s)
  case Nil
  then show ?case
    by (auto simp: fd_owned_def)
next
  case (Cons a as)
  obtain s1 r1 where r1: "bind_one os a s = (s1, r1)"
    by fastforce
  note sound = bind_one_sound [OF assms(1) r1]
  show ?case
  proof (cases r1)
    case (Inl err)
    then show ?thesis
      using Cons.IH [of "Some err" s1] Cons.prems r1 sound by (cases res) (simp_all add: fd_owned_def)
  next
    case (Inr fd)
    then show ?thesis
      using socket_from_std_sound [OF assms(1), of fd "sv_opened V s" s1 Z READABLE "handle_new_mode current"
          current current' s' res] Cons.prems r1 sound
      by (cases res) (auto simp: fd_owned_def listener_from_std_def)
  qed
qed

subsection \<open>Datagrams\<close>

text \<open>
  A datagram goes out at most once: every address before the one that took it refused it, and the
  addresses after it are not tried. The buffer comes back on every path.
\<close>

lemma udp_send_loop_first:
  assumes send: "\<And>buf a s. \<exists>s' res. sk_sendto os (uses_completion d (so_handle k)) (so_inner k) buf a s = (s', res, buf)"
    and "udp_send_loop os last_error as buf k d s = (s', Inr n, buf')"
  shows "buf' = buf \<and> (\<exists>before a after s1. as = before @ a # after \<and>
    (\<forall>err. \<exists>e. udp_send_loop os err before buf k d s = (s1, Inl e, buf)) \<and>
    sk_sendto os (uses_completion d (so_handle k)) (so_inner k) buf a s1 = (s', Inr n, buf))"
  using assms(2)
proof (induction as arbitrary: last_error s)
  case Nil
  then show ?case
    by simp
next
  case (Cons a as)
  obtain s1 res where s1: "sk_sendto os (uses_completion d (so_handle k)) (so_inner k) buf a s = (s1, res, buf)"
    using send by blast
  show ?case
  proof (cases res)
    case (Inl err)
    then obtain before b after s2 where "buf' = buf" "as = before @ b # after"
      "\<forall>err. \<exists>e. udp_send_loop os err before buf k d s1 = (s2, Inl e, buf)"
      "sk_sendto os (uses_completion d (so_handle k)) (so_inner k) buf b s2 = (s', Inr n, buf)"
      using Cons.IH [of "Some err" s1] Cons.prems s1 by auto
    then show ?thesis
      using s1 Inl by (intro conjI exI [of _ "a # before"] exI [of _ b] exI [of _ after] exI [of _ s2]) auto
  next
    case (Inr m)
    then have "buf' = buf" "s' = s1" "m = n"
      using Cons.prems s1 by auto
    then show ?thesis
      using s1 Inr by (intro conjI exI [of _ "[]"]) auto
  qed
qed

subsection \<open>Modes\<close>

lemma socket_rebind_fits:
  assumes honest: "honest_sock os V" and h: "h_handle (so_handle k) = so_inner k"
    and r: "socket_rebind Z os mode k d s = (d', s', Inr k')"
  shows "so_inner k' = so_inner k \<and> sv_opened V s' = sv_opened V s \<and> socket_fits V s' (Some d') k'"
proof -
  obtain d1 h1 r1 where r1: "rebind_mode Z mode (so_handle k) d = (d1, h1, r1)"
    using prod_cases3 by blast
  have h1: "h_handle h1 = so_inner k"
    using r1 h by (auto simp: rebind_mode_def Let_def split: if_splits prod.splits sum.splits)
  show ?thesis
    using r r1 h1
    by (auto simp: socket_rebind_def Let_def socket_fits_def socket_nonblock_def
        split: sum.splits prod.splits dest: honest_sockD(2) [OF honest])
qed

text \<open>A pending \<open>poll_readable\<close> has set the flag, so the next poll is ready whatever has happened.\<close>

lemma poll_readable_twice:
  assumes "poll_readable Z w p d = (p', d', Pending)"
  shows "poll_readable Z w' p' d'' = (p', d'', Ready (Inr ()))"
  using assms
  by (auto simp: poll_readable_def Let_def split: if_splits prod.splits poll.splits sum.splits)

lemma supports_completion_register:
  "any_register_with_mode Z h i mode d = (d', res) \<Longrightarrow> any_supports_completion d' = any_supports_completion d"
  by (cases d) (auto split: prod.splits)

lemma socket_from_std_completion:
  assumes "socket_from_std Z os i CompletionMode fd (Some d) s = (current', s', Inr k)" and "any_supports_completion d"
  shows "\<exists>d'. current' = Some d' \<and> any_supports_completion d' \<and> uses_completion d' (so_handle k) \<and>
    h_mode (so_handle k) = CompletionMode \<and> so_inner k = fd \<and> sk_set_nonblocking os fd False s = (s', Inr ())"
  using assms
  by (auto simp: socket_from_std_def new_with_mode_def new_with_driver_and_mode_def effective_mode_def uses_completion_def
      Let_def split: prod.splits sum.splits dest!: supports_completion_register)

subsection \<open>Sockets in memory\<close>

record sock_sim =
  ks_fds :: "int list"
  ks_desc :: "int \<Rightarrow> nat"
  ks_nonblock :: "nat \<Rightarrow> bool"

definition sim_fresh :: "sock_sim \<Rightarrow> int" where
  "sim_fresh s = foldr max (ks_fds s) 0 + 1"

definition sim_create :: "(int \<Rightarrow> nat) \<Rightarrow> sock_sim \<Rightarrow> sock_sim \<times> int io_result" where
  "sim_create desc s =
     (s\<lparr>ks_fds := sim_fresh s # ks_fds s, ks_desc := (ks_desc s)(sim_fresh s := desc (sim_fresh s))\<rparr>, Inr (sim_fresh s))"

text \<open>Connections to port 0 are refused.\<close>

definition sim_connect :: "sockaddr_storage \<times> nat \<Rightarrow> unit io_result" where
  "sim_connect raw = (case fst raw of SockaddrIn port addr \<Rightarrow> if port = 0 then Inl (Os 111) else Inr () | _ \<Rightarrow> Inr ())"

definition sim_sock :: "sock_sim sock_sys" where
  "sim_sock = \<lparr>sk_socket = (\<lambda>_. sim_create nat), sk_setsockopt = (\<lambda>_ _ s. (s, Inr ())), sk_bind = (\<lambda>_ _ s. (s, Inr ())),
     sk_listen = (\<lambda>_ s. (s, Inr ())), sk_connect = (\<lambda>_ _ raw s. (s, sim_connect raw)),
     sk_sendto = (\<lambda>_ _ buf _ s. (s, Inr (buf_len buf), buf)), sk_accept = (\<lambda>_ _ s. (s, Inl (Os 11))),
     sk_udp_bind = (\<lambda>_. sim_create nat),
     sk_set_nonblocking = (\<lambda>fd b s. (s\<lparr>ks_nonblock := (ks_nonblock s)(ks_desc s fd := b)\<rparr>, Inr ())),
     sk_dup = (\<lambda>fd s. sim_create (\<lambda>_. ks_desc s fd) s),
     sk_close = (\<lambda>fd s. s\<lparr>ks_fds := removeAll fd (ks_fds s)\<rparr>)\<rparr>"

definition sim_view :: "sock_sim sock_view" where
  "sim_view = \<lparr>sv_opened = set \<circ> ks_fds, sv_desc = ks_desc, sv_nonblock = ks_nonblock\<rparr>"

lemma sim_sock_honest: "honest_sock sim_sock sim_view"
  unfolding honest_sock_def honest_create_def quiet_def
  by (auto simp: sim_sock_def sim_view_def same_view_def sim_create_def sim_fresh_def foldr_max_fresh)

definition sim_sockets :: sock_sim where
  "sim_sockets = \<lparr>ks_fds = [0, 1, 2], ks_desc = nat, ks_nonblock = (\<lambda>_. False)\<rparr>"

subsection \<open>Properties\<close>

text \<open>
  C24: \<open>TcpStream::connect\<close> over a list of addresses owns what it opens. When it fails, after any number of
  refused attempts and failed registrations, no descriptor is left open; when it succeeds the
  stream's descriptor is the only new one, its handle is for that descriptor, and the socket is
  non-blocking exactly when the handle is polled.
\<close>
theorem tcp_connect_owns:
  assumes "honest_sock os V" and "tcp_connect Z os addresses current s = (current', s', res)"
  shows "case res of
     Inl _ \<Rightarrow> sv_opened V s' = sv_opened V s
   | Inr k \<Rightarrow> so_inner k \<notin> sv_opened V s \<and> sv_opened V s' = insert (so_inner k) (sv_opened V s) \<and>
       socket_fits V s' current' k"
  using assms connect_loop_sound [OF assms(1)]
  by (cases res) (fastforce simp: tcp_connect_def fd_owned_def split: sum.splits)+

definition ex_connect where
  "ex_connect = tcp_connect ex_op_env sim_sock (Inr [V4 (127, 0, 0, 1) 0, V4 (127, 0, 0, 1) 80]) (Some (IoUringDriver ex_op_uring)) sim_sockets"

theorem tcp_connect_owns_witness:
  "\<exists>k. snd (snd ex_connect) = Inr k \<and> so_inner k = 3 \<and> set (ks_fds (fst (snd ex_connect))) = {0, 1, 2, 3}"
proof -
  obtain c s k where e: "ex_connect = (c, s, Inr k)" "so_inner k = 3"
    by (simp add: ex_connect_def tcp_connect_def connect_with_mode_def new_socket_def connect_stream_def
        socket_from_std_def sim_sock_def sim_create_def sim_fresh_def sim_connect_def sim_sockets_def new_with_mode_def
        new_with_driver_and_mode_def uring_register_def op_eval Let_def swap16_def socket_drop_def handle_drop_def
        uring_deregister_def effective_mode_def)
  show ?thesis
    unfolding e(1) using tcp_connect_owns [OF sim_sock_honest e(1) [unfolded ex_connect_def]] e(2)
    by (simp add: sim_view_def sim_sockets_def insert_commute)
qed

text \<open>
  Cloning a polled UDP socket on a driver with completions breaks both. The clone has
  the type of a polled socket and a handle in completion mode; and since the flag \<open>O_NONBLOCK\<close> belongs
  to the description both descriptors share, the original, whose handle is polled, is blocking
  afterwards: its next poll blocks the whole runtime.
\<close>
lemma poll_udp_clone_blocks:
  assumes "honest_sock os V" and "any_supports_completion d" and "so_inner (po_stream p) \<in> sv_opened V s"
    and "poll_udp_try_clone Z os p (Some d) s = (current', s', Inr p')"
  shows "h_mode (so_handle (po_stream p')) = CompletionMode \<and> \<not> socket_nonblock V s' (po_stream p') \<and>
    \<not> socket_nonblock V s' (po_stream p)"
proof -
  obtain s1 fd k where k: "sk_dup os (so_inner (po_stream p)) s = (s1, Inr fd)"
    "socket_from_std Z os READ_WRITE CompletionMode fd (Some d) s1 = (current', s', Inr k)" "p' = poll_wrap k"
    using assms(4)
    by (auto simp: poll_udp_try_clone_def udp_try_clone_def udp_from_std_with_mode_def map_sum_Inr
        split: prod.splits sum.splits)
  have dup: "fd \<notin> sv_opened V s" "sv_desc V s1 = (sv_desc V s)(fd := sv_desc V s (so_inner (po_stream p)))"
    using assms(1) [unfolded honest_sock_def, THEN conjunct2, THEN conjunct1, rule_format, OF k(1)] by auto
  then have "sv_desc V s1 (so_inner (po_stream p)) = sv_desc V s1 fd"
    using assms(3) by auto
  then show ?thesis
    using socket_from_std_completion [OF k(2) assms(2)] honest_sockD(2) [OF assms(1)] k(3)
    by (fastforce simp: socket_nonblock_def poll_wrap_def)
qed

end
