(* ===== verification/Net_Unix.thy ===== *)
theory Net_Unix
  imports Net_Socket
begin

text \<open>
  Unix sockets: \<open>net/unix/stream.rs\<close> and \<open>net/unix/listener.rs\<close>. The sockets are those of \<open>Net_Socket\<close>; here are
  the address of a path, the calls that take one, and the way a stream is made from a path or from
  a listener.
\<close>

subsection \<open>\<open>UnixStream\<close>\<close>

text \<open>The calls with a path; \<open>uk_bind\<close> is \<open>std::os::unix::net::UnixListener::bind\<close>.\<close>

record 'o unix_sys =
  uk_sock :: "'o sock_sys"
  uk_connect :: "bool \<Rightarrow> int \<Rightarrow> u8 list \<times> nat \<Rightarrow> 'o \<Rightarrow> 'o \<times> unit io_result"
  uk_bind :: "u8 list \<Rightarrow> 'o \<Rightarrow> 'o \<times> int io_result"
  uk_accept :: "bool \<Rightarrow> int \<Rightarrow> 'o \<Rightarrow> 'o \<times> int io_result"
  uk_peer_addr :: "int \<Rightarrow> 'o \<Rightarrow> 'o \<times> u8 list io_result"

definition AF_UNIX :: nat where "AF_UNIX = 1"

definition SUN_PATH :: nat where "SUN_PATH = 108"

text \<open>\<open>socket_addr_to_raw\<close> of a path: the bytes of \<open>sun_path\<close> and the length, two bytes of family included.\<close>

definition unix_addr_to_raw :: "u8 list \<Rightarrow> (u8 list \<times> nat) io_result" where
  "unix_addr_to_raw bytes =
     (if bytes = [] then Inl (Custom InvalidInput)
      else if 0 \<in> set bytes then Inl (Custom InvalidInput)
      else if SUN_PATH \<le> length bytes then Inl (Custom InvalidInput)
      else Inr (bytes @ replicate (SUN_PATH - length bytes) 0, 2 + length bytes + 1))"

definition unix_from_std_with_mode ::
  "('r, 's, 'c, 'm, 't) op_env \<Rightarrow> 'o sock_sys \<Rightarrow> registration_mode \<Rightarrow> int \<Rightarrow>
   ('r, 's, 'c, 'm, 't) any_driver option \<Rightarrow> 'o \<Rightarrow> ('r, 's, 'c, 'm, 't) any_driver option \<times> 'o \<times> socket io_result" where
  "unix_from_std_with_mode Z os mode fd current s = socket_from_std Z os READ_WRITE mode fd current s"

definition unix_new_socket :: "'o unix_sys \<Rightarrow> u8 list \<Rightarrow> 'o \<Rightarrow> 'o \<times> (int \<times> u8 list \<times> nat) io_result" where
  "unix_new_socket os path s =
     (case unix_addr_to_raw path of
        Inl err \<Rightarrow> (s, Inl err)
      | Inr raw \<Rightarrow>
          (case sk_socket (uk_sock os) AF_UNIX s of
             (s, Inl err) \<Rightarrow> (s, Inl err)
           | (s, Inr fd) \<Rightarrow> (s, Inr (fd, raw))))"

definition unix_connect_with_mode ::
  "('r, 's, 'c, 'm, 't) op_env \<Rightarrow> 'o unix_sys \<Rightarrow> registration_mode \<Rightarrow> u8 list \<Rightarrow>
   ('r, 's, 'c, 'm, 't) any_driver option \<Rightarrow> 'o \<Rightarrow> ('r, 's, 'c, 'm, 't) any_driver option \<times> 'o \<times> socket io_result" where
  "unix_connect_with_mode Z os mode path current s =
     (case unix_new_socket os path s of
        (s, Inl err) \<Rightarrow> (current, s, Inl err)
      | (s, Inr (fd, raw)) \<Rightarrow>
          connect_stream Z (uk_sock os) mode fd (\<lambda>completion. uk_connect os completion fd raw) current s)"

definition unix_connect ::
  "('r, 's, 'c, 'm, 't) op_env \<Rightarrow> 'o unix_sys \<Rightarrow> u8 list \<Rightarrow>
   ('r, 's, 'c, 'm, 't) any_driver option \<Rightarrow> 'o \<Rightarrow> ('r, 's, 'c, 'm, 't) any_driver option \<times> 'o \<times> socket io_result" where
  "unix_connect Z os path current s = unix_connect_with_mode Z os CompletionMode path current s"

definition poll_unix_connect ::
  "('r, 's, 'c, 'm, 't) op_env \<Rightarrow> 'o unix_sys \<Rightarrow> u8 list \<Rightarrow>
   ('r, 's, 'c, 'm, 't) any_driver option \<Rightarrow> 'o \<Rightarrow> ('r, 's, 'c, 'm, 't) any_driver option \<times> 'o \<times> poll_socket io_result" where
  "poll_unix_connect Z os path current s =
     (case unix_connect_with_mode Z os PollMode path current s of
        (current, s, res) \<Rightarrow> (current, s, map_sum id poll_wrap res))"

definition unix_from_std_poll ::
  "('r, 's, 'c, 'm, 't) op_env \<Rightarrow> 'o sock_sys \<Rightarrow> int \<Rightarrow> ('r, 's, 'c, 'm, 't) any_driver option \<Rightarrow> 'o \<Rightarrow>
   ('r, 's, 'c, 'm, 't) any_driver option \<times> 'o \<times> poll_socket io_result" where
  "unix_from_std_poll Z os fd current s =
     (case socket_from_std Z os READ_WRITE (handle_new_mode current) fd current s of
        (current, s, res) \<Rightarrow> (current, s, map_sum id poll_wrap res))"

definition unix_into_poll ::
  "('r, 's, 'c, 'm, 't) op_env \<Rightarrow> 'o sock_sys \<Rightarrow> socket \<Rightarrow> ('r, 's, 'c, 'm, 't) any_driver \<Rightarrow> 'o \<Rightarrow>
   ('r, 's, 'c, 'm, 't) any_driver \<times> 'o \<times> poll_socket io_result" where
  "unix_into_poll Z os k d s =
     (case socket_rebind Z os PollMode k d s of (d, s, res) \<Rightarrow> (d, s, map_sum id poll_wrap res))"

definition poll_unix_into_completion ::
  "('r, 's, 'c, 'm, 't) op_env \<Rightarrow> 'o sock_sys \<Rightarrow> poll_socket \<Rightarrow> ('r, 's, 'c, 'm, 't) any_driver \<Rightarrow> 'o \<Rightarrow>
   ('r, 's, 'c, 'm, 't) any_driver \<times> 'o \<times> socket io_result" where
  "poll_unix_into_completion Z os p d s = socket_rebind Z os CompletionMode (po_stream p) d s"

subsection \<open>\<open>UnixListener\<close>\<close>

definition unix_listener_from_std ::
  "('r, 's, 'c, 'm, 't) op_env \<Rightarrow> 'o sock_sys \<Rightarrow> int \<Rightarrow>
   ('r, 's, 'c, 'm, 't) any_driver option \<Rightarrow> 'o \<Rightarrow> ('r, 's, 'c, 'm, 't) any_driver option \<times> 'o \<times> socket io_result" where
  "unix_listener_from_std Z os fd current s = socket_from_std Z os READABLE (handle_new_mode current) fd current s"

definition unix_listener_bind ::
  "('r, 's, 'c, 'm, 't) op_env \<Rightarrow> 'o unix_sys \<Rightarrow> u8 list \<Rightarrow>
   ('r, 's, 'c, 'm, 't) any_driver option \<Rightarrow> 'o \<Rightarrow> ('r, 's, 'c, 'm, 't) any_driver option \<times> 'o \<times> socket io_result" where
  "unix_listener_bind Z os path current s =
     (case uk_bind os path s of
        (s, Inl err) \<Rightarrow> (current, s, Inl err)
      | (s, Inr fd) \<Rightarrow> unix_listener_from_std Z (uk_sock os) fd current s)"

text \<open>The accepted stream is closed when its peer has no address.\<close>

definition unix_accept ::
  "('r, 's, 'c, 'm, 't) op_env \<Rightarrow> 'o unix_sys \<Rightarrow> socket \<Rightarrow> ('r, 's, 'c, 'm, 't) any_driver \<Rightarrow> 'o \<Rightarrow>
   ('r, 's, 'c, 'm, 't) any_driver option \<times> 'o \<times> (socket \<times> u8 list) io_result" where
  "unix_accept Z os l d s =
     (case uk_accept os (uses_completion d (so_handle l)) (so_inner l) s of
        (s, Inl err) \<Rightarrow> (Some d, s, Inl err)
      | (s, Inr fd) \<Rightarrow>
          (case uk_peer_addr os fd s of
             (s, Inl err) \<Rightarrow> (Some d, sk_close (uk_sock os) fd s, Inl err)
           | (s, Inr address) \<Rightarrow>
               (case unix_from_std_with_mode Z (uk_sock os) CompletionMode fd (Some d) s of
                  (current, s, Inl err) \<Rightarrow> (current, s, Inl err)
                | (current, s, Inr k) \<Rightarrow> (current, s, Inr (k, address)))))"

subsection \<open>Addresses\<close>

text \<open>An accepted path is stored whole, terminated, in the 110 bytes of a \<open>sockaddr_un\<close>.\<close>

lemma unix_addr_roundtrip:
  assumes "unix_addr_to_raw path = Inr (sun_path, len)"
  shows "length sun_path = SUN_PATH \<and> takeWhile (\<lambda>b. b \<noteq> 0) sun_path = path \<and>
    len = 2 + length path + 1 \<and> len \<le> 2 + SUN_PATH"
proof -
  obtain n where n: "SUN_PATH - length path = Suc n"
    using assms by (auto simp: unix_addr_to_raw_def split: if_splits intro: that [of "SUN_PATH - length path - 1"])
  have z: "\<forall>b\<in>set path. b \<noteq> 0"
    using assms by (auto simp: unix_addr_to_raw_def split: if_splits)
  then have "takeWhile (\<lambda>b. b \<noteq> 0) (path @ 0 # replicate n 0) = path"
    by (induction path) auto
  moreover have "sun_path = path @ 0 # replicate n 0" "length path < SUN_PATH" "len = 2 + length path + 1"
    using assms n by (auto simp: unix_addr_to_raw_def split: if_splits)
  ultimately show ?thesis
    using n by simp
qed

lemma unix_addr_accepts:
  "(\<exists>raw. unix_addr_to_raw path = Inr raw) \<longleftrightarrow> path \<noteq> [] \<and> 0 \<notin> set path \<and> length path < SUN_PATH"
  by (auto simp: unix_addr_to_raw_def)

subsection \<open>Streams own their descriptors\<close>

definition honest_unix :: "'o unix_sys \<Rightarrow> 'o sock_view \<Rightarrow> bool" where
  "honest_unix os V \<longleftrightarrow>
     honest_sock (uk_sock os) V \<and>
     (\<forall>completion fd raw. quiet V (uk_connect os completion fd raw)) \<and>
     (\<forall>fd. quiet V (uk_peer_addr os fd)) \<and>
     (\<forall>path. honest_create V (uk_bind os path)) \<and>
     (\<forall>completion fd. honest_create V (uk_accept os completion fd))"

lemma unix_connect_owns:
  assumes honest: "honest_unix os V" and r: "unix_connect_with_mode Z os mode path current s = (current', s', res)"
  shows "fd_owned V s s' res \<and> (\<forall>k. res = Inr k \<longrightarrow> socket_fits V s' current' k)"
proof (cases "unix_addr_to_raw path")
  case (Inl err)
  then show ?thesis
    using r by (auto simp: unix_connect_with_mode_def unix_new_socket_def fd_owned_def)
next
  case raw: (Inr raw)
  obtain s1 r1 where s1: "sk_socket (uk_sock os) AF_UNIX s = (s1, r1)"
    by fastforce
  have sock: "honest_sock (uk_sock os) V"
    and call: "\<And>fd completion s s' res. uk_connect os completion fd raw s = (s', res) \<Longrightarrow> same_view V s s'"
    using honest unfolding honest_unix_def quiet_def by blast+
  note created = honest_sockD(1) [OF sock s1]
  show ?thesis
  proof (cases r1)
    case (Inl err)
    then show ?thesis
      using r raw s1 created by (auto simp: unix_connect_with_mode_def unix_new_socket_def fd_owned_def)
  next
    case (Inr fd)
    then have "connect_stream Z (uk_sock os) mode fd (\<lambda>completion. uk_connect os completion fd raw) current s1 = (current', s', res)"
      using r raw s1 by (simp add: unix_connect_with_mode_def unix_new_socket_def)
    from connect_stream_sound [OF sock _ _ call this, of s] show ?thesis
      using created Inr by simp
  qed
qed

lemma unix_accept_owns:
  assumes honest: "honest_unix os V" and r: "unix_accept Z os l d s = (current', s', res)"
  shows "fd_owned V s s' (map_sum id fst res)"
proof -
  obtain s1 r1 where s1: "uk_accept os (uses_completion d (so_handle l)) (so_inner l) s = (s1, r1)"
    by fastforce
  have sock: "honest_sock (uk_sock os) V" and call: "\<And>fd s s' res. uk_peer_addr os fd s = (s', res) \<Longrightarrow> same_view V s s'"
    and created: "case r1 of Inl _ \<Rightarrow> sv_opened V s1 = sv_opened V s
       | Inr fd \<Rightarrow> fd \<notin> sv_opened V s \<and> sv_opened V s1 = insert fd (sv_opened V s)"
    using honest s1 unfolding honest_unix_def quiet_def honest_create_def by blast+
  show ?thesis
  proof (cases r1)
    case (Inl err)
    then show ?thesis
      using r s1 created by (auto simp: unix_accept_def fd_owned_def)
  next
    case (Inr fd)
    obtain s2 r2 where s2: "uk_peer_addr os fd s1 = (s2, r2)"
      by fastforce
    have o2: "fd \<notin> sv_opened V s" "sv_opened V s2 = insert fd (sv_opened V s)"
      using created Inr call [OF s2] by (auto simp: same_view_def)
    obtain c3 s3 r3 where s3: "socket_from_std Z (uk_sock os) READ_WRITE CompletionMode fd (Some d) s2 = (c3, s3, r3)"
      using prod_cases3 by blast
    show ?thesis
      using r s1 Inr s2 s3 o2 socket_from_std_sound [OF sock o2 s3] honest_sockD(3) [OF sock, of fd s2]
      by (cases r2; cases r3) (auto simp: unix_accept_def unix_from_std_with_mode_def fd_owned_def)
  qed
qed

subsection \<open>Modes\<close>

text \<open>\<open>from_std_poll\<close> on a driver with completions makes a polled stream whose handle is not polled.\<close>

lemma unix_from_std_poll_completes:
  assumes "unix_from_std_poll Z os fd (Some d) s = (current', s', Inr p)" and "any_supports_completion d"
  shows "h_mode (so_handle (po_stream p)) = CompletionMode"
  using assms
  by (auto simp: unix_from_std_poll_def socket_from_std_def handle_new_mode_def new_with_mode_def
      new_with_driver_and_mode_def effective_mode_def poll_wrap_def Let_def split: prod.splits sum.splits)

end
