(* ===== verification/Io_Splice.thy ===== *)
theory Io_Splice
  imports Net_Socket Ops_Path
begin

text \<open>
  Zero-copy transfers: \<open>io/splice.rs\<close> and \<open>io/sendfile.rs\<close>. The loops of \<open>splice_exact\<close>, of \<open>sendfile_exact\<close> on
  a polled handle and of \<open>sendfile_exact\<close> on a completing one, which moves the bytes through a pipe of
  its own. A transfer is the operation of \<open>Ops_Path\<close> at its end: the kernel runs the entry of a
  completion or the system call. \<open>None\<close> stands for a call or a loop that does not come back.
\<close>

subsection \<open>The operations\<close>

record 'o splice_sys =
  sl_run :: "op_entry \<Rightarrow> 'o \<Rightarrow> ('o \<times> nat io_result) option"
  sl_splice :: "int \<Rightarrow> int \<Rightarrow> nat \<Rightarrow> 'o \<Rightarrow> ('o \<times> nat io_result) option"
  sl_sendfile :: "int \<Rightarrow> int \<Rightarrow> nat \<Rightarrow> 'o \<Rightarrow> ('o \<times> nat io_result) option"
  sl_pipe2 :: "'o \<Rightarrow> 'o \<times> (int \<times> int) io_result"
  sl_getfl :: "int \<Rightarrow> 'o \<Rightarrow> 'o \<times> u32 option"
  sl_setfl :: "int \<Rightarrow> u32 \<Rightarrow> 'o \<Rightarrow> 'o"
  sl_close :: "int \<Rightarrow> 'o \<Rightarrow> 'o"

definition io_splice ::
  "'o splice_sys \<Rightarrow> ('r, 's, 'c, 'm, 't) any_driver \<Rightarrow> int \<Rightarrow> raw_handle \<Rightarrow> nat \<Rightarrow> 'o \<Rightarrow> ('o \<times> nat io_result) option" where
  "io_splice os d from to len s =
     (let op = splice_new from to len in
      if uses_completion d to
      then (case splice_entry op of
              Inl err \<Rightarrow> Some (s, Inl err)
            | Inr e \<Rightarrow> sl_run os e s)
      else sl_splice os (sp_fd_in op) (h_handle (sp_fd_out op)) (sp_len op) s)"

text \<open>The loop of \<open>splice_exact\<close> and of \<open>sendfile_exact_poll\<close>.\<close>

partial_function (option) transfer_loop ::
  "(nat \<Rightarrow> 'o \<Rightarrow> ('o \<times> nat io_result) option) \<Rightarrow> nat \<Rightarrow> nat \<Rightarrow> 'o \<Rightarrow> ('o \<times> nat io_result) option" where
  "transfer_loop call len copied s =
     (if copied < len
      then (case call (min (len - copied) USIZE_MAX) s of
              None \<Rightarrow> None
            | Some (s, res) \<Rightarrow>
                (case res of
                   Inl err \<Rightarrow> Some (s, Inl err)
                 | Inr n \<Rightarrow> if n = 0 then Some (s, Inr copied) else transfer_loop call len (copied + n) s))
      else Some (s, Inr copied))"

definition splice_exact ::
  "'o splice_sys \<Rightarrow> ('r, 's, 'c, 'm, 't) any_driver \<Rightarrow> int \<Rightarrow> raw_handle \<Rightarrow> u64 \<Rightarrow> 'o \<Rightarrow> ('o \<times> nat io_result) option" where
  "splice_exact os d from to len s = transfer_loop (io_splice os d from to) (unat len) 0 s"

definition sendfile_exact_poll ::
  "'o splice_sys \<Rightarrow> int \<Rightarrow> raw_handle \<Rightarrow> u64 \<Rightarrow> 'o \<Rightarrow> ('o \<times> nat io_result) option" where
  "sendfile_exact_poll os from to len s =
     transfer_loop (\<lambda>n. let op = sendfile_new from to n in
       sl_sendfile os (sf_fd_in op) (h_handle (sf_fd_out op)) (sf_len op)) (unat len) 0 s"

definition O_NONBLOCK_FL :: u32 where "O_NONBLOCK_FL = 0x800"

text \<open>\<open>WriteOwnedFd::new\<close>: the descriptor is closed when the registration fails; the flags are best effort.\<close>

definition write_owned_fd_new ::
  "('r, 's, 'c, 'm, 't) op_env \<Rightarrow> 'o splice_sys \<Rightarrow> int \<Rightarrow> ('r, 's, 'c, 'm, 't) any_driver option \<Rightarrow> 'o \<Rightarrow>
   ('r, 's, 'c, 'm, 't) any_driver option \<times> 'o \<times> raw_handle io_result" where
  "write_owned_fd_new Z os writer current s =
     (case new_with_mode Z current writer WRITABLE (handle_new_mode current) of
        (current, Inl err) \<Rightarrow> (current, sl_close os writer s, Inl err)
      | (current, Inr h) \<Rightarrow>
          if (case current of None \<Rightarrow> False | Some d \<Rightarrow> uses_completion d h) then (current, s, Inr h)
          else (case sl_getfl os writer s of
                  (s, None) \<Rightarrow> (current, s, Inr h)
                | (s, Some flags) \<Rightarrow> (current, sl_setfl os writer (flags OR O_NONBLOCK_FL) s, Inr h)))"

definition write_owned_fd_drop ::
  "('r, 's, 'c, 'm, 't) op_env \<Rightarrow> 'o splice_sys \<Rightarrow> raw_handle \<Rightarrow> ('r, 's, 'c, 'm, 't) any_driver \<Rightarrow> 'o \<Rightarrow>
   ('r, 's, 'c, 'm, 't) any_driver \<times> 'o" where
  "write_owned_fd_drop Z os h d s = (handle_drop Z h d, sl_close os (h_handle h) s)"

text \<open>One round of the loop: from the file into the pipe, then from the pipe to the socket.\<close>

definition fill_pipe ::
  "'o splice_sys \<Rightarrow> ('r, 's, 'c, 'm, 't) any_driver \<Rightarrow> int \<Rightarrow> raw_handle \<Rightarrow> nat \<Rightarrow> bool \<Rightarrow> nat \<Rightarrow> 'o \<Rightarrow>
   ('o \<times> (bool \<times> nat) io_result) option" where
  "fill_pipe os d from writer len file_eof total_from_file s =
     (let splice_from_file_len = min (len - total_from_file) USIZE_MAX in
      if \<not> file_eof \<and> 0 < splice_from_file_len
      then (case io_splice os d from writer splice_from_file_len s of
              None \<Rightarrow> None
            | Some (s, Inl err) \<Rightarrow> Some (s, Inl err)
            | Some (s, Inr n) \<Rightarrow>
                Some (s, Inr (if n = 0 then (True, total_from_file) else (file_eof, total_from_file + n))))
      else Some (s, Inr (file_eof, total_from_file)))"

definition drain_pipe ::
  "'o splice_sys \<Rightarrow> ('r, 's, 'c, 'm, 't) any_driver \<Rightarrow> int \<Rightarrow> raw_handle \<Rightarrow> nat \<Rightarrow> nat \<Rightarrow> 'o \<Rightarrow>
   ('o \<times> nat option io_result) option" where
  "drain_pipe os d reader to total_from_file total_to_socket s =
     (let splice_to_socket_len = min (total_from_file - total_to_socket) USIZE_MAX in
      if 0 < splice_to_socket_len
      then (case io_splice os d reader to splice_to_socket_len s of
              None \<Rightarrow> None
            | Some (s, Inl err) \<Rightarrow> Some (s, Inl err)
            | Some (s, Inr n) \<Rightarrow> Some (s, Inr (if n = 0 then None else Some (total_to_socket + n))))
      else Some (s, Inr (Some total_to_socket)))"

partial_function (option) sendfile_loop ::
  "'o splice_sys \<Rightarrow> ('r, 's, 'c, 'm, 't) any_driver \<Rightarrow> int \<Rightarrow> int \<Rightarrow> raw_handle \<Rightarrow> raw_handle \<Rightarrow> nat \<Rightarrow> bool \<Rightarrow> nat \<Rightarrow> nat \<Rightarrow>
   'o \<Rightarrow> ('o \<times> nat io_result) option" where
  "sendfile_loop os d from reader writer to len file_eof total_from_file total_to_socket s =
     (if total_from_file < len \<and> \<not> file_eof \<or> total_to_socket < total_from_file
      then (case fill_pipe os d from writer len file_eof total_from_file s of
              None \<Rightarrow> None
            | Some (s, filled) \<Rightarrow>
                (case filled of
                   Inl err \<Rightarrow> Some (s, Inl err)
                 | Inr (file_eof, total_from_file) \<Rightarrow>
                     (case drain_pipe os d reader to total_from_file total_to_socket s of
                        None \<Rightarrow> None
                      | Some (s, drained) \<Rightarrow>
                          (case drained of
                             Inl err \<Rightarrow> Some (s, Inl err)
                           | Inr None \<Rightarrow> Some (s, Inr total_to_socket)
                           | Inr (Some total_to_socket) \<Rightarrow>
                               sendfile_loop os d from reader writer to len file_eof total_from_file total_to_socket s))))
      else Some (s, Inr total_to_socket))"

text \<open>Both ends of the pipe are closed on every way out.\<close>

definition sendfile_exact_completion ::
  "('r, 's, 'c, 'm, 't) op_env \<Rightarrow> 'o splice_sys \<Rightarrow> int \<Rightarrow> raw_handle \<Rightarrow> u64 \<Rightarrow>
   ('r, 's, 'c, 'm, 't) any_driver \<Rightarrow> 'o \<Rightarrow> (('r, 's, 'c, 'm, 't) any_driver option \<times> 'o \<times> nat io_result) option" where
  "sendfile_exact_completion Z os from to len d s =
     (case sl_pipe2 os s of
        (s, Inl err) \<Rightarrow> Some (Some d, s, Inl err)
      | (s, Inr (reader, writer)) \<Rightarrow>
          (case write_owned_fd_new Z os writer (Some d) s of
             (current, s, Inl err) \<Rightarrow> Some (current, sl_close os reader s, Inl err)
           | (None, s, Inr h) \<Rightarrow> Some (None, s, Inr 0)
           | (Some d, s, Inr h) \<Rightarrow>
               (case sendfile_loop os d from reader h to (unat len) False 0 0 s of
                  None \<Rightarrow> None
                | Some (s, res) \<Rightarrow>
                    (case res of
                       Inl err \<Rightarrow> (case write_owned_fd_drop Z os h d s of (d, s) \<Rightarrow> Some (Some d, sl_close os reader s, Inl err))
                     | Inr n \<Rightarrow>
                         (case write_owned_fd_drop Z os h d (sl_close os reader s) of (d, s) \<Rightarrow> Some (Some d, s, Inr n))))))"

definition sendfile_exact ::
  "('r, 's, 'c, 'm, 't) op_env \<Rightarrow> 'o splice_sys \<Rightarrow> int \<Rightarrow> raw_handle \<Rightarrow> u64 \<Rightarrow>
   ('r, 's, 'c, 'm, 't) any_driver \<Rightarrow> 'o \<Rightarrow> (('r, 's, 'c, 'm, 't) any_driver option \<times> 'o \<times> nat io_result) option" where
  "sendfile_exact Z os from to len d s =
     (if uses_completion d to then sendfile_exact_completion Z os from to len d s
      else map_option (\<lambda>(s, res). (Some d, s, res)) (sendfile_exact_poll os from to len s))"

subsection \<open>What the kernel promises\<close>

text \<open>
  The bytes left in the file, in the pipe and sent to the socket; the ends of the pipe and the open
  descriptors. A transfer of \<open>n\<close> bytes moves some of the bytes at the front, none only when none are
  asked for or none are left, or fails and moves nothing.
\<close>

record 'o splice_view =
  pv_file :: "'o \<Rightarrow> u8 list"
  pv_pipe :: "'o \<Rightarrow> u8 list"
  pv_sock :: "'o \<Rightarrow> u8 list"
  pv_ends :: "'o \<Rightarrow> (int \<times> int) option"
  pv_open :: "'o \<Rightarrow> int set"

definition moves ::
  "('o \<Rightarrow> u8 list) \<Rightarrow> ('o \<Rightarrow> u8 list) \<Rightarrow> ('o \<Rightarrow> 'x) \<Rightarrow> nat \<Rightarrow> ('o \<Rightarrow> ('o \<times> nat io_result) option) \<Rightarrow> 'o \<Rightarrow> bool" where
  "moves src out others n call s \<longleftrightarrow>
     (\<exists>s' res. call s = Some (s', res) \<and> others s' = others s \<and>
        (case res of
           Inl _ \<Rightarrow> src s' = src s \<and> out s' = out s
         | Inr k \<Rightarrow> k \<le> n \<and> k \<le> length (src s) \<and> (k = 0 \<longrightarrow> n = 0 \<or> src s = []) \<and>
             src s' = drop k (src s) \<and> out s' = out s @ take k (src s)))"

definition pipe_rest :: "'o splice_view \<Rightarrow> 'o \<Rightarrow> u8 list \<times> (int \<times> int) option \<times> int set" where
  "pipe_rest V s = (pv_pipe V s, pv_ends V s, pv_open V s)"

definition sock_rest :: "'o splice_view \<Rightarrow> 'o \<Rightarrow> u8 list \<times> (int \<times> int) option \<times> int set" where
  "sock_rest V s = (pv_sock V s, pv_ends V s, pv_open V s)"

definition file_rest :: "'o splice_view \<Rightarrow> 'o \<Rightarrow> u8 list \<times> (int \<times> int) option \<times> int set" where
  "file_rest V s = (pv_file V s, pv_ends V s, pv_open V s)"

definition honest_pipe :: "'o splice_sys \<Rightarrow> 'o splice_view \<Rightarrow> int \<Rightarrow> int \<Rightarrow> bool" where
  "honest_pipe os V from to \<longleftrightarrow>
     (\<forall>s r w. pv_ends V s = Some (r, w) \<longrightarrow>
        (\<forall>n. moves (pv_file V) (pv_pipe V) (sock_rest V) n (sl_splice os from w n) s) \<and>
        (\<forall>n. moves (pv_file V) (pv_pipe V) (sock_rest V) (unat n) (sl_run os (ESplice from w n)) s) \<and>
        (\<forall>n. moves (pv_pipe V) (pv_sock V) (file_rest V) n (sl_splice os r to n) s) \<and>
        (\<forall>n. moves (pv_pipe V) (pv_sock V) (file_rest V) (unat n) (sl_run os (ESplice r to n)) s))"

definition honest_fds :: "'o splice_sys \<Rightarrow> 'o splice_view \<Rightarrow> bool" where
  "honest_fds os V \<longleftrightarrow>
     (\<forall>s s' res. sl_pipe2 os s = (s', res) \<longrightarrow>
        pv_file V s' = pv_file V s \<and> pv_sock V s' = pv_sock V s \<and>
        (case res of
           Inl _ \<Rightarrow> pv_open V s' = pv_open V s
         | Inr (r, w) \<Rightarrow> pv_ends V s' = Some (r, w) \<and> pv_pipe V s' = [] \<and> r \<noteq> w \<and> {r, w} \<inter> pv_open V s = {} \<and>
             pv_open V s' = insert r (insert w (pv_open V s)))) \<and>
     (\<forall>fd s. pv_file V (sl_close os fd s) = pv_file V s \<and> pv_sock V (sl_close os fd s) = pv_sock V s \<and>
        pv_open V (sl_close os fd s) = pv_open V s - {fd}) \<and>
     (\<forall>fd s s' res. sl_getfl os fd s = (s', res) \<longrightarrow> pipe_rest V s' = pipe_rest V s \<and> sock_rest V s' = sock_rest V s \<and>
        file_rest V s' = file_rest V s) \<and>
     (\<forall>fd fl s. pipe_rest V (sl_setfl os fd fl s) = pipe_rest V s \<and> sock_rest V (sl_setfl os fd fl s) = sock_rest V s \<and>
        file_rest V (sl_setfl os fd fl s) = file_rest V s)"

definition honest_splice :: "'o splice_sys \<Rightarrow> 'o splice_view \<Rightarrow> int \<Rightarrow> int \<Rightarrow> bool" where
  "honest_splice os V from to \<longleftrightarrow>
     honest_pipe os V from to \<and> honest_fds os V \<and>
     (\<forall>n s. moves (pv_file V) (pv_sock V) (pipe_rest V) n (sl_sendfile os from to n) s)"

lemma movesE:
  assumes "moves src out others n call s"
  obtains (failed) s' err where "call s = Some (s', Inl err)" "others s' = others s" "src s' = src s" "out s' = out s"
  | (moved) s' k where "call s = Some (s', Inr k)" "others s' = others s" "k \<le> n" "k \<le> length (src s)"
      "k = 0 \<Longrightarrow> n = 0 \<or> src s = []" "src s' = drop k (src s)" "out s' = out s @ take k (src s)"
proof -
  obtain s' res where r: "call s = Some (s', res)" "others s' = others s"
    "case res of Inl _ \<Rightarrow> src s' = src s \<and> out s' = out s
     | Inr k \<Rightarrow> k \<le> n \<and> k \<le> length (src s) \<and> (k = 0 \<longrightarrow> n = 0 \<or> src s = []) \<and>
         src s' = drop k (src s) \<and> out s' = out s @ take k (src s)"
    using assms unfolding moves_def by blast
  show thesis
    using r failed moved by (cases res) auto
qed

subsection \<open>The loop over one call\<close>

lemma transfer_loop_all:
  assumes "\<And>n s. n \<le> len \<Longrightarrow> P (others s) \<Longrightarrow> moves src out others n (call n) s" and "len \<le> USIZE_MAX"
    and "copied \<le> len" and "P (others s)"
  shows "\<exists>s' res. transfer_loop call len copied s = Some (s', res) \<and> others s' = others s \<and>
    (case res of
       Inl _ \<Rightarrow> \<exists>j \<le> len - copied. out s' = out s @ take j (src s)
     | Inr m \<Rightarrow> m = copied + min (len - copied) (length (src s)) \<and>
         out s' = out s @ take (len - copied) (src s) \<and> src s' = drop (len - copied) (src s))"
  using assms(3,4)
proof (induction "len - copied" arbitrary: copied s rule: less_induct)
  case less
  show ?case
  proof (cases "copied < len")
    case False
    then show ?thesis
      using less.prems by (auto simp: transfer_loop.simps)
  next
    case True
    then have n: "min (len - copied) USIZE_MAX = len - copied"
      using assms(2) by simp
    from assms(1) [of "len - copied" s, OF _ less.prems(2), simplified] show ?thesis
    proof (cases rule: movesE)
      case (failed s1 err)
      then show ?thesis
        using True n by (auto simp: transfer_loop.simps intro: exI [of _ 0])
    next
      case (moved s1 k)
      show ?thesis
      proof (cases "k = 0")
        case True
        then show ?thesis
          using moved n \<open>copied < len\<close> by (auto simp: transfer_loop.simps)
      next
        case False
        then have k: "len - (copied + k) < len - copied" "copied + k \<le> len"
          using moved(3) \<open>copied < len\<close> by auto
        obtain s' res where r: "transfer_loop call len (copied + k) s1 = Some (s', res)" "others s' = others s1"
          "case res of
             Inl _ \<Rightarrow> \<exists>j \<le> len - (copied + k). out s' = out s1 @ take j (src s1)
           | Inr m \<Rightarrow> m = copied + k + min (len - (copied + k)) (length (src s1)) \<and>
               out s' = out s1 @ take (len - (copied + k)) (src s1) \<and> src s' = drop (len - (copied + k)) (src s1)"
          using less.hyps [OF k, of s1] less.prems(2) moved(2) by auto
        have "transfer_loop call len copied s = Some (s', res)"
          using r(1) moved(1) n \<open>copied < len\<close> False by (simp add: transfer_loop.simps)
        moreover have "\<exists>j \<le> len - copied. out s' = out s @ take j (src s)" if err: "res = Inl err" for err
        proof -
          obtain j where "j \<le> len - (copied + k)" "out s' = out s1 @ take j (src s1)"
            using r(3) err by auto
          then show ?thesis
            using moved(3,6,7) by (intro exI [of _ "k + j"]) (simp add: take_add)
        qed
        moreover have rest: "k + (len - (copied + k)) = len - copied" "len - (copied + k) + k = len - copied"
          using k(2) by auto
        have "out s' = out s @ take (len - copied) (src s)" "src s' = drop (len - copied) (src s)"
          "m = copied + min (len - copied) (length (src s))" if "res = Inr m" for m
          using r(3) moved(3,4,6,7) that take_add [of k "len - (copied + k)" "src s"] by (auto simp: rest)
        ultimately show ?thesis
          using r(2) moved(2) by (cases res) auto
      qed
    qed
  qed
qed

subsection \<open>The loop through the pipe\<close>

definition sendfile_inv :: "'o splice_view \<Rightarrow> int \<times> int \<Rightarrow> nat \<Rightarrow> bool \<Rightarrow> nat \<Rightarrow> nat \<Rightarrow> 'o \<Rightarrow> bool" where
  "sendfile_inv V ends len file_eof from_file to_socket s \<longleftrightarrow>
     pv_ends V s = Some ends \<and> to_socket \<le> from_file \<and> from_file \<le> len \<and>
     length (pv_pipe V s) = from_file - to_socket \<and> (file_eof \<longrightarrow> pv_file V s = [])"

definition sendfile_todo :: "'o splice_view \<Rightarrow> nat \<Rightarrow> nat \<Rightarrow> 'o \<Rightarrow> u8 list" where
  "sendfile_todo V len from_file s = pv_pipe V s @ take (len - from_file) (pv_file V s)"

definition sendfile_measure :: "'o splice_view \<Rightarrow> bool \<Rightarrow> 'o \<Rightarrow> nat" where
  "sendfile_measure V file_eof s = 2 * length (pv_file V s) + length (pv_pipe V s) + (if file_eof then 0 else 1)"

lemma splice_fills:
  assumes "honest_pipe os V from to" and "pv_ends V s = Some (r, h_handle writer)"
    and "uses_completion d writer \<Longrightarrow> n < 2 ^ 32"
  shows "moves (pv_file V) (pv_pipe V) (sock_rest V) n (io_splice os d from writer n) s"
proof (cases "uses_completion d writer")
  case True
  then have "unat (of_nat n :: u32) = n"
    using assms(3) by (simp add: unat_of_nat_u32)
  moreover have "moves (pv_file V) (pv_pipe V) (sock_rest V) (unat (of_nat n :: u32))
    (sl_run os (ESplice from (h_handle writer) (of_nat n))) s"
    using assms(1,2) unfolding honest_pipe_def by blast
  ultimately show ?thesis
    using True by (simp add: io_splice_def splice_new_def splice_entry_def moves_def)
next
  case False
  have "moves (pv_file V) (pv_pipe V) (sock_rest V) n (sl_splice os from (h_handle writer) n) s"
    using assms(1,2) unfolding honest_pipe_def by blast
  then show ?thesis
    using False by (simp add: io_splice_def splice_new_def moves_def)
qed

lemma splice_drains:
  assumes "honest_pipe os V from (h_handle to)" and "pv_ends V s = Some (r, w)"
    and "uses_completion d to \<Longrightarrow> n < 2 ^ 32"
  shows "moves (pv_pipe V) (pv_sock V) (file_rest V) n (io_splice os d r to n) s"
proof (cases "uses_completion d to")
  case True
  then have "unat (of_nat n :: u32) = n"
    using assms(3) by (simp add: unat_of_nat_u32)
  moreover have "moves (pv_pipe V) (pv_sock V) (file_rest V) (unat (of_nat n :: u32))
    (sl_run os (ESplice r (h_handle to) (of_nat n))) s"
    using assms(1,2) unfolding honest_pipe_def by blast
  ultimately show ?thesis
    using True by (simp add: io_splice_def splice_new_def splice_entry_def moves_def)
next
  case False
  have "moves (pv_pipe V) (pv_sock V) (file_rest V) n (sl_splice os r (h_handle to) n) s"
    using assms(1,2) unfolding honest_pipe_def by blast
  then show ?thesis
    using False by (simp add: io_splice_def splice_new_def moves_def)
qed

lemma fill_pipe_step:
  assumes honest: "honest_pipe os V from to" and len: "len \<le> USIZE_MAX" "uses_completion d writer \<Longrightarrow> len < 2 ^ 32"
    and inv: "sendfile_inv V (r, h_handle writer) len file_eof tf ts s"
  shows "\<exists>s' res. fill_pipe os d from writer len file_eof tf s = Some (s', res) \<and> sock_rest V s' = sock_rest V s \<and>
    (case res of
       Inl _ \<Rightarrow> True
     | Inr (eof, tf') \<Rightarrow> sendfile_inv V (r, h_handle writer) len eof tf' ts s' \<and>
         sendfile_todo V len tf' s' = sendfile_todo V len tf s \<and>
         drop (len - tf') (pv_file V s') = drop (len - tf) (pv_file V s) \<and>
         sendfile_measure V eof s' \<le> sendfile_measure V file_eof s \<and>
         (tf < len \<and> \<not> file_eof \<longrightarrow> sendfile_measure V eof s' < sendfile_measure V file_eof s))"
proof (cases "\<not> file_eof \<and> tf < len")
  case False
  then show ?thesis
    using inv len by (auto simp: fill_pipe_def Let_def sendfile_inv_def)
next
  case True
  then have n: "min (len - tf) USIZE_MAX = len - tf" "0 < len - tf"
    using len(1) by auto
  have ends: "pv_ends V s = Some (r, h_handle writer)"
    using inv by (simp add: sendfile_inv_def)
  have lim: "uses_completion d writer \<Longrightarrow> len - tf < 2 ^ 32"
    using len(2) by simp
  have "moves (pv_file V) (pv_pipe V) (sock_rest V) (len - tf) (io_splice os d from writer (len - tf)) s"
    by (rule splice_fills [OF honest ends lim])
  then show ?thesis
  proof (cases rule: movesE)
    case (failed s1 err)
    then show ?thesis
      using True n by (auto simp: fill_pipe_def Let_def)
  next
    case (moved s1 k)
    have rest: "k + (len - (tf + k)) = len - tf" "len - (tf + k) + k = len - tf"
      using moved(3) True by auto
    then have "take (len - tf) (pv_file V s) = take k (pv_file V s) @ take (len - (tf + k)) (drop k (pv_file V s))"
      by (metis take_add)
    then show ?thesis
      using True n moved inv rest
      by (cases "k = 0")
        (auto simp: fill_pipe_def Let_def sendfile_inv_def sendfile_todo_def sendfile_measure_def sock_rest_def)
  qed
qed

lemma drain_pipe_step:
  assumes honest: "honest_pipe os V from (h_handle to)" and len: "len \<le> USIZE_MAX" "uses_completion d to \<Longrightarrow> len < 2 ^ 32"
    and inv: "sendfile_inv V (r, w) len file_eof tf ts s"
  shows "\<exists>s' res. drain_pipe os d r to tf ts s = Some (s', res) \<and> pv_ends V s' = pv_ends V s \<and> pv_open V s' = pv_open V s \<and>
    (case res of
       Inl _ \<Rightarrow> pv_sock V s' = pv_sock V s
     | Inr None \<Rightarrow> False
     | Inr (Some ts') \<Rightarrow> sendfile_inv V (r, w) len file_eof tf ts' s' \<and> pv_file V s' = pv_file V s \<and>
         (\<exists>sent. pv_sock V s' = pv_sock V s @ sent \<and> sendfile_todo V len tf s = sent @ sendfile_todo V len tf s' \<and>
            ts' = ts + length sent) \<and>
         sendfile_measure V file_eof s' \<le> sendfile_measure V file_eof s \<and>
         (ts < tf \<longrightarrow> sendfile_measure V file_eof s' < sendfile_measure V file_eof s))"
proof (cases "ts < tf")
  case False
  then show ?thesis
    using inv by (auto simp: drain_pipe_def Let_def sendfile_inv_def)
next
  case True
  have tf: "tf \<le> len" "length (pv_pipe V s) = tf - ts" "pv_ends V s = Some (r, w)"
    using inv by (auto simp: sendfile_inv_def)
  then have n: "min (tf - ts) USIZE_MAX = tf - ts" "0 < tf - ts" "pv_pipe V s \<noteq> []"
    using len(1) True by auto
  have lim: "uses_completion d to \<Longrightarrow> tf - ts < 2 ^ 32"
    using len(2) tf(1) by simp
  have "moves (pv_pipe V) (pv_sock V) (file_rest V) (tf - ts) (io_splice os d r to (tf - ts)) s"
    by (rule splice_drains [OF honest tf(3) lim])
  then show ?thesis
  proof (cases rule: movesE)
    case (failed s1 err)
    then show ?thesis
      using n by (auto simp: drain_pipe_def Let_def file_rest_def)
  next
    case (moved s1 k)
    then have "k \<noteq> 0"
      using n by auto
    then show ?thesis
      using n moved inv tf
      by (auto simp: drain_pipe_def Let_def sendfile_inv_def sendfile_todo_def sendfile_measure_def file_rest_def)
  qed
qed

text \<open>A round that does not fail sends a part of what there is to do and leaves less of it.\<close>

lemma sendfile_round:
  assumes honest: "honest_pipe os V from (h_handle to)" and len: "len \<le> USIZE_MAX"
    and lim: "uses_completion d writer \<or> uses_completion d to \<longrightarrow> len < 2 ^ 32"
    and inv: "sendfile_inv V (r, h_handle writer) len file_eof tf ts s"
    and more: "tf < len \<and> \<not> file_eof \<or> ts < tf"
  obtains (failed) s' err where "sendfile_loop os d from r writer to len file_eof tf ts s = Some (s', Inl err)"
      "pv_open V s' = pv_open V s" "pv_sock V s' = pv_sock V s"
  | (moved) eof tf' ts' s' sent where
      "sendfile_loop os d from r writer to len file_eof tf ts s = sendfile_loop os d from r writer to len eof tf' ts' s'"
      "sendfile_inv V (r, h_handle writer) len eof tf' ts' s'" "sendfile_measure V eof s' < sendfile_measure V file_eof s"
      "pv_open V s' = pv_open V s" "pv_sock V s' = pv_sock V s @ sent"
      "sendfile_todo V len tf s = sent @ sendfile_todo V len tf' s'" "ts' = ts + length sent"
      "drop (len - tf') (pv_file V s') = drop (len - tf) (pv_file V s)"
proof -
  obtain s1 r1 where f: "fill_pipe os d from writer len file_eof tf s = Some (s1, r1)" "sock_rest V s1 = sock_rest V s"
    "case r1 of
       Inl _ \<Rightarrow> True
     | Inr (eof, tf') \<Rightarrow> sendfile_inv V (r, h_handle writer) len eof tf' ts s1 \<and>
         sendfile_todo V len tf' s1 = sendfile_todo V len tf s \<and>
         drop (len - tf') (pv_file V s1) = drop (len - tf) (pv_file V s) \<and>
         sendfile_measure V eof s1 \<le> sendfile_measure V file_eof s \<and>
         (tf < len \<and> \<not> file_eof \<longrightarrow> sendfile_measure V eof s1 < sendfile_measure V file_eof s)"
    using fill_pipe_step [OF honest len _ inv] lim by blast
  have sock: "pv_sock V s1 = pv_sock V s" "pv_open V s1 = pv_open V s"
    using f(2) by (auto simp: sock_rest_def)
  show thesis
  proof (cases r1)
    case (Inl err)
    then show thesis
      using more f sock by (intro failed [of s1 err]) (auto simp: sendfile_loop.simps)
  next
    case (Inr p)
    obtain eof tf1 where p: "p = (eof, tf1)"
      by fastforce
    have inv1: "sendfile_inv V (r, h_handle writer) len eof tf1 ts s1"
      using f(3) Inr p by auto
    obtain s2 r2 where g: "drain_pipe os d r to tf1 ts s1 = Some (s2, r2)" "pv_open V s2 = pv_open V s1"
      "case r2 of
         Inl _ \<Rightarrow> pv_sock V s2 = pv_sock V s1
       | Inr None \<Rightarrow> False
       | Inr (Some ts') \<Rightarrow> sendfile_inv V (r, h_handle writer) len eof tf1 ts' s2 \<and> pv_file V s2 = pv_file V s1 \<and>
           (\<exists>sent. pv_sock V s2 = pv_sock V s1 @ sent \<and> sendfile_todo V len tf1 s1 = sent @ sendfile_todo V len tf1 s2 \<and>
              ts' = ts + length sent) \<and>
           sendfile_measure V eof s2 \<le> sendfile_measure V eof s1 \<and>
           (ts < tf1 \<longrightarrow> sendfile_measure V eof s2 < sendfile_measure V eof s1)"
      using drain_pipe_step [OF honest len _ inv1] lim by blast
    show thesis
    proof (cases r2)
      case err: (Inl err)
      then show thesis
        using more f(1) Inr p g sock by (intro failed [of s2 err]) (auto simp: sendfile_loop.simps)
    next
      case drained: (Inr o2)
      then obtain ts2 sent where ts2: "o2 = Some ts2" "pv_sock V s2 = pv_sock V s1 @ sent"
        "sendfile_todo V len tf1 s1 = sent @ sendfile_todo V len tf1 s2" "ts2 = ts + length sent"
        using g(3) by (cases o2) auto
      have "ts < tf \<Longrightarrow> ts < tf1"
        using f(1) Inr p by (auto simp: fill_pipe_def Let_def split: if_splits option.splits sum.splits prod.splits)
      then have "sendfile_measure V eof s2 < sendfile_measure V file_eof s"
        using more f(3) Inr p g(3) drained ts2(1) by fastforce
      moreover have "sendfile_loop os d from r writer to len file_eof tf ts s =
          sendfile_loop os d from r writer to len eof tf1 ts2 s2"
        using more f(1) Inr p g(1) drained ts2(1) by (subst sendfile_loop.simps) simp
      ultimately show thesis
        using f(3) Inr p g drained ts2 sock by (intro moved [of eof tf1 ts2 s2 sent]) auto
    qed
  qed
qed

lemma sendfile_loop_all:
  assumes honest: "honest_pipe os V from (h_handle to)" and len: "len \<le> USIZE_MAX"
    and lim: "uses_completion d writer \<or> uses_completion d to \<longrightarrow> len < 2 ^ 32"
    and inv: "sendfile_inv V (r, h_handle writer) len file_eof tf ts s"
  shows "\<exists>s' res. sendfile_loop os d from r writer to len file_eof tf ts s = Some (s', res) \<and> pv_open V s' = pv_open V s \<and>
    (case res of
       Inl _ \<Rightarrow> \<exists>j. pv_sock V s' = pv_sock V s @ take j (sendfile_todo V len tf s)
     | Inr m \<Rightarrow> m = ts + length (sendfile_todo V len tf s) \<and> pv_sock V s' = pv_sock V s @ sendfile_todo V len tf s \<and>
         pv_file V s' = drop (len - tf) (pv_file V s))"
  using inv
proof (induction "sendfile_measure V file_eof s" arbitrary: file_eof tf ts s rule: less_induct)
  case less
  show ?case
  proof (cases "tf < len \<and> \<not> file_eof \<or> ts < tf")
    case False
    then have "len = tf \<or> pv_file V s = []" "pv_pipe V s = []" "ts = tf"
      using less.prems by (auto simp: sendfile_inv_def)
    then have "sendfile_todo V len tf s = []" "drop (len - tf) (pv_file V s) = pv_file V s"
      by (auto simp: sendfile_todo_def)
    then show ?thesis
      using False \<open>ts = tf\<close> by (auto simp: sendfile_loop.simps)
  next
    case True
    from honest len lim less.prems True show ?thesis
    proof (cases rule: sendfile_round)
      case (failed s' err)
      then show ?thesis
        by (auto intro: exI [of _ 0])
    next
      case (moved eof tf' ts' s1 sent)
      obtain s' res where h: "sendfile_loop os d from r writer to len eof tf' ts' s1 = Some (s', res)"
        "pv_open V s' = pv_open V s1"
        "case res of
           Inl _ \<Rightarrow> \<exists>j. pv_sock V s' = pv_sock V s1 @ take j (sendfile_todo V len tf' s1)
         | Inr m \<Rightarrow> m = ts' + length (sendfile_todo V len tf' s1) \<and>
             pv_sock V s' = pv_sock V s1 @ sendfile_todo V len tf' s1 \<and>
             pv_file V s' = drop (len - tf') (pv_file V s1)"
        using less.hyps [OF moved(3,2)] by blast
      have "\<exists>i. pv_sock V s' = pv_sock V s @ take i (sendfile_todo V len tf s)"
        if "pv_sock V s' = pv_sock V s1 @ take i (sendfile_todo V len tf' s1)" for i
        using that moved(5,6) by (intro exI [of _ "length sent + i"]) simp
      then show ?thesis
        using h moved by (cases res) auto
    qed
  qed
qed

subsection \<open>Whole transfers\<close>

lemma unat_usize: "unat (len :: u64) \<le> USIZE_MAX"
proof -
  have "unat len < 2 ^ 64"
    using unsigned_less [of len] by simp
  then show ?thesis
    by (simp add: USIZE_MAX_def)
qed

lemma write_owned_fd_new_sound:
  assumes honest: "honest_fds os V" and r: "write_owned_fd_new Z os w current s = (current', s', res)"
  shows "pv_file V s' = pv_file V s \<and> pv_sock V s' = pv_sock V s \<and>
    (case res of
       Inl _ \<Rightarrow> pv_open V s' = pv_open V s - {w}
     | Inr h \<Rightarrow> h_handle h = w \<and> current' \<noteq> None \<and> pipe_rest V s' = pipe_rest V s)"
proof (cases "new_with_mode Z current w WRITABLE (handle_new_mode current)")
  case (Pair c1 r1)
  note close = honest [unfolded honest_fds_def, THEN conjunct2, THEN conjunct1]
    and getfl = honest [unfolded honest_fds_def, THEN conjunct2, THEN conjunct2, THEN conjunct1]
    and setfl = honest [unfolded honest_fds_def, THEN conjunct2, THEN conjunct2, THEN conjunct2]
  obtain s1 fl where s1: "sl_getfl os w s = (s1, fl)"
    by fastforce
  have same: "pipe_rest V s1 = pipe_rest V s" "sock_rest V s1 = sock_rest V s" "file_rest V s1 = file_rest V s"
    using getfl s1 by blast+
  show ?thesis
  proof (cases r1)
    case (Inl err)
    then show ?thesis
      using r Pair close by (auto simp: write_owned_fd_new_def)
  next
    case (Inr h)
    then obtain d where "c1 = Some d" "h_handle h = w"
      using new_with_mode_handle Pair by blast
    then show ?thesis
      using r Pair Inr s1 same setfl
      by (auto simp: write_owned_fd_new_def sock_rest_def file_rest_def split: if_splits option.splits)
  qed
qed

lemma sendfile_completion_all:
  assumes honest: "honest_splice os V from (h_handle to)" and len: "unat len < 2 ^ 32"
  shows "\<exists>current' s' res. sendfile_exact_completion Z os from to len d s = Some (current', s', res) \<and>
    pv_open V s' = pv_open V s \<and>
    (case res of
       Inl _ \<Rightarrow> \<exists>j. pv_sock V s' = pv_sock V s @ take j (take (unat len) (pv_file V s))
     | Inr m \<Rightarrow> m = min (unat len) (length (pv_file V s)) \<and> pv_sock V s' = pv_sock V s @ take (unat len) (pv_file V s) \<and>
         pv_file V s' = drop (unat len) (pv_file V s))"
proof -
  have fds: "honest_fds os V" and pipe: "honest_pipe os V from (h_handle to)"
    using honest by (auto simp: honest_splice_def)
  note close = fds [unfolded honest_fds_def, THEN conjunct2, THEN conjunct1, rule_format]
  obtain s1 r1 where s1: "sl_pipe2 os s = (s1, r1)"
    by fastforce
  note created = fds [unfolded honest_fds_def, THEN conjunct1, rule_format, OF s1]
  show ?thesis
  proof (cases r1)
    case (Inl err)
    then show ?thesis
      using s1 created by (auto simp: sendfile_exact_completion_def intro: exI [of _ 0])
  next
    case (Inr ends)
    obtain r w where ends: "ends = (r, w)"
      by fastforce
    obtain c2 s2 r2 where s2: "write_owned_fd_new Z os w (Some d) s1 = (c2, s2, r2)"
      using prod_cases3 by blast
    note wrapped = write_owned_fd_new_sound [OF fds s2]
    show ?thesis
    proof (cases r2)
      case err: (Inl err)
      then show ?thesis
        using s1 Inr ends s2 wrapped created close
        by (cases c2) (auto simp: sendfile_exact_completion_def intro: exI [of _ 0])
    next
      case wrote: (Inr h)
      then obtain d2 where d2: "c2 = Some d2" "h_handle h = w" "pipe_rest V s2 = pipe_rest V s1"
        using wrapped by auto
      then have "sendfile_inv V (r, h_handle h) (unat len) False 0 0 s2" and
        todo: "sendfile_todo V (unat len) 0 s2 = take (unat len) (pv_file V s)" "pv_file V s2 = pv_file V s"
          "pv_sock V s2 = pv_sock V s" "pv_open V s2 = insert r (insert w (pv_open V s))"
        using created Inr ends wrapped by (auto simp: sendfile_inv_def sendfile_todo_def pipe_rest_def)
      from sendfile_loop_all [OF pipe unat_usize _ this(1), of d2] len obtain s3 r3 where
        s3: "sendfile_loop os d2 from r h to (unat len) False 0 0 s2 = Some (s3, r3)" "pv_open V s3 = pv_open V s2"
          "case r3 of
             Inl _ \<Rightarrow> \<exists>j. pv_sock V s3 = pv_sock V s2 @ take j (sendfile_todo V (unat len) 0 s2)
           | Inr m \<Rightarrow> m = 0 + length (sendfile_todo V (unat len) 0 s2) \<and>
               pv_sock V s3 = pv_sock V s2 @ sendfile_todo V (unat len) 0 s2 \<and>
               pv_file V s3 = drop (unat len - 0) (pv_file V s2)"
        by blast
      have "{r, w} \<inter> pv_open V s = {}"
        using created Inr ends by simp
      then show ?thesis
        using s1 Inr ends s2 wrote d2 s3 todo close
        by (cases r3) (auto simp: sendfile_exact_completion_def write_owned_fd_drop_def)
    qed
  qed
qed

lemma sendfile_poll_all:
  assumes "honest_splice os V from (h_handle to)"
  shows "\<exists>s' res. sendfile_exact_poll os from to len s = Some (s', res) \<and> pv_open V s' = pv_open V s \<and>
    (case res of
       Inl _ \<Rightarrow> \<exists>j. pv_sock V s' = pv_sock V s @ take j (take (unat len) (pv_file V s))
     | Inr m \<Rightarrow> m = min (unat len) (length (pv_file V s)) \<and> pv_sock V s' = pv_sock V s @ take (unat len) (pv_file V s) \<and>
         pv_file V s' = drop (unat len) (pv_file V s))"
proof -
  let ?call = "\<lambda>n. sl_sendfile os from (h_handle to) n"
  have "moves (pv_file V) (pv_sock V) (pipe_rest V) n (?call n) s" for n s
    using assms by (simp add: honest_splice_def)
  from transfer_loop_all [of "unat len" "\<lambda>_. True" "pipe_rest V" "pv_file V" "pv_sock V" ?call 0 s, OF this unat_usize] obtain s' res
    where r: "transfer_loop ?call (unat len) 0 s = Some (s', res)" "pipe_rest V s' = pipe_rest V s"
      "case res of
         Inl _ \<Rightarrow> \<exists>j \<le> unat len - 0. pv_sock V s' = pv_sock V s @ take j (pv_file V s)
       | Inr m \<Rightarrow> m = 0 + min (unat len - 0) (length (pv_file V s)) \<and>
           pv_sock V s' = pv_sock V s @ take (unat len - 0) (pv_file V s) \<and> pv_file V s' = drop (unat len - 0) (pv_file V s)"
    by blast
  have "\<exists>j. pv_sock V s' = pv_sock V s @ take j (take (unat len) (pv_file V s))"
    if "j \<le> unat len" "pv_sock V s' = pv_sock V s @ take j (pv_file V s)" for j
    using that by (intro exI [of _ j]) (simp add: min_absorb1)
  then show ?thesis
    using r by (cases res) (auto simp: sendfile_exact_poll_def sendfile_new_def pipe_rest_def)
qed

lemma splice_exact_fills:
  assumes "honest_pipe os V from to" and "pv_ends V s = Some (r, h_handle writer)"
    and lim: "uses_completion d writer \<longrightarrow> unat len < 2 ^ 32"
  shows "\<exists>s' res. splice_exact os d from writer len s = Some (s', res) \<and> sock_rest V s' = sock_rest V s \<and>
    (case res of
       Inl _ \<Rightarrow> \<exists>j \<le> unat len. pv_pipe V s' = pv_pipe V s @ take j (pv_file V s)
     | Inr m \<Rightarrow> m = min (unat len) (length (pv_file V s)) \<and> pv_pipe V s' = pv_pipe V s @ take (unat len) (pv_file V s) \<and>
         pv_file V s' = drop (unat len) (pv_file V s))"
proof -
  let ?P = "\<lambda>(_, ends, _). ends = Some (r, h_handle writer)"
  have "moves (pv_file V) (pv_pipe V) (sock_rest V) n (io_splice os d from writer n) s" if "n \<le> unat len" "?P (sock_rest V s)" for n s
    using splice_fills [OF assms(1), of s r writer d n] lim that by (auto simp: sock_rest_def)
  from transfer_loop_all [of "unat len" ?P "sock_rest V" "pv_file V" "pv_pipe V" "io_splice os d from writer" 0 s, OF this unat_usize]
  show ?thesis
    using assms(2) by (simp add: splice_exact_def sock_rest_def cong: sum.case_cong)
qed

text \<open>
  The length of a submission has 32 bits. A whole number of 4 GiB becomes a transfer of nothing, which
  looks like the end of the file.
\<close>

lemma splice_exact_cut:
  assumes "uses_completion d to" and "unat len = 2 ^ 32 * k"
    and "\<And>s. sl_run os (ESplice from (h_handle to) 0) s = Some (s, Inr 0)"
  shows "splice_exact os d from to len s = Some (s, Inr 0)"
proof -
  have "of_nat (unat len) = (0 :: u32)"
    unfolding assms(2) word_of_nat_eq_0_iff by simp
  moreover have "min (unat len) USIZE_MAX = unat len"
    using unat_usize [of len] by simp
  ultimately show ?thesis
    using assms(1,3)
    by (simp add: splice_exact_def transfer_loop.simps io_splice_def splice_new_def splice_entry_def)
qed

subsection \<open>A kernel in memory\<close>

text \<open>A pipe and a socket that take at most \<open>limit\<close> bytes at a time; descriptor 3 is the file, 4 the socket.\<close>

record splice_sim =
  lp_file :: "u8 list"
  lp_pipe :: "u8 list"
  lp_sock :: "u8 list"
  lp_ends :: "(int \<times> int) option"
  lp_open :: "int list"

definition sim_fill :: "nat \<Rightarrow> nat \<Rightarrow> splice_sim \<Rightarrow> (splice_sim \<times> nat io_result) option" where
  "sim_fill limit n s =
     (let k = min (min limit n) (length (lp_file s)) in
      Some (s\<lparr>lp_file := drop k (lp_file s), lp_pipe := lp_pipe s @ take k (lp_file s)\<rparr>, Inr k))"

definition sim_drain :: "nat \<Rightarrow> nat \<Rightarrow> splice_sim \<Rightarrow> (splice_sim \<times> nat io_result) option" where
  "sim_drain limit n s =
     (let k = min (min limit n) (length (lp_pipe s)) in
      Some (s\<lparr>lp_pipe := drop k (lp_pipe s), lp_sock := lp_sock s @ take k (lp_pipe s)\<rparr>, Inr k))"

definition sim_splice :: "nat \<Rightarrow> int \<Rightarrow> nat \<Rightarrow> splice_sim \<Rightarrow> (splice_sim \<times> nat io_result) option" where
  "sim_splice limit fd_in n = (if fd_in = 3 then sim_fill limit n else sim_drain limit n)"

definition sim_splices :: "nat \<Rightarrow> splice_sim splice_sys" where
  "sim_splices limit =
     \<lparr>sl_run = (\<lambda>e. case e of ESplice fd_in fd_out n \<Rightarrow> sim_splice limit fd_in (unat n) | _ \<Rightarrow> (\<lambda>s. Some (s, Inl (Os 22)))),
      sl_splice = (\<lambda>fd_in fd_out. sim_splice limit fd_in),
      sl_sendfile = (\<lambda>fd_in fd_out n s.
        let k = min (min limit n) (length (lp_file s)) in
        Some (s\<lparr>lp_file := drop k (lp_file s), lp_sock := lp_sock s @ take k (lp_file s)\<rparr>, Inr k)),
      sl_pipe2 = (\<lambda>s.
        let r = max 4 (foldr max (lp_open s) 0) + 1 in
        (s\<lparr>lp_pipe := [], lp_ends := Some (r, r + 1), lp_open := r # (r + 1) # lp_open s\<rparr>, Inr (r, r + 1))),
      sl_getfl = (\<lambda>fd s. (s, Some 0)), sl_setfl = (\<lambda>fd fl s. s),
      sl_close = (\<lambda>fd s. s\<lparr>lp_open := removeAll fd (lp_open s)\<rparr>)\<rparr>"

definition sim_splice_view :: "splice_sim splice_view" where
  "sim_splice_view = \<lparr>pv_file = lp_file, pv_pipe = lp_pipe, pv_sock = lp_sock,
     pv_ends = (\<lambda>s. case lp_ends s of Some (r, w) \<Rightarrow> if r = 3 then None else Some (r, w) | None \<Rightarrow> None),
     pv_open = set \<circ> lp_open\<rparr>"

lemma sim_fills:
  "0 < limit \<Longrightarrow> moves (pv_file sim_splice_view) (pv_pipe sim_splice_view) (sock_rest sim_splice_view) n (sim_fill limit n) s"
  by (auto simp: moves_def sim_fill_def sim_splice_view_def sock_rest_def Let_def min_def split: if_splits)

lemma sim_drains:
  "0 < limit \<Longrightarrow> moves (pv_pipe sim_splice_view) (pv_sock sim_splice_view) (file_rest sim_splice_view) n (sim_drain limit n) s"
  by (auto simp: moves_def sim_drain_def sim_splice_view_def file_rest_def Let_def min_def split: if_splits)

lemma sim_honest_pipe: "0 < limit \<Longrightarrow> honest_pipe (sim_splices limit) sim_splice_view 3 4"
  unfolding honest_pipe_def
proof (intro allI impI)
  fix s r w
  assume limit: "0 < limit" and "pv_ends sim_splice_view s = Some (r, w)"
  then have "r \<noteq> 3"
    by (auto simp: sim_splice_view_def split: option.splits if_splits)
  then show "(\<forall>n. moves (pv_file sim_splice_view) (pv_pipe sim_splice_view) (sock_rest sim_splice_view) n (sl_splice (sim_splices limit) 3 w n) s) \<and>
    (\<forall>n. moves (pv_file sim_splice_view) (pv_pipe sim_splice_view) (sock_rest sim_splice_view) (unat n) (sl_run (sim_splices limit) (ESplice 3 w n)) s) \<and>
    (\<forall>n. moves (pv_pipe sim_splice_view) (pv_sock sim_splice_view) (file_rest sim_splice_view) n (sl_splice (sim_splices limit) r 4 n) s) \<and>
    (\<forall>n. moves (pv_pipe sim_splice_view) (pv_sock sim_splice_view) (file_rest sim_splice_view) (unat n) (sl_run (sim_splices limit) (ESplice r 4 n)) s)"
    using sim_fills [OF limit] sim_drains [OF limit] by (simp add: sim_splices_def sim_splice_def)
qed

lemma sim_honest_fds: "honest_fds (sim_splices limit) sim_splice_view"
  using foldr_max_le
  by (fastforce simp: honest_fds_def sim_splices_def sim_splice_view_def Let_def)

lemma sim_splices_honest: "0 < limit \<Longrightarrow> honest_splice (sim_splices limit) sim_splice_view 3 4"
  unfolding honest_splice_def
  by (intro conjI allI sim_honest_pipe sim_honest_fds)
    (auto simp: moves_def sim_splices_def sim_splice_view_def pipe_rest_def Let_def min_def split: if_splits)

subsection \<open>Properties\<close>


definition ex_splice_sim :: splice_sim where
  "ex_splice_sim = \<lparr>lp_file = [1, 2, 3, 4, 5], lp_pipe = [], lp_sock = [], lp_ends = None, lp_open = [3, 4]\<rparr>"

definition ex_splice_to :: raw_handle where
  "ex_splice_to = \<lparr>h_handle = 4, h_token = 0, h_interest = READ_WRITE, h_mode = CompletionMode\<rparr>"


end
