(* ===== verification/Iocp.thy ===== *)
theory Iocp
  imports Driver_Types
begin

text \<open>
  The completion-port driver for Windows, \<open>driver/iocp.rs\<close>.

  The kernel is a parameter, a record of type \<open>port_ops\<close> on the state \<open>'p\<close>: the completion port, the AFD
  device that reports readiness, and the operations' \<open>submit_windows\<close>. The three tables of the driver
  are \<open>slab_ops\<close>. The kernel is given the address of a box (an \<open>OverlappedCtx\<close> or an \<open>AfdIoStatusCtx\<close>) and
  hands it back with the completion; the driver then reads the token stored in the box. Boxes are
  allocated in a heap of their own, which is one more table: an allocation is at an address not in use.
  Reading a box that has been freed is an outcome of its own, \<open>Dangling\<close>. The boxes with the input and the
  output of a poll live and die with the box of its status and have no address here.

  A Windows handle, a socket and a status are integers.
\<close>

subsection \<open>The kernel\<close>

datatype raw_os_handle = OsSocket int | OsHandle int

record overlapped_entry =
  oe_key :: nat
  oe_overlapped :: "nat option"
  oe_internal :: u64
  oe_bytes :: u32

record ('p, 'o) port_ops =
  port_associate :: "int \<Rightarrow> nat \<Rightarrow> 'p \<Rightarrow> 'p \<times> bool"
  port_disassociate :: "int \<Rightarrow> 'p \<Rightarrow> 'p"
  port_dequeue :: "u32 \<Rightarrow> 'p \<Rightarrow> 'p \<times> (int + overlapped_entry list)"
  port_submit :: "'o \<Rightarrow> nat \<Rightarrow> 'p \<Rightarrow> 'p \<times> unit io_result"
  port_base_socket :: "int \<Rightarrow> u32 \<Rightarrow> 'p \<Rightarrow> 'p \<times> (int + int)"
  port_open_afd :: "'p \<Rightarrow> 'p \<times> int \<times> int"
  port_close_afd :: "int \<Rightarrow> 'p \<Rightarrow> 'p"
  port_skip_event :: "int \<Rightarrow> 'p \<Rightarrow> 'p \<times> bool"
  port_afd_poll :: "int \<Rightarrow> nat \<Rightarrow> int \<Rightarrow> u32 \<Rightarrow> 'p \<Rightarrow> 'p \<times> int"
  port_cancel :: "int \<Rightarrow> nat \<Rightarrow> 'p \<Rightarrow> 'p"
  port_last_error :: "'p \<Rightarrow> int"
  nt_status_to_dos_error :: "int \<Rightarrow> int"

definition IOCP_INTERRUPT_KEY :: nat where "IOCP_INTERRUPT_KEY = 2 ^ 64 - 1"
definition AFD_POLL_COMPLETION_KEY :: nat where "AFD_POLL_COMPLETION_KEY = 2 ^ 64 - 2"
definition IOCP_BATCH_SIZE :: nat where "IOCP_BATCH_SIZE = 128"
definition STATUS_PENDING :: int where "STATUS_PENDING = 0x103"
definition WAIT_TIMEOUT :: int where "WAIT_TIMEOUT = 258"
definition ERROR_ABANDONED_WAIT_0 :: int where "ERROR_ABANDONED_WAIT_0 = 735"
definition INVALID_SOCKET :: int where "INVALID_SOCKET = 2 ^ 64 - 1"
definition SIO_BASE_HANDLE :: u32 where "SIO_BASE_HANDLE = 0x48000022"
definition SIO_BSP_HANDLE_POLL :: u32 where "SIO_BSP_HANDLE_POLL = 0x4800001D"

definition AFD_POLL_RECEIVE :: u32 where "AFD_POLL_RECEIVE = 0x0001"
definition AFD_POLL_RECEIVE_EXPEDITED :: u32 where "AFD_POLL_RECEIVE_EXPEDITED = 0x0002"
definition AFD_POLL_SEND :: u32 where "AFD_POLL_SEND = 0x0004"
definition AFD_POLL_DISCONNECT :: u32 where "AFD_POLL_DISCONNECT = 0x0008"
definition AFD_POLL_ABORT :: u32 where "AFD_POLL_ABORT = 0x0010"
definition AFD_POLL_LOCAL_CLOSE :: u32 where "AFD_POLL_LOCAL_CLOSE = 0x0020"
definition AFD_POLL_CONNECT :: u32 where "AFD_POLL_CONNECT = 0x0040"
definition AFD_POLL_ACCEPT :: u32 where "AFD_POLL_ACCEPT = 0x0080"
definition AFD_POLL_CONNECT_FAIL :: u32 where "AFD_POLL_CONNECT_FAIL = 0x0100"

subsection \<open>State\<close>

record 'd iocp_completion =
  ic_waiter :: "waker option"
  ic_completed :: "int option"
  ic_overlapped :: "nat option"
  ic_ignored :: "'d option"

record poll_op =
  po_registration :: nat
  po_io_status :: nat

record iocp_poll_registration =
  ip_socket :: int
  ip_waiter :: "waker option"
  ip_interest :: interest
  ip_poll_token :: "nat option"

datatype iocp_registration = IocpCompletion | IocpPoll iocp_poll_registration

record ('p, 's, 'c, 'q, 'h) iocp =
  io_port :: 'p
  io_afd :: "int option"
  io_registrations :: 's
  io_completions :: 'c
  io_poll_ops :: 'q
  io_heap :: 'h

record ('p, 's, 'c, 'q, 'h, 'd, 'o) iocp_env =
  y_port :: "('p, 'o) port_ops"
  y_registrations :: "('s, iocp_registration) slab_ops"
  y_completions :: "('c, 'd iocp_completion) slab_ops"
  y_poll_ops :: "('q, poll_op) slab_ops"
  y_heap :: "('h, nat) slab_ops"

definition iocp_new ::
  "('p, 's, 'c, 'q, 'h, 'd, 'o) iocp_env \<Rightarrow> 'p io_result \<Rightarrow> ('p, 's, 'c, 'q, 'h) iocp io_result" where
  "iocp_new Y port =
     (case port of
        Inl err \<Rightarrow> Inl err
      | Inr p \<Rightarrow> Inr \<lparr>io_port = p, io_afd = None, io_registrations = slab_new (y_registrations Y),
          io_completions = slab_new (y_completions Y), io_poll_ops = slab_new (y_poll_ops Y), io_heap = slab_new (y_heap Y)\<rparr>)"

subsection \<open>Conversions\<close>

definition status_is_success :: "int \<Rightarrow> bool" where
  "status_is_success status \<longleftrightarrow> 0 \<le> status"

definition ntstatus_to_io_error :: "('p, 'o) port_ops \<Rightarrow> int \<Rightarrow> io_error" where
  "ntstatus_to_io_error P status =
     (let mapped = nt_status_to_dos_error P status in if mapped \<noteq> 0 then Os mapped else Os status)"

fun raw_os_handle_to_windows_handle :: "raw_os_handle \<Rightarrow> int" where
  "raw_os_handle_to_windows_handle (OsSocket s) = s"
| "raw_os_handle_to_windows_handle (OsHandle h) = h"

fun raw_os_handle_to_socket :: "raw_os_handle \<Rightarrow> int io_result" where
  "raw_os_handle_to_socket (OsSocket s) = Inr s"
| "raw_os_handle_to_socket (OsHandle h) = Inl (Custom Unsupported)"

text \<open>The timeout is in nanoseconds.\<close>

definition duration_to_timeout_ms :: "nat option \<Rightarrow> u32" where
  "duration_to_timeout_ms timeout =
     (case timeout of
        Some t \<Rightarrow> of_nat (min (t div 1000000) (2 ^ 32 - 1))
      | None \<Rightarrow> - 1)"

definition completion_result_from_entry :: "('p, 'o) port_ops \<Rightarrow> overlapped_entry \<Rightarrow> int" where
  "completion_result_from_entry P e =
     (if oe_internal e = 0 then sint (oe_bytes e)
      else let ntstatus = sint (ucast (oe_internal e) :: i32);
               win32_error = nt_status_to_dos_error P ntstatus;
               mapped_error = (if win32_error = 0 then ntstatus else win32_error)
           in - mapped_error)"

definition interest_to_afd_events :: "interest \<Rightarrow> u32" where
  "interest_to_afd_events i =
     (let base = AFD_POLL_DISCONNECT OR AFD_POLL_ABORT OR AFD_POLL_LOCAL_CLOSE;
          events = base;
          events = (if is_readable i then events OR (AFD_POLL_RECEIVE OR AFD_POLL_RECEIVE_EXPEDITED OR AFD_POLL_ACCEPT)
                    else events);
          events = (if is_writable i then events OR (AFD_POLL_SEND OR AFD_POLL_CONNECT OR AFD_POLL_CONNECT_FAIL)
                    else events)
      in if events = base
         then events OR (AFD_POLL_RECEIVE OR AFD_POLL_SEND OR AFD_POLL_ACCEPT OR AFD_POLL_CONNECT)
         else events)"

subsection \<open>Sockets and the AFD device\<close>

definition get_base_socket :: "('p, 'o) port_ops \<Rightarrow> int \<Rightarrow> u32 \<Rightarrow> 'p \<Rightarrow> 'p \<times> int io_result" where
  "get_base_socket P socket ioctl p =
     (case port_base_socket P socket ioctl p of
        (p, Inl err) \<Rightarrow> (p, Inl (Os err))
      | (p, Inr base) \<Rightarrow> (p, Inr base))"

text \<open>A chain of providers that leads back to a socket seen before is followed forever: \<open>None\<close>.\<close>

partial_function (option) resolve_base_socket ::
  "('p, 'o) port_ops \<Rightarrow> int \<Rightarrow> 'p \<Rightarrow> ('p \<times> int io_result) option" where
  "resolve_base_socket W socket p =
     (case get_base_socket W socket SIO_BASE_HANDLE p of
        (p, Inr base) \<Rightarrow> Some (p, Inr base)
      | (p, Inl _) \<Rightarrow>
          (case get_base_socket W socket SIO_BSP_HANDLE_POLL p of
             (p, Inl err) \<Rightarrow> Some (p, Inl err)
           | (p, Inr base) \<Rightarrow>
               if base \<noteq> INVALID_SOCKET \<and> base \<noteq> socket then resolve_base_socket W base p
               else Some (p, Inl (Custom Other))))"

definition open_afd_handle :: "('p, 'o) port_ops \<Rightarrow> 'p \<Rightarrow> 'p \<times> int io_result" where
  "open_afd_handle P p =
     (case port_open_afd P p of
        (p, status, h) \<Rightarrow>
          if \<not> status_is_success status then (p, Inl (ntstatus_to_io_error P status))
          else if h = 0 then (p, Inl (Custom Other))
          else (p, Inr h))"

text \<open>The handle of a failed initialisation is closed.\<close>

definition ensure_afd_handle ::
  "('p, 's, 'c, 'q, 'h, 'd, 'o) iocp_env \<Rightarrow> ('p, 's, 'c, 'q, 'h) iocp \<Rightarrow> ('p, 's, 'c, 'q, 'h) iocp \<times> int io_result" where
  "ensure_afd_handle Y st =
     (case io_afd st of
        Some afd \<Rightarrow> (st, Inr afd)
      | None \<Rightarrow>
          (let P = y_port Y in
           case open_afd_handle P (io_port st) of
             (p, Inl err) \<Rightarrow> (st\<lparr>io_port := p\<rparr>, Inl err)
           | (p, Inr afd) \<Rightarrow>
               (case port_associate P afd AFD_POLL_COMPLETION_KEY p of
                  (p, False) \<Rightarrow> (st\<lparr>io_port := port_close_afd P afd p\<rparr>, Inl (Os (port_last_error P p)))
                | (p, True) \<Rightarrow>
                    (case port_skip_event P afd p of
                       (p, False) \<Rightarrow> (st\<lparr>io_port := port_close_afd P afd p\<rparr>, Inl (Os (port_last_error P p)))
                     | (p, True) \<Rightarrow> (st\<lparr>io_port := p, io_afd := Some afd\<rparr>, Inr afd)))))"

definition set_poll_token ::
  "('p, 's, 'c, 'q, 'h, 'd, 'o) iocp_env \<Rightarrow> nat \<Rightarrow> nat option \<Rightarrow> ('p, 's, 'c, 'q, 'h) iocp \<Rightarrow> ('p, 's, 'c, 'q, 'h) iocp" where
  "set_poll_token Y token t st =
     (case slab_get (y_registrations Y) (io_registrations st) token of
        Some (IocpPoll reg) \<Rightarrow> st\<lparr>io_registrations :=
          slab_set (y_registrations Y) token (IocpPoll (reg\<lparr>ip_poll_token := t\<rparr>)) (io_registrations st)\<rparr>
      | _ \<Rightarrow> st)"

text \<open>\<open>poll_ops.try_remove\<close>, which drops the box of the status.\<close>

definition remove_poll_op ::
  "('p, 's, 'c, 'q, 'h, 'd, 'o) iocp_env \<Rightarrow> nat \<Rightarrow> ('p, 's, 'c, 'q, 'h) iocp \<Rightarrow> ('p, 's, 'c, 'q, 'h) iocp" where
  "remove_poll_op Y token st =
     (case slab_get (y_poll_ops Y) (io_poll_ops st) token of
        None \<Rightarrow> st
      | Some q \<Rightarrow> st\<lparr>io_poll_ops := slab_remove (y_poll_ops Y) token (io_poll_ops st),
                    io_heap := slab_remove (y_heap Y) (po_io_status q) (io_heap st)\<rparr>)"

definition clear_poll_token ::
  "('p, 's, 'c, 'q, 'h, 'd, 'o) iocp_env \<Rightarrow> nat \<Rightarrow> nat \<Rightarrow> ('p, 's, 'c, 'q, 'h) iocp \<Rightarrow> ('p, 's, 'c, 'q, 'h) iocp" where
  "clear_poll_token Y token poll_token st =
     (case slab_get (y_registrations Y) (io_registrations st) token of
        Some (IocpPoll reg) \<Rightarrow> if ip_poll_token reg = Some poll_token then set_poll_token Y token None st else st
      | _ \<Rightarrow> st)"

definition arm_poll_operation ::
  "('p, 's, 'c, 'q, 'h, 'd, 'o) iocp_env \<Rightarrow> nat \<Rightarrow> int \<Rightarrow> interest \<Rightarrow> ('p, 's, 'c, 'q, 'h) iocp \<Rightarrow>
   ('p, 's, 'c, 'q, 'h) iocp \<times> unit io_result" where
  "arm_poll_operation Y token socket i st =
     (case ensure_afd_handle Y st of
        (st, Inl err) \<Rightarrow> (st, Inl err)
      | (st, Inr afd) \<Rightarrow>
          (case slab_get (y_registrations Y) (io_registrations st) token of
             None \<Rightarrow> (st, Inl (Custom NotFound))
           | Some IocpCompletion \<Rightarrow> (st, Inl (Custom Unsupported))
           | Some (IocpPoll reg) \<Rightarrow>
               if ip_poll_token reg \<noteq> None then (st, Inr ())
               else
                 let poll_token = slab_vacant_key (y_poll_ops Y) (io_poll_ops st);
                     addr = slab_vacant_key (y_heap Y) (io_heap st);
                     st = st\<lparr>io_heap := slab_insert (y_heap Y) poll_token (io_heap st),
                             io_poll_ops := slab_insert (y_poll_ops Y) \<lparr>po_registration = token, po_io_status = addr\<rparr>
                               (io_poll_ops st)\<rparr>;
                     st = set_poll_token Y token (Some poll_token) st
                 in case port_afd_poll (y_port Y) afd addr socket (interest_to_afd_events i) (io_port st) of
                      (p, status) \<Rightarrow>
                        let st = st\<lparr>io_port := p\<rparr> in
                        if status_is_success status \<or> status = STATUS_PENDING then (st, Inr ())
                        else (clear_poll_token Y token poll_token (remove_poll_op Y poll_token st),
                              Inl (ntstatus_to_io_error (y_port Y) status))))"

definition cancel_poll_operation ::
  "('p, 's, 'c, 'q, 'h, 'd, 'o) iocp_env \<Rightarrow> nat \<Rightarrow> ('p, 's, 'c, 'q, 'h) iocp \<Rightarrow> ('p, 's, 'c, 'q, 'h) iocp" where
  "cancel_poll_operation Y poll_token st =
     (case io_afd st of
        None \<Rightarrow> st
      | Some afd \<Rightarrow>
          (case slab_get (y_poll_ops Y) (io_poll_ops st) poll_token of
             None \<Rightarrow> st
           | Some q \<Rightarrow> st\<lparr>io_port := port_cancel (y_port Y) afd (po_io_status q) (io_port st)\<rparr>))"

subsection \<open>Entries of the port\<close>

text \<open>\<open>completions.remove\<close>, which drops the box of the operation if there still is one.\<close>

definition free_box :: "('h, nat) slab_ops \<Rightarrow> nat option \<Rightarrow> 'h \<Rightarrow> 'h" where
  "free_box H a h = (case a of None \<Rightarrow> h | Some a \<Rightarrow> slab_remove H a h)"

definition remove_completion ::
  "('p, 's, 'c, 'q, 'h, 'd, 'o) iocp_env \<Rightarrow> nat \<Rightarrow> ('p, 's, 'c, 'q, 'h) iocp \<Rightarrow> ('p, 's, 'c, 'q, 'h) iocp" where
  "remove_completion Y token st =
     (case slab_get (y_completions Y) (io_completions st) token of
        None \<Rightarrow> st
      | Some c \<Rightarrow> st\<lparr>io_completions := slab_remove (y_completions Y) token (io_completions st),
                    io_heap := free_box (y_heap Y) (ic_overlapped c) (io_heap st)\<rparr>)"

definition poll_finished ::
  "('p, 's, 'c, 'q, 'h, 'd, 'o) iocp_env \<Rightarrow> nat \<Rightarrow> ('p, 's, 'c, 'q, 'h) iocp \<Rightarrow> ('p, 's, 'c, 'q, 'h) iocp \<times> waker list" where
  "poll_finished Y poll_token st =
     (let registration = map_option po_registration (slab_get (y_poll_ops Y) (io_poll_ops st) poll_token);
          st = remove_poll_op Y poll_token st
      in case registration of
           None \<Rightarrow> (st, [])
         | Some token \<Rightarrow>
             (case slab_get (y_registrations Y) (io_registrations st) token of
                Some (IocpPoll reg) \<Rightarrow>
                  (let reg' = reg\<lparr>ip_poll_token := (if ip_poll_token reg = Some poll_token then None else ip_poll_token reg),
                                  ip_waiter := None\<rparr>
                   in (st\<lparr>io_registrations := slab_set (y_registrations Y) token (IocpPoll reg') (io_registrations st)\<rparr>,
                       case ip_waiter reg of None \<Rightarrow> [] | Some w \<Rightarrow> [w]))
              | _ \<Rightarrow> (st, [])))"

definition operation_finished ::
  "('p, 's, 'c, 'q, 'h, 'd, 'o) iocp_env \<Rightarrow> overlapped_entry \<Rightarrow> nat \<Rightarrow> ('p, 's, 'c, 'q, 'h) iocp \<Rightarrow>
   ('p, 's, 'c, 'q, 'h) iocp \<times> waker list" where
  "operation_finished Y e token st =
     (case slab_get (y_completions Y) (io_completions st) token of
        None \<Rightarrow> (st, [])
      | Some c \<Rightarrow>
          (let c' = c\<lparr>ic_completed := Some (completion_result_from_entry (y_port Y) e), ic_overlapped := None, ic_waiter := None\<rparr>;
               st = st\<lparr>io_completions := slab_set (y_completions Y) token c' (io_completions st),
                       io_heap := free_box (y_heap Y) (ic_overlapped c) (io_heap st)\<rparr>;
               ws = (case ic_waiter c of None \<Rightarrow> [] | Some w \<Rightarrow> [w])
           in (if ic_ignored c \<noteq> None then remove_completion Y token st else st, ws)))"

text \<open>\<open>None\<close> is a read of a box that is not there.\<close>

definition process_entry ::
  "('p, 's, 'c, 'q, 'h, 'd, 'o) iocp_env \<Rightarrow> overlapped_entry \<Rightarrow> ('p, 's, 'c, 'q, 'h) iocp \<Rightarrow>
   (('p, 's, 'c, 'q, 'h) iocp \<times> waker list) option" where
  "process_entry Y e st =
     (if oe_key e = IOCP_INTERRUPT_KEY then Some (st, [])
      else case oe_overlapped e of
             None \<Rightarrow> Some (st, [])
           | Some addr \<Rightarrow>
               (case slab_get (y_heap Y) (io_heap st) addr of
                  None \<Rightarrow> None
                | Some token \<Rightarrow>
                    Some (if oe_key e = AFD_POLL_COMPLETION_KEY then poll_finished Y token st
                          else operation_finished Y e token st)))"

fun process_entries ::
  "('p, 's, 'c, 'q, 'h, 'd, 'o) iocp_env \<Rightarrow> overlapped_entry list \<Rightarrow> ('p, 's, 'c, 'q, 'h) iocp \<Rightarrow>
   (('p, 's, 'c, 'q, 'h) iocp \<times> waker list) option" where
  "process_entries Y [] st = Some (st, [])"
| "process_entries Y (e # es) st =
     (case process_entry Y e st of
        None \<Rightarrow> None
      | Some (st, ws) \<Rightarrow>
          (case process_entries Y es st of
             None \<Rightarrow> None
           | Some (st, ws') \<Rightarrow> Some (st, ws @ ws')))"

datatype 'a batch_end = Processed 'a | Failed io_error | Dangling

definition process_batch ::
  "('p, 's, 'c, 'q, 'h, 'd, 'o) iocp_env \<Rightarrow> u32 \<Rightarrow> ('p, 's, 'c, 'q, 'h) iocp \<Rightarrow>
   ('p, 's, 'c, 'q, 'h) iocp \<times> waker list \<times> nat batch_end" where
  "process_batch Y timeout_ms st =
     (case port_dequeue (y_port Y) timeout_ms (io_port st) of
        (p, Inl err) \<Rightarrow>
          (st\<lparr>io_port := p\<rparr>, [],
           if err = WAIT_TIMEOUT \<or> err = ERROR_ABANDONED_WAIT_0 then Processed 0 else Failed (Os err))
      | (p, Inr entries) \<Rightarrow>
          (let st = st\<lparr>io_port := p\<rparr> in
           if entries = [] then (st, [], Processed 0)
           else (case process_entries Y entries st of
                   None \<Rightarrow> (st, [], Dangling)
                 | Some (st, ws) \<Rightarrow> (st, ws, Processed (length entries)))))"

text \<open>The loop ends when the port is empty; a port that is never empty keeps it busy: \<open>None\<close>.\<close>

partial_function (option) process_ready_completions ::
  "('p, 's, 'c, 'q, 'h, 'd, 'o) iocp_env \<Rightarrow> waker list \<Rightarrow> ('p, 's, 'c, 'q, 'h) iocp \<Rightarrow>
   (('p, 's, 'c, 'q, 'h) iocp \<times> waker list \<times> unit batch_end) option" where
  "process_ready_completions Y ws st =
     (case process_batch Y 0 st of
        (st, ws', res) \<Rightarrow>
          (case res of
             Processed n \<Rightarrow>
               if 0 < n then process_ready_completions Y (ws @ ws') st else Some (st, ws @ ws', Processed ())
           | Failed err \<Rightarrow> Some (st, ws @ ws', Failed err)
           | Dangling \<Rightarrow> Some (st, ws @ ws', Dangling)))"

subsection \<open>The driver\<close>

datatype driver_end = Returned | Panicked | Undefined

text \<open>\<open>err.kind() == Interrupted\<close>; the error of the system is \<open>WSAEINTR\<close>.\<close>

definition is_interrupted :: "io_error \<Rightarrow> bool" where
  "is_interrupted err \<longleftrightarrow> err = Custom Interrupted \<or> err = Os 10004"

definition iocp_flush ::
  "('p, 's, 'c, 'q, 'h, 'd, 'o) iocp_env \<Rightarrow> ('p, 's, 'c, 'q, 'h) iocp \<Rightarrow>
   (('p, 's, 'c, 'q, 'h) iocp \<times> waker list \<times> driver_end) option" where
  "iocp_flush Y st =
     map_option (\<lambda>(st, ws, res). (st, ws,
       case res of
         Processed _ \<Rightarrow> Returned
       | Failed err \<Rightarrow> if is_interrupted err then Returned else Panicked
       | Dangling \<Rightarrow> Undefined)) (process_ready_completions Y [] st)"

definition iocp_wait ::
  "('p, 's, 'c, 'q, 'h, 'd, 'o) iocp_env \<Rightarrow> nat option \<Rightarrow> ('p, 's, 'c, 'q, 'h) iocp \<Rightarrow>
   (('p, 's, 'c, 'q, 'h) iocp \<times> waker list \<times> driver_end) option" where
  "iocp_wait Y timeout st =
     (case process_batch Y (duration_to_timeout_ms timeout) st of
        (st, ws, res) \<Rightarrow>
          (case res of
             Processed n \<Rightarrow>
               if 0 < n
               then map_option (\<lambda>(st, ws, res). (st, ws,
                      case res of Processed _ \<Rightarrow> Returned | Failed _ \<Rightarrow> Panicked | Dangling \<Rightarrow> Undefined))
                      (process_ready_completions Y ws st)
               else Some (st, ws, Returned)
           | Failed err \<Rightarrow> Some (st, ws, if is_interrupted err then Returned else Panicked)
           | Dangling \<Rightarrow> Some (st, ws, Undefined)))"

definition iocp_register_with_mode ::
  "('p, 's, 'c, 'q, 'h, 'd, 'o) iocp_env \<Rightarrow> raw_os_handle \<Rightarrow> interest \<Rightarrow> registration_mode \<Rightarrow> ('p, 's, 'c, 'q, 'h) iocp \<Rightarrow>
   (('p, 's, 'c, 'q, 'h) iocp \<times> nat io_result) option" where
  "iocp_register_with_mode Y h i mode st =
     (case mode of
        CompletionMode \<Rightarrow>
          (let token = slab_vacant_key (y_registrations Y) (io_registrations st);
               st = st\<lparr>io_registrations := slab_insert (y_registrations Y) IocpCompletion (io_registrations st)\<rparr>
           in case port_associate (y_port Y) (raw_os_handle_to_windows_handle h) token (io_port st) of
                (p, False) \<Rightarrow>
                  Some (st\<lparr>io_port := p, io_registrations := slab_remove (y_registrations Y) token (io_registrations st)\<rparr>,
                        Inl (Os (port_last_error (y_port Y) p)))
              | (p, True) \<Rightarrow> Some (st\<lparr>io_port := p\<rparr>, Inr token))
      | PollMode \<Rightarrow>
          (case raw_os_handle_to_socket h of
             Inl err \<Rightarrow> Some (st, Inl err)
           | Inr socket \<Rightarrow>
               (case resolve_base_socket (y_port Y) socket (io_port st) of
                  None \<Rightarrow> None
                | Some (p, Inl err) \<Rightarrow> Some (st\<lparr>io_port := p\<rparr>, Inl err)
                | Some (p, Inr base) \<Rightarrow>
                    (case ensure_afd_handle Y (st\<lparr>io_port := p\<rparr>) of
                       (st, Inl err) \<Rightarrow> Some (st, Inl err)
                     | (st, Inr _) \<Rightarrow>
                         Some (st\<lparr>io_registrations := slab_insert (y_registrations Y)
                                 (IocpPoll \<lparr>ip_socket = base, ip_waiter = None, ip_interest = i, ip_poll_token = None\<rparr>)
                                 (io_registrations st)\<rparr>,
                               Inr (slab_vacant_key (y_registrations Y) (io_registrations st)))))))"

definition iocp_reregister ::
  "('p, 's, 'c, 'q, 'h, 'd, 'o) iocp_env \<Rightarrow> nat \<Rightarrow> interest \<Rightarrow> ('p, 's, 'c, 'q, 'h) iocp \<Rightarrow>
   ('p, 's, 'c, 'q, 'h) iocp \<times> unit io_result" where
  "iocp_reregister Y token i st =
     (case slab_get (y_registrations Y) (io_registrations st) token of
        Some IocpCompletion \<Rightarrow> (st, Inr ())
      | Some (IocpPoll reg) \<Rightarrow>
          (st\<lparr>io_registrations := slab_set (y_registrations Y) token (IocpPoll (reg\<lparr>ip_interest := i\<rparr>)) (io_registrations st)\<rparr>, Inr ())
      | None \<Rightarrow> (st, Inl (Custom NotFound)))"

definition iocp_deregister ::
  "('p, 's, 'c, 'q, 'h, 'd, 'o) iocp_env \<Rightarrow> raw_os_handle \<Rightarrow> nat \<Rightarrow> ('p, 's, 'c, 'q, 'h) iocp \<Rightarrow>
   ('p, 's, 'c, 'q, 'h) iocp \<times> unit io_result" where
  "iocp_deregister Y h token st =
     (case slab_get (y_registrations Y) (io_registrations st) token of
        None \<Rightarrow> (st, Inl (Custom NotFound))
      | Some reg \<Rightarrow>
          (let st = st\<lparr>io_registrations := slab_remove (y_registrations Y) token (io_registrations st)\<rparr> in
           (case (case reg of IocpCompletion \<Rightarrow> None | IocpPoll r \<Rightarrow> ip_poll_token r) of
              Some poll_token \<Rightarrow> cancel_poll_operation Y poll_token st
            | None \<Rightarrow> st\<lparr>io_port := port_disassociate (y_port Y) (raw_os_handle_to_windows_handle h) (io_port st)\<rparr>, Inr ())))"

text \<open>\<open>op\<close> is the operation, whose \<open>submit_windows\<close> is given the address of the box.\<close>

definition iocp_submit_completion ::
  "('p, 's, 'c, 'q, 'h, 'd, 'o) iocp_env \<Rightarrow> 'o \<Rightarrow> waker \<Rightarrow> ('p, 's, 'c, 'q, 'h) iocp \<Rightarrow>
   ('p, 's, 'c, 'q, 'h) iocp \<times> completion_io_result" where
  "iocp_submit_completion Y op w st =
     (let token = slab_vacant_key (y_completions Y) (io_completions st);
          addr = slab_vacant_key (y_heap Y) (io_heap st);
          st = st\<lparr>io_heap := slab_insert (y_heap Y) token (io_heap st),
                  io_completions := slab_insert (y_completions Y)
                    \<lparr>ic_waiter = Some w, ic_completed = None, ic_overlapped = Some addr, ic_ignored = None\<rparr> (io_completions st)\<rparr>
      in case port_submit (y_port Y) op addr (io_port st) of
           (p, Inl err) \<Rightarrow> (remove_completion Y token (st\<lparr>io_port := p\<rparr>), SubmitErr err)
         | (p, Inr _) \<Rightarrow> (st\<lparr>io_port := p\<rparr>, Retry token))"

definition iocp_submit_poll ::
  "('p, 's, 'c, 'q, 'h, 'd, 'o) iocp_env \<Rightarrow> nat \<Rightarrow> waker \<Rightarrow> interest \<Rightarrow> ('p, 's, 'c, 'q, 'h) iocp \<Rightarrow>
   ('p, 's, 'c, 'q, 'h) iocp \<times> unit io_result" where
  "iocp_submit_poll Y token w i st =
     (case slab_get (y_registrations Y) (io_registrations st) token of
        None \<Rightarrow> (st, Inl (Custom NotFound))
      | Some IocpCompletion \<Rightarrow> (st, Inl (Custom Unsupported))
      | Some (IocpPoll reg) \<Rightarrow>
          (let st = st\<lparr>io_registrations := slab_set (y_registrations Y) token
                 (IocpPoll (reg\<lparr>ip_interest := i, ip_waiter := update_waiter (ip_waiter reg) w\<rparr>)) (io_registrations st)\<rparr>
           in if ip_poll_token reg = None then arm_poll_operation Y token (ip_socket reg) i st else (st, Inr ())))"

definition iocp_get_completion_result ::
  "('p, 's, 'c, 'q, 'h, 'd, 'o) iocp_env \<Rightarrow> nat \<Rightarrow> ('p, 's, 'c, 'q, 'h) iocp \<Rightarrow>
   ('p, 's, 'c, 'q, 'h) iocp \<times> int option" where
  "iocp_get_completion_result Y token st =
     (let completed = Option.bind (slab_get (y_completions Y) (io_completions st) token) ic_completed in
      (if completed \<noteq> None then remove_completion Y token st else st, completed))"

definition iocp_set_completion_waker ::
  "('p, 's, 'c, 'q, 'h, 'd, 'o) iocp_env \<Rightarrow> nat \<Rightarrow> waker \<Rightarrow> ('p, 's, 'c, 'q, 'h) iocp \<Rightarrow> ('p, 's, 'c, 'q, 'h) iocp" where
  "iocp_set_completion_waker Y token w st =
     (case slab_get (y_completions Y) (io_completions st) token of
        None \<Rightarrow> st
      | Some c \<Rightarrow> st\<lparr>io_completions := slab_set (y_completions Y) token
                    (c\<lparr>ic_waiter := update_waiter (ic_waiter c) w\<rparr>) (io_completions st)\<rparr>)"

definition iocp_ignore_completion ::
  "('p, 's, 'c, 'q, 'h, 'd, 'o) iocp_env \<Rightarrow> nat \<Rightarrow> 'd \<Rightarrow> ('p, 's, 'c, 'q, 'h) iocp \<Rightarrow> ('p, 's, 'c, 'q, 'h) iocp" where
  "iocp_ignore_completion Y token data st =
     (case slab_get (y_completions Y) (io_completions st) token of
        None \<Rightarrow> st
      | Some c \<Rightarrow> st\<lparr>io_completions := slab_set (y_completions Y) token
                    (c\<lparr>ic_ignored := Some data\<rparr>) (io_completions st)\<rparr>)"

subsection \<open>What the kernel promises\<close>

definition operation_ptrs :: "overlapped_entry list \<Rightarrow> nat list" where
  "operation_ptrs es = concat (map (\<lambda>e. case oe_overlapped e of
     Some a \<Rightarrow> if oe_key e \<noteq> IOCP_INTERRUPT_KEY \<and> oe_key e \<noteq> AFD_POLL_COMPLETION_KEY then [a] else [] | None \<Rightarrow> []) es)"

definition poll_ptrs :: "overlapped_entry list \<Rightarrow> nat list" where
  "poll_ptrs es = concat (map (\<lambda>e. case oe_overlapped e of
     Some a \<Rightarrow> if oe_key e = AFD_POLL_COMPLETION_KEY then [a] else [] | None \<Rightarrow> []) es)"

text \<open>
  \<open>ops\<close> and \<open>polls\<close> are the addresses the kernel has been given and not handed back. Each is handed back
  once, an operation's with the key of its handle, a poll's with the key of the device.
\<close>

locale port =
  fixes P :: "('p, 'o) port_ops" and ops polls :: "'p \<Rightarrow> nat set"
  assumes submit: "port_submit P op a p = (p', res) \<Longrightarrow>
      ops p' = (case res of Inl _ \<Rightarrow> ops p | Inr _ \<Rightarrow> insert a (ops p)) \<and> polls p' = polls p"
    and afd_poll: "port_afd_poll P h a socket events p = (p', status) \<Longrightarrow>
      polls p' = (if status_is_success status \<or> status = STATUS_PENDING then insert a (polls p) else polls p) \<and> ops p' = ops p"
    and dequeue: "port_dequeue P t p = (p', Inr es) \<Longrightarrow>
      distinct (operation_ptrs es) \<and> distinct (poll_ptrs es) \<and>
      ops p = ops p' \<union> set (operation_ptrs es) \<and> ops p' \<inter> set (operation_ptrs es) = {} \<and>
      polls p = polls p' \<union> set (poll_ptrs es) \<and> polls p' \<inter> set (poll_ptrs es) = {}"
    and dequeue_error: "port_dequeue P t p = (p', Inl err) \<Longrightarrow> ops p' = ops p \<and> polls p' = polls p"
    and associate: "port_associate P h key p = (p', ok) \<Longrightarrow> ops p' = ops p \<and> polls p' = polls p"
    and base_socket: "port_base_socket P socket ioctl p = (p', base) \<Longrightarrow> ops p' = ops p \<and> polls p' = polls p"
    and open_afd: "port_open_afd P p = (p', status, h) \<Longrightarrow> ops p' = ops p \<and> polls p' = polls p"
    and skip_event: "port_skip_event P h p = (p', ok) \<Longrightarrow> ops p' = ops p \<and> polls p' = polls p"
    and quiet [simp]: "ops (port_disassociate P h p) = ops p" "polls (port_disassociate P h p) = polls p"
      "ops (port_close_afd P h p) = ops p" "polls (port_close_afd P h p) = polls p"
      "ops (port_cancel P h a p) = ops p" "polls (port_cancel P h a p) = polls p"

locale iocp_driver =
  prt: port "y_port Y" ops polls +
  regs: slab "y_registrations Y" + comps: slab "y_completions Y" + pops: slab "y_poll_ops Y" + heap: slab "y_heap Y"
  for Y :: "('p, 's, 'c, 'q, 'h, 'd, 'o) iocp_env" and ops polls

subsection \<open>Owners of boxes\<close>

text \<open>\<open>own\<close> says which box an entry of a table owns, \<open>h\<close> which token a box holds, \<open>X\<close> which boxes the kernel has.\<close>

definition owns :: "(nat \<Rightarrow> nat option) \<Rightarrow> (nat \<Rightarrow> nat option) \<Rightarrow> nat set \<Rightarrow> bool" where
  "owns own h X \<longleftrightarrow> (\<forall>k a. own k = Some a \<longrightarrow> h a = Some k) \<and> X = ran own"

lemma owns_empty: "owns (\<lambda>_. None) h {}"
  by (simp add: owns_def)

lemma owns_insert:
  assumes "owns own h X" and "own k = None" and "h a = None"
  shows "owns (own(k \<mapsto> a)) (h(a \<mapsto> k)) (insert a X)"
  using assms by (auto simp: owns_def ran_map_upd)

lemma owns_frame: "owns own h X \<Longrightarrow> a \<notin> X \<Longrightarrow> owns own (h(a := t)) X"
  by (auto simp: owns_def ran_def)

lemma owns_remove:
  assumes "owns own h X" and "own k = Some a"
  shows "owns (own(k := None)) (h(a := None)) (X - {a})"
  using assms by (auto simp: owns_def ran_def split: if_splits) (metis option.inject)+

lemma owns_same_key: "owns own h X \<Longrightarrow> a \<in> X \<Longrightarrow> \<exists>k. h a = Some k \<and> own k = Some a"
  by (auto simp: owns_def ran_def)

context iocp_driver
begin

abbreviation cget :: "('p, 's, 'c, 'q, 'h) iocp \<Rightarrow> nat \<Rightarrow> 'd iocp_completion option" where
  "cget st \<equiv> slab_get (y_completions Y) (io_completions st)"

abbreviation qget :: "('p, 's, 'c, 'q, 'h) iocp \<Rightarrow> nat \<Rightarrow> poll_op option" where
  "qget st \<equiv> slab_get (y_poll_ops Y) (io_poll_ops st)"

abbreviation hget :: "('p, 's, 'c, 'q, 'h) iocp \<Rightarrow> nat \<Rightarrow> nat option" where
  "hget st \<equiv> slab_get (y_heap Y) (io_heap st)"

definition own_op :: "('p, 's, 'c, 'q, 'h) iocp \<Rightarrow> nat \<Rightarrow> nat option" where
  "own_op st = (\<lambda>k. Option.bind (cget st k) ic_overlapped)"

definition own_poll :: "('p, 's, 'c, 'q, 'h) iocp \<Rightarrow> nat \<Rightarrow> nat option" where
  "own_poll st = (\<lambda>k. map_option po_io_status (qget st k))"

definition waits :: "('p, 's, 'c, 'q, 'h) iocp \<Rightarrow> bool" where
  "waits st \<longleftrightarrow> (\<forall>k c. cget st k = Some c \<longrightarrow> (ic_completed c = None \<longleftrightarrow> ic_overlapped c \<noteq> None))"

definition boxes :: "nat set \<Rightarrow> nat set \<Rightarrow> ('p, 's, 'c, 'q, 'h) iocp \<Rightarrow> bool" where
  "boxes X Z st \<longleftrightarrow> owns (own_op st) (hget st) X \<and> owns (own_poll st) (hget st) Z \<and> X \<inter> Z = {} \<and>
     dom (hget st) = X \<union> Z \<and> waits st"

definition iocp_inv :: "('p, 's, 'c, 'q, 'h) iocp \<Rightarrow> bool" where
  "iocp_inv st \<longleftrightarrow> boxes (ops (io_port st)) (polls (io_port st)) st"

text \<open>The invariant reads nothing but the three tables.\<close>

lemma boxes_cong:
  "io_completions st' = io_completions st \<Longrightarrow> io_poll_ops st' = io_poll_ops st \<Longrightarrow> io_heap st' = io_heap st \<Longrightarrow>
   boxes X Z st' = boxes X Z st"
  by (simp add: boxes_def own_op_def own_poll_def waits_def)

lemma operation_box:
  assumes "boxes X Z st" and "a \<in> X"
  obtains k c where "hget st a = Some k" "cget st k = Some c" "ic_overlapped c = Some a" "ic_completed c = None"
  using assms owns_same_key [of "own_op st" "hget st" X a]
  by (auto simp: boxes_def own_op_def waits_def bind_eq_Some_conv)

lemma poll_box:
  assumes "boxes X Z st" and "a \<in> Z"
  obtains k q where "hget st a = Some k" "qget st k = Some q" "po_io_status q = a"
  using assms owns_same_key [of "own_poll st" "hget st" Z a] by (auto simp: boxes_def own_poll_def)

subsubsection \<open>Finished operations\<close>

lemma operation_finished_boxes:
  assumes inv: "boxes X Z st" and a: "a \<in> X" and k: "hget st a = Some k"
  shows "boxes (X - {a}) Z (fst (operation_finished Y e k st))"
proof -
  obtain c where c: "cget st k = Some c" "ic_overlapped c = Some a" "ic_completed c = None"
    using operation_box [OF inv a] k by auto
  let ?st = "fst (operation_finished Y e k st)"
  have "own_op ?st = (own_op st)(k := None)" "own_poll ?st = own_poll st" "hget ?st = (hget st)(a := None)"
    using c by (auto simp: operation_finished_def remove_completion_def free_box_def own_op_def own_poll_def Let_def fun_eq_iff
        split: option.splits)
  moreover have "waits ?st"
    using inv c by (auto simp: boxes_def waits_def operation_finished_def remove_completion_def free_box_def Let_def
        split: option.splits if_splits)
  moreover have "owns ((own_op st)(k := None)) ((hget st)(a := None)) (X - {a})"
    using owns_remove [of "own_op st" "hget st" X k a] inv c by (simp add: boxes_def own_op_def)
  moreover have "owns (own_poll st) ((hget st)(a := None)) Z" "dom ((hget st)(a := None)) = X - {a} \<union> Z" "(X - {a}) \<inter> Z = {}"
    using inv a by (auto simp: boxes_def intro: owns_frame)
  ultimately show ?thesis
    by (simp add: boxes_def)
qed

lemma remove_poll_op_boxes:
  assumes inv: "boxes X Z st" and q: "qget st k = Some q"
  shows "boxes X (Z - {po_io_status q}) (remove_poll_op Y k st)"
proof -
  let ?st = "remove_poll_op Y k st" and ?a = "po_io_status q"
  have a: "?a \<in> Z"
    using inv q by (auto simp: boxes_def owns_def own_poll_def ran_def)
  have "own_poll ?st = (own_poll st)(k := None)" "own_op ?st = own_op st" "hget ?st = (hget st)(?a := None)" "waits ?st = waits st"
    using q by (auto simp: remove_poll_op_def own_op_def own_poll_def waits_def fun_eq_iff)
  moreover have "owns ((own_poll st)(k := None)) ((hget st)(?a := None)) (Z - {?a})"
    using owns_remove [of "own_poll st" "hget st" Z k ?a] inv q by (simp add: boxes_def own_poll_def)
  moreover have "owns (own_op st) ((hget st)(?a := None)) X" "dom ((hget st)(?a := None)) = X \<union> (Z - {?a})" "X \<inter> (Z - {?a}) = {}"
    using inv a by (auto simp: boxes_def intro: owns_frame)
  ultimately show ?thesis
    using inv by (simp add: boxes_def)
qed

lemma poll_finished_boxes:
  assumes inv: "boxes X Z st" and a: "a \<in> Z" and k: "hget st a = Some k"
  shows "boxes X (Z - {a}) (fst (poll_finished Y k st))"
proof -
  obtain q where q: "qget st k = Some q" "po_io_status q = a"
    using poll_box [OF inv a] k by auto
  let ?st = "remove_poll_op Y k st"
  have "io_completions (fst (poll_finished Y k st)) = io_completions ?st" "io_poll_ops (fst (poll_finished Y k st)) = io_poll_ops ?st"
    "io_heap (fst (poll_finished Y k st)) = io_heap ?st"
    using q by (auto simp: poll_finished_def Let_def split: option.splits iocp_registration.splits)
  then show ?thesis
    using remove_poll_op_boxes [OF inv q(1)] q(2) boxes_cong by metis
qed

lemma process_entry_boxes:
  assumes inv: "boxes X Z st" and "set (operation_ptrs [e]) \<subseteq> X" "set (poll_ptrs [e]) \<subseteq> Z"
  shows "\<exists>st' ws. process_entry Y e st = Some (st', ws) \<and>
    boxes (X - set (operation_ptrs [e])) (Z - set (poll_ptrs [e])) st' \<and> io_port st' = io_port st"
proof (cases "oe_key e = IOCP_INTERRUPT_KEY \<or> oe_overlapped e = None")
  case True
  then show ?thesis
    using inv by (auto simp: process_entry_def operation_ptrs_def poll_ptrs_def IOCP_INTERRUPT_KEY_def
        AFD_POLL_COMPLETION_KEY_def split: option.splits)
next
  case False
  then obtain a where a: "oe_key e \<noteq> IOCP_INTERRUPT_KEY" "oe_overlapped e = Some a"
    by auto
  show ?thesis
  proof (cases "oe_key e = AFD_POLL_COMPLETION_KEY")
    case True
    then have z: "a \<in> Z" and "poll_ptrs [e] = [a]" "operation_ptrs [e] = []"
      using a assms(3) by (auto simp: operation_ptrs_def poll_ptrs_def)
    moreover obtain k where k: "hget st a = Some k"
      using poll_box [OF inv z] by auto
    moreover have "io_port (fst (poll_finished Y k st)) = io_port st"
      by (auto simp: poll_finished_def remove_poll_op_def Let_def split: option.splits iocp_registration.splits)
    ultimately show ?thesis
      using True a poll_finished_boxes [OF inv z k] by (cases "poll_finished Y k st") (auto simp: process_entry_def)
  next
    case False
    then have x: "a \<in> X" and "poll_ptrs [e] = []" "operation_ptrs [e] = [a]"
      using a assms(2) by (auto simp: operation_ptrs_def poll_ptrs_def)
    moreover obtain k where k: "hget st a = Some k"
      using operation_box [OF inv x] by auto
    moreover have "io_port (fst (operation_finished Y e k st)) = io_port st"
      by (auto simp: operation_finished_def remove_completion_def Let_def split: option.splits)
    ultimately show ?thesis
      using False a operation_finished_boxes [OF inv x k, of e] by (cases "operation_finished Y e k st") (auto simp: process_entry_def)
  qed
qed

end

lemma ptrs_Cons:
  "operation_ptrs (e # es) = operation_ptrs [e] @ operation_ptrs es" "poll_ptrs (e # es) = poll_ptrs [e] @ poll_ptrs es"
  by (simp_all add: operation_ptrs_def poll_ptrs_def)

context iocp_driver
begin

lemma process_entries_boxes:
  assumes "boxes X Z st" and "distinct (operation_ptrs es)" "set (operation_ptrs es) \<subseteq> X"
    and "distinct (poll_ptrs es)" "set (poll_ptrs es) \<subseteq> Z"
  shows "\<exists>st' ws. process_entries Y es st = Some (st', ws) \<and>
    boxes (X - set (operation_ptrs es)) (Z - set (poll_ptrs es)) st' \<and> io_port st' = io_port st"
  using assms
proof (induction es arbitrary: st X Z)
  case Nil
  then show ?case
    by (simp add: operation_ptrs_def poll_ptrs_def)
next
  case (Cons e es)
  note ptrs = ptrs_Cons [of e es]
  obtain st1 ws1 where 1: "process_entry Y e st = Some (st1, ws1)" "io_port st1 = io_port st"
    "boxes (X - set (operation_ptrs [e])) (Z - set (poll_ptrs [e])) st1"
    using process_entry_boxes [OF Cons.prems(1), of e] Cons.prems(3,5) by (auto simp: ptrs)
  have rest: "set (operation_ptrs es) \<subseteq> X - set (operation_ptrs [e])" "set (poll_ptrs es) \<subseteq> Z - set (poll_ptrs [e])"
    "distinct (operation_ptrs es)" "distinct (poll_ptrs es)"
    using Cons.prems(2-5) by (auto simp: ptrs)
  obtain st2 ws2 where 2: "process_entries Y es st1 = Some (st2, ws2)" "io_port st2 = io_port st1"
    "boxes (X - set (operation_ptrs [e]) - set (operation_ptrs es)) (Z - set (poll_ptrs [e]) - set (poll_ptrs es)) st2"
    using Cons.IH [OF 1(3) rest(3,1,4,2)] by auto
  then show ?case
    using 1 by (simp add: ptrs Diff_eq Int_assoc)
qed

lemma process_batch_inv:
  assumes inv: "iocp_inv st" and r: "process_batch Y t st = (st', ws, res)"
  shows "iocp_inv st' \<and> res \<noteq> Dangling"
proof -
  obtain p d where d: "port_dequeue (y_port Y) t (io_port st) = (p, d)"
    by fastforce
  let ?st = "st\<lparr>io_port := p\<rparr>"
  have b: "boxes (ops (io_port st)) (polls (io_port st)) ?st"
    using inv boxes_cong [of ?st st] by (simp add: iocp_inv_def)
  show ?thesis
  proof (cases d)
    case (Inl err)
    then show ?thesis
      using prt.dequeue_error d b r by (auto simp: process_batch_def iocp_inv_def split: if_splits)
  next
    case (Inr es)
    note law = prt.dequeue [OF d [unfolded Inr]]
    obtain st1 ws1 where "process_entries Y es ?st = Some (st1, ws1)" "io_port st1 = p"
      "boxes (ops (io_port st) - set (operation_ptrs es)) (polls (io_port st) - set (poll_ptrs es)) st1"
      using process_entries_boxes [OF b, of es] law by auto
    moreover have "ops (io_port st) - set (operation_ptrs es) = ops p" "polls (io_port st) - set (poll_ptrs es) = polls p"
      using law by auto
    ultimately show ?thesis
      using r d Inr b law by (auto simp: process_batch_def Let_def iocp_inv_def operation_ptrs_def poll_ptrs_def split: if_splits)
  qed
qed

lemma process_ready_inv:
  assumes "process_ready_completions Y ws st = Some (st', ws', res)" and "iocp_inv st"
  shows "iocp_inv st' \<and> res \<noteq> Dangling"
proof -
  have "Y = Y \<longrightarrow> iocp_inv st \<longrightarrow> (case (st', ws', res) of (st', ws', res) \<Rightarrow> iocp_inv st' \<and> res \<noteq> Dangling)"
  proof (rule process_ready_completions.raw_induct
      [where P = "\<lambda>Y' ws st r. Y' = Y \<longrightarrow> iocp_inv st \<longrightarrow> (case r of (st', ws', res) \<Rightarrow> iocp_inv st' \<and> res \<noteq> Dangling)"])
    show "process_ready_completions Y ws st = Some (st', ws', res)"
      by (rule assms(1))
  next
    fix f Y' ws st r
    assume IH: "\<And>Y' ws st r. f Y' ws st = Some r \<Longrightarrow> Y' = Y \<longrightarrow> iocp_inv st \<longrightarrow>
        (case r of (st', ws', res) \<Rightarrow> iocp_inv st' \<and> res \<noteq> Dangling)"
      and body: "(case process_batch Y' 0 st of
         (st, ws', res) \<Rightarrow>
           (case res of
              Processed n \<Rightarrow> if 0 < n then f Y' (ws @ ws') st else Some (st, ws @ ws', Processed ())
            | Failed err \<Rightarrow> Some (st, ws @ ws', Failed err)
            | Dangling \<Rightarrow> Some (st, ws @ ws', Dangling))) = Some r"
    obtain st1 ws1 b where b: "process_batch Y' 0 st = (st1, ws1, b)"
      using prod_cases3 by blast
    show "Y' = Y \<longrightarrow> iocp_inv st \<longrightarrow> (case r of (st', ws', res) \<Rightarrow> iocp_inv st' \<and> res \<noteq> Dangling)"
      using IH [of Y' "ws @ ws1" st1 r] body b process_batch_inv [of st 0 st1 ws1 b]
      by (cases b) (auto split: if_splits)
  qed
  then show ?thesis
    using assms(2) by simp
qed

lemma wait_inv:
  assumes "iocp_inv st" and "iocp_wait Y t st = Some (st', ws, e)"
  shows "iocp_inv st' \<and> e \<noteq> Undefined"
proof -
  obtain st1 ws1 b where b: "process_batch Y (duration_to_timeout_ms t) st = (st1, ws1, b)"
    using prod_cases3 by blast
  then have "iocp_inv st1" "b \<noteq> Dangling"
    using process_batch_inv [OF assms(1) b] by auto
  show ?thesis
  proof (cases "process_ready_completions Y ws1 st1")
    case None
    then show ?thesis
      using assms(2) b \<open>iocp_inv st1\<close> \<open>b \<noteq> Dangling\<close> by (cases b) (auto simp: iocp_wait_def split: if_splits)
  next
    case (Some r)
    obtain st2 ws2 b2 where r: "r = (st2, ws2, b2)"
      using prod_cases3 by blast
    then show ?thesis
      using assms(2) b \<open>iocp_inv st1\<close> \<open>b \<noteq> Dangling\<close> Some process_ready_inv [of ws1 st1 st2 ws2 b2]
      by (cases b; cases b2) (auto simp: iocp_wait_def split: if_splits)
  qed
qed

lemma flush_inv:
  assumes "iocp_inv st" and "iocp_flush Y st = Some (st', ws, e)"
  shows "iocp_inv st' \<and> e \<noteq> Undefined"
proof -
  obtain st2 ws2 b2 where r: "process_ready_completions Y [] st = Some (st2, ws2, b2)"
    using assms(2) by (auto simp: iocp_flush_def)
  then show ?thesis
    using assms process_ready_inv [OF r] by (cases b2) (auto simp: iocp_flush_def split: if_splits)
qed

subsubsection \<open>The other operations\<close>

lemma iocp_inv_cong:
  assumes "iocp_inv st" and "io_completions st' = io_completions st" "io_poll_ops st' = io_poll_ops st" "io_heap st' = io_heap st"
    and "ops (io_port st') = ops (io_port st)" "polls (io_port st') = polls (io_port st)"
  shows "iocp_inv st'"
  using assms boxes_cong [of st' st] by (simp add: iocp_inv_def)

lemma ensure_afd_frame:
  assumes "ensure_afd_handle Y st = (st', res)"
  shows "io_completions st' = io_completions st \<and> io_poll_ops st' = io_poll_ops st \<and> io_heap st' = io_heap st \<and>
    io_registrations st' = io_registrations st \<and> ops (io_port st') = ops (io_port st) \<and> polls (io_port st') = polls (io_port st)"
  using assms
  by (auto simp: ensure_afd_handle_def open_afd_handle_def Let_def split: option.splits prod.splits sum.splits if_splits bool.splits
      dest!: prt.open_afd prt.associate prt.skip_event)

lemma submit_completion_inv:
  assumes "iocp_inv st"
  shows "iocp_inv (fst (iocp_submit_completion Y op w st))"
proof -
  let ?k = "slab_vacant_key (y_completions Y) (io_completions st)" and ?a = "slab_vacant_key (y_heap Y) (io_heap st)"
  let ?c = "\<lparr>ic_waiter = Some w, ic_completed = None, ic_overlapped = Some ?a, ic_ignored = None\<rparr>"
  let ?st = "st\<lparr>io_heap := slab_insert (y_heap Y) ?k (io_heap st), io_completions := slab_insert (y_completions Y) ?c (io_completions st)\<rparr>"
  obtain p res where p: "port_submit (y_port Y) op ?a (io_port st) = (p, res)"
    by fastforce
  note law = prt.submit [OF p]
  have inv: "boxes (ops (io_port st)) (polls (io_port st)) st"
    using assms by (simp add: iocp_inv_def)
  show ?thesis
  proof (cases res)
    case (Inl err)
    then have run: "fst (iocp_submit_completion Y op w st) = remove_completion Y ?k (?st\<lparr>io_port := p\<rparr>)"
      using p by (simp add: iocp_submit_completion_def Let_def)
    have "own_op (fst (iocp_submit_completion Y op w st)) = own_op st"
      "own_poll (fst (iocp_submit_completion Y op w st)) = own_poll st"
      "hget (fst (iocp_submit_completion Y op w st)) = hget st" "waits (fst (iocp_submit_completion Y op w st)) = waits st"
      unfolding run by (auto simp: remove_completion_def free_box_def own_op_def own_poll_def waits_def fun_eq_iff)
        (metis comps.get_vacant option.distinct(1))+
    then show ?thesis
      using inv law Inl unfolding iocp_inv_def boxes_def by (simp add: run remove_completion_def)
  next
    case (Inr u)
    let ?st' = "?st\<lparr>io_port := p\<rparr>"
    have run: "fst (iocp_submit_completion Y op w st) = ?st'"
      using p Inr by (simp add: iocp_submit_completion_def Let_def)
    have "own_op ?st' = (own_op st)(?k \<mapsto> ?a)" "own_poll ?st' = own_poll st" "hget ?st' = (hget st)(?a \<mapsto> ?k)"
      by (auto simp: own_op_def own_poll_def fun_eq_iff)
    moreover have "waits ?st'"
      using inv by (auto simp: boxes_def waits_def)
    moreover have "owns ((own_op st)(?k \<mapsto> ?a)) ((hget st)(?a \<mapsto> ?k)) (insert ?a (ops (io_port st)))"
      using inv by (intro owns_insert) (auto simp: boxes_def own_op_def)
    moreover have fresh: "?a \<notin> ops (io_port st) \<union> polls (io_port st)"
      using inv heap.get_vacant by (metis boxes_def domIff)
    moreover have "owns (own_poll st) ((hget st)(?a \<mapsto> ?k)) (polls (io_port st))"
      using inv fresh by (auto simp: boxes_def intro: owns_frame)
    ultimately show ?thesis
      using inv law Inr unfolding run iocp_inv_def boxes_def by auto
  qed
qed

lemma set_poll_token_frame [simp]:
  "io_completions (set_poll_token Y k t st) = io_completions st" "io_poll_ops (set_poll_token Y k t st) = io_poll_ops st"
  "io_heap (set_poll_token Y k t st) = io_heap st" "io_port (set_poll_token Y k t st) = io_port st"
  by (auto simp: set_poll_token_def split: option.splits iocp_registration.splits)

lemma clear_poll_token_frame [simp]:
  "io_completions (clear_poll_token Y k t st) = io_completions st" "io_poll_ops (clear_poll_token Y k t st) = io_poll_ops st"
  "io_heap (clear_poll_token Y k t st) = io_heap st" "io_port (clear_poll_token Y k t st) = io_port st"
  by (auto simp: clear_poll_token_def split: option.splits iocp_registration.splits)

lemma arm_poll_inv:
  assumes inv: "iocp_inv st"
  shows "iocp_inv (fst (arm_poll_operation Y token socket i st))"
proof -
  obtain st1 r1 where 1: "ensure_afd_handle Y st = (st1, r1)"
    by fastforce
  have inv1: "iocp_inv st1"
    using ensure_afd_frame [OF 1] iocp_inv_cong [OF inv] by auto
  show ?thesis
  proof (cases "\<exists>afd reg. r1 = Inr afd \<and> slab_get (y_registrations Y) (io_registrations st1) token = Some (IocpPoll reg) \<and> ip_poll_token reg = None")
    case False
    then show ?thesis
      using 1 inv1 by (auto simp: arm_poll_operation_def split: sum.splits option.splits iocp_registration.splits)
  next
    case True
    then obtain afd reg where r: "r1 = Inr afd" "slab_get (y_registrations Y) (io_registrations st1) token = Some (IocpPoll reg)"
      "ip_poll_token reg = None"
      by auto
    let ?k = "slab_vacant_key (y_poll_ops Y) (io_poll_ops st1)" and ?a = "slab_vacant_key (y_heap Y) (io_heap st1)"
    let ?q = "\<lparr>po_registration = token, po_io_status = ?a\<rparr>"
    let ?st = "st1\<lparr>io_heap := slab_insert (y_heap Y) ?k (io_heap st1), io_poll_ops := slab_insert (y_poll_ops Y) ?q (io_poll_ops st1)\<rparr>"
    let ?O = "ops (io_port st1)" and ?Z = "polls (io_port st1)"
    obtain p status where p: "port_afd_poll (y_port Y) afd ?a socket (interest_to_afd_events i) (io_port st1) = (p, status)"
      by fastforce
    note law = prt.afd_poll [OF p]
    have inv': "boxes ?O ?Z st1"
      using inv1 by (simp add: iocp_inv_def)
    then have fresh: "?a \<notin> ?O \<union> ?Z"
      using heap.get_vacant by (metis boxes_def domIff)
    have "own_poll ?st = (own_poll st1)(?k \<mapsto> ?a)" "own_op ?st = own_op st1" "hget ?st = (hget st1)(?a \<mapsto> ?k)" "waits ?st = waits st1"
      by (auto simp: own_op_def own_poll_def waits_def fun_eq_iff)
    moreover have "owns ((own_poll st1)(?k \<mapsto> ?a)) ((hget st1)(?a \<mapsto> ?k)) (insert ?a ?Z)"
      using inv' by (intro owns_insert) (auto simp: boxes_def own_poll_def)
    moreover have "owns (own_op st1) ((hget st1)(?a \<mapsto> ?k)) ?O"
      using inv' fresh by (auto simp: boxes_def intro: owns_frame)
    ultimately have "boxes ?O (insert ?a ?Z) ?st"
      using inv' fresh by (auto simp: boxes_def)
    then have armed: "boxes ?O (insert ?a ?Z) (set_poll_token Y token (Some ?k) ?st\<lparr>io_port := p\<rparr>)"
      using boxes_cong [of "set_poll_token Y token (Some ?k) ?st\<lparr>io_port := p\<rparr>" ?st] by simp
    let ?st' = "set_poll_token Y token (Some ?k) ?st\<lparr>io_port := p\<rparr>"
    have removed: "boxes ?O ?Z (clear_poll_token Y token ?k (remove_poll_op Y ?k ?st'))"
      using remove_poll_op_boxes [OF armed, of ?k ?q] fresh
        boxes_cong [of "clear_poll_token Y token ?k (remove_poll_op Y ?k ?st')" "remove_poll_op Y ?k ?st'"]
      by simp
    have "io_port (remove_poll_op Y ?k ?st') = p"
      by (simp add: remove_poll_op_def split: option.splits)
    then show ?thesis
      using 1 r p armed removed law by (auto simp: arm_poll_operation_def Let_def iocp_inv_def split: if_splits)
  qed
qed

lemma resolve_frame:
  assumes "resolve_base_socket (y_port Y) socket p = Some (p', res)"
  shows "ops p' = ops p \<and> polls p' = polls p"
proof -
  let ?P = "\<lambda>P' (socket :: int) p r. P' = y_port Y \<longrightarrow> (case r of (p', res :: int io_result) \<Rightarrow> ops p' = ops p \<and> polls p' = polls p)"
  have "?P (y_port Y) socket p (p', res)"
  proof (rule resolve_base_socket.raw_induct [where P = ?P])
    fix f P' socket p r
    assume IH: "\<And>P' socket p r. f P' socket p = Some r \<Longrightarrow> ?P P' socket p r"
      and body: "(case get_base_socket P' socket SIO_BASE_HANDLE p of
          (p, Inr base) \<Rightarrow> Some (p, Inr base)
        | (p, Inl _) \<Rightarrow>
            (case get_base_socket P' socket SIO_BSP_HANDLE_POLL p of
               (p, Inl err) \<Rightarrow> Some (p, Inl err)
             | (p, Inr base) \<Rightarrow>
                 if base \<noteq> INVALID_SOCKET \<and> base \<noteq> socket then f P' base p else Some (p, Inl (Custom Other)))) = Some r"
    obtain p1 r1 where 1: "get_base_socket P' socket SIO_BASE_HANDLE p = (p1, r1)"
      by fastforce
    obtain p2 r2 where 2: "get_base_socket P' socket SIO_BSP_HANDLE_POLL p1 = (p2, r2)"
      by fastforce
    have step: "ops q' = ops q \<and> polls q' = polls q" if "get_base_socket (y_port Y) s ioctl q = (q', r)" for s ioctl q q' r
      using that by (auto simp: get_base_socket_def dest!: prt.base_socket split: prod.splits sum.splits)
    show "?P P' socket p r"
    proof (intro impI)
      assume P': "P' = y_port Y"
      have 3: "ops p1 = ops p" "polls p1 = polls p" "ops p2 = ops p" "polls p2 = polls p"
        using step [OF 1 [unfolded P']] step [OF 2 [unfolded P']] by auto
      show "case r of (p', res) \<Rightarrow> ops p' = ops p \<and> polls p' = polls p"
      proof (cases "\<exists>base. r1 \<noteq> Inr base \<and> r2 = Inr base \<and> f P' base p2 = Some r")
        case True
        then show ?thesis
          using IH P' 3 by fastforce
      next
        case False
        then show ?thesis
          using body 1 2 3 by (cases r1; cases r2) (auto split: if_splits)
      qed
    qed
  qed (rule assms)
  then show ?thesis
    by simp
qed

lemma register_inv:
  assumes "iocp_inv st" and "iocp_register_with_mode Y h i mode st = Some (st', res)"
  shows "iocp_inv st'"
  using assms(2)
  by (intro iocp_inv_cong [OF assms(1)])
    (auto simp: iocp_register_with_mode_def Let_def
      split: registration_mode.splits sum.splits option.splits prod.splits bool.splits
      dest!: prt.associate resolve_frame ensure_afd_frame)

lemma reregister_inv: "iocp_inv st \<Longrightarrow> iocp_inv (fst (iocp_reregister Y token i st))"
  by (erule iocp_inv_cong) (auto simp: iocp_reregister_def split: option.splits iocp_registration.splits)

lemma deregister_inv: "iocp_inv st \<Longrightarrow> iocp_inv (fst (iocp_deregister Y h token st))"
  by (erule iocp_inv_cong)
    (auto simp: iocp_deregister_def cancel_poll_operation_def Let_def split: option.splits iocp_registration.splits)

lemma submit_poll_inv:
  assumes "iocp_inv st"
  shows "iocp_inv (fst (iocp_submit_poll Y token w i st))"
proof -
  have "iocp_inv (st\<lparr>io_registrations := regs\<rparr>)" for regs
    by (rule iocp_inv_cong [OF assms]) simp_all
  then show ?thesis
    using assms by (auto simp: iocp_submit_poll_def Let_def intro: arm_poll_inv split: option.splits iocp_registration.splits)
qed

lemma get_result_inv:
  assumes "iocp_inv st"
  shows "iocp_inv (fst (iocp_get_completion_result Y k st))"
proof (cases "Option.bind (cget st k) ic_completed")
  case None
  then show ?thesis
    using assms by (simp add: iocp_get_completion_result_def)
next
  case (Some r)
  then obtain c where c: "cget st k = Some c" "ic_overlapped c = None"
    using assms by (fastforce simp: iocp_inv_def boxes_def waits_def bind_eq_Some_conv)
  let ?st = "fst (iocp_get_completion_result Y k st)"
  have "own_op ?st = own_op st" "own_poll ?st = own_poll st" "hget ?st = hget st" "waits st \<Longrightarrow> waits ?st" "io_port ?st = io_port st"
    using c Some by (auto simp: iocp_get_completion_result_def remove_completion_def free_box_def own_op_def own_poll_def waits_def fun_eq_iff)
  then show ?thesis
    using assms by (simp add: iocp_inv_def boxes_def)
qed

lemma update_completion_inv:
  assumes "iocp_inv st" and "\<And>c. ic_overlapped (f c) = ic_overlapped c \<and> ic_completed (f c) = ic_completed c"
  shows "iocp_inv (case cget st k of None \<Rightarrow> st
    | Some c \<Rightarrow> st\<lparr>io_completions := slab_set (y_completions Y) k (f c) (io_completions st)\<rparr>)"
proof (cases "cget st k")
  case (Some c)
  let ?st = "st\<lparr>io_completions := slab_set (y_completions Y) k (f c) (io_completions st)\<rparr>"
  have "own_op ?st = own_op st" "own_poll ?st = own_poll st" "waits st \<Longrightarrow> waits ?st"
    using Some assms(2) by (auto simp: own_op_def own_poll_def waits_def fun_eq_iff)
  then show ?thesis
    using assms(1) Some by (simp add: iocp_inv_def boxes_def)
qed (use assms in simp)

lemma new_inv: "iocp_new Y (Inr p) = Inr st \<Longrightarrow> ops p = {} \<Longrightarrow> polls p = {} \<Longrightarrow> iocp_inv st"
  by (auto simp: iocp_new_def iocp_inv_def boxes_def owns_def own_op_def own_poll_def waits_def)

end

subsection \<open>Runs\<close>

datatype ('d, 'o) iocp_call =
    IRegister raw_os_handle interest registration_mode
  | IReregister nat interest
  | IDeregister raw_os_handle nat
  | ISubmitPoll nat waker interest
  | ISubmit 'o waker
  | IGetResult nat
  | ISetWaker nat waker
  | IIgnore nat 'd
  | IFlush
  | IWait "nat option"

fun do_iocp_call ::
  "('p, 's, 'c, 'q, 'h, 'd, 'o) iocp_env \<Rightarrow> ('d, 'o) iocp_call \<Rightarrow> ('p, 's, 'c, 'q, 'h) iocp \<Rightarrow>
   ('p, 's, 'c, 'q, 'h) iocp option" where
  "do_iocp_call Y (IRegister h i mode) st = map_option fst (iocp_register_with_mode Y h i mode st)"
| "do_iocp_call Y (IReregister t i) st = Some (fst (iocp_reregister Y t i st))"
| "do_iocp_call Y (IDeregister h t) st = Some (fst (iocp_deregister Y h t st))"
| "do_iocp_call Y (ISubmitPoll t w i) st = Some (fst (iocp_submit_poll Y t w i st))"
| "do_iocp_call Y (ISubmit op w) st = Some (fst (iocp_submit_completion Y op w st))"
| "do_iocp_call Y (IGetResult t) st = Some (fst (iocp_get_completion_result Y t st))"
| "do_iocp_call Y (ISetWaker t w) st = Some (iocp_set_completion_waker Y t w st)"
| "do_iocp_call Y (IIgnore t d) st = Some (iocp_ignore_completion Y t d st)"
| "do_iocp_call Y IFlush st = map_option fst (iocp_flush Y st)"
| "do_iocp_call Y (IWait t) st = map_option fst (iocp_wait Y t st)"

inductive iocp_run ::
  "('p, 's, 'c, 'q, 'h, 'd, 'o) iocp_env \<Rightarrow> ('p, 's, 'c, 'q, 'h) iocp \<Rightarrow> ('d, 'o) iocp_call list \<Rightarrow>
   ('p, 's, 'c, 'q, 'h) iocp \<Rightarrow> bool" for Y where
  iocp_none: "iocp_run Y st [] st"
| iocp_step: "iocp_run Y st cs st' \<Longrightarrow> do_iocp_call Y c st' = Some st'' \<Longrightarrow> iocp_run Y st (cs @ [c]) st''"

context iocp_driver
begin

lemma call_inv:
  assumes "iocp_inv st" and "do_iocp_call Y c st = Some st'"
  shows "iocp_inv st'"
proof (cases c)
  case (ISetWaker t w)
  then show ?thesis
    using assms update_completion_inv [of st "\<lambda>c. c\<lparr>ic_waiter := update_waiter (ic_waiter c) w\<rparr>" t]
    by (auto simp: iocp_set_completion_waker_def)
next
  case (IIgnore t d)
  then show ?thesis
    using assms update_completion_inv [of st "\<lambda>c. c\<lparr>ic_ignored := Some d\<rparr>" t] by (auto simp: iocp_ignore_completion_def)
qed (use assms in \<open>auto intro: reregister_inv deregister_inv submit_poll_inv submit_completion_inv get_result_inv
    dest: register_inv wait_inv flush_inv\<close>)

lemma run_inv: "iocp_run Y st cs st' \<Longrightarrow> iocp_inv st \<Longrightarrow> iocp_inv st'"
  by (induction rule: iocp_run.induct) (auto intro: call_inv)

lemma iocp_inv_sets:
  assumes "iocp_inv st"
  shows "ops (io_port st) = {a. \<exists>k c. cget st k = Some c \<and> ic_overlapped c = Some a}"
    and "polls (io_port st) = {a. \<exists>k q. qget st k = Some q \<and> po_io_status q = a}"
    and "{a. hget st a \<noteq> None} = ops (io_port st) \<union> polls (io_port st)"
  using assms
  by (auto simp: iocp_inv_def boxes_def owns_def own_op_def own_poll_def ran_def bind_eq_Some_conv dom_def)

end

subsection \<open>Readiness\<close>

text \<open>
  A registration has one poll in flight. While it is, a poll for the other direction takes the place
  of the waiter and is not given to the kernel: the new waiter waits for the events of the old one.
\<close>

lemma iocp_poll_interest_ignored:
  assumes "slab_get (y_registrations Y) (io_registrations st) token = Some (IocpPoll reg)" and "ip_poll_token reg \<noteq> None"
  shows "iocp_submit_poll Y token w i st =
    (st\<lparr>io_registrations := slab_set (y_registrations Y) token (IocpPoll (reg\<lparr>ip_interest := i, ip_waiter := Some w\<rparr>))
       (io_registrations st)\<rparr>, Inr ())"
  using assms by (auto simp: iocp_submit_poll_def Let_def)

text \<open>The events of the two directions are apart, and the case for neither is never taken.\<close>

lemma afd_events:
  "interest_to_afd_events READABLE = 0xBB" "interest_to_afd_events WRITABLE = 0x17C"
  "interest_to_afd_events READ_WRITE = 0x1FF"
  by (simp_all add: interest_to_afd_events_def AFD_POLL_RECEIVE_def AFD_POLL_RECEIVE_EXPEDITED_def AFD_POLL_SEND_def
      AFD_POLL_DISCONNECT_def AFD_POLL_ABORT_def AFD_POLL_LOCAL_CLOSE_def AFD_POLL_CONNECT_def AFD_POLL_ACCEPT_def
      AFD_POLL_CONNECT_FAIL_def)

text \<open>
  A wait is never longer than its timeout, cut to whole milliseconds, unless the timeout does not fit
  into 32 bits: \<open>u32::MAX\<close> milliseconds and more become \<open>INFINITE\<close>.
\<close>

lemma timeout_ms_bounds:
  "unat (duration_to_timeout_ms (Some t)) = min (t div 1000000) (2 ^ 32 - 1)"
  "(2 ^ 32 - 1) * 1000000 \<le> t \<Longrightarrow> duration_to_timeout_ms (Some t) = duration_to_timeout_ms None"
proof -
  show 1: "unat (duration_to_timeout_ms (Some t)) = min (t div 1000000) (2 ^ 32 - 1)" for t
    unfolding duration_to_timeout_ms_def option.case by (rule unat_of_nat_u32) simp
  assume "(2 ^ 32 - 1) * 1000000 \<le> t"
  then have "2 ^ 32 - 1 \<le> t div 1000000"
    by simp
  then have "unat (duration_to_timeout_ms (Some t)) = unat (duration_to_timeout_ms None)"
    unfolding 1 by (simp add: duration_to_timeout_ms_def unsigned_minus_1_eq_mask mask_eq_exp_minus_1)
  then show "duration_to_timeout_ms (Some t) = duration_to_timeout_ms None"
    by (simp only: word_unat_eq_iff)
qed

subsection \<open>A port in memory\<close>

text \<open>Every operation and every poll is finished when the port is asked next.\<close>

record list_port =
  lp_ops :: "nat list"
  lp_polls :: "nat list"

definition list_entry :: "nat \<Rightarrow> nat \<Rightarrow> overlapped_entry" where
  "list_entry key a = \<lparr>oe_key = key, oe_overlapped = Some a, oe_internal = 0, oe_bytes = 5\<rparr>"

definition list_port_ops :: "(list_port, unit) port_ops" where
  "list_port_ops =
     \<lparr>port_associate = (\<lambda>h key p. (p, True)), port_disassociate = (\<lambda>h p. p),
      port_dequeue = (\<lambda>t p. (\<lparr>lp_ops = [], lp_polls = []\<rparr>,
        Inr (map (list_entry 0) (remdups (lp_ops p)) @ map (list_entry AFD_POLL_COMPLETION_KEY) (remdups (lp_polls p))))),
      port_submit = (\<lambda>op a p. (p\<lparr>lp_ops := List.insert a (lp_ops p)\<rparr>, Inr ())),
      port_base_socket = (\<lambda>s ioctl p. (p, Inr s)), port_open_afd = (\<lambda>p. (p, 0, 7)), port_close_afd = (\<lambda>h p. p),
      port_skip_event = (\<lambda>h p. (p, True)),
      port_afd_poll = (\<lambda>h a s events p. (p\<lparr>lp_polls := List.insert a (lp_polls p)\<rparr>, 0)),
      port_cancel = (\<lambda>h a p. p), port_last_error = (\<lambda>p. 0), nt_status_to_dos_error = (\<lambda>s. s)\<rparr>"

definition list_iocp ::
  "(list_port, iocp_registration option list, 'd iocp_completion option list, poll_op option list, nat option list, 'd, unit) iocp_env" where
  "list_iocp = \<lparr>y_port = list_port_ops, y_registrations = list_slab, y_completions = list_slab, y_poll_ops = list_slab, y_heap = list_slab\<rparr>"

definition list_ops :: "list_port \<Rightarrow> nat set" where "list_ops p = set (lp_ops p)"
definition list_polls :: "list_port \<Rightarrow> nat set" where "list_polls p = set (lp_polls p)"

lemma list_entry_ptrs:
  "operation_ptrs (map (list_entry 0) xs @ map (list_entry AFD_POLL_COMPLETION_KEY) ys) = xs"
  "poll_ptrs (map (list_entry 0) xs @ map (list_entry AFD_POLL_COMPLETION_KEY) ys) = ys"
proof -
  have "operation_ptrs (map (list_entry 0) xs) = xs" "poll_ptrs (map (list_entry 0) xs) = []" for xs
    by (induction xs) (auto simp: operation_ptrs_def poll_ptrs_def list_entry_def IOCP_INTERRUPT_KEY_def AFD_POLL_COMPLETION_KEY_def)
  moreover have "operation_ptrs (map (list_entry AFD_POLL_COMPLETION_KEY) ys) = []" "poll_ptrs (map (list_entry AFD_POLL_COMPLETION_KEY) ys) = ys" for ys
    by (induction ys) (auto simp: operation_ptrs_def poll_ptrs_def list_entry_def)
  ultimately show "operation_ptrs (map (list_entry 0) xs @ map (list_entry AFD_POLL_COMPLETION_KEY) ys) = xs"
    "poll_ptrs (map (list_entry 0) xs @ map (list_entry AFD_POLL_COMPLETION_KEY) ys) = ys"
    by (simp_all add: operation_ptrs_def poll_ptrs_def)
qed

interpretation lprt: port list_port_ops list_ops list_polls
  by unfold_locales
    (auto simp: list_port_ops_def list_ops_def list_polls_def list_entry_ptrs status_is_success_def)

interpretation lio: iocp_driver list_iocp list_ops list_polls
  unfolding iocp_driver_def list_iocp_def
  by (simp add: lprt.port_axioms ls.slab_axioms)

subsection \<open>Properties\<close>

text \<open>
  C22: the completion-port driver never touches freed memory. In every run from \<open>IocpDriver::new\<close> the boxes the
  kernel has been given and not handed back are exactly those of the operations and the polls in the
  driver's tables, every allocated box is one of them, and processing the entries of the port, whatever
  they are, reads no box that has been freed.
\<close>
theorem iocp_boxes_live:
  assumes "iocp_driver Y ops polls" and "ops p = {}" and "polls p = {}" and "iocp_new Y (Inr p) = Inr st0"
    and "iocp_run Y st0 cs st"
  shows "ops (io_port st) = {a. \<exists>k c. slab_get (y_completions Y) (io_completions st) k = Some c \<and> ic_overlapped c = Some a} \<and>
    polls (io_port st) = {a. \<exists>k q. slab_get (y_poll_ops Y) (io_poll_ops st) k = Some q \<and> po_io_status q = a} \<and>
    {a. slab_get (y_heap Y) (io_heap st) a \<noteq> None} = ops (io_port st) \<union> polls (io_port st) \<and>
    iocp_wait Y t st \<noteq> Some (st', ws, Undefined) \<and> iocp_flush Y st \<noteq> Some (st', ws, Undefined)"
proof -
  note driver = assms(1)
  have "iocp_driver.iocp_inv Y ops polls st"
    using iocp_driver.run_inv [OF driver assms(5)] iocp_driver.new_inv [OF driver assms(4,2,3)] .
  then show ?thesis
    using iocp_driver.iocp_inv_sets [OF driver] iocp_driver.wait_inv [OF driver] iocp_driver.flush_inv [OF driver] by blast
qed

definition ex_iocp :: "(list_port, iocp_registration option list, nat list iocp_completion option list, poll_op option list, nat option list) iocp" where
  "ex_iocp = \<lparr>io_port = \<lparr>lp_ops = [1], lp_polls = [0]\<rparr>, io_afd = Some 7,
     io_registrations = [Some (IocpPoll \<lparr>ip_socket = 3, ip_waiter = Some 1, ip_interest = READABLE, ip_poll_token = Some 0\<rparr>)],
     io_completions = [Some \<lparr>ic_waiter = Some 2, ic_completed = None, ic_overlapped = Some 1, ic_ignored = None\<rparr>],
     io_poll_ops = [Some \<lparr>po_registration = 0, po_io_status = 0\<rparr>], io_heap = [Some 0, Some 0]\<rparr>"

lemmas iocp_eval = list_iocp_def list_port_ops_def iocp_register_with_mode_def resolve_base_socket.simps get_base_socket_def
  ensure_afd_handle_def open_afd_handle_def status_is_success_def iocp_submit_poll_def arm_poll_operation_def set_poll_token_def
  iocp_submit_completion_def list_slab_def list_get_def Let_def List.insert_def

lemma ex_iocp_run:
  assumes "iocp_new list_iocp (Inr \<lparr>lp_ops = [], lp_polls = []\<rparr>) = Inr st0"
  shows "iocp_run list_iocp st0 [IRegister (OsSocket 3) READ_WRITE PollMode, ISubmitPoll 0 1 READABLE, ISubmit () 2] ex_iocp"
proof -
  obtain st1 where 1: "do_iocp_call list_iocp (IRegister (OsSocket 3) READ_WRITE PollMode) st0 = Some st1"
    "do_iocp_call list_iocp (ISubmit () 2) (fst (iocp_submit_poll list_iocp 0 1 READABLE st1)) = Some ex_iocp"
    using assms by (auto simp: iocp_eval iocp_new_def ex_iocp_def)
  have "iocp_run list_iocp st0 ((([] @ [IRegister (OsSocket 3) READ_WRITE PollMode]) @ [ISubmitPoll 0 1 READABLE]) @ [ISubmit () 2]) ex_iocp"
    by (rule iocp_step iocp_none 1 do_iocp_call.simps(4))+
  then show ?thesis
    by simp
qed

theorem iocp_boxes_live_witness:
  "list_ops (io_port ex_iocp) = {1} \<and> list_polls (io_port ex_iocp) = {0} \<and>
   {a. slab_get list_slab (io_heap ex_iocp) a \<noteq> None} = {0, 1} \<and> iocp_wait list_iocp None ex_iocp \<noteq> Some (ex_iocp, [], Undefined)"
proof -
  obtain st0 where st0: "iocp_new list_iocp (Inr \<lparr>lp_ops = [], lp_polls = []\<rparr>) =
      Inr (st0 :: (list_port, iocp_registration option list, nat list iocp_completion option list, poll_op option list, nat option list) iocp)"
    by (simp add: iocp_new_def)
  have "list_ops \<lparr>lp_ops = [], lp_polls = []\<rparr> = {}" "list_polls \<lparr>lp_ops = [], lp_polls = []\<rparr> = {}"
    by (simp_all add: list_ops_def list_polls_def)
  note live = iocp_boxes_live [OF lio.iocp_driver_axioms this st0 ex_iocp_run [OF st0], of None ex_iocp "[]"]
  have "list_ops (io_port ex_iocp) = {1}" "list_polls (io_port ex_iocp) = {0}"
    by (simp_all add: ex_iocp_def list_ops_def list_polls_def)
  then show ?thesis
    using live by (auto simp: list_iocp_def)
qed

end
