(* ===== verification/Ops_Windows.thy ===== *)
theory Ops_Windows
  imports Ops_Buffer Iocp
begin

text \<open>
  The byte operations of \<open>op/\<close> on Windows: what each gives to the kernel (\<open>submit_windows\<close>), both of its polls on the
  completion-port driver, and its drop. A submission is a value of \<open>win_request\<close>; \<open>request_mem\<close> lists the blocks of memory the
  kernel uses through it until it is finished. The calls themselves are a parameter: what they return and the last error.

  A boxed \<open>WSABUF\<close>, the box of \<open>RecvfromOp\<close> and \<open>SendtoOp\<close>, an array of \<open>WSABUF\<close> and a staging buffer are allocated in the
  block \<open>fresh\<close>. Proved: an operation dropped in flight hands all this memory over to the driver; not so the
  staging buffer of a vectored operation on a file.
\<close>

subsection \<open>Requests\<close>

datatype win_request =
    WSARecv int mem "(ptr \<times> u32) list" bool
  | WSASend int mem "(ptr \<times> u32) list"
  | WSARecvFrom int mem "(ptr \<times> u32) list" bool
  | WSASendTo int mem "(ptr \<times> u32) list" sockaddr_storage nat
  | ReadFile int ptr u32 u64
  | WriteFile int ptr u32 u64
  | AcceptEx int int mem mem
  | ConnectEx int mem nat

fun request_mem :: "win_request \<Rightarrow> mem list" where
  "request_mem (WSARecv s m vs peek) = m # map (fst \<circ> fst) vs"
| "request_mem (WSASend s m vs) = m # map (fst \<circ> fst) vs"
| "request_mem (WSARecvFrom s m vs peek) = m # map (fst \<circ> fst) vs"
| "request_mem (WSASendTo s m vs a l) = m # map (fst \<circ> fst) vs"
| "request_mem (ReadFile h p l off) = [fst p]"
| "request_mem (WriteFile h p l off) = [fst p]"
| "request_mem (AcceptEx l s m op) = [m, op]"
| "request_mem (ConnectEx s m l) = [m]"

text \<open>The block allocated for the request, where it is not the buffer itself.\<close>

fun request_box :: "win_request \<Rightarrow> mem option" where
  "request_box (WSARecv s m vs peek) = Some m"
| "request_box (WSASend s m vs) = Some m"
| "request_box (WSARecvFrom s m vs peek) = Some m"
| "request_box (WSASendTo s m vs a l) = Some m"
| "request_box _ = None"

text \<open>Winsock's functions return 0 when they have succeeded, the others do not; 997 is \<open>ERROR_IO_PENDING\<close> and \<open>WSA_IO_PENDING\<close>.\<close>

definition WSA_IO_PENDING :: int where "WSA_IO_PENDING = 997"
definition ERROR_HANDLE_EOF :: int where "ERROR_HANDLE_EOF = 38"
definition WSAEWOULDBLOCK :: int where "WSAEWOULDBLOCK = 10035"

fun request_started :: "win_request \<Rightarrow> int \<Rightarrow> bool" where
  "request_started (ReadFile h p l off) ret \<longleftrightarrow> ret \<noteq> 0"
| "request_started (WriteFile h p l off) ret \<longleftrightarrow> ret \<noteq> 0"
| "request_started (AcceptEx l s m op) ret \<longleftrightarrow> ret \<noteq> 0"
| "request_started (ConnectEx s m l) ret \<longleftrightarrow> ret \<noteq> 0"
| "request_started _ ret \<longleftrightarrow> ret = 0"

definition submit_windows ::
  "(win_request \<Rightarrow> nat \<Rightarrow> 'p \<Rightarrow> 'p \<times> int \<times> int) \<Rightarrow> win_request io_result \<Rightarrow> nat \<Rightarrow> 'p \<Rightarrow> 'p \<times> unit io_result" where
  "submit_windows call build overlapped p =
     (case build of
        Inl err \<Rightarrow> (p, Inl err)
      | Inr req \<Rightarrow>
          (case call req overlapped p of
             (p, ret, err) \<Rightarrow>
               if request_started req ret \<or> err = WSA_IO_PENDING then (p, Inr ()) else (p, Inl (Os err))))"

type_synonym ('p, 's, 'c, 'q, 'h) win_env = "('p, 's, 'c, 'q, 'h, mem list, win_request io_result) iocp_env"

subsection \<open>What the operations share\<close>

definition win_block ::
  "('p, 's, 'c, 'q, 'h) win_env \<Rightarrow> win_request io_result \<Rightarrow> waker \<Rightarrow> nat option \<Rightarrow>
   ('p, 's, 'c, 'q, 'h) iocp \<Rightarrow> nat option \<times> ('p, 's, 'c, 'q, 'h) iocp \<times> int io_result poll" where
  "win_block Y build w token st =
     (case token of
        Some k \<Rightarrow>
          (case iocp_get_completion_result Y k st of
             (st, Some result) \<Rightarrow> (None, st, Ready (Inr result))
           | (st, None) \<Rightarrow> (Some k, iocp_set_completion_waker Y k w st, Pending))
      | None \<Rightarrow>
          (case iocp_submit_completion Y build w st of
             (st, CompletionOk result) \<Rightarrow> (None, st, Ready (Inr result))
           | (st, Retry k) \<Rightarrow> (Some k, st, Pending)
           | (st, SubmitErr err) \<Rightarrow> (None, st, Ready (Inl err))))"

definition win_drop :: "('p, 's, 'c, 'q, 'h) win_env \<Rightarrow> nat option \<Rightarrow> mem list \<Rightarrow> ('p, 's, 'c, 'q, 'h) iocp option \<Rightarrow> ('p, 's, 'c, 'q, 'h) iocp option" where
  "win_drop Y token kept current =
     (case token of None \<Rightarrow> current | Some k \<Rightarrow> map_option (iocp_ignore_completion Y k kept) current)"

text \<open>\<open>io::Error::kind\<close> on Windows.\<close>

definition win_would_block :: "io_error \<Rightarrow> bool" where
  "win_would_block err \<longleftrightarrow> err = Os WSAEWOULDBLOCK \<or> err = Custom WouldBlock"

definition win_poll_result_or_wait ::
  "('p, 's, 'c, 'q, 'h) win_env \<Rightarrow> nat io_result \<Rightarrow> nat \<Rightarrow> waker \<Rightarrow> interest \<Rightarrow> ('p, 's, 'c, 'q, 'h) iocp \<Rightarrow> ('p, 's, 'c, 'q, 'h) iocp \<times> nat io_result poll" where
  "win_poll_result_or_wait Y result token w i st =
     (case result of
        Inr v \<Rightarrow> (st, Ready (Inr v))
      | Inl err \<Rightarrow>
          if win_would_block err
          then (case iocp_submit_poll Y token w i st of
                  (st, Inl submit_err) \<Rightarrow> (st, Ready (Inl submit_err))
                | (st, Inr _) \<Rightarrow> (st, Pending))
          else (st, Ready (Inl err)))"

text \<open>
  \<open>socket_read\<close>, \<open>socket_write\<close>, \<open>socket_recv\<close>, \<open>socket_send\<close>, \<open>socket_sendto\<close>: \<open>ret\<close>, \<open>bytes\<close> and \<open>err\<close> are what Winsock's function returned. Only a socket
  is polled.
\<close>

definition wsa_result :: "int \<Rightarrow> nat \<Rightarrow> int \<Rightarrow> nat io_result" where
  "wsa_result ret bytes err = (if ret = - 1 then Inl (Os err) else Inr bytes)"

definition socket_call :: "raw_os_handle \<Rightarrow> nat \<Rightarrow> nat io_result \<Rightarrow> nat io_result" where
  "socket_call h len outcome =
     (case h of
        OsSocket s \<Rightarrow> (case u32_try_from len of Inl err \<Rightarrow> Inl err | Inr _ \<Rightarrow> outcome)
      | OsHandle _ \<Rightarrow> Inl (Custom Unsupported))"

text \<open>\<open>wo_registration\<close>: the token of the handle; \<open>wo_state\<close>: the box of the operation.\<close>

record win_op =
  wo_handle :: raw_os_handle
  wo_registration :: nat
  wo_buf :: completion_buffer
  wo_token :: "nat option"
  wo_state :: "mem option"

definition win_new :: "bool \<Rightarrow> raw_os_handle \<Rightarrow> nat \<Rightarrow> io_buf \<Rightarrow> win_op" where
  "win_new completion h registration buf =
     \<lparr>wo_handle = h, wo_registration = registration, wo_buf = cb_new buf completion, wo_token = None, wo_state = None\<rparr>"

definition win_state :: "mem \<Rightarrow> 'x win_op_scheme \<Rightarrow> mem" where
  "win_state fresh op = (case wo_state op of Some m \<Rightarrow> m | None \<Rightarrow> fresh)"

definition win_fill :: "nat io_result poll \<Rightarrow> 'x win_op_scheme \<Rightarrow> 'x win_op_scheme" where
  "win_fill p op = (case p of Ready (Inr n) \<Rightarrow> op\<lparr>wo_buf := cb_map (set_buf_init n) (wo_buf op)\<rparr> | _ \<Rightarrow> op)"

text \<open>A submission keeps the box it made.\<close>

definition keep_box :: "win_request io_result \<Rightarrow> 'x win_op_scheme \<Rightarrow> 'x win_op_scheme" where
  "keep_box build op =
     (case (wo_token op, build) of
        (None, Inr req) \<Rightarrow> (case request_box req of Some m \<Rightarrow> op\<lparr>wo_state := Some m\<rparr> | None \<Rightarrow> op)
      | _ \<Rightarrow> op)"

definition win_poll_count ::
  "('p, 's, 'c, 'q, 'h) win_env \<Rightarrow> win_request io_result \<Rightarrow> (int io_result poll \<Rightarrow> int io_result poll) \<Rightarrow> waker \<Rightarrow> 'x win_op_scheme \<Rightarrow>
   ('p, 's, 'c, 'q, 'h) iocp \<Rightarrow> 'x win_op_scheme \<times> ('p, 's, 'c, 'q, 'h) iocp \<times> nat io_result poll" where
  "win_poll_count Y build fix w op st =
     (let op = keep_box build op
      in case win_block Y build w (wo_token op) st of
           (t, st, p) \<Rightarrow> (op\<lparr>wo_token := t\<rparr>, st, finish_completion (fix p) (\<lambda>result. Ready (Inr (nat result)))))"

definition kept_box :: "'x win_op_scheme \<Rightarrow> mem list" where
  "kept_box op = (case wo_state op of None \<Rightarrow> [] | Some m \<Rightarrow> [m])"

definition win_drop_buf :: "('p, 's, 'c, 'q, 'h) win_env \<Rightarrow> 'x win_op_scheme \<Rightarrow> ('p, 's, 'c, 'q, 'h) iocp option \<Rightarrow> ('p, 's, 'c, 'q, 'h) iocp option" where
  "win_drop_buf Y op current = win_drop Y (wo_token op) (kept_box op @ into_stable_box (wo_buf op)) current"

subsection \<open>\<open>ReadOp\<close> and \<open>WriteOp\<close>\<close>

definition win_read_request :: "mem \<Rightarrow> win_op \<Rightarrow> win_request io_result" where
  "win_read_request fresh op =
     (let buf = cb_ref (wo_buf op) in
      case u32_try_from (buf_capacity buf) of
        Inl err \<Rightarrow> Inl err
      | Inr len \<Rightarrow>
          (case wo_handle op of
             OsSocket s \<Rightarrow> Inr (WSARecv s (win_state fresh op) [(as_buf_ptr buf, len)] False)
           | OsHandle h \<Rightarrow> Inr (ReadFile h (as_buf_ptr buf) len 0)))"

definition win_read_poll_poll ::
  "('p, 's, 'c, 'q, 'h) win_env \<Rightarrow> int \<Rightarrow> nat \<Rightarrow> int \<Rightarrow> waker \<Rightarrow> win_op \<Rightarrow> ('p, 's, 'c, 'q, 'h) iocp \<Rightarrow> win_op \<times> ('p, 's, 'c, 'q, 'h) iocp \<times> nat io_result poll" where
  "win_read_poll_poll Y ret bytes err w op st =
     (case win_poll_result_or_wait Y (socket_call (wo_handle op) (buf_capacity (cb_ref (wo_buf op))) (wsa_result ret bytes err))
             (wo_registration op) w READABLE st of
        (st, p) \<Rightarrow> (win_fill p op, st, p))"

text \<open>The end of a file is a read of no bytes.\<close>

definition read_eof :: "int io_result poll \<Rightarrow> int io_result poll" where
  "read_eof p = (case p of Ready (Inr result) \<Rightarrow> if result < 0 \<and> - result = ERROR_HANDLE_EOF then Ready (Inr 0) else p | _ \<Rightarrow> p)"

definition win_read_poll_completion ::
  "('p, 's, 'c, 'q, 'h) win_env \<Rightarrow> mem \<Rightarrow> waker \<Rightarrow> win_op \<Rightarrow> ('p, 's, 'c, 'q, 'h) iocp \<Rightarrow> win_op \<times> ('p, 's, 'c, 'q, 'h) iocp \<times> nat io_result poll" where
  "win_read_poll_completion Y fresh w op st =
     (case win_poll_count Y (win_read_request fresh op) read_eof w op st of (op, st, p) \<Rightarrow> (win_fill p op, st, p))"

definition win_read_drop :: "('p, 's, 'c, 'q, 'h) win_env \<Rightarrow> win_op \<Rightarrow> ('p, 's, 'c, 'q, 'h) iocp option \<Rightarrow> ('p, 's, 'c, 'q, 'h) iocp option" where
  "win_read_drop Y op current = win_drop_buf Y op current"

definition win_write_request :: "mem \<Rightarrow> win_op \<Rightarrow> win_request io_result" where
  "win_write_request fresh op =
     (let buf = cb_ref (wo_buf op) in
      case u32_try_from (buf_len buf) of
        Inl err \<Rightarrow> Inl err
      | Inr len \<Rightarrow>
          (case wo_handle op of
             OsSocket s \<Rightarrow> Inr (WSASend s (win_state fresh op) [(as_buf_ptr buf, len)])
           | OsHandle h \<Rightarrow> Inr (WriteFile h (as_buf_ptr buf) len 0)))"

definition win_write_poll_poll ::
  "('p, 's, 'c, 'q, 'h) win_env \<Rightarrow> int \<Rightarrow> nat \<Rightarrow> int \<Rightarrow> waker \<Rightarrow> win_op \<Rightarrow> ('p, 's, 'c, 'q, 'h) iocp \<Rightarrow> win_op \<times> ('p, 's, 'c, 'q, 'h) iocp \<times> nat io_result poll" where
  "win_write_poll_poll Y ret bytes err w op st =
     (case win_poll_result_or_wait Y (socket_call (wo_handle op) (buf_len (cb_ref (wo_buf op))) (wsa_result ret bytes err))
             (wo_registration op) w WRITABLE st of
        (st, p) \<Rightarrow> (op, st, p))"

definition win_write_poll_completion ::
  "('p, 's, 'c, 'q, 'h) win_env \<Rightarrow> mem \<Rightarrow> waker \<Rightarrow> win_op \<Rightarrow> ('p, 's, 'c, 'q, 'h) iocp \<Rightarrow> win_op \<times> ('p, 's, 'c, 'q, 'h) iocp \<times> nat io_result poll" where
  "win_write_poll_completion Y fresh w op st = win_poll_count Y (win_write_request fresh op) id w op st"

definition win_write_drop :: "('p, 's, 'c, 'q, 'h) win_env \<Rightarrow> win_op \<Rightarrow> ('p, 's, 'c, 'q, 'h) iocp option \<Rightarrow> ('p, 's, 'c, 'q, 'h) iocp option" where
  "win_write_drop Y op current = win_drop_buf Y op current"

subsection \<open>\<open>RecvOp\<close> and \<open>SendOp\<close>\<close>

text \<open>Only for sockets; the handle is looked at before the length.\<close>

record win_recv_op = win_op +
  wr_peek :: bool

definition win_recv_new :: "bool \<Rightarrow> raw_os_handle \<Rightarrow> nat \<Rightarrow> io_buf \<Rightarrow> bool \<Rightarrow> win_recv_op" where
  "win_recv_new completion h registration buf peek =
     \<lparr>wo_handle = h, wo_registration = registration, wo_buf = cb_new buf completion, wo_token = None, wo_state = None, wr_peek = peek\<rparr>"

definition win_recv_request :: "mem \<Rightarrow> win_recv_op \<Rightarrow> win_request io_result" where
  "win_recv_request fresh op =
     (let buf = cb_ref (wo_buf op) in
      case wo_handle op of
        OsHandle _ \<Rightarrow> Inl (Custom InvalidInput)
      | OsSocket s \<Rightarrow>
          (case u32_try_from (buf_capacity buf) of
             Inl err \<Rightarrow> Inl err
           | Inr len \<Rightarrow> Inr (WSARecv s (win_state fresh op) [(as_buf_ptr buf, len)] (wr_peek op))))"

definition win_recv_poll_poll ::
  "('p, 's, 'c, 'q, 'h) win_env \<Rightarrow> int \<Rightarrow> nat \<Rightarrow> int \<Rightarrow> waker \<Rightarrow> win_recv_op \<Rightarrow> ('p, 's, 'c, 'q, 'h) iocp \<Rightarrow> win_recv_op \<times> ('p, 's, 'c, 'q, 'h) iocp \<times> nat io_result poll" where
  "win_recv_poll_poll Y ret bytes err w op st =
     (case win_poll_result_or_wait Y (socket_call (wo_handle op) (buf_capacity (cb_ref (wo_buf op))) (wsa_result ret bytes err))
             (wo_registration op) w READABLE st of
        (st, p) \<Rightarrow> (win_fill p op, st, p))"

definition win_recv_poll_completion ::
  "('p, 's, 'c, 'q, 'h) win_env \<Rightarrow> mem \<Rightarrow> waker \<Rightarrow> win_recv_op \<Rightarrow> ('p, 's, 'c, 'q, 'h) iocp \<Rightarrow> win_recv_op \<times> ('p, 's, 'c, 'q, 'h) iocp \<times> nat io_result poll" where
  "win_recv_poll_completion Y fresh w op st =
     (case win_poll_count Y (win_recv_request fresh op) id w op st of (op, st, p) \<Rightarrow> (win_fill p op, st, p))"

definition win_recv_drop :: "('p, 's, 'c, 'q, 'h) win_env \<Rightarrow> win_recv_op \<Rightarrow> ('p, 's, 'c, 'q, 'h) iocp option \<Rightarrow> ('p, 's, 'c, 'q, 'h) iocp option" where
  "win_recv_drop Y op current = win_drop_buf Y op current"

definition win_send_request :: "mem \<Rightarrow> win_op \<Rightarrow> win_request io_result" where
  "win_send_request fresh op =
     (let buf = cb_ref (wo_buf op) in
      case wo_handle op of
        OsHandle _ \<Rightarrow> Inl (Custom InvalidInput)
      | OsSocket s \<Rightarrow>
          (case u32_try_from (buf_len buf) of
             Inl err \<Rightarrow> Inl err
           | Inr len \<Rightarrow> Inr (WSASend s (win_state fresh op) [(as_buf_ptr buf, len)])))"

definition win_send_poll_poll ::
  "('p, 's, 'c, 'q, 'h) win_env \<Rightarrow> int \<Rightarrow> nat \<Rightarrow> int \<Rightarrow> waker \<Rightarrow> win_op \<Rightarrow> ('p, 's, 'c, 'q, 'h) iocp \<Rightarrow> win_op \<times> ('p, 's, 'c, 'q, 'h) iocp \<times> nat io_result poll" where
  "win_send_poll_poll Y ret bytes err w op st =
     (case win_poll_result_or_wait Y (socket_call (wo_handle op) (buf_len (cb_ref (wo_buf op))) (wsa_result ret bytes err))
             (wo_registration op) w WRITABLE st of
        (st, p) \<Rightarrow> (op, st, p))"

definition win_send_poll_completion ::
  "('p, 's, 'c, 'q, 'h) win_env \<Rightarrow> mem \<Rightarrow> waker \<Rightarrow> win_op \<Rightarrow> ('p, 's, 'c, 'q, 'h) iocp \<Rightarrow> win_op \<times> ('p, 's, 'c, 'q, 'h) iocp \<times> nat io_result poll" where
  "win_send_poll_completion Y fresh w op st = win_poll_count Y (win_send_request fresh op) id w op st"

definition win_send_drop :: "('p, 's, 'c, 'q, 'h) win_env \<Rightarrow> win_op \<Rightarrow> ('p, 's, 'c, 'q, 'h) iocp option \<Rightarrow> ('p, 's, 'c, 'q, 'h) iocp option" where
  "win_send_drop Y op current = win_drop_buf Y op current"

subsection \<open>\<open>ReadAtOp\<close> and \<open>WriteAtOp\<close>\<close>

text \<open>The offset is stored in the \<open>OVERLAPPED\<close>, in two halves of 32 bits; \<open>overlapped_offset\<close> is what the kernel reads there.\<close>

record win_at_op = win_op +
  wa_offset :: u64

definition overlapped_offset :: "u32 \<Rightarrow> u32 \<Rightarrow> u64" where
  "overlapped_offset low high = push_bit 32 (ucast high) OR ucast low"

definition set_offset :: "u64 \<Rightarrow> u32 \<times> u32" where
  "set_offset off = (ucast off, ucast (drop_bit 32 off))"

definition win_at_new :: "bool \<Rightarrow> raw_os_handle \<Rightarrow> nat \<Rightarrow> io_buf \<Rightarrow> u64 \<Rightarrow> win_at_op" where
  "win_at_new completion h registration buf offset =
     \<lparr>wo_handle = h, wo_registration = registration, wo_buf = cb_new buf completion, wo_token = None, wo_state = None, wa_offset = offset\<rparr>"

definition win_readat_request :: "win_at_op \<Rightarrow> win_request io_result" where
  "win_readat_request op =
     (let buf = cb_ref (wo_buf op) in
      case wo_handle op of
        OsSocket _ \<Rightarrow> Inl (Custom InvalidInput)
      | OsHandle h \<Rightarrow>
          (case u32_try_from (buf_capacity buf) of
             Inl err \<Rightarrow> Inl err
           | Inr len \<Rightarrow> (case set_offset (wa_offset op) of
               (low, high) \<Rightarrow> Inr (ReadFile h (as_buf_ptr buf) len (overlapped_offset low high)))))"

definition win_readat_poll_completion ::
  "('p, 's, 'c, 'q, 'h) win_env \<Rightarrow> waker \<Rightarrow> win_at_op \<Rightarrow> ('p, 's, 'c, 'q, 'h) iocp \<Rightarrow> win_at_op \<times> ('p, 's, 'c, 'q, 'h) iocp \<times> nat io_result poll" where
  "win_readat_poll_completion Y w op st =
     (case win_poll_count Y (win_readat_request op) id w op st of (op, st, p) \<Rightarrow> (win_fill p op, st, p))"

definition win_readat_drop :: "('p, 's, 'c, 'q, 'h) win_env \<Rightarrow> win_at_op \<Rightarrow> ('p, 's, 'c, 'q, 'h) iocp option \<Rightarrow> ('p, 's, 'c, 'q, 'h) iocp option" where
  "win_readat_drop Y op current = win_drop Y (wo_token op) (into_stable_box (wo_buf op)) current"

definition win_writeat_request :: "win_at_op \<Rightarrow> win_request io_result" where
  "win_writeat_request op =
     (let buf = cb_ref (wo_buf op) in
      case wo_handle op of
        OsSocket _ \<Rightarrow> Inl (Custom InvalidInput)
      | OsHandle h \<Rightarrow>
          (case u32_try_from (buf_len buf) of
             Inl err \<Rightarrow> Inl err
           | Inr len \<Rightarrow> (case set_offset (wa_offset op) of
               (low, high) \<Rightarrow> Inr (WriteFile h (as_buf_ptr buf) len (overlapped_offset low high)))))"

definition win_writeat_poll_completion ::
  "('p, 's, 'c, 'q, 'h) win_env \<Rightarrow> waker \<Rightarrow> win_at_op \<Rightarrow> ('p, 's, 'c, 'q, 'h) iocp \<Rightarrow> win_at_op \<times> ('p, 's, 'c, 'q, 'h) iocp \<times> nat io_result poll" where
  "win_writeat_poll_completion Y w op st = win_poll_count Y (win_writeat_request op) id w op st"

definition win_writeat_drop :: "('p, 's, 'c, 'q, 'h) win_env \<Rightarrow> win_at_op \<Rightarrow> ('p, 's, 'c, 'q, 'h) iocp option \<Rightarrow> ('p, 's, 'c, 'q, 'h) iocp option" where
  "win_writeat_drop Y op current = win_drop Y (wo_token op) (into_stable_box (wo_buf op)) current"

subsection \<open>\<open>RecvfromOp\<close> and \<open>SendtoOp\<close>\<close>

text \<open>A submission that fails drops the box; one that fails before the call leaves it.\<close>

definition drop_box :: "win_request io_result \<Rightarrow> int io_result poll \<Rightarrow> 'x win_op_scheme \<Rightarrow> 'x win_op_scheme" where
  "drop_box build p op =
     (case (wo_token op, build, p) of (None, Inr _, Ready (Inl _)) \<Rightarrow> op\<lparr>wo_state := None\<rparr> | _ \<Rightarrow> op)"

definition win_recvfrom_request :: "mem \<Rightarrow> win_recv_op \<Rightarrow> win_request io_result" where
  "win_recvfrom_request fresh op =
     (let buf = cb_ref (wo_buf op) in
      case wo_handle op of
        OsHandle _ \<Rightarrow> Inl (Custom InvalidInput)
      | OsSocket s \<Rightarrow>
          (case u32_try_from (buf_capacity buf) of
             Inl err \<Rightarrow> Inl err
           | Inr len \<Rightarrow> Inr (WSARecvFrom s (win_state fresh op) [(as_buf_ptr buf, len)] (wr_peek op))))"

text \<open>\<open>addr\<close>: the address the kernel stored.\<close>

definition win_recvfrom_poll_poll ::
  "('p, 's, 'c, 'q, 'h) win_env \<Rightarrow> int \<Rightarrow> nat \<Rightarrow> int \<Rightarrow> sockaddr_storage \<Rightarrow> waker \<Rightarrow> win_recv_op \<Rightarrow> ('p, 's, 'c, 'q, 'h) iocp \<Rightarrow>
   win_recv_op \<times> ('p, 's, 'c, 'q, 'h) iocp \<times> (nat \<times> socket_addr) io_result poll" where
  "win_recvfrom_poll_poll Y ret bytes err addr w op st =
     (case (case socket_call (wo_handle op) (buf_capacity (cb_ref (wo_buf op))) (wsa_result ret bytes err) of
              Inl err \<Rightarrow> Inl err
            | Inr n \<Rightarrow> map_sum id (Pair n) (sockaddr_storage_to_socketaddr addr)) of
        Inr (n, a) \<Rightarrow> (win_fill (Ready (Inr n)) op, st, Ready (Inr (n, a)))
      | Inl err \<Rightarrow>
          if win_would_block err
          then (case iocp_submit_poll Y (wo_registration op) w READABLE st of
                  (st, Inr _) \<Rightarrow> (op, st, Pending)
                | (st, Inl err) \<Rightarrow> (op, st, Ready (Inl err)))
          else (op, st, Ready (Inl err)))"

definition win_recvfrom_poll_completion ::
  "('p, 's, 'c, 'q, 'h) win_env \<Rightarrow> mem \<Rightarrow> sockaddr_storage \<Rightarrow> waker \<Rightarrow> win_recv_op \<Rightarrow> ('p, 's, 'c, 'q, 'h) iocp \<Rightarrow>
   win_recv_op \<times> ('p, 's, 'c, 'q, 'h) iocp \<times> (nat \<times> socket_addr) io_result poll" where
  "win_recvfrom_poll_completion Y fresh addr w op st =
     (let build = win_recvfrom_request fresh op; op = keep_box build op
      in case win_block Y build w (wo_token op) st of
           (t, st, p) \<Rightarrow>
             (let op = (drop_box build p op)\<lparr>wo_token := t\<rparr>
              in case finish_completion p (\<lambda>result. Ready (Inr (nat result))) of
                   Pending \<Rightarrow> (op, st, Pending)
                 | Ready (Inl err) \<Rightarrow> (op, st, Ready (Inl err))
                 | Ready (Inr n) \<Rightarrow>
                     (win_fill (Ready (Inr n)) op, st,
                      Ready (case wo_state op of
                               None \<Rightarrow> Inl (Custom Other)
                             | Some m \<Rightarrow> map_sum id (Pair n) (sockaddr_storage_to_socketaddr addr)))))"

definition win_recvfrom_drop :: "('p, 's, 'c, 'q, 'h) win_env \<Rightarrow> win_recv_op \<Rightarrow> ('p, 's, 'c, 'q, 'h) iocp option \<Rightarrow> ('p, 's, 'c, 'q, 'h) iocp option" where
  "win_recvfrom_drop Y op current = win_drop_buf Y op current"

record win_sendto_op = win_op +
  ws_addr :: socket_addr

definition win_sendto_new :: "bool \<Rightarrow> raw_os_handle \<Rightarrow> nat \<Rightarrow> io_buf \<Rightarrow> socket_addr \<Rightarrow> win_sendto_op" where
  "win_sendto_new completion h registration buf addr =
     \<lparr>wo_handle = h, wo_registration = registration, wo_buf = cb_new buf completion, wo_token = None, wo_state = None, ws_addr = addr\<rparr>"

definition win_sendto_request :: "mem \<Rightarrow> win_sendto_op \<Rightarrow> win_request io_result" where
  "win_sendto_request fresh op =
     (let buf = cb_ref (wo_buf op) in
      case wo_handle op of
        OsHandle _ \<Rightarrow> Inl (Custom InvalidInput)
      | OsSocket s \<Rightarrow>
          (case u32_try_from (buf_len buf) of
             Inl err \<Rightarrow> Inl err
           | Inr len \<Rightarrow>
               (case socket_addr_to_raw (ws_addr op) of
                  (raw, raw_len) \<Rightarrow> Inr (WSASendTo s (win_state fresh op) [(as_buf_ptr buf, len)] raw raw_len))))"

definition win_sendto_poll_poll ::
  "('p, 's, 'c, 'q, 'h) win_env \<Rightarrow> int \<Rightarrow> nat \<Rightarrow> int \<Rightarrow> waker \<Rightarrow> win_sendto_op \<Rightarrow> ('p, 's, 'c, 'q, 'h) iocp \<Rightarrow> win_sendto_op \<times> ('p, 's, 'c, 'q, 'h) iocp \<times> nat io_result poll" where
  "win_sendto_poll_poll Y ret bytes err w op st =
     (case win_poll_result_or_wait Y (socket_call (wo_handle op) (buf_len (cb_ref (wo_buf op))) (wsa_result ret bytes err))
             (wo_registration op) w WRITABLE st of
        (st, p) \<Rightarrow> (op, st, p))"

definition win_sendto_poll_completion ::
  "('p, 's, 'c, 'q, 'h) win_env \<Rightarrow> mem \<Rightarrow> waker \<Rightarrow> win_sendto_op \<Rightarrow> ('p, 's, 'c, 'q, 'h) iocp \<Rightarrow> win_sendto_op \<times> ('p, 's, 'c, 'q, 'h) iocp \<times> nat io_result poll" where
  "win_sendto_poll_completion Y fresh w op st =
     (let build = win_sendto_request fresh op; op = keep_box build op
      in case win_block Y build w (wo_token op) st of
           (t, st, p) \<Rightarrow> ((drop_box build p op)\<lparr>wo_token := t\<rparr>, st, finish_completion p (\<lambda>result. Ready (Inr (nat result)))))"

definition win_sendto_drop :: "('p, 's, 'c, 'q, 'h) win_env \<Rightarrow> win_sendto_op \<Rightarrow> ('p, 's, 'c, 'q, 'h) iocp option \<Rightarrow> ('p, 's, 'c, 'q, 'h) iocp option" where
  "win_sendto_drop Y op current = win_drop_buf Y op current"

subsection \<open>\<open>ReadvOp\<close> and \<open>WritevOp\<close>\<close>

record win_vec_op =
  wv_handle :: raw_os_handle
  wv_registration :: nat
  wv_bufs :: "io_vec list"
  wv_token :: "nat option"
  wv_wsabufs :: "mem option"
  wv_staging :: "mem option"

definition win_vec_new :: "raw_os_handle \<Rightarrow> nat \<Rightarrow> io_vec list \<Rightarrow> win_vec_op" where
  "win_vec_new h registration bufs =
     \<lparr>wv_handle = h, wv_registration = registration, wv_bufs = bufs, wv_token = None, wv_wsabufs = None, wv_staging = None\<rparr>"

primrec wsabufs_of :: "io_vec list \<Rightarrow> (ptr \<times> u32) list io_result" where
  "wsabufs_of [] = Inr []"
| "wsabufs_of (v # vs) =
     (case u32_try_from (snd v) of Inl err \<Rightarrow> Inl err | Inr len \<Rightarrow> map_sum id ((#) (fst v, len)) (wsabufs_of vs))"

text \<open>\<open>try_fold\<close> with \<open>checked_add\<close>.\<close>

primrec total_len :: "nat \<Rightarrow> io_vec list \<Rightarrow> nat io_result" where
  "total_len acc [] = Inr acc"
| "total_len acc (v # vs) = (if acc + snd v < 2 ^ 64 then total_len (acc + snd v) vs else Inl (Custom InvalidInput))"

definition total_len_u32 :: "io_vec list \<Rightarrow> u32 io_result" where
  "total_len_u32 vs = (case total_len 0 vs of Inl err \<Rightarrow> Inl err | Inr n \<Rightarrow> u32_try_from n)"

definition win_readv_request :: "mem \<Rightarrow> win_vec_op \<Rightarrow> win_request io_result" where
  "win_readv_request fresh op =
     (case wv_handle op of
        OsSocket s \<Rightarrow> map_sum id (\<lambda>bufs. WSARecv s fresh bufs False) (wsabufs_of (as_iovecs (wv_bufs op)))
      | OsHandle h \<Rightarrow> map_sum id (\<lambda>len. ReadFile h (fresh, 0) len 0) (total_len_u32 (as_iovecs (wv_bufs op))))"

definition win_writev_request :: "mem \<Rightarrow> win_vec_op \<Rightarrow> win_request io_result" where
  "win_writev_request fresh op =
     (case wv_handle op of
        OsSocket s \<Rightarrow> map_sum id (\<lambda>bufs. WSASend s fresh bufs) (wsabufs_of (as_iovecs (wv_bufs op)))
      | OsHandle h \<Rightarrow> map_sum id (\<lambda>len. WriteFile h (fresh, 0) len 0) (total_len_u32 (as_iovecs (wv_bufs op))))"

text \<open>After the call of a submission: a request that was accepted keeps its array or its staging buffer.\<close>

definition vec_submitted :: "mem \<Rightarrow> win_request io_result \<Rightarrow> int io_result poll \<Rightarrow> win_vec_op \<Rightarrow> win_vec_op" where
  "vec_submitted fresh build p op =
     (case (wv_token op, build) of
        (None, Inr req) \<Rightarrow>
          (case p of
             Pending \<Rightarrow>
               (case wv_handle op of
                  OsSocket _ \<Rightarrow> op\<lparr>wv_wsabufs := Some fresh, wv_staging := None\<rparr>
                | OsHandle _ \<Rightarrow> op\<lparr>wv_wsabufs := None, wv_staging := Some fresh\<rparr>)
           | Ready _ \<Rightarrow> op\<lparr>wv_wsabufs := None, wv_staging := None\<rparr>)
      | _ \<Rightarrow> op)"

text \<open>
  The copies from the staging buffer to the vectors: the destination, the offset in the buffer and the number of bytes.
\<close>

fun scatter :: "nat \<Rightarrow> nat \<Rightarrow> io_vec list \<Rightarrow> (ptr \<times> nat \<times> nat) list" where
  "scatter src remaining [] = []"
| "scatter src remaining ((p, l) # vs) =
     (if remaining = 0 then []
      else let chunk = min remaining l in
           if chunk = 0 then scatter src remaining vs
           else (p, src, chunk) # scatter (src + chunk) (remaining - chunk) vs)"

definition vec_finished :: "int io_result poll \<Rightarrow> win_vec_op \<Rightarrow> win_vec_op" where
  "vec_finished p op = (case p of Ready (Inr _) \<Rightarrow> op\<lparr>wv_wsabufs := None, wv_staging := None\<rparr> | _ \<Rightarrow> op)"

definition win_vec_completion ::
  "('p, 's, 'c, 'q, 'h) win_env \<Rightarrow> mem \<Rightarrow> win_request io_result \<Rightarrow> waker \<Rightarrow> win_vec_op \<Rightarrow> ('p, 's, 'c, 'q, 'h) iocp \<Rightarrow>
   win_vec_op \<times> ('p, 's, 'c, 'q, 'h) iocp \<times> nat io_result poll" where
  "win_vec_completion Y fresh build w op st =
     (case win_block Y build w (wv_token op) st of
        (t, st, p) \<Rightarrow>
          ((vec_finished p (vec_submitted fresh build p op))\<lparr>wv_token := t\<rparr>, st,
           finish_completion p (\<lambda>result. Ready (Inr (nat result)))))"

definition win_readv_poll_completion ::
  "('p, 's, 'c, 'q, 'h) win_env \<Rightarrow> mem \<Rightarrow> waker \<Rightarrow> win_vec_op \<Rightarrow> ('p, 's, 'c, 'q, 'h) iocp \<Rightarrow>
   win_vec_op \<times> ('p, 's, 'c, 'q, 'h) iocp \<times> (ptr \<times> nat \<times> nat) list \<times> nat io_result poll" where
  "win_readv_poll_completion Y fresh w op st =
     (case win_vec_completion Y fresh (win_readv_request fresh op) w op st of
        (op', st, p) \<Rightarrow>
          (op', st, case (p, wv_staging op) of (Ready (Inr n), Some m) \<Rightarrow> scatter 0 n (as_iovecs (wv_bufs op)) | _ \<Rightarrow> [], p))"

definition win_writev_poll_completion ::
  "('p, 's, 'c, 'q, 'h) win_env \<Rightarrow> mem \<Rightarrow> waker \<Rightarrow> win_vec_op \<Rightarrow> ('p, 's, 'c, 'q, 'h) iocp \<Rightarrow> win_vec_op \<times> ('p, 's, 'c, 'q, 'h) iocp \<times> nat io_result poll" where
  "win_writev_poll_completion Y fresh w op st =
     win_vec_completion Y fresh (win_writev_request fresh op) w op st"

text \<open>\<open>socket_read_vectored\<close>, \<open>socket_write_vectored\<close>.\<close>

definition vec_call :: "win_vec_op \<Rightarrow> nat io_result \<Rightarrow> nat io_result" where
  "vec_call op outcome =
     (case wv_handle op of
        OsSocket s \<Rightarrow> (case wsabufs_of (as_iovecs (wv_bufs op)) of Inl err \<Rightarrow> Inl err | Inr _ \<Rightarrow> outcome)
      | OsHandle _ \<Rightarrow> Inl (Custom Unsupported))"

definition win_readv_poll_poll ::
  "('p, 's, 'c, 'q, 'h) win_env \<Rightarrow> int \<Rightarrow> nat \<Rightarrow> int \<Rightarrow> waker \<Rightarrow> win_vec_op \<Rightarrow> ('p, 's, 'c, 'q, 'h) iocp \<Rightarrow> win_vec_op \<times> ('p, 's, 'c, 'q, 'h) iocp \<times> nat io_result poll" where
  "win_readv_poll_poll Y ret bytes err w op st =
     (case win_poll_result_or_wait Y (vec_call op (wsa_result ret bytes err)) (wv_registration op) w READABLE st of
        (st, p) \<Rightarrow> (op, st, p))"

definition win_writev_poll_poll ::
  "('p, 's, 'c, 'q, 'h) win_env \<Rightarrow> int \<Rightarrow> nat \<Rightarrow> int \<Rightarrow> waker \<Rightarrow> win_vec_op \<Rightarrow> ('p, 's, 'c, 'q, 'h) iocp \<Rightarrow> win_vec_op \<times> ('p, 's, 'c, 'q, 'h) iocp \<times> nat io_result poll" where
  "win_writev_poll_poll Y ret bytes err w op st =
     (case win_poll_result_or_wait Y (vec_call op (wsa_result ret bytes err)) (wv_registration op) w WRITABLE st of
        (st, p) \<Rightarrow> (op, st, p))"

text \<open>Only the array is handed over.\<close>

definition win_vec_drop :: "('p, 's, 'c, 'q, 'h) win_env \<Rightarrow> win_vec_op \<Rightarrow> ('p, 's, 'c, 'q, 'h) iocp option \<Rightarrow> ('p, 's, 'c, 'q, 'h) iocp option" where
  "win_vec_drop Y op current = win_drop Y (wv_token op) (case wv_wsabufs op of None \<Rightarrow> [] | Some m \<Rightarrow> [m]) current"

subsection \<open>Memory of operations in flight\<close>

text \<open>What the driver keeps for the operation with a token.\<close>

definition win_abandoned :: "('p, 's, 'c, 'q, 'h) win_env \<Rightarrow> nat option \<Rightarrow> ('p, 's, 'c, 'q, 'h) iocp option \<Rightarrow> mem list option" where
  "win_abandoned Y token current =
     (case (token, current) of
        (Some k, Some st) \<Rightarrow>
          (case slab_get (y_completions Y) (io_completions st) k of
             None \<Rightarrow> None
           | Some c \<Rightarrow> if ic_completed c = None then ic_ignored c else None)
      | _ \<Rightarrow> None)"

definition win_memory_kept :: "('p, 's, 'c, 'q, 'h) win_env \<Rightarrow> win_request io_result \<Rightarrow> nat option \<Rightarrow> ('p, 's, 'c, 'q, 'h) iocp option \<Rightarrow> bool" where
  "win_memory_kept Y build token current =
     (case (build, win_abandoned Y token current) of
        (Inr req, Some kept) \<Rightarrow> set (request_mem req) \<subseteq> set kept
      | _ \<Rightarrow> False)"

text \<open>The driver's kernel gets the operations' requests.\<close>

locale windows_ops =
  comps: slab "y_completions Y" for Y :: "('p, 's, 'c, 'q, 'h) win_env" +
  fixes call :: "win_request \<Rightarrow> nat \<Rightarrow> 'p \<Rightarrow> 'p \<times> int \<times> int"
  assumes submit: "port_submit (y_port Y) = submit_windows call"
begin

lemma win_block_submits:
  assumes "win_block Y build w None st = (t, st', Pending)"
  shows "\<exists>req. build = Inr req \<and> win_abandoned Y t (win_drop Y t kept (Some st')) = Some kept"
  using assms
  by (auto simp: win_block_def iocp_submit_completion_def submit submit_windows_def Let_def win_abandoned_def win_drop_def
      iocp_ignore_completion_def split: prod.splits sum.splits completion_io_result.splits if_splits)

lemma win_block_keeps:
  assumes "win_block Y build w None st = (t, st', Pending)" and "\<And>req. build = Inr req \<Longrightarrow> set (request_mem req) \<subseteq> set kept"
  shows "win_memory_kept Y build t (win_drop Y t kept (Some st'))"
  using win_block_submits [OF assms(1), of kept] assms(2) by (auto simp: win_memory_kept_def)

text \<open>The request of an operation covers its buffer and the box it keeps.\<close>

lemma win_count_kept:
  assumes "win_poll_count Y build fix w op st = (op', st', Pending)" and "wo_token op = None" and "wo_buf op = cb_new buf True"
    and "\<And>p. fix p = Pending \<longleftrightarrow> p = Pending"
    and "\<And>req. build = Inr req \<Longrightarrow> set (request_mem req) \<subseteq> {fst (as_buf_ptr buf)} \<union> set_option (request_box req)"
  shows "win_memory_kept Y build (wo_token op') (win_drop_buf Y op' (Some st')) \<and> wo_buf op' = cb_new buf True"
proof -
  let ?op = "keep_box build op"
  have op: "wo_token ?op = None" "wo_buf ?op = cb_new buf True"
    using assms(2,3) by (auto simp: keep_box_def split: sum.splits option.splits)
  obtain t p where b: "win_block Y build w None st = (t, st', p)" "op' = ?op\<lparr>wo_token := t\<rparr>"
    "finish_completion (fix p) (\<lambda>r. Ready (Inr (nat r))) = Pending"
    using assms(1) op(1) by (auto simp: win_poll_count_def Let_def split: prod.splits)
  then have "p = Pending"
    using assms(4) by simp
  moreover have "set (request_mem req) \<subseteq> set (kept_box ?op @ into_stable_box (cb_new buf True))" if "build = Inr req" for req
    using assms(5) [OF that] that assms(2) unfolding set_append stable_box_keeps
    by (cases "request_box req") (auto simp: keep_box_def kept_box_def)
  ultimately show ?thesis
    using win_block_keeps [of build w st t st' "kept_box ?op @ into_stable_box (cb_new buf True)"] b op
    by (simp add: win_drop_buf_def kept_box_def)
qed

lemma read_eof_pending: "read_eof p = Pending \<longleftrightarrow> p = Pending"
  by (auto simp: read_eof_def split: poll.splits sum.splits)

lemma id_pending: "id p = Pending \<longleftrightarrow> p = Pending"
  by simp

lemmas win_request_defs = win_read_request_def win_write_request_def win_recv_request_def win_send_request_def
  win_readat_request_def win_writeat_request_def win_recvfrom_request_def win_sendto_request_def
  win_new_def win_recv_new_def win_at_new_def win_sendto_new_def

lemma win_read_kept:
  assumes "win_read_poll_completion Y fresh w (win_new True h r buf) st = (op, st', Pending)"
  shows "win_memory_kept Y (win_read_request fresh (win_new True h r buf)) (wo_token op) (win_read_drop Y op (Some st'))"
  using assms win_count_kept [of "win_read_request fresh (win_new True h r buf)" read_eof w "win_new True h r buf" st op st' buf, OF _ _ _ read_eof_pending]
  by (auto simp: win_read_poll_completion_def win_read_drop_def win_fill_def win_request_defs Let_def split: prod.splits sum.splits raw_os_handle.splits)

lemma win_write_kept:
  assumes "win_write_poll_completion Y fresh w (win_new True h r buf) st = (op, st', Pending)"
  shows "win_memory_kept Y (win_write_request fresh (win_new True h r buf)) (wo_token op) (win_write_drop Y op (Some st'))"
  using assms win_count_kept [of "win_write_request fresh (win_new True h r buf)" id w "win_new True h r buf" st op st' buf, OF _ _ _ id_pending]
  by (auto simp: win_write_poll_completion_def win_write_drop_def win_request_defs Let_def split: prod.splits sum.splits raw_os_handle.splits)

lemma win_recv_kept:
  assumes "win_recv_poll_completion Y fresh w (win_recv_new True h r buf peek) st = (op, st', Pending)"
  shows "win_memory_kept Y (win_recv_request fresh (win_recv_new True h r buf peek)) (wo_token op) (win_recv_drop Y op (Some st'))"
  using assms win_count_kept [of "win_recv_request fresh (win_recv_new True h r buf peek)" id w "win_recv_new True h r buf peek" st op st' buf, OF _ _ _ id_pending]
  by (auto simp: win_recv_poll_completion_def win_recv_drop_def win_fill_def win_request_defs Let_def split: prod.splits sum.splits raw_os_handle.splits)

lemma win_send_kept:
  assumes "win_send_poll_completion Y fresh w (win_new True h r buf) st = (op, st', Pending)"
  shows "win_memory_kept Y (win_send_request fresh (win_new True h r buf)) (wo_token op) (win_send_drop Y op (Some st'))"
  using assms win_count_kept [of "win_send_request fresh (win_new True h r buf)" id w "win_new True h r buf" st op st' buf, OF _ _ _ id_pending]
  by (auto simp: win_send_poll_completion_def win_send_drop_def win_request_defs Let_def split: prod.splits sum.splits raw_os_handle.splits)

text \<open>The requests of positioned operations have no box of their own.\<close>

lemma win_at_kept:
  assumes "win_poll_count Y build id w (win_at_new True h r buf off) st = (op, st', Pending)"
    and "\<And>req. build = Inr req \<Longrightarrow> request_box req = None \<and> request_mem req = [fst (as_buf_ptr buf)]"
  shows "win_memory_kept Y build (wo_token op) (win_drop Y (wo_token op) (into_stable_box (wo_buf op)) (Some st'))"
proof -
  have "win_memory_kept Y build (wo_token op) (win_drop_buf Y op (Some st'))"
    using win_count_kept [OF assms(1) _ _ id_pending, of buf] assms(2) by (auto simp: win_at_new_def)
  moreover have "wo_state op = None"
    using assms by (auto simp: win_poll_count_def keep_box_def win_at_new_def Let_def split: prod.splits sum.splits)
  ultimately show ?thesis
    by (simp add: win_drop_buf_def kept_box_def)
qed

lemma win_readat_kept:
  assumes "win_readat_poll_completion Y w (win_at_new True h r buf off) st = (op, st', Pending)"
  shows "win_memory_kept Y (win_readat_request (win_at_new True h r buf off)) (wo_token op) (win_readat_drop Y op (Some st'))"
  using assms win_at_kept [of "win_readat_request (win_at_new True h r buf off)" w h r buf off st op st']
  by (auto simp: win_readat_poll_completion_def win_readat_drop_def win_fill_def win_request_defs Let_def
      split: prod.splits sum.splits raw_os_handle.splits)

lemma win_writeat_kept:
  assumes "win_writeat_poll_completion Y w (win_at_new True h r buf off) st = (op, st', Pending)"
  shows "win_memory_kept Y (win_writeat_request (win_at_new True h r buf off)) (wo_token op) (win_writeat_drop Y op (Some st'))"
  using assms win_at_kept [of "win_writeat_request (win_at_new True h r buf off)" w h r buf off st op st']
  by (auto simp: win_writeat_poll_completion_def win_writeat_drop_def win_request_defs Let_def
      split: prod.splits sum.splits raw_os_handle.splits)

text \<open>With an address: the box stays while the request is pending.\<close>

lemma win_addr_kept:
  assumes "win_block Y build w None st = (t, st', Pending)" and "wo_token op = None" and "wo_buf op = cb_new buf True"
    and "\<And>req. build = Inr req \<Longrightarrow> set (request_mem req) \<subseteq> {fst (as_buf_ptr buf)} \<union> set_option (request_box req)"
  shows "win_memory_kept Y build t (win_drop_buf Y ((drop_box build Pending (keep_box build op))\<lparr>wo_token := t\<rparr>) (Some st'))"
proof -
  have "win_poll_count Y build id w op st = ((keep_box build op)\<lparr>wo_token := t\<rparr>, st', Pending)"
    using assms(1,2) by (auto simp: win_poll_count_def keep_box_def finish_completion_def Let_def split: sum.splits option.splits)
  from win_count_kept [OF this assms(2,3) id_pending assms(4)] show ?thesis
    by (auto simp: drop_box_def split: option.splits sum.splits)
qed

lemma win_recvfrom_kept:
  assumes "win_recvfrom_poll_completion Y fresh addr w (win_recv_new True h r buf peek) st = (op, st', Pending)"
  shows "win_memory_kept Y (win_recvfrom_request fresh (win_recv_new True h r buf peek)) (wo_token op) (win_recvfrom_drop Y op (Some st'))"
proof -
  let ?op = "win_recv_new True h r buf peek" let ?b = "win_recvfrom_request fresh ?op"
  have "wo_token (keep_box ?b ?op) = None"
    by (auto simp: keep_box_def win_recv_new_def split: sum.splits option.splits)
  then obtain t p where b: "win_block Y ?b w None st = (t, st', p)" "finish_completion p (\<lambda>r. Ready (Inr (nat r))) = Pending"
    "op = (drop_box ?b p (keep_box ?b ?op))\<lparr>wo_token := t\<rparr>"
    using assms by (auto simp: win_recvfrom_poll_completion_def Let_def split: prod.splits poll.splits sum.splits)
  then have "p = Pending"
    by simp
  then show ?thesis
    using b win_addr_kept [of ?b w st t st' ?op buf]
    by (auto simp: win_recvfrom_drop_def win_request_defs Let_def split: sum.splits raw_os_handle.splits)
qed

lemma win_sendto_kept:
  assumes "win_sendto_poll_completion Y fresh w (win_sendto_new True h r buf a) st = (op, st', Pending)"
  shows "win_memory_kept Y (win_sendto_request fresh (win_sendto_new True h r buf a)) (wo_token op) (win_sendto_drop Y op (Some st'))"
proof -
  let ?op = "win_sendto_new True h r buf a" let ?b = "win_sendto_request fresh ?op"
  have "wo_token (keep_box ?b ?op) = None"
    by (auto simp: keep_box_def win_sendto_new_def split: sum.splits option.splits)
  then obtain t p where b: "win_block Y ?b w None st = (t, st', p)" "finish_completion p (\<lambda>r. Ready (Inr (nat r))) = Pending"
    "op = (drop_box ?b p (keep_box ?b ?op))\<lparr>wo_token := t\<rparr>"
    using assms by (auto simp: win_sendto_poll_completion_def Let_def split: prod.splits)
  then have "p = Pending"
    by simp
  then show ?thesis
    using b win_addr_kept [of ?b w st t st' ?op buf]
    by (auto simp: win_sendto_drop_def win_request_defs Let_def split: sum.splits raw_os_handle.splits prod.splits)
qed

text \<open>
  A vectored operation on a socket keeps its array (the vectors point into memory it does not own); one on a
  file frees its staging buffer while the kernel uses it.
\<close>

lemma win_vec_submits:
  assumes "win_vec_completion Y fresh build w (win_vec_new h r bufs) st = (op, st', Pending)"
  shows "\<exists>req. build = Inr req \<and> op = (vec_submitted fresh build Pending (win_vec_new h r bufs))\<lparr>wv_token := wv_token op\<rparr> \<and>
    win_abandoned Y (wv_token op) (win_vec_drop Y op (Some st')) = Some (case h of OsSocket s \<Rightarrow> [fresh] | OsHandle f \<Rightarrow> [])"
proof -
  obtain t p where b: "win_block Y build w None st = (t, st', p)" "finish_completion p (\<lambda>r. Ready (Inr (nat r))) = Pending"
    "op = (vec_finished p (vec_submitted fresh build p (win_vec_new h r bufs)))\<lparr>wv_token := t\<rparr>"
    using assms by (auto simp: win_vec_completion_def win_vec_new_def split: prod.splits)
  then have "p = Pending"
    by simp
  moreover from this b(1) obtain req where "build = Inr req" "\<And>kept. win_abandoned Y t (win_drop Y t kept (Some st')) = Some kept"
    using win_block_submits [of build w st t st'] by blast
  ultimately show ?thesis
    using b(3) by (auto simp: vec_finished_def vec_submitted_def win_vec_new_def win_vec_drop_def split: raw_os_handle.splits)
qed

lemma win_readv_staging_freed:
  assumes "win_readv_poll_completion Y fresh w (win_vec_new (OsHandle f) r bufs) st = (op, st', copies, Pending)"
  shows "wv_staging op = Some fresh \<and>
    \<not> win_memory_kept Y (win_readv_request fresh (win_vec_new (OsHandle f) r bufs)) (wv_token op) (win_vec_drop Y op (Some st'))"
proof -
  let ?op = "win_vec_new (OsHandle f) r bufs"
  have "win_vec_completion Y fresh (win_readv_request fresh ?op) w ?op st = (op, st', Pending)"
    using assms by (auto simp: win_readv_poll_completion_def split: prod.splits)
  from win_vec_submits [OF this] obtain req where "win_readv_request fresh ?op = Inr req"
    "op = (vec_submitted fresh (Inr req) Pending ?op)\<lparr>wv_token := wv_token op\<rparr>"
    "win_abandoned Y (wv_token op) (win_vec_drop Y op (Some st')) = Some []"
    by auto
  moreover from arg_cong [OF this(2), of wv_staging] have "wv_staging op = Some fresh"
    by (simp add: vec_submitted_def win_vec_new_def)
  moreover from calculation(1) have "request_mem req = [fresh]"
    by (cases "total_len_u32 bufs") (auto simp: win_readv_request_def win_vec_new_def)
  ultimately show ?thesis
    by (simp add: win_memory_kept_def)
qed

end

subsection \<open>Results\<close>

text \<open>The offset survives its two halves.\<close>

lemma overlapped_offset_set: "overlapped_offset (fst (set_offset off)) (snd (set_offset off)) = off"
  by (rule bit_word_eqI) (auto simp: overlapped_offset_def set_offset_def bit_simps)

text \<open>
  The copies of a vectored read move the bytes of the staging buffer in order and without a gap, as many as were
  read or the vectors hold, each within its vector.
\<close>

lemma upt_join: "a \<le> b \<Longrightarrow> b \<le> c \<Longrightarrow> [a..<b] @ [b..<c] = [a..<c]"
  using upt_add_eq_append [of a b "c - b"] by simp

lemma scatter_sources:
  "concat (map (\<lambda>(p, src, n). [src..<src + n]) (scatter src remaining vs)) = [src..<src + min remaining (sum_list (map snd vs))]"
proof (induction src remaining vs rule: scatter.induct)
  case (2 src remaining p l vs)
  show ?case
  proof (cases "remaining = 0 \<or> l = 0")
    case True
    then show ?thesis
      using 2(1) by (auto simp: Let_def)
  next
    case False
    then have pos: "remaining \<noteq> 0" "min remaining l \<noteq> 0"
      by (simp_all add: min_def)
    have "src + min remaining l + min (remaining - min remaining l) (sum_list (map snd vs)) =
        src + min remaining (l + sum_list (map snd vs))"
      by simp
    then have "[src..<src + min remaining l] @ [src + min remaining l..<src + min remaining l + min (remaining - min remaining l) (sum_list (map snd vs))] =
        [src..<src + min remaining (l + sum_list (map snd vs))]"
      unfolding \<open>_ = src + min remaining (l + sum_list (map snd vs))\<close>
      by (intro upt_join) simp_all
    then show ?thesis
      using 2(2) [OF pos(1) refl pos(2)] pos by (simp add: Let_def)
  qed
qed simp

lemma scatter_within: "(p, src', n) \<in> set (scatter src remaining vs) \<Longrightarrow> \<exists>l. (p, l) \<in> set vs \<and> n \<le> l"
  by (induction src remaining vs rule: scatter.induct) (force simp: Let_def split: if_splits)+

text \<open>At the end of a file \<open>ReadOp\<close> has read nothing and \<open>ReadAtOp\<close> fails.\<close>

lemma win_eof:
  assumes "iocp_get_completion_result Y k st = (st', Some (- ERROR_HANDLE_EOF))"
  shows "wo_token op = Some k \<Longrightarrow> snd (snd (win_read_poll_completion Y fresh w op st)) = Ready (Inr 0)"
    and "wo_token aop = Some k \<Longrightarrow> snd (snd (win_readat_poll_completion Y w aop st)) = Ready (Inl (Os ERROR_HANDLE_EOF))"
  using assms
  by (simp_all add: win_read_poll_completion_def win_readat_poll_completion_def win_poll_count_def keep_box_def win_block_def
      read_eof_def finish_completion_def ERROR_HANDLE_EOF_def Let_def)

subsection \<open>A port in memory\<close>

text \<open>The port of \<open>Iocp\<close>, with the operations' requests; every request is accepted.\<close>

definition accept_call :: "win_request \<Rightarrow> nat \<Rightarrow> list_port \<Rightarrow> list_port \<times> int \<times> int" where
  "accept_call req a p = (p\<lparr>lp_ops := List.insert a (lp_ops p)\<rparr>, 0, WSA_IO_PENDING)"

definition win_port_ops :: "(list_port, win_request io_result) port_ops" where
  "win_port_ops =
     \<lparr>port_associate = port_associate list_port_ops, port_disassociate = port_disassociate list_port_ops,
      port_dequeue = port_dequeue list_port_ops, port_submit = submit_windows accept_call,
      port_base_socket = port_base_socket list_port_ops, port_open_afd = port_open_afd list_port_ops,
      port_close_afd = port_close_afd list_port_ops, port_skip_event = port_skip_event list_port_ops,
      port_afd_poll = port_afd_poll list_port_ops, port_cancel = port_cancel list_port_ops,
      port_last_error = port_last_error list_port_ops, nt_status_to_dos_error = nt_status_to_dos_error list_port_ops\<rparr>"

definition win_list_env ::
  "(list_port, iocp_registration option list, mem list iocp_completion option list, poll_op option list, nat option list) win_env" where
  "win_list_env = \<lparr>y_port = win_port_ops, y_registrations = list_slab, y_completions = list_slab, y_poll_ops = list_slab, y_heap = list_slab\<rparr>"

interpretation win_prt: port win_port_ops list_ops list_polls
  by unfold_locales
    (auto simp: win_port_ops_def accept_call_def submit_windows_def list_port_ops_def list_ops_def list_polls_def list_entry_ptrs
      status_is_success_def split: sum.splits)

interpretation win_list: windows_ops win_list_env accept_call
  by (simp add: windows_ops_def windows_ops_axioms_def win_list_env_def win_port_ops_def ls.slab_axioms)

subsection \<open>Dropped operations\<close>

text \<open>
  On Windows, too, an operation that owns its buffer and is dropped after its request was accepted hands all the
  memory the request points to over to the driver: the buffer, and the box with the \<open>WSABUF\<close> and the address.
\<close>

lemma win_dropped_buffers_kept:
  assumes "windows_ops Y call"
  shows "win_read_poll_completion Y fresh w (win_new True h r buf) st = (op, st', Pending) \<Longrightarrow>
      win_memory_kept Y (win_read_request fresh (win_new True h r buf)) (wo_token op) (win_read_drop Y op (Some st'))"
    and "win_write_poll_completion Y fresh w (win_new True h r buf) st = (op, st', Pending) \<Longrightarrow>
      win_memory_kept Y (win_write_request fresh (win_new True h r buf)) (wo_token op) (win_write_drop Y op (Some st'))"
    and "win_recv_poll_completion Y fresh w (win_recv_new True h r buf peek) st = (rop, st', Pending) \<Longrightarrow>
      win_memory_kept Y (win_recv_request fresh (win_recv_new True h r buf peek)) (wo_token rop) (win_recv_drop Y rop (Some st'))"
    and "win_send_poll_completion Y fresh w (win_new True h r buf) st = (op, st', Pending) \<Longrightarrow>
      win_memory_kept Y (win_send_request fresh (win_new True h r buf)) (wo_token op) (win_send_drop Y op (Some st'))"
    and "win_readat_poll_completion Y w (win_at_new True h r buf off) st = (aop, st', Pending) \<Longrightarrow>
      win_memory_kept Y (win_readat_request (win_at_new True h r buf off)) (wo_token aop) (win_readat_drop Y aop (Some st'))"
    and "win_writeat_poll_completion Y w (win_at_new True h r buf off) st = (aop, st', Pending) \<Longrightarrow>
      win_memory_kept Y (win_writeat_request (win_at_new True h r buf off)) (wo_token aop) (win_writeat_drop Y aop (Some st'))"
    and "win_recvfrom_poll_completion Y fresh addr w (win_recv_new True h r buf peek) st = (rop, st', Pending) \<Longrightarrow>
      win_memory_kept Y (win_recvfrom_request fresh (win_recv_new True h r buf peek)) (wo_token rop) (win_recvfrom_drop Y rop (Some st'))"
    and "win_sendto_poll_completion Y fresh w (win_sendto_new True h r buf a) st = (sop, st', Pending) \<Longrightarrow>
      win_memory_kept Y (win_sendto_request fresh (win_sendto_new True h r buf a)) (wo_token sop) (win_sendto_drop Y sop (Some st'))"
  by (erule windows_ops.win_read_kept [OF assms] windows_ops.win_write_kept [OF assms] windows_ops.win_recv_kept [OF assms]
      windows_ops.win_send_kept [OF assms] windows_ops.win_readat_kept [OF assms] windows_ops.win_writeat_kept [OF assms]
      windows_ops.win_recvfrom_kept [OF assms] windows_ops.win_sendto_kept [OF assms])+

end
