(* ===== verification/Ops_Windows_Net.thy ===== *)
theory Ops_Windows_Net
  imports Ops_Windows
begin

text \<open>
  Connections on Windows: \<open>AcceptOp\<close> and \<open>ConnectOp\<close> of \<open>op/accept.rs\<close> and \<open>op/connect.rs\<close> with \<open>AcceptEx\<close> and \<open>ConnectEx\<close>. The outcomes of
  the calls are arguments. A poll also returns the sockets it closed, so that a lemma can say where the socket
  made for a connection is.
\<close>

subsection \<open>Calls\<close>

definition WSAEINPROGRESS :: int where "WSAEINPROGRESS = 10036"
definition WSAEALREADY :: int where "WSAEALREADY = 10037"
definition WSAENOTCONN :: int where "WSAENOTCONN = 10057"
definition WSAEINVAL :: int where "WSAEINVAL = 10022"
definition WSAEADDRINUSE :: int where "WSAEADDRINUSE = 10048"
definition WIN_AF_INET :: int where "WIN_AF_INET = 2"
definition WIN_AF_INET6 :: int where "WIN_AF_INET6 = 23"

text \<open>\<open>WSAIoctl\<close> failed, or gave a pointer that is null or not.\<close>

definition load_extension :: "bool io_result \<Rightarrow> unit io_result" where
  "load_extension ioctl =
     (case ioctl of Inl err \<Rightarrow> Inl err | Inr available \<Rightarrow> if available then Inr () else Inl (Custom Unsupported))"

definition create_accept_socket :: "int io_result \<Rightarrow> int io_result \<Rightarrow> int io_result" where
  "create_accept_socket family socket =
     (case family of
        Inl err \<Rightarrow> Inl err
      | Inr f \<Rightarrow> if f \<noteq> WIN_AF_INET \<and> f \<noteq> WIN_AF_INET6 then Inl (Custom InvalidInput) else socket)"

text \<open>A wait for readiness after a call that would block.\<close>

definition win_wait_for :: "('p, 's, 'c, 'q, 'h) win_env \<Rightarrow> nat \<Rightarrow> waker \<Rightarrow> interest \<Rightarrow> ('p, 's, 'c, 'q, 'h) iocp \<Rightarrow> ('p, 's, 'c, 'q, 'h) iocp \<times> 'a io_result poll" where
  "win_wait_for Y token w i st =
     (case iocp_submit_poll Y token w i st of
        (st, Inl err) \<Rightarrow> (st, Ready (Inl err))
      | (st, Inr _) \<Rightarrow> (st, Pending))"

subsection \<open>\<open>AcceptOp\<close>\<close>

text \<open>\<open>xa_accept_ex\<close>, \<open>xa_sockaddrs\<close>: the two functions are loaded; \<open>xa_self\<close>: the memory of the operation, where the count of bytes is stored.\<close>

record win_accept_op =
  xa_handle :: raw_os_handle
  xa_registration :: nat
  xa_self :: mem
  xa_accept_ex :: bool
  xa_sockaddrs :: bool
  xa_socket :: "int option"
  xa_output :: "mem option"
  xa_token :: "nat option"

definition win_accept_new :: "raw_os_handle \<Rightarrow> nat \<Rightarrow> mem \<Rightarrow> win_accept_op" where
  "win_accept_new h registration self =
     \<lparr>xa_handle = h, xa_registration = registration, xa_self = self, xa_accept_ex = False, xa_sockaddrs = False, xa_socket = None,
      xa_output = None, xa_token = None\<rparr>"

record accept_calls =
  ak_load_accept :: "bool io_result"
  ak_load_sockaddrs :: "bool io_result"
  ak_family :: "int io_result"
  ak_socket :: "int io_result"

text \<open>\<open>submit_windows\<close> up to its call: each step is skipped when its result is there from before.\<close>

definition accept_load :: "accept_calls \<Rightarrow> win_accept_op \<Rightarrow> win_accept_op \<times> unit io_result" where
  "accept_load calls op =
     (case (if xa_accept_ex op then Inr () else load_extension (ak_load_accept calls)) of
        Inl err \<Rightarrow> (op, Inl err)
      | Inr _ \<Rightarrow>
          let op = op\<lparr>xa_accept_ex := True\<rparr> in
          (case (if xa_sockaddrs op then Inr () else load_extension (ak_load_sockaddrs calls)) of
             Inl err \<Rightarrow> (op, Inl err)
           | Inr _ \<Rightarrow> (op\<lparr>xa_sockaddrs := True\<rparr>, Inr ())))"

definition win_accept_prepare :: "accept_calls \<Rightarrow> mem \<Rightarrow> win_accept_op \<Rightarrow> win_accept_op \<times> win_request io_result" where
  "win_accept_prepare calls fresh op =
     (case xa_handle op of
        OsHandle _ \<Rightarrow> (op, Inl (Custom InvalidInput))
      | OsSocket listener \<Rightarrow>
          (case accept_load calls op of
             (op, Inl err) \<Rightarrow> (op, Inl err)
           | (op, Inr _) \<Rightarrow>
               (case (case xa_socket op of Some s \<Rightarrow> Inr s | None \<Rightarrow> create_accept_socket (ak_family calls) (ak_socket calls)) of
                  Inl err \<Rightarrow> (op, Inl err)
                | Inr s \<Rightarrow>
                    let buffer = (case xa_output op of Some m \<Rightarrow> m | None \<Rightarrow> fresh)
                    in (op\<lparr>xa_socket := Some s, xa_output := Some buffer\<rparr>, Inr (AcceptEx listener s buffer (xa_self op))))))"

definition close_socket :: "win_accept_op \<Rightarrow> win_accept_op \<times> int list" where
  "close_socket op = (op\<lparr>xa_socket := None\<rparr>, case xa_socket op of None \<Rightarrow> [] | Some s \<Rightarrow> [s])"

text \<open>
  After a completion: \<open>context\<close> is the outcome of \<open>set_accept_context\<close>, \<open>remote\<close> the address \<open>GetAcceptExSockaddrs\<close> found. The socket is
  taken out of the operation first.
\<close>

definition win_accept_finish ::
  "unit io_result \<Rightarrow> sockaddr_storage option \<Rightarrow> win_accept_op \<Rightarrow> win_accept_op \<times> int list \<times> (int \<times> socket_addr) io_result" where
  "win_accept_finish context remote op =
     (case xa_handle op of
        OsHandle _ \<Rightarrow> (op, [], Inl (Custom InvalidInput))
      | OsSocket listener \<Rightarrow>
          (case xa_socket op of
             None \<Rightarrow> (op, [], Inl (Custom Other))
           | Some s \<Rightarrow>
               let op = op\<lparr>xa_socket := None\<rparr> in
               (case context of
                  Inl err \<Rightarrow> (op, [s], Inl err)
                | Inr _ \<Rightarrow>
                    (case xa_output op of
                       None \<Rightarrow> (op, [], Inl (Custom Other))
                     | Some m \<Rightarrow>
                         let op = op\<lparr>xa_output := None\<rparr> in
                         if \<not> xa_sockaddrs op then (op, [], Inl (Custom Unsupported))
                         else (case remote of
                                 None \<Rightarrow> (op, [], Inl (Custom Other))
                               | Some storage \<Rightarrow>
                                   (case sockaddr_storage_to_socketaddr storage of
                                      Inl err \<Rightarrow> (op, [s], Inl err)
                                    | Inr addr \<Rightarrow> (op, [], Inr (s, addr))))))))"

definition win_accept_poll_completion ::
  "('p, 's, 'c, 'q, 'h) win_env \<Rightarrow> accept_calls \<Rightarrow> unit io_result \<Rightarrow> sockaddr_storage option \<Rightarrow> mem \<Rightarrow> waker \<Rightarrow> win_accept_op \<Rightarrow> ('p, 's, 'c, 'q, 'h) iocp \<Rightarrow>
   win_accept_op \<times> ('p, 's, 'c, 'q, 'h) iocp \<times> int list \<times> (int \<times> socket_addr) io_result poll" where
  "win_accept_poll_completion Y calls context remote fresh w op st =
     (case (if xa_token op = None then win_accept_prepare calls fresh op else (op, Inl (Custom Other))) of
        (op, build) \<Rightarrow>
          (case win_block Y build w (xa_token op) st of
             (t, st, p) \<Rightarrow>
               (case p of
                  Pending \<Rightarrow> (op\<lparr>xa_token := t\<rparr>, st, [], Pending)
                | Ready (Inl err) \<Rightarrow>
                    (case (if isl build then (op, []) else close_socket op) of
                       (op, closed) \<Rightarrow> (op\<lparr>xa_token := t\<rparr>, st, closed, Ready (Inl err)))
                | Ready (Inr result) \<Rightarrow>
                    (case (if result < 0 then (case close_socket op of (op, closed) \<Rightarrow> (op, closed, Inl (Os (- result))))
                           else win_accept_finish context remote op) of
                       (op, closed, res) \<Rightarrow> (op\<lparr>xa_token := t\<rparr>, st, closed, Ready res)))))"

definition win_accept_drop :: "('p, 's, 'c, 'q, 'h) win_env \<Rightarrow> win_accept_op \<Rightarrow> ('p, 's, 'c, 'q, 'h) iocp option \<Rightarrow> ('p, 's, 'c, 'q, 'h) iocp option \<times> int list" where
  "win_accept_drop Y op current = (win_drop Y (xa_token op) [] current, snd (close_socket op))"

text \<open>The polled accept: \<open>accepted\<close> and \<open>peer\<close> are the outcomes of \<open>accept\<close> and \<open>getpeername\<close>.\<close>

definition win_accept_poll_poll ::
  "('p, 's, 'c, 'q, 'h) win_env \<Rightarrow> int io_result \<Rightarrow> sockaddr_storage io_result \<Rightarrow> waker \<Rightarrow> win_accept_op \<Rightarrow> ('p, 's, 'c, 'q, 'h) iocp \<Rightarrow>
   ('p, 's, 'c, 'q, 'h) iocp \<times> int list \<times> (int \<times> socket_addr) io_result poll" where
  "win_accept_poll_poll Y accepted peer w op st =
     (case xa_handle op of
        OsHandle _ \<Rightarrow> (st, [], Ready (Inl (Custom InvalidInput)))
      | OsSocket listener \<Rightarrow>
          (case accepted of
             Inl err \<Rightarrow>
               if win_would_block err then (case win_wait_for Y (xa_registration op) w READABLE st of (st, p) \<Rightarrow> (st, [], p))
               else (st, [], Ready (Inl err))
           | Inr s \<Rightarrow>
               (case peer of
                  Inl err \<Rightarrow> (st, [s], Ready (Inl err))
                | Inr storage \<Rightarrow>
                    (case sockaddr_storage_to_socketaddr storage of
                       Inl err \<Rightarrow> (st, [s], Ready (Inl err))
                     | Inr addr \<Rightarrow> (st, [], Ready (Inr (s, addr)))))))"

subsection \<open>\<open>ConnectOp\<close>\<close>

record win_connect_op =
  xc_handle :: raw_os_handle
  xc_registration :: nat
  xc_addr :: "mem \<times> nat"
  xc_connect_ex :: bool
  xc_bound :: bool
  xc_token :: "nat option"
  xc_started :: bool

definition win_connect_new :: "raw_os_handle \<Rightarrow> nat \<Rightarrow> mem \<times> nat \<Rightarrow> win_connect_op" where
  "win_connect_new h registration addr =
     \<lparr>xc_handle = h, xc_registration = registration, xc_addr = addr, xc_connect_ex = False, xc_bound = False, xc_token = None, xc_started = False\<rparr>"

text \<open>\<open>family\<close>: that of the address; \<open>bind\<close>: the outcome of binding to any local address of the family.\<close>

definition ensure_connectex_bound :: "int \<Rightarrow> unit io_result \<Rightarrow> unit io_result" where
  "ensure_connectex_bound family bind =
     (if family \<noteq> WIN_AF_INET \<and> family \<noteq> WIN_AF_INET6 then Inl (Custom InvalidInput)
      else case bind of
             Inl err \<Rightarrow> if err \<in> {Os WSAEINVAL, Os WSAEADDRINUSE} then Inr () else Inl err
           | Inr _ \<Rightarrow> Inr ())"

definition win_connect_prepare ::
  "int \<Rightarrow> unit io_result \<Rightarrow> bool io_result \<Rightarrow> win_connect_op \<Rightarrow> win_connect_op \<times> win_request io_result" where
  "win_connect_prepare family bind ioctl op =
     (case xc_handle op of
        OsHandle _ \<Rightarrow> (op, Inl (Custom InvalidInput))
      | OsSocket s \<Rightarrow>
          (case (if xc_bound op then Inr () else ensure_connectex_bound family bind) of
             Inl err \<Rightarrow> (op, Inl err)
           | Inr _ \<Rightarrow>
               let op = op\<lparr>xc_bound := True\<rparr> in
               (case (if xc_connect_ex op then Inr () else load_extension ioctl) of
                  Inl err \<Rightarrow> (op, Inl err)
                | Inr _ \<Rightarrow> (op\<lparr>xc_connect_ex := True\<rparr>, Inr (ConnectEx s (fst (xc_addr op)) (snd (xc_addr op)))))))"

text \<open>\<open>context\<close>: the outcome of \<open>set_connect_context\<close>.\<close>

definition win_connect_poll_completion ::
  "('p, 's, 'c, 'q, 'h) win_env \<Rightarrow> int \<Rightarrow> unit io_result \<Rightarrow> bool io_result \<Rightarrow> unit io_result \<Rightarrow> waker \<Rightarrow> win_connect_op \<Rightarrow> ('p, 's, 'c, 'q, 'h) iocp \<Rightarrow>
   win_connect_op \<times> ('p, 's, 'c, 'q, 'h) iocp \<times> unit io_result poll" where
  "win_connect_poll_completion Y family bind ioctl context w op st =
     (case (if xc_token op = None then win_connect_prepare family bind ioctl op else (op, Inl (Custom Other))) of
        (op, build) \<Rightarrow>
          (case win_block Y build w (xc_token op) st of
             (t, st, p) \<Rightarrow>
               (op\<lparr>xc_token := t\<rparr>, st, finish_completion p (\<lambda>result.
                  case xc_handle op of OsHandle _ \<Rightarrow> Ready (Inl (Custom InvalidInput)) | OsSocket _ \<Rightarrow> Ready context))))"

definition win_connect_drop :: "('p, 's, 'c, 'q, 'h) win_env \<Rightarrow> win_connect_op \<Rightarrow> ('p, 's, 'c, 'q, 'h) iocp option \<Rightarrow> ('p, 's, 'c, 'q, 'h) iocp option" where
  "win_connect_drop Y op current = win_drop Y (xc_token op) [] current"

definition in_progress :: "int set" where
  "in_progress = {WSAEINPROGRESS, WSAEALREADY, WSAEWOULDBLOCK}"

definition win_start_nonblocking_connect :: "int option \<Rightarrow> unit io_result" where
  "win_start_nonblocking_connect error =
     (case error of None \<Rightarrow> Inr () | Some err \<Rightarrow> if err \<in> in_progress then Inr () else Inl (Os err))"

text \<open>\<open>sockopt\<close>: the error of the socket, or that of \<open>getsockopt\<close>; \<open>peer\<close>: the error of \<open>getpeername\<close>, if any.\<close>

definition win_connect_check ::
  "('p, 's, 'c, 'q, 'h) win_env \<Rightarrow> int io_result \<Rightarrow> int option \<Rightarrow> nat \<Rightarrow> waker \<Rightarrow> ('p, 's, 'c, 'q, 'h) iocp \<Rightarrow> ('p, 's, 'c, 'q, 'h) iocp \<times> unit io_result poll" where
  "win_connect_check Y sockopt peer registration w st =
     (case sockopt of
        Inl err \<Rightarrow> if win_would_block err then win_wait_for Y registration w WRITABLE st else (st, Ready (Inl err))
      | Inr socket_error \<Rightarrow>
          if socket_error \<noteq> 0
          then (if socket_error \<in> in_progress then win_wait_for Y registration w WRITABLE st
                else (st, Ready (Inl (Os socket_error))))
          else (case peer of
                  Some err \<Rightarrow>
                    if err \<in> insert WSAENOTCONN in_progress then win_wait_for Y registration w WRITABLE st
                    else (st, Ready (Inl (Os err)))
                | None \<Rightarrow> (st, Ready (Inr ()))))"

definition win_connect_poll_poll ::
  "('p, 's, 'c, 'q, 'h) win_env \<Rightarrow> int option \<Rightarrow> int io_result \<Rightarrow> int option \<Rightarrow> waker \<Rightarrow> win_connect_op \<Rightarrow> ('p, 's, 'c, 'q, 'h) iocp \<Rightarrow>
   win_connect_op \<times> ('p, 's, 'c, 'q, 'h) iocp \<times> unit io_result poll" where
  "win_connect_poll_poll Y connect sockopt peer w op st =
     (case xc_handle op of
        OsHandle _ \<Rightarrow> (op, st, Ready (Inl (Custom InvalidInput)))
      | OsSocket s \<Rightarrow>
          (case (if xc_started op then Inr () else win_start_nonblocking_connect connect) of
             Inl err \<Rightarrow> (op, st, Ready (Inl err))
           | Inr _ \<Rightarrow>
               (case win_connect_check Y sockopt peer (xc_registration op) w st of
                  (st, p) \<Rightarrow> (op\<lparr>xc_started := True\<rparr>, st, p))))"

subsection \<open>The socket of a connection\<close>

text \<open>
  What a submission leaves behind in a pending operation: a socket, the buffer and the functions its completion needs.
\<close>

definition accept_ready :: "win_accept_op \<Rightarrow> bool" where
  "accept_ready op \<longleftrightarrow> (\<exists>l. xa_handle op = OsSocket l) \<and> xa_sockaddrs op \<and> xa_socket op \<noteq> None \<and> xa_output op \<noteq> None"

lemma accept_prepare_ready:
  assumes "win_accept_prepare calls fresh op = (op', build)"
  shows "xa_token op' = xa_token op \<and> (\<forall>req. build = Inr req \<longrightarrow> accept_ready op') \<and>
    (isl build \<longrightarrow> xa_socket op' = xa_socket op) \<and> (xa_socket op \<noteq> None \<longrightarrow> xa_socket op' = xa_socket op)"
  using assms
  by (auto simp: win_accept_prepare_def accept_load_def accept_ready_def Let_def
      split: raw_os_handle.splits sum.splits prod.splits option.splits if_splits)

context windows_ops
begin

lemma accept_pending_ready:
  assumes "xa_token op = None" and "win_accept_poll_completion Y calls context remote fresh w op st = (op', st', closed, Pending)"
  shows "accept_ready op' \<and> xa_token op' \<noteq> None \<and> closed = []"
proof -
  obtain op1 build where pr: "win_accept_prepare calls fresh op = (op1, build)"
    by fastforce
  note ready = accept_prepare_ready [OF pr]
  have "\<exists>t. win_block Y build w None st = (t, st', Pending) \<and> op' = op1\<lparr>xa_token := t\<rparr> \<and> closed = []"
    using assms pr ready by (auto simp: win_accept_poll_completion_def split: prod.splits poll.splits sum.splits if_splits)
  then obtain t where t: "win_block Y build w None st = (t, st', Pending)" "op' = op1\<lparr>xa_token := t\<rparr>" "closed = []"
    by blast
  then obtain req where "build = Inr req" "win_abandoned Y t (win_drop Y t [] (Some st')) = Some []"
    using win_block_submits [of build w st t st' "[]"] by blast
  moreover from this(2) have "t \<noteq> None"
    by (cases t) (simp_all add: win_abandoned_def)
  ultimately show ?thesis
    using t ready by (auto simp: accept_ready_def)
qed

end

text \<open>
  The socket of an operation in flight goes to exactly one place: it stays, is closed, or is returned with the
  connection; but it is lost when the remote address cannot be had.
\<close>

lemma accept_socket_accounted:
  assumes "accept_ready op" and "xa_token op = Some k" and "xa_socket op = Some s"
    and "win_accept_poll_completion Y calls context remote fresh w op st = (op', st', closed, p)"
  shows "(p = Pending \<and> closed = [] \<and> xa_socket op' = Some s \<and> accept_ready op') \<or>
    (\<exists>e. p = Ready (Inl e) \<and> closed = [s] \<and> xa_socket op' = None) \<or>
    (\<exists>addr. p = Ready (Inr (s, addr)) \<and> closed = [] \<and> xa_socket op' = None) \<or>
    (p = Ready (Inl (Custom Other)) \<and> closed = [] \<and> xa_socket op' = None \<and> remote = None)"
proof -
  obtain result st2 where "iocp_get_completion_result Y k st = (st2, result)"
    by fastforce
  then show ?thesis
    using assms
    by (cases result) (auto simp: win_accept_poll_completion_def win_block_def win_accept_finish_def close_socket_def accept_ready_def Let_def
        split: if_splits sum.splits option.splits)
qed

text \<open>The drop of an accept in flight frees the buffer the kernel stores the addresses in.\<close>

context windows_ops
begin

lemma accept_buffer_freed:
  assumes "xa_token op = None" and "win_accept_poll_completion Y calls context remote fresh w op st = (op', st', closed, Pending)"
    and "win_accept_prepare calls fresh op = (op1, build)"
  shows "\<not> win_memory_kept Y build (xa_token op') (fst (win_accept_drop Y op' (Some st')))"
proof -
  have "\<exists>t. win_block Y build w None st = (t, st', Pending) \<and> op' = op1\<lparr>xa_token := t\<rparr>"
    using assms accept_prepare_ready [OF assms(3)]
    by (auto simp: win_accept_poll_completion_def split: prod.splits poll.splits sum.splits if_splits)
  then obtain t where t: "win_block Y build w None st = (t, st', Pending)" "op' = op1\<lparr>xa_token := t\<rparr>"
    by blast
  then obtain req where req: "build = Inr req" "win_abandoned Y t (win_drop Y t [] (Some st')) = Some []"
    using win_block_submits [of build w st t st' "[]"] by blast
  moreover have "request_mem req \<noteq> []"
    using assms(3) req(1) by (auto simp: win_accept_prepare_def Let_def split: raw_os_handle.splits sum.splits prod.splits)
  ultimately show ?thesis
    using t(2) by (auto simp: win_memory_kept_def win_accept_drop_def)
qed

end

subsection \<open>Connecting\<close>

text \<open>\<open>connect\<close> is called by one poll only, and the connection stands when the socket has no error and a peer.\<close>

lemma win_connect_started_once:
  assumes "xc_started op"
  shows "win_connect_poll_poll Y connect sockopt peer w op st = win_connect_poll_poll Y connect' sockopt peer w op st"
  using assms by (simp add: win_connect_poll_poll_def)

lemma connect_poll_done:
  assumes "win_connect_poll_poll Y connect sockopt peer w op st = (op', st', Ready (Inr ()))"
  shows "sockopt = Inr 0 \<and> peer = None \<and> st' = st \<and> xc_started op'"
  using assms
  by (auto simp: win_connect_poll_poll_def win_connect_check_def win_wait_for_def
      split: raw_os_handle.splits sum.splits prod.splits option.splits if_splits)

text \<open>A second poll of a connect in flight neither binds nor loads again.\<close>

lemma connect_in_flight:
  assumes "xc_token op = Some k"
  shows "win_connect_poll_completion Y family bind ioctl context w op st = win_connect_poll_completion Y family' bind' ioctl' context w op st"
  using assms by (simp add: win_connect_poll_completion_def win_block_def)

end
