(* ===== verification/Stream_Io.thy ===== *)
theory Stream_Io
  imports Fs_File Net_Socket Ops_Process
begin

text \<open>
  Byte streams: what \<open>TcpStream\<close>, \<open>UnixStream\<close> and \<open>Pipe\<close> share, the traits \<open>AsyncRead\<close> and \<open>AsyncWrite\<close> and, for
  their poll variants, tokio's \<open>AsyncRead\<close> and \<open>AsyncWrite\<close>; and the pipes themselves (\<open>io/pipe.rs\<close>).

  The calls of the first two traits are awaited to their end, as in \<open>Fs_File\<close>: on a completing handle the
  kernel executes the entry of the operation, on a polled one the system call is made until it
  does not block. The tokio functions are single polls; their buffer \<open>ReadBuf\<close> is the record \<open>read_buf\<close>
  with the checks the library makes, a failed check being the panic \<open>None\<close>.
\<close>

subsection \<open>Awaited calls\<close>

record 'o stream_sys = "'o fs_sys" +
  st_read :: "int \<Rightarrow> ptr \<Rightarrow> nat \<Rightarrow> 'o \<Rightarrow> 'o \<times> nat io_result"
  st_write :: "int \<Rightarrow> ptr \<Rightarrow> nat \<Rightarrow> 'o \<Rightarrow> 'o \<times> nat io_result"
  st_readv :: "int \<Rightarrow> io_vec list \<Rightarrow> 'o \<Rightarrow> 'o \<times> nat io_result"
  st_writev :: "int \<Rightarrow> io_vec list \<Rightarrow> 'o \<Rightarrow> 'o \<times> nat io_result"
  st_alloc :: "'o \<Rightarrow> mem"                      \<comment> \<open>the block of a new array of vectors\<close>
  st_pipe :: "'o \<Rightarrow> 'o \<times> (int \<times> int) io_result"
  st_getfl :: "int \<Rightarrow> 'o \<Rightarrow> u32 option"
  st_setfl :: "int \<Rightarrow> u32 \<Rightarrow> 'o \<Rightarrow> 'o"

definition stream_read ::
  "('o, 'x) stream_sys_scheme \<Rightarrow> bool \<Rightarrow> raw_handle \<Rightarrow> io_buf \<Rightarrow> 'o \<Rightarrow> 'o \<times> nat io_result \<times> io_buf" where
  "stream_read os completion h buf s =
     (let op = read_new completion h buf in
      if completion
      then (case await_entry os (read_entry op) s of
              (s, res) \<Rightarrow> (s, await_count res, take_bufs (fill_ready (Ready (await_count res)) op)))
      else (case st_read os (h_handle h) (as_buf_ptr buf) (buf_capacity buf) s of
              (s, res) \<Rightarrow> (s, res, take_bufs (fill_ready (Ready res) op))))"

definition stream_write ::
  "('o, 'x) stream_sys_scheme \<Rightarrow> bool \<Rightarrow> raw_handle \<Rightarrow> io_buf \<Rightarrow> 'o \<Rightarrow> 'o \<times> nat io_result \<times> io_buf" where
  "stream_write os completion h buf s =
     (let op = write_new completion h buf in
      if completion
      then (case await_entry os (write_entry op) s of (s, res) \<Rightarrow> (s, await_count res, take_bufs op))
      else (case st_write os (h_handle h) (as_buf_ptr buf) (buf_len buf) s of (s, res) \<Rightarrow> (s, res, take_bufs op)))"

definition stream_read_vectored ::
  "('o, 'x) stream_sys_scheme \<Rightarrow> bool \<Rightarrow> raw_handle \<Rightarrow> io_vec list \<Rightarrow> 'o \<Rightarrow> 'o \<times> nat io_result \<times> io_vec list" where
  "stream_read_vectored os completion h bufs s =
     (if bufs = [] then (s, Inr 0, bufs)
      else let op = readv_new h bufs in
           if completion
           then (case await_entry os (readv_entry (st_alloc os s) op) s of (s, res) \<Rightarrow> (s, await_count res, vo_bufs op))
           else (case st_readv os (h_handle h) (iovec_to_system (as_iovecs bufs)) s of (s, res) \<Rightarrow> (s, res, vo_bufs op)))"

definition stream_write_vectored ::
  "('o, 'x) stream_sys_scheme \<Rightarrow> bool \<Rightarrow> raw_handle \<Rightarrow> io_vec list \<Rightarrow> 'o \<Rightarrow> 'o \<times> nat io_result \<times> io_vec list" where
  "stream_write_vectored os completion h bufs s =
     (if bufs = [] then (s, Inr 0, bufs)
      else let op = writev_new h bufs in
           if completion
           then (case await_entry os (writev_entry (st_alloc os s) op) s of (s, res) \<Rightarrow> (s, await_count res, vo_bufs op))
           else (case st_writev os (h_handle h) (iovec_to_system (as_iovecs bufs)) s of (s, res) \<Rightarrow> (s, res, vo_bufs op)))"

definition stream_flush :: "unit io_result" where
  "stream_flush = Inr ()"

text \<open>The streams of sockets.\<close>

definition tcp_read ::
  "('o, 'x) stream_sys_scheme \<Rightarrow> ('r, 's, 'c, 'm, 't) any_driver \<Rightarrow> socket \<Rightarrow> io_buf \<Rightarrow> 'o \<Rightarrow> 'o \<times> nat io_result \<times> io_buf" where
  "tcp_read os d k buf s = stream_read os (uses_completion d (so_handle k)) (so_handle k) buf s"

definition tcp_write ::
  "('o, 'x) stream_sys_scheme \<Rightarrow> ('r, 's, 'c, 'm, 't) any_driver \<Rightarrow> socket \<Rightarrow> io_buf \<Rightarrow> 'o \<Rightarrow> 'o \<times> nat io_result \<times> io_buf" where
  "tcp_write os d k buf s = stream_write os (uses_completion d (so_handle k)) (so_handle k) buf s"

definition unix_read ::
  "('o, 'x) stream_sys_scheme \<Rightarrow> ('r, 's, 'c, 'm, 't) any_driver \<Rightarrow> socket \<Rightarrow> io_buf \<Rightarrow> 'o \<Rightarrow> 'o \<times> nat io_result \<times> io_buf" where
  "unix_read os d k buf s = stream_read os (uses_completion d (so_handle k)) (so_handle k) buf s"

definition unix_write ::
  "('o, 'x) stream_sys_scheme \<Rightarrow> ('r, 's, 'c, 'm, 't) any_driver \<Rightarrow> socket \<Rightarrow> io_buf \<Rightarrow> 'o \<Rightarrow> 'o \<times> nat io_result \<times> io_buf" where
  "unix_write os d k buf s = stream_write os (uses_completion d (so_handle k)) (so_handle k) buf s"

subsection \<open>Pipes\<close>

record vibe_pipe =
  pp_inner :: int
  pp_handle :: raw_handle

definition O_NONBLOCK_FLAG :: u32 where "O_NONBLOCK_FLAG = 0x800"

definition nonblock_flags :: "bool \<Rightarrow> u32 \<Rightarrow> u32" where
  "nonblock_flags completion flags =
     (let new_flags = flags OR O_NONBLOCK_FLAG in
      if completion then new_flags AND NOT O_NONBLOCK_FLAG else new_flags)"

text \<open>The flags are best effort: a failed \<open>fcntl\<close> is ignored.\<close>

definition apply_flags :: "('o, 'x) stream_sys_scheme \<Rightarrow> int \<Rightarrow> bool \<Rightarrow> 'o \<Rightarrow> 'o" where
  "apply_flags os fd completion s =
     (case st_getfl os fd s of
        None \<Rightarrow> s
      | Some flags \<Rightarrow> st_setfl os fd (nonblock_flags completion flags) s)"

definition pipe_from_std_with_mode ::
  "('r, 's, 'c, 'm, 't) op_env \<Rightarrow> ('o, 'x) stream_sys_scheme \<Rightarrow> registration_mode \<Rightarrow> int \<Rightarrow>
   ('r, 's, 'c, 'm, 't) any_driver option \<Rightarrow> 'o \<Rightarrow> ('r, 's, 'c, 'm, 't) any_driver option \<times> 'o \<times> vibe_pipe io_result" where
  "pipe_from_std_with_mode Z os mode inner current s =
     (case new_with_mode Z current inner READ_WRITE mode of
        (current, Inl err) \<Rightarrow> (current, fs_close os inner s, Inl err)
      | (current, Inr h) \<Rightarrow>
          (current, apply_flags os inner (case current of None \<Rightarrow> False | Some d \<Rightarrow> uses_completion d h) s,
           Inr \<lparr>pp_inner = inner, pp_handle = h\<rparr>))"

definition pipe_drop ::
  "('r, 's, 'c, 'm, 't) op_env \<Rightarrow> ('o, 'x) stream_sys_scheme \<Rightarrow> vibe_pipe \<Rightarrow> ('r, 's, 'c, 'm, 't) any_driver option \<Rightarrow> 'o \<Rightarrow>
   ('r, 's, 'c, 'm, 't) any_driver option \<times> 'o" where
  "pipe_drop Z os p current s = (map_option (handle_drop Z (pp_handle p)) current, fs_close os (pp_inner p) s)"

text \<open>\<open>pipe()\<close>: the end that is already there is dropped when the other one fails.\<close>

definition pipe_open ::
  "('r, 's, 'c, 'm, 't) op_env \<Rightarrow> ('o, 'x) stream_sys_scheme \<Rightarrow> ('r, 's, 'c, 'm, 't) any_driver option \<Rightarrow> 'o \<Rightarrow>
   ('r, 's, 'c, 'm, 't) any_driver option \<times> 'o \<times> (vibe_pipe \<times> vibe_pipe) io_result" where
  "pipe_open Z os current s =
     (case st_pipe os s of
        (s, Inl err) \<Rightarrow> (current, s, Inl err)
      | (s, Inr (r, w)) \<Rightarrow>
          (case pipe_from_std_with_mode Z os CompletionMode r current s of
             (current, s, Inl err) \<Rightarrow> (current, fs_close os w s, Inl err)
           | (current, s, Inr rp) \<Rightarrow>
               (case pipe_from_std_with_mode Z os CompletionMode w current s of
                  (current, s, Inl err) \<Rightarrow> (case pipe_drop Z os rp current s of (current, s) \<Rightarrow> (current, s, Inl err))
                | (current, s, Inr wp) \<Rightarrow> (current, s, Inr (rp, wp)))))"

text \<open>\<open>into_poll\<close> and \<open>into_completion\<close>; the pipe is owned here, an error drops it.\<close>

definition pipe_rebind ::
  "('r, 's, 'c, 'm, 't) op_env \<Rightarrow> ('o, 'x) stream_sys_scheme \<Rightarrow> registration_mode \<Rightarrow> vibe_pipe \<Rightarrow>
   ('r, 's, 'c, 'm, 't) any_driver \<Rightarrow> 'o \<Rightarrow> ('r, 's, 'c, 'm, 't) any_driver \<times> 'o \<times> vibe_pipe io_result" where
  "pipe_rebind Z os mode p d s =
     (case rebind_mode Z mode (pp_handle p) d of
        (d, h, Inl err) \<Rightarrow> (handle_drop Z h d, fs_close os (pp_inner p) s, Inl err)
      | (d, h, Inr _) \<Rightarrow> (d, apply_flags os (pp_inner p) (uses_completion d h) s, Inr (p\<lparr>pp_handle := h\<rparr>)))"

definition pipe_into_poll ::
  "('r, 's, 'c, 'm, 't) op_env \<Rightarrow> ('o, 'x) stream_sys_scheme \<Rightarrow> vibe_pipe \<Rightarrow>
   ('r, 's, 'c, 'm, 't) any_driver \<Rightarrow> 'o \<Rightarrow> ('r, 's, 'c, 'm, 't) any_driver \<times> 'o \<times> vibe_pipe io_result" where
  "pipe_into_poll Z os p d s = pipe_rebind Z os PollMode p d s"

definition poll_pipe_into_completion ::
  "('r, 's, 'c, 'm, 't) op_env \<Rightarrow> ('o, 'x) stream_sys_scheme \<Rightarrow> vibe_pipe \<Rightarrow>
   ('r, 's, 'c, 'm, 't) any_driver \<Rightarrow> 'o \<Rightarrow> ('r, 's, 'c, 'm, 't) any_driver \<times> 'o \<times> vibe_pipe io_result" where
  "poll_pipe_into_completion Z os p d s = pipe_rebind Z os CompletionMode p d s"

definition pipe_into_raw_fd ::
  "('r, 's, 'c, 'm, 't) op_env \<Rightarrow> vibe_pipe \<Rightarrow> ('r, 's, 'c, 'm, 't) any_driver \<Rightarrow> ('r, 's, 'c, 'm, 't) any_driver \<times> int" where
  "pipe_into_raw_fd Z p d = (handle_drop Z (pp_handle p) d, pp_inner p)"

definition pipe_read ::
  "('o, 'x) stream_sys_scheme \<Rightarrow> ('r, 's, 'c, 'm, 't) any_driver \<Rightarrow> vibe_pipe \<Rightarrow> io_buf \<Rightarrow> 'o \<Rightarrow> 'o \<times> nat io_result \<times> io_buf" where
  "pipe_read os d p buf s = stream_read os (uses_completion d (pp_handle p)) (pp_handle p) buf s"

definition pipe_read_vectored ::
  "('o, 'x) stream_sys_scheme \<Rightarrow> ('r, 's, 'c, 'm, 't) any_driver \<Rightarrow> vibe_pipe \<Rightarrow> io_vec list \<Rightarrow> 'o \<Rightarrow> 'o \<times> nat io_result \<times> io_vec list" where
  "pipe_read_vectored os d p bufs s = stream_read_vectored os (uses_completion d (pp_handle p)) (pp_handle p) bufs s"

definition pipe_write ::
  "('o, 'x) stream_sys_scheme \<Rightarrow> ('r, 's, 'c, 'm, 't) any_driver \<Rightarrow> vibe_pipe \<Rightarrow> io_buf \<Rightarrow> 'o \<Rightarrow> 'o \<times> nat io_result \<times> io_buf" where
  "pipe_write os d p buf s = stream_write os (uses_completion d (pp_handle p)) (pp_handle p) buf s"

definition pipe_write_vectored ::
  "('o, 'x) stream_sys_scheme \<Rightarrow> ('r, 's, 'c, 'm, 't) any_driver \<Rightarrow> vibe_pipe \<Rightarrow> io_vec list \<Rightarrow> 'o \<Rightarrow> 'o \<times> nat io_result \<times> io_vec list" where
  "pipe_write_vectored os d p bufs s = stream_write_vectored os (uses_completion d (pp_handle p)) (pp_handle p) bufs s"

subsection \<open>Tokio's traits\<close>

text \<open>\<open>tokio::io::ReadBuf\<close>: a buffer whose front part is filled and a longer front part initialised.\<close>

record read_buf =
  rb_ptr :: ptr
  rb_capacity :: nat
  rb_filled :: nat
  rb_initialized :: nat

definition rb_remaining :: "read_buf \<Rightarrow> nat" where
  "rb_remaining rb = rb_capacity rb - rb_filled rb"

definition rb_unfilled_mut :: "read_buf \<Rightarrow> ptr \<times> nat" where
  "rb_unfilled_mut rb = ((fst (rb_ptr rb), snd (rb_ptr rb) + rb_filled rb), rb_capacity rb - rb_filled rb)"

definition rb_assume_init :: "nat \<Rightarrow> read_buf \<Rightarrow> read_buf" where
  "rb_assume_init n rb = rb\<lparr>rb_initialized := max (rb_initialized rb) (rb_filled rb + n)\<rparr>"

definition rb_advance :: "nat \<Rightarrow> read_buf \<Rightarrow> read_buf option" where
  "rb_advance n rb =
     (if rb_filled rb + n \<le> rb_initialized rb then Some (rb\<lparr>rb_filled := rb_filled rb + n\<rparr>) else None)"

definition rb_wf :: "read_buf \<Rightarrow> bool" where
  "rb_wf rb \<longleftrightarrow> rb_filled rb \<le> rb_initialized rb \<and> rb_initialized rb \<le> rb_capacity rb"

text \<open>
  \<open>poll_read\<close> as the three poll types have it. \<open>ret\<close> and \<open>errno\<close> are the outcome of \<open>read\<close> on the unfilled
  part of the buffer.
\<close>

definition read_methods ::
  "('r, 's, 'c, 'm, 't) op_env \<Rightarrow> int \<Rightarrow> int \<Rightarrow> (buf_op, ('r, 's, 'c, 'm, 't) any_driver, nat) op_methods" where
  "read_methods Z ret errno =
     \<lparr>op_poll_completion = read_poll_completion Z, op_poll_poll = read_poll_poll Z ret errno\<rparr>"

definition write_methods ::
  "('r, 's, 'c, 'm, 't) op_env \<Rightarrow> int \<Rightarrow> int \<Rightarrow> (buf_op, ('r, 's, 'c, 'm, 't) any_driver, nat) op_methods" where
  "write_methods Z ret errno =
     \<lparr>op_poll_completion = write_poll_completion Z, op_poll_poll = write_poll_poll Z ret errno\<rparr>"

definition writev_methods ::
  "('r, 's, 'c, 'm, 't) op_env \<Rightarrow> mem \<Rightarrow> int \<Rightarrow> int \<Rightarrow> (vec_op, ('r, 's, 'c, 'm, 't) any_driver, nat) op_methods" where
  "writev_methods Z fresh ret errno =
     \<lparr>op_poll_completion = writev_poll_completion Z fresh, op_poll_poll = writev_poll_poll Z ret errno\<rparr>"

definition tokio_poll_read ::
  "('r, 's, 'c, 'm, 't) op_env \<Rightarrow> int \<Rightarrow> int \<Rightarrow> waker \<Rightarrow> raw_handle \<Rightarrow> read_buf \<Rightarrow> ('r, 's, 'c, 'm, 't) any_driver \<Rightarrow>
   (read_buf \<times> ('r, 's, 'c, 'm, 't) any_driver \<times> unit io_result poll) option" where
  "tokio_poll_read Z ret errno w h rb d =
     (if rb_remaining rb = 0 then Some (rb, d, Ready (Inr ()))
      else
        let unfilled = rb_unfilled_mut rb;
            op = read_new (uses_completion d h) h (TemporaryPoll (fst unfilled) (snd unfilled))
        in case poll_op_poll (read_methods Z ret errno) h w op d of
             (op, d, Ready (Inr n)) \<Rightarrow> map_option (\<lambda>rb. (rb, d, Ready (Inr ()))) (rb_advance n (rb_assume_init n rb))
           | (op, d, Ready (Inl err)) \<Rightarrow> Some (rb, d, Ready (Inl err))
           | (op, d, Pending) \<Rightarrow> Some (rb, d, Pending))"

definition tokio_poll_write ::
  "('r, 's, 'c, 'm, 't) op_env \<Rightarrow> int \<Rightarrow> int \<Rightarrow> waker \<Rightarrow> raw_handle \<Rightarrow> ptr \<Rightarrow> nat \<Rightarrow> ('r, 's, 'c, 'm, 't) any_driver \<Rightarrow>
   ('r, 's, 'c, 'm, 't) any_driver \<times> nat io_result poll" where
  "tokio_poll_write Z ret errno w h p len d =
     (case poll_op_poll (write_methods Z ret errno) h w (write_new (uses_completion d h) h (TemporaryPoll p len)) d of
        (op, d, res) \<Rightarrow> (d, res))"

definition tokio_poll_write_vectored ::
  "('r, 's, 'c, 'm, 't) op_env \<Rightarrow> mem \<Rightarrow> int \<Rightarrow> int \<Rightarrow> waker \<Rightarrow> raw_handle \<Rightarrow> io_vec list \<Rightarrow> ('r, 's, 'c, 'm, 't) any_driver \<Rightarrow>
   ('r, 's, 'c, 'm, 't) any_driver \<times> nat io_result poll" where
  "tokio_poll_write_vectored Z fresh ret errno w h bufs d =
     (if bufs = [] then (d, Ready (Inr 0))
      else case poll_op_poll (writev_methods Z fresh ret errno) h w (writev_new h bufs) d of (op, d, res) \<Rightarrow> (d, res))"

definition tokio_poll_flush :: "unit io_result poll" where
  "tokio_poll_flush = Ready (Inr ())"

text \<open>\<open>poll_shutdown\<close>: of a pipe nothing, of a socket the shutdown of its writing side.\<close>

definition pipe_poll_shutdown :: "unit io_result poll" where
  "pipe_poll_shutdown = Ready (Inr ())"

definition poll_shutdown :: "unit io_result \<Rightarrow> unit io_result poll" where
  "poll_shutdown res = Ready (tcp_shutdown res)"

definition poll_tcp_poll_read ::
  "('r, 's, 'c, 'm, 't) op_env \<Rightarrow> int \<Rightarrow> int \<Rightarrow> waker \<Rightarrow> poll_socket \<Rightarrow> read_buf \<Rightarrow> ('r, 's, 'c, 'm, 't) any_driver \<Rightarrow>
   (read_buf \<times> ('r, 's, 'c, 'm, 't) any_driver \<times> unit io_result poll) option" where
  "poll_tcp_poll_read Z ret errno w k rb d = tokio_poll_read Z ret errno w (so_handle (po_stream k)) rb d"

definition poll_unix_poll_read ::
  "('r, 's, 'c, 'm, 't) op_env \<Rightarrow> int \<Rightarrow> int \<Rightarrow> waker \<Rightarrow> poll_socket \<Rightarrow> read_buf \<Rightarrow> ('r, 's, 'c, 'm, 't) any_driver \<Rightarrow>
   (read_buf \<times> ('r, 's, 'c, 'm, 't) any_driver \<times> unit io_result poll) option" where
  "poll_unix_poll_read Z ret errno w k rb d = tokio_poll_read Z ret errno w (so_handle (po_stream k)) rb d"

definition poll_tcp_poll_write ::
  "('r, 's, 'c, 'm, 't) op_env \<Rightarrow> int \<Rightarrow> int \<Rightarrow> waker \<Rightarrow> poll_socket \<Rightarrow> ptr \<Rightarrow> nat \<Rightarrow> ('r, 's, 'c, 'm, 't) any_driver \<Rightarrow>
   ('r, 's, 'c, 'm, 't) any_driver \<times> nat io_result poll" where
  "poll_tcp_poll_write Z ret errno w k q len d = tokio_poll_write Z ret errno w (so_handle (po_stream k)) q len d"

definition poll_unix_poll_write ::
  "('r, 's, 'c, 'm, 't) op_env \<Rightarrow> int \<Rightarrow> int \<Rightarrow> waker \<Rightarrow> poll_socket \<Rightarrow> ptr \<Rightarrow> nat \<Rightarrow> ('r, 's, 'c, 'm, 't) any_driver \<Rightarrow>
   ('r, 's, 'c, 'm, 't) any_driver \<times> nat io_result poll" where
  "poll_unix_poll_write Z ret errno w k q len d = tokio_poll_write Z ret errno w (so_handle (po_stream k)) q len d"

definition poll_pipe_poll_read ::
  "('r, 's, 'c, 'm, 't) op_env \<Rightarrow> int \<Rightarrow> int \<Rightarrow> waker \<Rightarrow> vibe_pipe \<Rightarrow> read_buf \<Rightarrow> ('r, 's, 'c, 'm, 't) any_driver \<Rightarrow>
   (read_buf \<times> ('r, 's, 'c, 'm, 't) any_driver \<times> unit io_result poll) option" where
  "poll_pipe_poll_read Z ret errno w p rb d = tokio_poll_read Z ret errno w (pp_handle p) rb d"

definition poll_pipe_poll_write ::
  "('r, 's, 'c, 'm, 't) op_env \<Rightarrow> int \<Rightarrow> int \<Rightarrow> waker \<Rightarrow> vibe_pipe \<Rightarrow> ptr \<Rightarrow> nat \<Rightarrow> ('r, 's, 'c, 'm, 't) any_driver \<Rightarrow>
   ('r, 's, 'c, 'm, 't) any_driver \<times> nat io_result poll" where
  "poll_pipe_poll_write Z ret errno w p q len d = tokio_poll_write Z ret errno w (pp_handle p) q len d"

subsection \<open>Lemmas\<close>

text \<open>Exactly the flag \<open>O_NONBLOCK\<close> is set or cleared.\<close>

lemma bit_nonblock_flag: "bit O_NONBLOCK_FLAG n \<longleftrightarrow> n = 11"
proof -
  have "O_NONBLOCK_FLAG = 2 ^ 11"
    by (simp add: O_NONBLOCK_FLAG_def)
  then have "bit O_NONBLOCK_FLAG n \<longleftrightarrow> possible_bit TYPE(u32) n \<and> n = 11"
    by (metis bit_exp_iff)
  then show ?thesis
    by auto
qed

lemma nonblock_flags_bit: "n < 32 \<Longrightarrow> bit (nonblock_flags completion flags) n \<longleftrightarrow> (if n = 11 then \<not> completion else bit flags n)"
  by (simp add: nonblock_flags_def Let_def bit_and_iff bit_or_iff bit_not_iff bit_nonblock_flag)

text \<open>What the kernel promises of the two ways to make a call: an entry is the system call, an error a negative result.\<close>

definition call_result :: "'o \<times> nat io_result \<Rightarrow> 'o \<times> int" where
  "call_result r =
     (case r of (s, Inr n) \<Rightarrow> (s, int n) | (s, Inl (Os e)) \<Rightarrow> (s, - e) | (s, Inl (Custom _)) \<Rightarrow> (s, 0))"

definition os_failure :: "nat io_result \<Rightarrow> bool" where
  "os_failure res = (case res of Inr _ \<Rightarrow> True | Inl (Os e) \<Rightarrow> 0 < e | Inl (Custom _) \<Rightarrow> False)"

definition entries_are_calls :: "('o, 'x) stream_sys_scheme \<Rightarrow> bool" where
  "entries_are_calls os \<longleftrightarrow>
     (\<forall>fd p len s. fs_kernel os (ERead fd p len None) s = call_result (st_read os fd p (unat len) s) \<and>
        os_failure (snd (st_read os fd p (unat len) s))) \<and>
     (\<forall>fd p len s. fs_kernel os (EWrite fd p len None) s = call_result (st_write os fd p (unat len) s) \<and>
        os_failure (snd (st_write os fd p (unat len) s))) \<and>
     (\<forall>fd m vs s. fs_kernel os (EReadv fd m vs) s = call_result (st_readv os fd vs s) \<and>
        os_failure (snd (st_readv os fd vs s))) \<and>
     (\<forall>fd m vs s. fs_kernel os (EWritev fd m vs) s = call_result (st_writev os fd vs s) \<and>
        os_failure (snd (st_writev os fd vs s)))"

lemma await_call:
  assumes "fs_kernel os e s = call_result (call s)" and "os_failure (snd (call s))"
  shows "await_entry os (Inr e) s = (s', res) \<Longrightarrow> (s', await_count res) = call s"
  using assms
  by (cases "call s"; cases "snd (call s)") (auto simp: await_entry_def await_count_def call_result_def os_failure_def
      split: io_error.splits)

lemma take_bufs_fill:
  "take_bufs (fill_ready (Ready res) (read_new c h buf)) = (case res of Inr n \<Rightarrow> set_buf_init n buf | Inl _ \<Rightarrow> buf)"
  by (cases res) (auto simp: take_bufs_def fill_ready_def read_new_def cb_into_inner_def cb_new_def)

lemma take_bufs_write: "take_bufs (write_new c h buf) = buf"
  by (simp add: take_bufs_def write_new_def cb_into_inner_def)

lemma entry_calls:
  assumes "entries_are_calls os"
  shows "n < 2 ^ 32 \<Longrightarrow> await_entry os (Inr (ERead fd p (of_nat n) None)) s = (s', res) \<Longrightarrow>
      st_read os fd p n s = (s', await_count res)"
    and "n < 2 ^ 32 \<Longrightarrow> await_entry os (Inr (EWrite fd p (of_nat n) None)) s = (s', res) \<Longrightarrow>
      st_write os fd p n s = (s', await_count res)"
    and "await_entry os (Inr (EReadv fd m vs)) s = (s', res) \<Longrightarrow> st_readv os fd vs s = (s', await_count res)"
    and "await_entry os (Inr (EWritev fd m vs)) s = (s', res) \<Longrightarrow> st_writev os fd vs s = (s', await_count res)"
  using assms unfolding entries_are_calls_def by (metis await_call unat_of_nat_u32)+

lemma stream_read_modes:
  assumes "entries_are_calls os" and "buf_capacity buf < 2 ^ 32"
  shows "stream_read os True h buf s = stream_read os False h buf s"
proof (cases "await_entry os (read_entry (read_new True h buf)) s")
  case (Pair s' res)
  then have "st_read os (h_handle h) (as_buf_ptr buf) (buf_capacity buf) s = (s', await_count res)"
    by (intro entry_calls(1) [OF assms]) (simp add: read_entry_def read_new_def Let_def)
  with Pair show ?thesis
    by (simp add: stream_read_def Let_def take_bufs_fill)
qed

lemma stream_write_modes:
  assumes "entries_are_calls os" and "buf_len buf < 2 ^ 32"
  shows "stream_write os True h buf s = stream_write os False h buf s"
proof (cases "await_entry os (write_entry (write_new True h buf)) s")
  case (Pair s' res)
  then have "st_write os (h_handle h) (as_buf_ptr buf) (buf_len buf) s = (s', await_count res)"
    by (intro entry_calls(2) [OF assms]) (simp add: write_entry_def write_new_def Let_def)
  with Pair show ?thesis
    by (simp add: stream_write_def Let_def take_bufs_write)
qed

lemma stream_read_vectored_modes:
  assumes "entries_are_calls os"
  shows "stream_read_vectored os True h bufs s = stream_read_vectored os False h bufs s"
proof (cases "await_entry os (readv_entry (st_alloc os s) (readv_new h bufs)) s")
  case (Pair s' res)
  then have "st_readv os (h_handle h) bufs s = (s', await_count res)"
    by (intro entry_calls(3) [OF assms]) (simp add: readv_entry_def readv_new_def vec_iovecs_def)
  with Pair show ?thesis
    by (simp add: stream_read_vectored_def Let_def)
qed

lemma stream_write_vectored_modes:
  assumes "entries_are_calls os"
  shows "stream_write_vectored os True h bufs s = stream_write_vectored os False h bufs s"
proof (cases "await_entry os (writev_entry (st_alloc os s) (writev_new h bufs)) s")
  case (Pair s' res)
  then have "st_writev os (h_handle h) bufs s = (s', await_count res)"
    by (intro entry_calls(4) [OF assms]) (simp add: writev_entry_def writev_new_def vec_iovecs_def)
  with Pair show ?thesis
    by (simp add: stream_write_vectored_def Let_def)
qed

text \<open>A poll of \<open>read\<close> on a polled handle.\<close>

lemma read_methods_poll:
  assumes "\<not> uses_completion d h"
  shows "poll_op_poll (read_methods Z ret errno) h w (read_new c h buf) d =
    (case poll_result_or_wait Z (syscall_result ret errno) h w READABLE d of
       (d', p) \<Rightarrow> (fill_ready p (read_new c h buf), d', p))"
  using assms by (simp add: poll_op_poll_def read_methods_def read_poll_poll_def read_new_def)

lemma poll_result_count:
  assumes "poll_result_or_wait Z (syscall_result ret errno) h w i d = (d', Ready (Inr n))"
  shows "ret \<noteq> -1" "n = nat ret"
  using assms by (auto simp: poll_result_or_wait_def syscall_result_def split: if_splits prod.splits sum.splits)

lemma rb_filled_in:
  assumes "rb_wf rb" and "n \<le> rb_remaining rb"
  shows "\<exists>rb'. rb_advance n (rb_assume_init n rb) = Some rb' \<and> rb_wf rb' \<and> rb_filled rb' = rb_filled rb + n \<and>
    rb_ptr rb' = rb_ptr rb \<and> rb_capacity rb' = rb_capacity rb"
  using assms by (auto simp: rb_advance_def rb_assume_init_def rb_wf_def rb_remaining_def)

subsection \<open>The descriptors of a pipe\<close>

definition honest_pipes :: "('o, 'x) stream_sys_scheme \<Rightarrow> ('o \<Rightarrow> int set) \<Rightarrow> bool" where
  "honest_pipes os opened \<longleftrightarrow>
     (\<forall>s s' res. st_pipe os s = (s', res) \<longrightarrow>
        (case res of
           Inl _ \<Rightarrow> opened s' = opened s
         | Inr (r, w) \<Rightarrow> r \<noteq> w \<and> {r, w} \<inter> opened s = {} \<and> opened s' = opened s \<union> {r, w})) \<and>
     (\<forall>fd s. opened (fs_close os fd s) = opened s - {fd}) \<and>
     (\<forall>fd flags s. opened (st_setfl os fd flags s) = opened s) \<and>
     (\<forall>fd flags s fd'. st_getfl os fd' (st_setfl os fd flags s) =
        (if fd' = fd then map_option (\<lambda>_. flags) (st_getfl os fd s) else st_getfl os fd' s))"

lemma honest_pipesD:
  assumes "honest_pipes os opened"
  shows "opened (fs_close os fd s) = opened s - {fd}" "opened (apply_flags os fd c s) = opened s"
    "st_pipe os s = (s', Inl err) \<Longrightarrow> opened s' = opened s"
    "st_pipe os s = (s', Inr (r, w)) \<Longrightarrow> r \<noteq> w \<and> {r, w} \<inter> opened s = {} \<and> opened s' = opened s \<union> {r, w}"
  using assms unfolding honest_pipes_def apply_flags_def
  by (fastforce split: option.splits)+

text \<open>\<open>O_NONBLOCK\<close> of a descriptor, when its flags can be read.\<close>

definition nonblocking :: "('o, 'x) stream_sys_scheme \<Rightarrow> int \<Rightarrow> 'o \<Rightarrow> bool option" where
  "nonblocking os fd s = map_option (\<lambda>flags. bit flags 11) (st_getfl os fd s)"

lemma nonblocking_apply:
  assumes "honest_pipes os opened"
  shows "nonblocking os fd' (apply_flags os fd c s) =
    (if fd' = fd then map_option (\<lambda>_. \<not> c) (st_getfl os fd s) else nonblocking os fd' s)"
  using assms
  by (auto simp: honest_pipes_def nonblocking_def apply_flags_def nonblock_flags_bit split: option.splits)

lemma pipe_from_std_sound:
  assumes "honest_pipes os opened" and "pipe_from_std_with_mode Z os mode fd current s = (current', s', res)"
  shows "case res of
      Inl _ \<Rightarrow> opened s' = opened s - {fd}
    | Inr p \<Rightarrow> opened s' = opened s \<and> pp_inner p = fd \<and> h_handle (pp_handle p) = fd \<and>
        (\<exists>d. current' = Some d \<and> s' = apply_flags os fd (uses_completion d (pp_handle p)) s)"
  using assms(2) honest_pipesD [OF assms(1)]
  by (auto simp: pipe_from_std_with_mode_def new_with_mode_def new_with_driver_and_mode_def Let_def
      split: prod.splits sum.splits option.splits)

lemma pipe_ends_sound:
  assumes "honest_pipes os opened" and "r \<noteq> w"
    and 2: "pipe_from_std_with_mode Z os CompletionMode r current s1 = (c2, s2, Inr rp)"
    and 3: "pipe_from_std_with_mode Z os CompletionMode w c2 s2 = (c3, s3, Inr wp)"
  shows "\<exists>d. c3 = Some d \<and> pp_inner rp = r \<and> pp_inner wp = w \<and> opened s3 = opened s1 \<and>
    nonblocking os r s3 \<in> {None, Some (\<not> uses_completion d (pp_handle rp))} \<and>
    nonblocking os w s3 \<in> {None, Some (\<not> uses_completion d (pp_handle wp))}"
proof -
  note r2 = pipe_from_std_sound [OF assms(1) 2] and r3 = pipe_from_std_sound [OF assms(1) 3]
  obtain d d2 where d: "c3 = Some d" "s3 = apply_flags os w (uses_completion d (pp_handle wp)) s2"
    "c2 = Some d2" "s2 = apply_flags os r (uses_completion d2 (pp_handle rp)) s1"
    using r2 r3 by auto
  have "any_supports_completion d = any_supports_completion d2"
    using 3 d(1,3)
    by (auto simp: pipe_from_std_with_mode_def new_with_mode_def new_with_driver_and_mode_def Let_def
        supports_completion_register split: prod.splits sum.splits)
  then have same: "uses_completion d2 h = uses_completion d h" for h
    by (simp add: uses_completion_def)
  show ?thesis
    using d r2 r3 assms(2) by (auto simp: nonblocking_apply [OF assms(1)] same)
qed

lemma tokio_poll_read_step:
  assumes "rb_wf rb" and "\<not> uses_completion d h" and "ret \<le> int (rb_remaining rb)"
  shows "\<exists>rb' d' p. tokio_poll_read Z ret errno w h rb d = Some (rb', d', p) \<and> rb_wf rb' \<and>
       rb_ptr rb' = rb_ptr rb \<and> rb_capacity rb' = rb_capacity rb \<and>
       rb_filled rb' = rb_filled rb + (if p = Ready (Inr ()) then nat ret else 0) \<and>
       (p = Pending \<longrightarrow> ret = -1 \<and> decode_error_kind errno = WouldBlock)"
proof (cases "rb_remaining rb = 0")
  case True
  then show ?thesis
    using assms(1,3) by (auto simp: tokio_poll_read_def)
next
  case False
  obtain d' p where p: "poll_result_or_wait Z (syscall_result ret errno) h w READABLE d = (d', p)"
    by fastforce
  show ?thesis
  proof (cases "\<exists>n. p = Ready (Inr n)")
    case True
    then obtain n where n: "p = Ready (Inr n)"
      by blast
    then have "n = nat ret"
      using poll_result_count p by blast
    moreover have "n \<le> rb_remaining rb"
      using calculation assms(3) by simp
    note rb_filled_in [OF assms(1) this]
    ultimately show ?thesis
      using False p n
      by (auto simp: tokio_poll_read_def Let_def read_methods_poll [OF assms(2)])
  next
    case no_count: False
    then have "p = Pending \<longrightarrow> ret = -1 \<and> decode_error_kind errno = WouldBlock"
      using p by (auto simp: poll_result_or_wait_def syscall_result_def split: if_splits prod.splits sum.splits)
    moreover define q :: "unit io_result poll" where "q = (case p of Ready (Inl err) \<Rightarrow> Ready (Inl err) | _ \<Rightarrow> Pending)"
    have "tokio_poll_read Z ret errno w h rb d = Some (rb, d', q)"
      using False p no_count
      by (cases p) (auto simp: tokio_poll_read_def Let_def read_methods_poll [OF assms(2)] q_def split: sum.splits)
    moreover have "q \<noteq> Ready (Inr ())" "q = Pending \<longleftrightarrow> p = Pending"
      using no_count by (auto simp: q_def split: poll.splits sum.splits)
    ultimately show ?thesis
      using assms(1) by auto
  qed
qed

text \<open>
  C10: \<open>pipe()\<close> leaves nothing behind when it fails. Whether the kernel refuses the pipe or the driver refuses
  to register its first or its second end, exactly the descriptors that were open before are open
  afterwards; on success two new ones are, owned by the two ends, and each is non-blocking exactly when its handle is
  polled (as far as its flags can be read).
\<close>
theorem pipe_open_owns:
  assumes "honest_pipes os opened" and "pipe_open Z os current s = (current', s', res)"
  shows "case res of
      Inl _ \<Rightarrow> opened s' = opened s
    | Inr (rp, wp) \<Rightarrow>
        {pp_inner rp, pp_inner wp} \<inter> opened s = {} \<and> pp_inner rp \<noteq> pp_inner wp \<and>
        opened s' = opened s \<union> {pp_inner rp, pp_inner wp} \<and>
        (\<exists>d. current' = Some d \<and>
           nonblocking os (pp_inner rp) s' \<in> {None, Some (\<not> uses_completion d (pp_handle rp))} \<and>
           nonblocking os (pp_inner wp) s' \<in> {None, Some (\<not> uses_completion d (pp_handle wp))})"
proof -
  note hd = honest_pipesD [OF assms(1)]
  obtain s1 r1 where 1: "st_pipe os s = (s1, r1)"
    by fastforce
  show ?thesis
  proof (cases r1)
    case (Inl err)
    with assms(2) 1 hd(3) show ?thesis
      by (auto simp: pipe_open_def)
  next
    case (Inr rw)
    obtain r w where rw: "r1 = Inr (r, w)"
      using Inr by (cases rw) simp
    note fresh = hd(4) [OF 1 [unfolded rw]]
    obtain c2 s2 r2 where 2: "pipe_from_std_with_mode Z os CompletionMode r current s1 = (c2, s2, r2)"
      by (metis prod_cases3)
    note r2 = pipe_from_std_sound [OF assms(1) 2]
    show ?thesis
    proof (cases r2)
      case (Inl err)
      with assms(2) 1 2 rw r2 fresh hd(1) show ?thesis
        by (auto simp: pipe_open_def)
    next
      case (Inr rp)
      obtain c3 s3 r3 where 3: "pipe_from_std_with_mode Z os CompletionMode w c2 s2 = (c3, s3, r3)"
        by (metis prod_cases3)
      note r3 = pipe_from_std_sound [OF assms(1) 3]
      show ?thesis
      proof (cases r3)
        case (Inl err)
        with Inr assms(2) 1 2 3 rw r2 r3 fresh hd(1) show ?thesis
          by (auto simp: pipe_open_def pipe_drop_def)
      next
        case (Inr wp)
        note pipe_ends_sound [OF assms(1) _ 2 [unfolded \<open>r2 = Inr rp\<close>] 3 [unfolded Inr]]
        then show ?thesis
          using assms(2) 1 2 3 rw \<open>r2 = Inr rp\<close> Inr fresh by (auto simp: pipe_open_def)
      qed
    qed
  qed
qed

text \<open>A kernel with open descriptors and their flags.\<close>

record pipe_sim =
  pi_open :: "int list"
  pi_flags :: "int \<Rightarrow> u32"

definition pipe_fresh :: "pipe_sim \<Rightarrow> int" where
  "pipe_fresh s = foldr max (pi_open s) 0 + 1"

definition sim_pipes :: "pipe_sim stream_sys" where
  "sim_pipes = \<lparr>fs_kernel = (\<lambda>e s. (s, 0)), fs_pread = (\<lambda>fd p n off s. (s, Inr 0)), fs_pwrite = (\<lambda>fd p n off s. (s, Inr 0)),
     fs_sync = (\<lambda>fd data s. (s, Inr ())), fs_dup = (\<lambda>fd s. (s, Inl (Os 24))),
     fs_close = (\<lambda>fd s. s\<lparr>pi_open := filter (\<lambda>x. x \<noteq> fd) (pi_open s)\<rparr>), fs_pool = (\<lambda>s. True),
     st_read = (\<lambda>fd p n s. (s, Inr 0)), st_write = (\<lambda>fd p n s. (s, Inr 0)),
     st_readv = (\<lambda>fd vs s. (s, Inr 0)), st_writev = (\<lambda>fd vs s. (s, Inr 0)), st_alloc = (\<lambda>s. 0),
     st_pipe = (\<lambda>s. (s\<lparr>pi_open := pi_open s @ [pipe_fresh s, pipe_fresh s + 1]\<rparr>, Inr (pipe_fresh s, pipe_fresh s + 1))),
     st_getfl = (\<lambda>fd s. Some (pi_flags s fd)), st_setfl = (\<lambda>fd flags s. s\<lparr>pi_flags := (pi_flags s)(fd := flags)\<rparr>)\<rparr>"

lemma sim_pipes_honest: "honest_pipes sim_pipes (set \<circ> pi_open)"
proof -
  have "pipe_fresh s \<notin> set (pi_open s)" "pipe_fresh s + 1 \<notin> set (pi_open s)" for s
    using foldr_max_fresh [of "pi_open s"] foldr_max_le [of "pipe_fresh s + 1" "pi_open s"]
    by (auto simp: pipe_fresh_def)
  then show ?thesis
    by (auto simp: honest_pipes_def sim_pipes_def)
qed

lemma sim_pipes_calls: "entries_are_calls sim_pipes"
  by (simp add: entries_are_calls_def sim_pipes_def call_result_def os_failure_def)

subsection \<open>Properties\<close>

theorem pipe_open_owns_witness:
  "pipe_open fd_env sim_pipes None \<lparr>pi_open = [2], pi_flags = (\<lambda>_. 0)\<rparr> =
     (None, \<lparr>pi_open = [2], pi_flags = (\<lambda>_. 0)\<rparr>, Inl (Custom NotConnected)) \<and>
   (set \<circ> pi_open) \<lparr>pi_open = [2], pi_flags = (\<lambda>_. 0)\<rparr> = {2}"
proof -
  have r: "pipe_open fd_env sim_pipes None \<lparr>pi_open = [2], pi_flags = (\<lambda>_. 0)\<rparr> =
     (None, \<lparr>pi_open = [2], pi_flags = (\<lambda>_. 0)\<rparr>, Inl (Custom NotConnected))"
    by (simp add: pipe_open_def sim_pipes_def pipe_from_std_with_mode_def new_with_mode_def pipe_fresh_def)
  from pipe_open_owns [OF sim_pipes_honest r] r show ?thesis
    by simp
qed


definition ex_read_buf :: read_buf where
  "ex_read_buf = \<lparr>rb_ptr = (3, 4), rb_capacity = 10, rb_filled = 2, rb_initialized = 5\<rparr>"




end
