(* ===== verification/Runtime_Context.thy ===== *)
theory Runtime_Context
  imports Scheduler Any_Driver
begin

text \<open>
  The current runtime of a thread and what the rest of the crate asks of it: the thread-local
  \<open>CURRENT_RUNTIME\<close> with its guard, the functions that read it, the drop of a runtime, and
  \<open>spawn_blocking\<close> (\<open>executor.rs\<close>, \<open>blocking/mod.rs\<close>).

  The thread-local is a \<open>RefCell\<close>: its borrow state is part of the model, since a \<open>borrow\<close> of a cell
  that is mutably borrowed panics. A panic is \<open>None\<close>.
\<close>

subsection \<open>The cell\<close>

datatype borrow_state = Unborrowed | BorrowedShared | BorrowedMut

record 'a refcell =
  rc_value :: 'a
  rc_borrow :: borrow_state

definition try_borrow :: "'a refcell \<Rightarrow> 'a option" where
  "try_borrow c = (if rc_borrow c = BorrowedMut then None else Some (rc_value c))"

definition try_borrow_mut :: "'a refcell \<Rightarrow> 'a option" where
  "try_borrow_mut c = (if rc_borrow c = Unborrowed then Some (rc_value c) else None)"

text \<open>
  The fields of \<open>RuntimeInner\<close> that are read through the thread-local; the queues are the subject of
  \<open>Scheduler\<close>. The channel to the reaper of child processes is a number.
\<close>

record ('d, 't) runtime_inner =
  ri_driver :: 'd
  ri_timer :: "'t option"
  ri_blocking_pool :: bool
  ri_fs_offload :: bool
  ri_zombie_reaper :: "nat option"

type_synonym ('d, 't) current_runtime = "('d, 't) runtime_inner option refcell"

definition guard_enter :: "('d, 't) runtime_inner \<Rightarrow> ('d, 't) current_runtime \<Rightarrow> ('d, 't) current_runtime option" where
  "guard_enter inner cell =
     (case try_borrow_mut cell of
        None \<Rightarrow> None
      | Some (Some _) \<Rightarrow> None
      | Some None \<Rightarrow> Some (cell\<lparr>rc_value := Some inner\<rparr>))"

text \<open>
  The drop of the guard assigns \<open>None\<close> through a mutable borrow. When the thread-local holds the last
  reference, the runtime is dropped by that assignment: \<open>destroy\<close> runs with the cell still borrowed.
\<close>

definition guard_drop ::
  "(('d, 't) current_runtime \<Rightarrow> 'w \<Rightarrow> 'w option) \<Rightarrow> ('d, 't) current_runtime \<Rightarrow> 'w \<Rightarrow> (('d, 't) current_runtime \<times> 'w) option" where
  "guard_drop destroy cell w =
     (if try_borrow_mut cell = None then None
      else case destroy (cell\<lparr>rc_borrow := BorrowedMut\<rparr>) w of
             None \<Rightarrow> None
           | Some w \<Rightarrow> Some (cell\<lparr>rc_value := None, rc_borrow := Unborrowed\<rparr>, w))"

subsection \<open>What the crate asks of it\<close>

definition current_driver :: "('d, 't) current_runtime \<Rightarrow> 'd option option" where
  "current_driver cell = map_option (map_option ri_driver) (try_borrow cell)"

definition try_current_driver :: "('d, 't) current_runtime \<Rightarrow> 'd option" where
  "try_current_driver cell =
     (case try_borrow cell of None \<Rightarrow> None | Some inner \<Rightarrow> map_option ri_driver inner)"

definition current_timer :: "('d, 't) current_runtime \<Rightarrow> 't option option" where
  "current_timer cell =
     (case try_borrow cell of
        None \<Rightarrow> None
      | Some None \<Rightarrow> Some None
      | Some (Some inner) \<Rightarrow> map_option Some (ri_timer inner))"

definition offload_fs :: "('d, 't) current_runtime \<Rightarrow> bool option" where
  "offload_fs cell =
     map_option (\<lambda>inner. case inner of None \<Rightarrow> False | Some inner \<Rightarrow> ri_fs_offload inner) (try_borrow cell)"

text \<open>\<open>spawn\<close>, \<open>spawn_detached\<close> and \<open>spawn_blocking\<close> outside of a runtime panic.\<close>

definition entered_runtime :: "('d, 't) current_runtime \<Rightarrow> ('d, 't) runtime_inner option" where
  "entered_runtime cell = (case try_borrow cell of None \<Rightarrow> None | Some inner \<Rightarrow> inner)"

definition spawn_current ::
  "'v fut \<Rightarrow> ('d, 't) current_runtime \<Rightarrow> ('v, 'q) runtime \<Rightarrow> (('v, 'q) runtime \<times> nat) option" where
  "spawn_current f cell r = map_option (\<lambda>_. spawn f r) (entered_runtime cell)"

definition spawn_detached_current ::
  "'v fut \<Rightarrow> ('d, 't) current_runtime \<Rightarrow> ('v, 'q) runtime \<Rightarrow> ('v, 'q) runtime option" where
  "spawn_detached_current f cell r = map_option (\<lambda>_. spawn_detached f r) (entered_runtime cell)"

subsection \<open>Blocking tasks\<close>

text \<open>
  \<open>spawn_blocking\<close> awaited to its end. The pool, a trait object, runs the task it is given or drops it
  (\<open>pool\<close>); the closure returns a value or panics. In the other cases the sender of the
  channel is dropped and the receiver finds the error.
\<close>

definition spawn_blocking :: "('c \<Rightarrow> bool) \<Rightarrow> ('c \<Rightarrow> 'c \<times> 'a option) \<Rightarrow> 'c \<Rightarrow> 'c \<times> (unit + 'a)" where
  "spawn_blocking pool f c =
     (if pool c
      then (case f c of (c, Some v) \<Rightarrow> (c, Inr v) | (c, None) \<Rightarrow> (c, Inl ()))
      else (c, Inl ()))"

definition runtime_spawn_blocking ::
  "('d, 't) runtime_inner \<Rightarrow> ('c \<Rightarrow> bool) \<Rightarrow> ('c \<Rightarrow> 'c \<times> 'a option) \<Rightarrow> 'c \<Rightarrow> ('c \<times> (unit + 'a)) option" where
  "runtime_spawn_blocking inner pool f c =
     (if ri_blocking_pool inner then Some (spawn_blocking pool f c) else None)"

definition spawn_blocking_current ::
  "('d, 't) current_runtime \<Rightarrow> ('c \<Rightarrow> bool) \<Rightarrow> ('c \<Rightarrow> 'c \<times> 'a option) \<Rightarrow> 'c \<Rightarrow> ('c \<times> (unit + 'a)) option" where
  "spawn_blocking_current cell pool f c =
     (case entered_runtime cell of
        None \<Rightarrow> None
      | Some inner \<Rightarrow> runtime_spawn_blocking inner pool f c)"

text \<open>
  The idiom of the crate's blocking calls: the values a call needs go into a shared slot, the closure
  takes them out and hands them back with its result; when the closure did not run, the
  caller takes them out of the slot again, and panics if they are gone.
\<close>

definition slot_task :: "('x \<Rightarrow> 'o \<Rightarrow> 'o \<times> 'a) \<Rightarrow> 'x option \<times> 'o \<Rightarrow> ('x option \<times> 'o) \<times> ('a \<times> 'x) option" where
  "slot_task call = (\<lambda>(slot, s).
     (case slot of
        None \<Rightarrow> ((None, s), None)
      | Some x \<Rightarrow> (case call x s of (s, res) \<Rightarrow> ((None, s), Some (res, x)))))"

definition pool_call ::
  "('d, 't) current_runtime \<Rightarrow> ('o \<Rightarrow> bool) \<Rightarrow> io_error \<Rightarrow> ('x \<Rightarrow> 'o \<Rightarrow> 'o \<times> 'a io_result) \<Rightarrow> 'x \<Rightarrow> 'o \<Rightarrow>
   ('o \<times> 'a io_result \<times> 'x) option" where
  "pool_call cell pool pool_error call x s =
     (case spawn_blocking_current cell (\<lambda>(slot, s). pool s) (slot_task call) (Some x, s) of
        None \<Rightarrow> None
      | Some ((slot, s), Inr (res, x)) \<Rightarrow> Some (s, res, x)
      | Some ((slot, s), Inl _) \<Rightarrow>
          (case slot of None \<Rightarrow> None | Some x \<Rightarrow> Some (s, Inl pool_error, x)))"

subsection \<open>The drop of a runtime\<close>

text \<open>
  \<open>Drop for Runtime\<close>: the channel to the reaper is closed, the runtime is entered, and the guard goes
  with the last reference. The destructors of the futures in the queues are a parameter, run one
  after the other; each may ask the thread-local.
\<close>

definition run_destructors ::
  "(('d, 't) current_runtime \<Rightarrow> 'w \<Rightarrow> 'w option) list \<Rightarrow> ('d, 't) current_runtime \<Rightarrow> 'w \<Rightarrow> 'w option" where
  "run_destructors ds cell w = fold (\<lambda>destroy w. Option.bind w (destroy cell)) ds (Some w)"

definition runtime_drop ::
  "(nat \<Rightarrow> 'w \<Rightarrow> 'w) \<Rightarrow> (('d, 't) current_runtime \<Rightarrow> 'w \<Rightarrow> 'w option) list \<Rightarrow> ('d, 't) runtime_inner option \<Rightarrow>
   ('d, 't) current_runtime \<Rightarrow> 'w \<Rightarrow> (('d, 't) current_runtime \<times> 'w) option" where
  "runtime_drop close ds inner cell w =
     (case inner of
        None \<Rightarrow> None
      | Some inner \<Rightarrow>
          let w = (case ri_zombie_reaper inner of None \<Rightarrow> w | Some ch \<Rightarrow> close ch w);
              inner = inner\<lparr>ri_zombie_reaper := None\<rparr>
          in case guard_enter inner cell of
               None \<Rightarrow> None
             | Some cell \<Rightarrow> guard_drop (run_destructors ds) cell w)"

subsection \<open>Lemmas\<close>

lemmas cell_defs = try_borrow_def try_borrow_mut_def current_driver_def try_current_driver_def current_timer_def
  offload_fs_def entered_runtime_def guard_enter_def guard_drop_def

text \<open>A thread outside of a borrow, inside a runtime or not.\<close>

definition idle :: "('d, 't) current_runtime \<Rightarrow> bool" where
  "idle cell \<longleftrightarrow> rc_borrow cell = Unborrowed"

lemma guard_roundtrip:
  assumes "guard_enter inner cell = Some cell'" and "destroy (cell'\<lparr>rc_borrow := BorrowedMut\<rparr>) w = Some w'"
  shows "guard_drop destroy cell' w = Some (cell, w')" "current_driver cell' = Some (Some (ri_driver inner))"
  using assms by (auto simp: cell_defs split: if_splits option.splits)

lemma guard_excludes: "guard_enter inner cell = Some cell' \<Longrightarrow> guard_enter inner' cell' = None"
  by (auto simp: cell_defs split: if_splits option.splits)

lemma try_current_driver_total: "current_driver cell = Some d \<Longrightarrow> try_current_driver cell = d"
  by (auto simp: cell_defs split: if_splits)

text \<open>A call through the pool: the values come back whether or not the pool runs the task.\<close>

lemma pool_call_eq:
  assumes "entered_runtime cell = Some inner" and "ri_blocking_pool inner"
  shows "pool_call cell pool pool_error call x s =
    Some (if pool s then (fst (call x s), snd (call x s), x) else (s, Inl pool_error, x))"
  using assms
  by (simp add: pool_call_def spawn_blocking_current_def runtime_spawn_blocking_def spawn_blocking_def
      slot_task_def split: prod.split)

text \<open>A runtime built without a pool: such a call panics.\<close>

lemma pool_call_no_pool:
  assumes "entered_runtime cell = Some inner" and "\<not> ri_blocking_pool inner"
  shows "pool_call cell pool pool_error call x s = None"
  using assms by (simp add: pool_call_def spawn_blocking_current_def runtime_spawn_blocking_def)

lemma run_destructors_Nil [simp]: "run_destructors [] cell w = Some w"
  by (simp add: run_destructors_def)

lemma fold_bind_None: "fold (\<lambda>destroy w. Option.bind w (destroy cell)) ds None = None"
  by (induction ds) simp_all

lemma run_destructors_Cons [simp]:
  "run_destructors (destroy # ds) cell w = Option.bind (destroy cell w) (run_destructors ds cell)"
  by (cases "destroy cell w") (simp_all add: run_destructors_def fold_bind_None)

text \<open>During the drop of a runtime its driver cannot be found: \<open>current_driver\<close> panics, \<open>try_current_driver\<close> finds none.\<close>

lemma runtime_drop_destructors:
  assumes "idle cell" and "rc_value cell = None"
  shows "runtime_drop close ds (Some inner) cell w =
    map_option (\<lambda>w. (cell, w))
      (run_destructors ds (cell\<lparr>rc_value := Some (inner\<lparr>ri_zombie_reaper := None\<rparr>), rc_borrow := BorrowedMut\<rparr>)
         (case ri_zombie_reaper inner of None \<Rightarrow> w | Some ch \<Rightarrow> close ch w))"
  using assms by (cases cell) (auto simp: runtime_drop_def cell_defs idle_def Let_def split: option.split)

lemma dropping_cell [simp]:
  "current_driver (cell\<lparr>rc_value := v, rc_borrow := BorrowedMut\<rparr>) = None"
  "try_current_driver (cell\<lparr>rc_value := v, rc_borrow := BorrowedMut\<rparr>) = None"
  "entered_runtime (cell\<lparr>rc_value := v, rc_borrow := BorrowedMut\<rparr>) = None"
  by (simp_all add: cell_defs)

end
