(* ===== verification/Blocking_Io.thy ===== *)
theory Blocking_Io
  imports Stream_Io Runtime_Context
begin

text \<open>
  Streams that may have to be used with blocking calls: standard input, output and error of the
  process (\<open>io/stdio.rs\<close>), and the pipes to a child process (\<open>ChildStdin\<close>, \<open>ChildStdout\<close> and \<open>ChildStderr\<close> of
  \<open>process/mod.rs\<close>).

  Inside of a runtime a blocking call goes to the pool, \<open>pool_call\<close> of \<open>Runtime_Context\<close>; outside it is made
  in place. The pipe of a child is first offered to the driver and used through the driver
  when that succeeds. Calls are awaited to their end; \<open>None\<close> is a panic.
\<close>

subsection \<open>The standard streams\<close>

record 'o std_sys = "'o stream_sys" +
  sd_stdin_read :: "ptr \<Rightarrow> nat \<Rightarrow> 'o \<Rightarrow> 'o \<times> nat io_result"
  sd_stdout_write :: "ptr \<Rightarrow> nat \<Rightarrow> 'o \<Rightarrow> 'o \<times> nat io_result"
  sd_stderr_write :: "ptr \<Rightarrow> nat \<Rightarrow> 'o \<Rightarrow> 'o \<times> nat io_result"
  sd_stdout_flush :: "'o \<Rightarrow> 'o \<times> unit io_result"
  sd_stderr_flush :: "'o \<Rightarrow> 'o \<times> unit io_result"
  sd_child_flush :: "int \<Rightarrow> 'o \<Rightarrow> 'o \<times> unit io_result"

text \<open>\<open>iobuf_to_slice\<close> and \<open>iobufmut_to_slice\<close>: the pointer and the length, not the capacity.\<close>

definition to_slice :: "io_buf \<Rightarrow> ptr \<times> nat" where
  "to_slice buf = (as_buf_ptr buf, buf_len buf)"

definition read_stdin_blocking :: "('o, 'x) std_sys_scheme \<Rightarrow> io_buf \<Rightarrow> 'o \<Rightarrow> 'o \<times> nat io_result" where
  "read_stdin_blocking os buf s = sd_stdin_read os (fst (to_slice buf)) (snd (to_slice buf)) s"

definition write_stdout_blocking :: "('o, 'x) std_sys_scheme \<Rightarrow> io_buf \<Rightarrow> 'o \<Rightarrow> 'o \<times> nat io_result" where
  "write_stdout_blocking os buf s = sd_stdout_write os (fst (to_slice buf)) (snd (to_slice buf)) s"

definition write_stderr_blocking :: "('o, 'x) std_sys_scheme \<Rightarrow> io_buf \<Rightarrow> 'o \<Rightarrow> 'o \<times> nat io_result" where
  "write_stderr_blocking os buf s = sd_stderr_write os (fst (to_slice buf)) (snd (to_slice buf)) s"

definition read_stdin_in_blocking_pool ::
  "('o, 'x) std_sys_scheme \<Rightarrow> ('d, 't) current_runtime \<Rightarrow> io_buf \<Rightarrow> 'o \<Rightarrow> ('o \<times> nat io_result \<times> io_buf) option" where
  "read_stdin_in_blocking_pool os cell buf s =
     pool_call cell (fs_pool os) blocking_pool_io_error (read_stdin_blocking os) buf s"

definition write_stdout_in_blocking_pool ::
  "('o, 'x) std_sys_scheme \<Rightarrow> ('d, 't) current_runtime \<Rightarrow> io_buf \<Rightarrow> 'o \<Rightarrow> ('o \<times> nat io_result \<times> io_buf) option" where
  "write_stdout_in_blocking_pool os cell buf s =
     pool_call cell (fs_pool os) blocking_pool_io_error (write_stdout_blocking os) buf s"

definition write_stderr_in_blocking_pool ::
  "('o, 'x) std_sys_scheme \<Rightarrow> ('d, 't) current_runtime \<Rightarrow> io_buf \<Rightarrow> 'o \<Rightarrow> ('o \<times> nat io_result \<times> io_buf) option" where
  "write_stderr_in_blocking_pool os cell buf s =
     pool_call cell (fs_pool os) blocking_pool_io_error (write_stderr_blocking os) buf s"

text \<open>A flush has no values to keep in a slot; an error of the pool and one of the flush are one result.\<close>

definition flush_in_blocking_pool ::
  "('o, 'x) std_sys_scheme \<Rightarrow> ('d, 't) current_runtime \<Rightarrow> ('o \<Rightarrow> 'o \<times> unit io_result) \<Rightarrow> 'o \<Rightarrow> ('o \<times> unit io_result) option" where
  "flush_in_blocking_pool os cell flush s =
     (case spawn_blocking_current cell (fs_pool os) (\<lambda>s. case flush s of (s, res) \<Rightarrow> (s, Some res)) s of
        None \<Rightarrow> None
      | Some (s, Inr res) \<Rightarrow> Some (s, res)
      | Some (s, Inl _) \<Rightarrow> Some (s, Inl blocking_pool_io_error))"

text \<open>The shape of \<open>read\<close> and \<open>write\<close>: an empty buffer, the pool, or the call in place.\<close>

definition std_call ::
  "('d, 't) current_runtime \<Rightarrow> (io_buf \<Rightarrow> 'o \<Rightarrow> ('o \<times> nat io_result \<times> io_buf) option) \<Rightarrow>
   (io_buf \<Rightarrow> 'o \<Rightarrow> 'o \<times> nat io_result) \<Rightarrow> io_buf \<Rightarrow> 'o \<Rightarrow> ('o \<times> nat io_result \<times> io_buf) option" where
  "std_call cell pooled direct buf s =
     (if buf_len buf = 0 then Some (s, Inr 0, buf)
      else case current_driver cell of
             None \<Rightarrow> None
           | Some (Some _) \<Rightarrow> pooled buf s
           | Some None \<Rightarrow> (case direct buf s of (s, res) \<Rightarrow> Some (s, res, buf)))"

definition stdin_read ::
  "('o, 'x) std_sys_scheme \<Rightarrow> ('d, 't) current_runtime \<Rightarrow> io_buf \<Rightarrow> 'o \<Rightarrow> ('o \<times> nat io_result \<times> io_buf) option" where
  "stdin_read os cell buf s = std_call cell (read_stdin_in_blocking_pool os cell) (read_stdin_blocking os) buf s"

definition stdout_write ::
  "('o, 'x) std_sys_scheme \<Rightarrow> ('d, 't) current_runtime \<Rightarrow> io_buf \<Rightarrow> 'o \<Rightarrow> ('o \<times> nat io_result \<times> io_buf) option" where
  "stdout_write os cell buf s = std_call cell (write_stdout_in_blocking_pool os cell) (write_stdout_blocking os) buf s"

definition stderr_write ::
  "('o, 'x) std_sys_scheme \<Rightarrow> ('d, 't) current_runtime \<Rightarrow> io_buf \<Rightarrow> 'o \<Rightarrow> ('o \<times> nat io_result \<times> io_buf) option" where
  "stderr_write os cell buf s = std_call cell (write_stderr_in_blocking_pool os cell) (write_stderr_blocking os) buf s"

definition std_flush ::
  "('o, 'x) std_sys_scheme \<Rightarrow> ('d, 't) current_runtime \<Rightarrow> ('o \<Rightarrow> 'o \<times> unit io_result) \<Rightarrow> 'o \<Rightarrow> ('o \<times> unit io_result) option" where
  "std_flush os cell flush s =
     (case current_driver cell of
        None \<Rightarrow> None
      | Some (Some _) \<Rightarrow> flush_in_blocking_pool os cell flush s
      | Some None \<Rightarrow> Some (flush s))"

definition stdout_flush ::
  "('o, 'x) std_sys_scheme \<Rightarrow> ('d, 't) current_runtime \<Rightarrow> 'o \<Rightarrow> ('o \<times> unit io_result) option" where
  "stdout_flush os cell s = std_flush os cell (sd_stdout_flush os) s"

definition stderr_flush ::
  "('o, 'x) std_sys_scheme \<Rightarrow> ('d, 't) current_runtime \<Rightarrow> 'o \<Rightarrow> ('o \<times> unit io_result) option" where
  "stderr_flush os cell s = std_flush os cell (sd_stderr_flush os) s"

subsection \<open>The pipes of a child\<close>

datatype child_io = ChildAsync raw_handle | ChildBlocking

text \<open>\<open>ChildStdin\<close>, \<open>ChildStdout\<close> and \<open>ChildStderr\<close>: the standard library's pipe is its descriptor.\<close>

record child_stdio =
  cs_inner :: "int option"
  cs_io :: child_io

definition stdio_closed_error :: io_error where "stdio_closed_error = Custom BrokenPipe"

definition configure_nonblocking :: "('o, 'x) std_sys_scheme \<Rightarrow> int \<Rightarrow> bool \<Rightarrow> 'o \<Rightarrow> 'o" where
  "configure_nonblocking os fd uses s =
     (case st_getfl os fd s of
        None \<Rightarrow> s
      | Some flags \<Rightarrow>
          let new_flags = nonblock_flags uses flags in
          if new_flags \<noteq> flags then st_setfl os fd new_flags s else s)"

definition make_child_io ::
  "('r, 's, 'c, 'm, 't) op_env \<Rightarrow> ('o, 'x) std_sys_scheme \<Rightarrow> int \<Rightarrow> interest \<Rightarrow>
   ('r, 's, 'c, 'm, 't) any_driver option \<Rightarrow> 'o \<Rightarrow> ('r, 's, 'c, 'm, 't) any_driver option \<times> 'o \<times> child_io" where
  "make_child_io Z os fd i current s =
     (case current of
        Some d \<Rightarrow>
          (case new_with_driver_and_mode Z d fd i CompletionMode of
             (d, Inr h) \<Rightarrow> (Some d, configure_nonblocking os fd (uses_completion d h) s, ChildAsync h)
           | (d, Inl _) \<Rightarrow> (Some d, s, ChildBlocking))
      | None \<Rightarrow> (None, s, ChildBlocking))"

definition child_stdin_from_std ::
  "('r, 's, 'c, 'm, 't) op_env \<Rightarrow> ('o, 'x) std_sys_scheme \<Rightarrow> int \<Rightarrow>
   ('r, 's, 'c, 'm, 't) any_driver option \<Rightarrow> 'o \<Rightarrow> ('r, 's, 'c, 'm, 't) any_driver option \<times> 'o \<times> child_stdio io_result" where
  "child_stdin_from_std Z os fd current s =
     (case make_child_io Z os fd WRITABLE current s of
        (current, s, io) \<Rightarrow> (current, s, Inr \<lparr>cs_inner = Some fd, cs_io = io\<rparr>))"

definition child_stdout_from_std ::
  "('r, 's, 'c, 'm, 't) op_env \<Rightarrow> ('o, 'x) std_sys_scheme \<Rightarrow> int \<Rightarrow>
   ('r, 's, 'c, 'm, 't) any_driver option \<Rightarrow> 'o \<Rightarrow> ('r, 's, 'c, 'm, 't) any_driver option \<times> 'o \<times> child_stdio io_result" where
  "child_stdout_from_std Z os fd current s =
     (case make_child_io Z os fd READABLE current s of
        (current, s, io) \<Rightarrow> (current, s, Inr \<lparr>cs_inner = Some fd, cs_io = io\<rparr>))"

definition child_stderr_from_std ::
  "('r, 's, 'c, 'm, 't) op_env \<Rightarrow> ('o, 'x) std_sys_scheme \<Rightarrow> int \<Rightarrow>
   ('r, 's, 'c, 'm, 't) any_driver option \<Rightarrow> 'o \<Rightarrow> ('r, 's, 'c, 'm, 't) any_driver option \<times> 'o \<times> child_stdio io_result" where
  "child_stderr_from_std Z os fd current s =
     (case make_child_io Z os fd READABLE current s of
        (current, s, io) \<Rightarrow> (current, s, Inr \<lparr>cs_inner = Some fd, cs_io = io\<rparr>))"

text \<open>\<open>drop_handle\<close>, with the driver of the handle.\<close>

definition child_drop_handle ::
  "('r, 's, 'c, 'm, 't) op_env \<Rightarrow> child_stdio \<Rightarrow> ('r, 's, 'c, 'm, 't) any_driver \<Rightarrow> ('r, 's, 'c, 'm, 't) any_driver" where
  "child_drop_handle Z st d = (case cs_io st of ChildAsync h \<Rightarrow> handle_drop Z h d | ChildBlocking \<Rightarrow> d)"

definition child_stdio_drop ::
  "('r, 's, 'c, 'm, 't) op_env \<Rightarrow> ('o, 'x) std_sys_scheme \<Rightarrow> child_stdio \<Rightarrow> ('r, 's, 'c, 'm, 't) any_driver \<Rightarrow> 'o \<Rightarrow>
   ('r, 's, 'c, 'm, 't) any_driver \<times> 'o" where
  "child_stdio_drop Z os st d s =
     (child_drop_handle Z st d, case cs_inner st of None \<Rightarrow> s | Some fd \<Rightarrow> fs_close os fd s)"

definition child_into_std ::
  "('r, 's, 'c, 'm, 't) op_env \<Rightarrow> child_stdio \<Rightarrow> ('r, 's, 'c, 'm, 't) any_driver \<Rightarrow>
   (('r, 's, 'c, 'm, 't) any_driver \<times> int) option" where
  "child_into_std Z st d = map_option (\<lambda>fd. (child_drop_handle Z st d, fd)) (cs_inner st)"

definition child_as_raw_fd :: "child_stdio \<Rightarrow> int option" where
  "child_as_raw_fd st = cs_inner st"

definition child_read_blocking :: "('o, 'x) std_sys_scheme \<Rightarrow> int \<times> io_buf \<Rightarrow> 'o \<Rightarrow> 'o \<times> nat io_result" where
  "child_read_blocking os x s =
     (case x of (fd, buf) \<Rightarrow> st_read os fd (fst (to_slice buf)) (snd (to_slice buf)) s)"

definition child_write_blocking :: "('o, 'x) std_sys_scheme \<Rightarrow> int \<times> io_buf \<Rightarrow> 'o \<Rightarrow> 'o \<times> nat io_result" where
  "child_write_blocking os x s =
     (case x of (fd, buf) \<Rightarrow> st_write os fd (fst (to_slice buf)) (snd (to_slice buf)) s)"

definition read_in_blocking_pool ::
  "('o, 'x) std_sys_scheme \<Rightarrow> ('d, 't) current_runtime \<Rightarrow> int \<Rightarrow> io_buf \<Rightarrow> 'o \<Rightarrow> ('o \<times> nat io_result \<times> int \<times> io_buf) option" where
  "read_in_blocking_pool os cell inner buf s =
     pool_call cell (fs_pool os) blocking_pool_io_error (child_read_blocking os) (inner, buf) s"

definition write_in_blocking_pool ::
  "('o, 'x) std_sys_scheme \<Rightarrow> ('d, 't) current_runtime \<Rightarrow> int \<Rightarrow> io_buf \<Rightarrow> 'o \<Rightarrow> ('o \<times> nat io_result \<times> int \<times> io_buf) option" where
  "write_in_blocking_pool os cell inner buf s =
     pool_call cell (fs_pool os) blocking_pool_io_error (child_write_blocking os) (inner, buf) s"

definition child_stdin_write ::
  "('o, 'x) std_sys_scheme \<Rightarrow> ('d, 't) current_runtime \<Rightarrow> bool \<Rightarrow> io_buf \<Rightarrow> child_stdio \<Rightarrow> 'o \<Rightarrow>
   (child_stdio \<times> 'o \<times> nat io_result \<times> io_buf) option" where
  "child_stdin_write os cell completion buf st s =
     (if buf_len buf = 0 then Some (st, s, Inr 0, buf)
      else case cs_io st of
             ChildAsync h \<Rightarrow> (case stream_write os completion h buf s of (s, res, buf) \<Rightarrow> Some (st, s, res, buf))
           | ChildBlocking \<Rightarrow>
               (case current_driver cell of
                  None \<Rightarrow> None
                | Some (Some _) \<Rightarrow>
                    (case cs_inner st of
                       None \<Rightarrow> Some (st, s, Inl stdio_closed_error, buf)
                     | Some inner \<Rightarrow>
                         (case write_in_blocking_pool os cell inner buf s of
                            None \<Rightarrow> None
                          | Some (s, res, inner, buf) \<Rightarrow> Some (st\<lparr>cs_inner := Some inner\<rparr>, s, res, buf)))
                | Some None \<Rightarrow>
                    (case cs_inner st of
                       None \<Rightarrow> Some (st, s, Inl stdio_closed_error, buf)
                     | Some inner \<Rightarrow> (case child_write_blocking os (inner, buf) s of (s, res) \<Rightarrow> Some (st, s, res, buf)))))"

definition child_stdin_flush ::
  "('o, 'x) std_sys_scheme \<Rightarrow> ('d, 't) current_runtime \<Rightarrow> child_stdio \<Rightarrow> 'o \<Rightarrow> (child_stdio \<times> 'o \<times> unit io_result) option" where
  "child_stdin_flush os cell st s =
     (case cs_io st of
        ChildAsync _ \<Rightarrow> Some (st, s, Inr ())
      | ChildBlocking \<Rightarrow>
          (case current_driver cell of
             None \<Rightarrow> None
           | Some (Some _) \<Rightarrow>
               (case cs_inner st of
                  None \<Rightarrow> Some (st, s, Inl stdio_closed_error)
                | Some inner \<Rightarrow>
                    (case pool_call cell (fs_pool os) blocking_pool_io_error (sd_child_flush os) inner s of
                       None \<Rightarrow> None
                     | Some (s, res, inner) \<Rightarrow> Some (st\<lparr>cs_inner := Some inner\<rparr>, s, res)))
           | Some None \<Rightarrow>
               (case cs_inner st of
                  None \<Rightarrow> Some (st, s, Inl stdio_closed_error)
                | Some inner \<Rightarrow> (case sd_child_flush os inner s of (s, res) \<Rightarrow> Some (st, s, res)))))"

definition child_stdout_read ::
  "('o, 'x) std_sys_scheme \<Rightarrow> ('d, 't) current_runtime \<Rightarrow> bool \<Rightarrow> io_buf \<Rightarrow> child_stdio \<Rightarrow> 'o \<Rightarrow>
   (child_stdio \<times> 'o \<times> nat io_result \<times> io_buf) option" where
  "child_stdout_read os cell completion buf st s =
     (if buf_len buf = 0 then Some (st, s, Inr 0, buf)
      else case cs_io st of
             ChildAsync h \<Rightarrow> (case stream_read os completion h buf s of (s, res, buf) \<Rightarrow> Some (st, s, res, buf))
           | ChildBlocking \<Rightarrow>
               (case current_driver cell of
                  None \<Rightarrow> None
                | Some (Some _) \<Rightarrow>
                    (case cs_inner st of
                       None \<Rightarrow> Some (st, s, Inl stdio_closed_error, buf)
                     | Some inner \<Rightarrow>
                         (case read_in_blocking_pool os cell inner buf s of
                            None \<Rightarrow> None
                          | Some (s, res, inner, buf) \<Rightarrow> Some (st\<lparr>cs_inner := Some inner\<rparr>, s, res, buf)))
                | Some None \<Rightarrow>
                    (case cs_inner st of
                       None \<Rightarrow> Some (st, s, Inl stdio_closed_error, buf)
                     | Some inner \<Rightarrow> (case child_read_blocking os (inner, buf) s of (s, res) \<Rightarrow> Some (st, s, res, buf)))))"

text \<open>\<open>AsyncRead for ChildStderr\<close> has the same body.\<close>

definition child_stderr_read ::
  "('o, 'x) std_sys_scheme \<Rightarrow> ('d, 't) current_runtime \<Rightarrow> bool \<Rightarrow> io_buf \<Rightarrow> child_stdio \<Rightarrow> 'o \<Rightarrow>
   (child_stdio \<times> 'o \<times> nat io_result \<times> io_buf) option" where
  "child_stderr_read os cell completion buf st s = child_stdout_read os cell completion buf st s"

subsection \<open>Lemmas\<close>

text \<open>Where a blocking call can be made: outside of a runtime, or in one with a pool.\<close>

definition blocking_ready :: "('d, 't) current_runtime \<Rightarrow> bool" where
  "blocking_ready cell =
     (case try_borrow cell of
        None \<Rightarrow> False
      | Some None \<Rightarrow> True
      | Some (Some inner) \<Rightarrow> ri_blocking_pool inner)"

lemma blocking_ready_cases:
  assumes "blocking_ready cell"
  obtains (outside) "current_driver cell = Some None"
  | (inside) inner where "current_driver cell = Some (Some (ri_driver inner))" "entered_runtime cell = Some inner"
      "ri_blocking_pool inner"
proof (cases "rc_value cell")
  case None
  with assms outside show thesis
    by (auto simp: blocking_ready_def cell_defs split: if_splits)
next
  case (Some inner)
  with assms inside [of inner] show thesis
    by (auto simp: blocking_ready_def cell_defs split: if_splits)
qed

text \<open>The call an awaited blocking call comes to: made here, made by the pool, or refused by it.\<close>

definition blocking_outcome ::
  "('d, 't) current_runtime \<Rightarrow> ('o \<Rightarrow> bool) \<Rightarrow> ('o \<Rightarrow> 'o \<times> 'a io_result) \<Rightarrow> 'o \<Rightarrow> 'o \<times> 'a io_result" where
  "blocking_outcome cell pool call s =
     (if current_driver cell = Some None \<or> pool s then call s else (s, Inl blocking_pool_io_error))"

lemmas std_calls = stdin_read_def stdout_write_def stderr_write_def read_stdin_in_blocking_pool_def
  write_stdout_in_blocking_pool_def write_stderr_in_blocking_pool_def std_call_def

lemma std_calls_eq:
  assumes "blocking_ready cell" and "0 < buf_len buf"
  shows "stdin_read os cell buf s =
      (case blocking_outcome cell (fs_pool os) (read_stdin_blocking os buf) s of (s, res) \<Rightarrow> Some (s, res, buf))"
    "stdout_write os cell buf s =
      (case blocking_outcome cell (fs_pool os) (write_stdout_blocking os buf) s of (s, res) \<Rightarrow> Some (s, res, buf))"
    "stderr_write os cell buf s =
      (case blocking_outcome cell (fs_pool os) (write_stderr_blocking os buf) s of (s, res) \<Rightarrow> Some (s, res, buf))"
  using assms(2) by (cases rule: blocking_ready_cases [OF assms(1)];
      auto simp: std_calls blocking_outcome_def pool_call_eq split: prod.split)+

lemma std_flush_eq:
  assumes "blocking_ready cell"
  shows "std_flush os cell flush s = Some (blocking_outcome cell (fs_pool os) flush s)"
  by (cases rule: blocking_ready_cases [OF assms])
    (auto simp: std_flush_def blocking_outcome_def flush_in_blocking_pool_def spawn_blocking_current_def
      runtime_spawn_blocking_def spawn_blocking_def split: prod.split)

lemma child_blocking_eq:
  assumes "blocking_ready cell" and "0 < buf_len buf" and "cs_io st = ChildBlocking" and "cs_inner st = Some fd"
  shows "child_stdout_read os cell c buf st s =
      (case blocking_outcome cell (fs_pool os) (child_read_blocking os (fd, buf)) s of (s, res) \<Rightarrow> Some (st, s, res, buf))"
    "child_stdin_write os cell c buf st s =
      (case blocking_outcome cell (fs_pool os) (child_write_blocking os (fd, buf)) s of (s, res) \<Rightarrow> Some (st, s, res, buf))"
    "child_stdin_flush os cell st s =
      (case blocking_outcome cell (fs_pool os) (sd_child_flush os fd) s of (s, res) \<Rightarrow> Some (st, s, res))"
  using assms(2-) by (cases rule: blocking_ready_cases [OF assms(1)];
      auto simp: child_stdout_read_def child_stdin_write_def child_stdin_flush_def read_in_blocking_pool_def
        write_in_blocking_pool_def blocking_outcome_def pool_call_eq split: prod.split)+

text \<open>In a runtime built without a pool, as \<open>RuntimeBuilder\<close> does by default, the standard streams panic.\<close>

lemma stdin_read_no_pool:
  assumes "entered_runtime cell = Some inner" and "\<not> ri_blocking_pool inner" and "0 < buf_len buf"
  shows "stdin_read os cell buf s = None"
  using assms
  by (auto simp: std_calls pool_call_no_pool cell_defs split: option.splits if_splits)

text \<open>
  The buffer that comes back: the driver's path counts the bytes read into a \<open>Vec\<close>, the blocking
  paths leave its length as it was.
\<close>

lemma child_read_vec_length:
  assumes "blocking_ready cell" and "0 < len"
  shows "child_stdout_read os cell c (Vec m len len) \<lparr>cs_inner = Some fd, cs_io = ChildBlocking\<rparr> s = Some (st', s', res, buf') \<Longrightarrow>
      buf' = Vec m len len"
    "child_stdout_read os cell False (Vec m len len) \<lparr>cs_inner = Some fd, cs_io = ChildAsync h\<rparr> s = Some (st', s', Inr n, buf') \<Longrightarrow>
      buf' = Vec m n len"
proof -
  have pos: "0 < buf_len (Vec m len len)"
    using assms(2) by simp
  show "child_stdout_read os cell c (Vec m len len) \<lparr>cs_inner = Some fd, cs_io = ChildBlocking\<rparr> s = Some (st', s', res, buf') \<Longrightarrow>
      buf' = Vec m len len"
    by (auto simp: child_blocking_eq(1) [OF assms(1) pos] split: prod.splits)
  show "child_stdout_read os cell False (Vec m len len) \<lparr>cs_inner = Some fd, cs_io = ChildAsync h\<rparr> s = Some (st', s', Inr n, buf') \<Longrightarrow>
      buf' = Vec m n len"
    using assms(2) by (auto simp: child_stdout_read_def stream_read_def Let_def take_bufs_fill split: prod.splits sum.splits)
qed

text \<open>Exactly the flags the mode of the handle asks for, as far as they can be read and set.\<close>

lemma configure_nonblocking_flags:
  assumes "honest_pipes os opened" and "st_getfl os fd s = Some flags"
  shows "nonblocking os fd (configure_nonblocking os fd uses s) = Some (\<not> uses)"
proof (cases "nonblock_flags uses flags = flags")
  case True
  then show ?thesis
    using assms(2) nonblock_flags_bit [of 11 uses flags]
    by (simp add: configure_nonblocking_def nonblocking_def)
next
  case False
  then show ?thesis
    using assms nonblock_flags_bit [of 11 uses flags]
    by (simp add: configure_nonblocking_def nonblocking_def honest_pipes_def)
qed

lemma make_child_io_handle:
  assumes "make_child_io Z os fd i current s = (current', s', ChildAsync h)"
  shows "h_handle h = fd" "\<exists>d. current' = Some d \<and> s' = configure_nonblocking os fd (uses_completion d h) s"
  using assms
  by (auto simp: make_child_io_def new_with_driver_and_mode_def Let_def split: option.splits prod.splits sum.splits)

subsection \<open>Properties\<close>

text \<open>
  The pipe of a child does the same whichever way it is used. Through the driver in
  either mode, through the pool or in place, a read or a write of a buffer below 4 GiB is the
  kernel's call on the child's descriptor with that buffer; the pipe itself is given
  back on every path, and no path panics when the runtime has a pool or there is no runtime.
\<close>
lemma child_stdio_calls:
  assumes "blocking_ready cell" and "entries_are_calls os" and "fs_pool os s"
    and "cs_inner st = Some fd" and "cs_io st = ChildBlocking \<or> (\<exists>h. cs_io st = ChildAsync h \<and> h_handle h = fd)"
    and "0 < buf_len buf" and "buf_len buf = buf_capacity buf" and "buf_len buf < 2 ^ 32"
  shows "(\<exists>buf'. child_stdout_read os cell completion buf st s =
      Some (st, fst (st_read os fd (as_buf_ptr buf) (buf_len buf) s), snd (st_read os fd (as_buf_ptr buf) (buf_len buf) s), buf') \<and>
      as_buf_ptr buf' = as_buf_ptr buf \<and> buf_capacity buf' = buf_capacity buf) \<and>
    child_stdin_write os cell completion buf st s =
      Some (st, fst (st_write os fd (as_buf_ptr buf) (buf_len buf) s), snd (st_write os fd (as_buf_ptr buf) (buf_len buf) s), buf)"
proof (cases "cs_io st")
  case ChildBlocking
  then show ?thesis
    using assms(3)
    by (simp add: child_blocking_eq(1,2) [OF assms(1,6) _ assms(4)] blocking_outcome_def child_read_blocking_def
        child_write_blocking_def to_slice_def split: prod.split)
next
  case (ChildAsync h)
  have "stream_read os completion h buf s = stream_read os False h buf s"
    using stream_read_modes [OF assms(2), of buf h s] assms(7,8) by (cases completion) simp_all
  then have 1: "stream_read os completion h buf s = (case st_read os (h_handle h) (as_buf_ptr buf) (buf_capacity buf) s of
      (s, res) \<Rightarrow> (s, res, case res of Inr n \<Rightarrow> set_buf_init n buf | Inl _ \<Rightarrow> buf))"
    by (simp add: stream_read_def Let_def take_bufs_fill)
  have "stream_write os completion h buf s = stream_write os False h buf s"
    using stream_write_modes [OF assms(2), of buf h s] assms(8) by (cases completion) simp_all
  then have 2: "stream_write os completion h buf s = (case st_write os (h_handle h) (as_buf_ptr buf) (buf_len buf) s of
      (s, res) \<Rightarrow> (s, res, buf))"
    by (simp add: stream_write_def Let_def take_bufs_write)
  have "h_handle h = fd"
    using assms(5) ChildAsync by simp
  then show ?thesis
    using assms(6,7) ChildAsync
    by (simp add: child_stdout_read_def child_stdin_write_def 1 2 split: prod.split sum.split)
qed

definition ex_std :: "nat std_sys" where
  "ex_std = \<lparr>fs_kernel = (\<lambda>e s. case e of ERead fd p len off \<Rightarrow> (s + 1, int (min 3 (unat len)))
        | EWrite fd p len off \<Rightarrow> (s + 1, int (min 3 (unat len))) | _ \<Rightarrow> (s, 0)),
     fs_pread = (\<lambda>fd p n off s. (s, Inr 0)), fs_pwrite = (\<lambda>fd p n off s. (s, Inr 0)),
     fs_sync = (\<lambda>fd data s. (s, Inr ())), fs_dup = (\<lambda>fd s. (s, Inl (Os 24))), fs_close = (\<lambda>fd s. s), fs_pool = (\<lambda>s. True),
     st_read = (\<lambda>fd p n s. (s + 1, Inr (min 3 n))), st_write = (\<lambda>fd p n s. (s + 1, Inr (min 3 n))),
     st_readv = (\<lambda>fd vs s. (s, Inr 0)), st_writev = (\<lambda>fd vs s. (s, Inr 0)), st_alloc = (\<lambda>s. 0),
     st_pipe = (\<lambda>s. (s, Inl (Os 24))), st_getfl = (\<lambda>fd s. None), st_setfl = (\<lambda>fd flags s. s),
     sd_stdin_read = (\<lambda>p n s. (s, Inr 0)), sd_stdout_write = (\<lambda>p n s. (s, Inr n)), sd_stderr_write = (\<lambda>p n s. (s, Inr n)),
     sd_stdout_flush = (\<lambda>s. (s, Inr ())), sd_stderr_flush = (\<lambda>s. (s, Inr ())), sd_child_flush = (\<lambda>fd s. (s, Inr ()))\<rparr>"

definition ex_cell :: "(nat, nat) current_runtime" where
  "ex_cell = \<lparr>rc_value = Some \<lparr>ri_driver = 0, ri_timer = None, ri_blocking_pool = True, ri_fs_offload = True,
     ri_zombie_reaper = None\<rparr>, rc_borrow = Unborrowed\<rparr>"

lemma ex_std_calls: "entries_are_calls ex_std"
  by (simp add: entries_are_calls_def ex_std_def call_result_def os_failure_def)

lemma child_stdio_calls_witness:
  "child_stdin_write ex_std ex_cell True (Vec 7 8 8) \<lparr>cs_inner = Some 5, cs_io = ChildBlocking\<rparr> 0 =
     Some (\<lparr>cs_inner = Some 5, cs_io = ChildBlocking\<rparr>, 1, Inr 3, Vec 7 8 8)"
proof -
  have "blocking_ready ex_cell" "fs_pool ex_std 0"
    by (simp_all add: blocking_ready_def ex_cell_def try_borrow_def ex_std_def)
  from child_stdio_calls [OF this(1) ex_std_calls this(2), of "\<lparr>cs_inner = Some 5, cs_io = ChildBlocking\<rparr>" 5 "Vec 7 8 8" True]
  show ?thesis
    by (simp add: ex_std_def)
qed

end
