(* ===== verification/Process.thy ===== *)
theory Process
  imports Ops_Process Blocking_Io
begin

text \<open>
  Child processes: \<open>process/mod.rs\<close> and the rest of \<open>process/reaper.rs\<close>. A child that has exited stays a
  zombie until somebody waits for it, so the standard library's \<open>Child\<close> must not be lost: it is held by the
  handle, by a wait, by the reaper or by a thread.

  Here are the reapers (with pidfds, without the feature \<open>signal\<close>, on Windows; the one on signals is in
  \<open>Ops_Process\<close>) under a common contract, the channel to the reaper, the futures of \<open>current_zombie_reaper\<close>
  and \<open>ZombieReaper::wait\<close> poll by poll, \<open>Child\<close> and \<open>Command\<close>, and a system of handles, waits and the
  reaper's channel as a step relation. A child is its number, a panic is \<open>None\<close>.
\<close>

subsection \<open>The reapers\<close>

definition exit_status_from_raw :: "int \<Rightarrow> int" where
  "exit_status_from_raw raw = raw"

text \<open>\<open>fd\<close> and \<open>errno\<close>: the outcome of \<open>pidfd_open\<close> on the process itself; 38 is \<open>ENOSYS\<close>.\<close>

definition pidfd_available :: "int \<Rightarrow> int \<Rightarrow> bool" where
  "pidfd_available fd errno \<longleftrightarrow> 0 \<le> fd \<or> raw_os_error (Os errno) \<noteq> Some 38"

text \<open>
  \<open>zombie_reaper_fn_linux_pidfd\<close>: \<open>rp_processes\<close> are the tasks it spawned, one for each child that was still
  running; \<open>TaskDone\<close> is the end of one of them with the result of its \<open>WaitPidOp\<close>.
\<close>

datatype pidfd_event = PidfdChild reaper_message | TaskDone nat "int io_result"

definition finish_task :: "nat \<Rightarrow> int io_result \<Rightarrow> reaper \<Rightarrow> reaper" where
  "finish_task i res r =
     (if i < length (rp_processes r)
      then answer (snd (rp_processes r ! i)) res
             (r\<lparr>rp_processes := take i (rp_processes r) @ drop (Suc i) (rp_processes r)\<rparr>)
      else r)"

fun pidfd_step :: "(nat \<Rightarrow> int option io_result) \<times> pidfd_event \<Rightarrow> reaper \<Rightarrow> reaper" where
  "pidfd_step (try_wait, PidfdChild msg) r = reap_process try_wait msg r"
| "pidfd_step (try_wait, TaskDone i res) r = finish_task i (map_sum id exit_status_from_raw res) r"

definition zombie_reaper_fn_linux_pidfd ::
  "((nat \<Rightarrow> int option io_result) \<times> pidfd_event) list \<Rightarrow> reaper \<Rightarrow> reaper" where
  "zombie_reaper_fn_linux_pidfd es r = fold pidfd_step es r"

text \<open>
  \<open>zombie_reaper_fn_unix\<close> without signals: every child is waited for by a task on the pool. A pool that
  drops the task drops the sender, which the receiver sees as the error of \<open>ZombieReaper::wait\<close>.
\<close>

definition zombie_reaper_error :: io_error where "zombie_reaper_error = Custom Other"

datatype pool_event = PoolChild reaper_message | PoolDone nat "int io_result option"

fun pool_step :: "pool_event \<Rightarrow> reaper \<Rightarrow> reaper" where
  "pool_step (PoolChild msg) r = r\<lparr>rp_processes := rp_processes r @ [msg]\<rparr>"
| "pool_step (PoolDone i res) r =
     finish_task i (case res of Some res \<Rightarrow> res | None \<Rightarrow> Inl zombie_reaper_error) r"

text \<open>
  \<open>zombie_reaper_fn\<close> on Windows: a child that still runs moves into a \<open>WaitContext\<close>, which belongs to the wait registered
  with the system or, when that fails (\<open>registered\<close> is what \<open>RegisterWaitForSingleObject\<close> returned), to a thread. Either waits
  for the child and answers: \<open>wait_callback\<close> for a registered one, \<open>ThreadDone\<close> for a thread.
\<close>

record win_reaper =
  wr_registered :: "reaper_message list"
  wr_threads :: "reaper_message list"
  wr_sent :: "(nat \<times> int io_result) list"

definition win_view :: "win_reaper \<Rightarrow> reaper" where
  "win_view r = \<lparr>rp_processes = wr_registered r @ wr_threads r, rp_sent = wr_sent r\<rparr>"

definition win_answer :: "nat option \<Rightarrow> int io_result \<Rightarrow> win_reaper \<Rightarrow> win_reaper" where
  "win_answer sender res r = (case sender of None \<Rightarrow> r | Some s \<Rightarrow> r\<lparr>wr_sent := wr_sent r @ [(s, res)]\<rparr>)"

definition zombie_reaper_fn_windows :: "(nat \<Rightarrow> int option io_result) \<Rightarrow> bool \<Rightarrow> reaper_message \<Rightarrow> win_reaper \<Rightarrow> win_reaper" where
  "zombie_reaper_fn_windows try_wait registered msg r =
     (case try_wait (fst msg) of
        Inr (Some status) \<Rightarrow> win_answer (snd msg) (Inr status) r
      | Inl err \<Rightarrow> win_answer (snd msg) (Inl err) r
      | Inr None \<Rightarrow>
          if registered then r\<lparr>wr_registered := wr_registered r @ [msg]\<rparr>
          else r\<lparr>wr_threads := wr_threads r @ [msg]\<rparr>)"

definition wait_callback :: "nat \<Rightarrow> int io_result \<Rightarrow> win_reaper \<Rightarrow> win_reaper" where
  "wait_callback i result r =
     (if i < length (wr_registered r)
      then win_answer (snd (wr_registered r ! i)) result
             (r\<lparr>wr_registered := take i (wr_registered r) @ drop (Suc i) (wr_registered r)\<rparr>)
      else r)"

definition thread_done :: "nat \<Rightarrow> int io_result \<Rightarrow> win_reaper \<Rightarrow> win_reaper" where
  "thread_done i result r =
     (if i < length (wr_threads r)
      then win_answer (snd (wr_threads r ! i)) result
             (r\<lparr>wr_threads := take i (wr_threads r) @ drop (Suc i) (wr_threads r)\<rparr>)
      else r)"

datatype win_reaper_event =
    WinChild "nat \<Rightarrow> int option io_result" bool reaper_message
  | WaitCallback nat "int io_result"
  | ThreadDone nat "int io_result"

fun win_reaper_step :: "win_reaper_event \<Rightarrow> win_reaper \<Rightarrow> win_reaper" where
  "win_reaper_step (WinChild try_wait registered msg) r = zombie_reaper_fn_windows try_wait registered msg r"
| "win_reaper_step (WaitCallback i result) r = wait_callback i result r"
| "win_reaper_step (ThreadDone i result) r = thread_done i result r"

subsection \<open>The contract of a reaper\<close>

text \<open>
  Every message that came in is answered or being worked on, none twice, and answers are not taken back.
\<close>

definition msg_channels :: "reaper_message list \<Rightarrow> nat list" where
  "msg_channels msgs = concat (map (case_option [] (\<lambda>s. [s]) \<circ> snd) msgs)"

lemma channels_msg: "channels r = map fst (rp_sent r) @ msg_channels (rp_processes r)"
  by (simp add: channels_def msg_channels_def)

lemma msg_channels_append [simp]: "msg_channels (xs @ ys) = msg_channels xs @ msg_channels ys"
  by (simp add: msg_channels_def)

lemma msg_channels_Nil [simp]: "msg_channels [] = []"
  by (simp add: msg_channels_def)

lemma msg_channels_iff: "ch \<in> set (msg_channels msgs) \<longleftrightarrow> (\<exists>c. (c, Some ch) \<in> set msgs)"
  by (force simp: msg_channels_def split: option.splits)

locale child_reaper =
  fixes step :: "'e \<Rightarrow> 's \<Rightarrow> 's"
    and incoming :: "'e \<Rightarrow> reaper_message list"
    and view :: "'s \<Rightarrow> reaper"
  assumes step_channels: "mset (channels (view (step e r))) = mset (channels (view r)) + mset (msg_channels (incoming e))"
    and step_sent: "\<exists>xs. rp_sent (view (step e r)) = rp_sent (view r) @ xs"
    and step_children: "mset (rp_processes (view (step e r))) \<subseteq># mset (rp_processes (view r)) + mset (incoming e)"
begin

lemma run_channels:
  "mset (channels (view (fold step es r))) = mset (channels (view r)) + mset (msg_channels (concat (map incoming es)))"
  by (induction es arbitrary: r) (simp_all add: step_channels)

lemma run_sent: "\<exists>xs. rp_sent (view (fold step es r)) = rp_sent (view r) @ xs"
proof (induction es arbitrary: r)
  case (Cons e es)
  then show ?case
    using step_sent by (metis append_assoc fold_simps(2))
qed simp

lemma run_children: "set (rp_processes (view (fold step es r))) \<subseteq> set (rp_processes (view r)) \<union> set (concat (map incoming es))"
proof (induction es arbitrary: r)
  case (Cons e es)
  have "set (rp_processes (view (step e r))) \<subseteq> set (rp_processes (view r)) \<union> set (incoming e)"
    using set_mset_mono [OF step_children [of e r]] by auto
  then show ?case
    using Cons.IH [of "step e r"] by auto
qed simp

lemma answered_once:
  assumes "distinct (msg_channels (concat (map incoming es)))" and "ch \<in> set (msg_channels (concat (map incoming es)))"
    and "view r0 = \<lparr>rp_processes = [], rp_sent = []\<rparr>" and "view (fold step es r0) = r"
  shows "(\<exists>!res. (ch, res) \<in> set (rp_sent r)) \<noteq> (\<exists>c. (c, Some ch) \<in> set (rp_processes r))"
proof -
  have chans: "mset (map fst (rp_sent r) @ msg_channels (rp_processes r)) = mset (msg_channels (concat (map incoming es)))"
    using run_channels [of es r0] assms(3,4) by (simp add: channels_msg)
  then have d: "distinct (map fst (rp_sent r) @ msg_channels (rp_processes r))"
    using assms(1) mset_eq_imp_distinct_iff by blast
  have "ch \<in> set (map fst (rp_sent r) @ msg_channels (rp_processes r))"
    using assms(2) chans mset_eq_setD by blast
  then consider "ch \<in> fst ` set (rp_sent r)" "ch \<notin> set (msg_channels (rp_processes r))"
    | "ch \<notin> fst ` set (rp_sent r)" "ch \<in> set (msg_channels (rp_processes r))"
    using d by auto
  then show ?thesis
  proof cases
    case 1
    have "(ch, res) \<in> set (rp_sent r) \<Longrightarrow> (ch, res') \<in> set (rp_sent r) \<Longrightarrow> res = res'" for res res'
      using d eq_key_imp_eq_value [of "rp_sent r"] by simp
    with 1 show ?thesis
      by (auto simp: msg_channels_iff)
  next
    case 2
    then show ?thesis
      by (force simp: msg_channels_iff)
  qed
qed

end

subsection \<open>The four reapers keep it\<close>

lemma reap_process_sent: "\<exists>xs. rp_sent (reap_process tw msg r) = rp_sent r @ xs"
  by (auto simp: reap_process_def answer_def split: option.splits sum.splits)

lemma reap_process_children: "mset (rp_processes (reap_process tw msg r)) \<subseteq># add_mset msg (mset (rp_processes r))"
  by (auto simp: reap_process_def answer_def split: option.splits sum.splits)

lemma reap_process_msg: "mset (channels (reap_process tw msg r)) = mset (channels r) + mset (msg_channels [msg])"
  by (simp add: reap_process_channels msg_channels_def)

lemma finish_task_sent: "\<exists>xs. rp_sent (finish_task i res r) = rp_sent r @ xs"
  by (auto simp: finish_task_def answer_def split: option.splits)

lemma take_drop_mset: "i < length xs \<Longrightarrow> mset xs = add_mset (xs ! i) (mset (take i xs @ drop (Suc i) xs))"
  by (metis id_take_nth_drop mset_append mset.simps(2) union_mset_add_mset_right)

lemma finish_task_children: "mset (rp_processes (finish_task i res r)) \<subseteq># mset (rp_processes r)"
proof (cases "i < length (rp_processes r)")
  case True
  then show ?thesis
    using take_drop_mset [OF True]
    by (auto simp: finish_task_def answer_def split: option.splits)
qed (simp add: finish_task_def)

lemma finish_task_channels: "mset (channels (finish_task i res r)) = mset (channels r)"
proof (cases "i < length (rp_processes r)")
  case True
  have "msg_channels (rp_processes r) =
      msg_channels (take i (rp_processes r)) @ msg_channels [rp_processes r ! i] @ msg_channels (drop (Suc i) (rp_processes r))"
    using id_take_nth_drop [OF True] by (metis append_Cons append_Nil msg_channels_append)
  then show ?thesis
    using True by (auto simp: finish_task_def answer_def channels_msg msg_channels_def split: option.splits)
qed (simp add: finish_task_def)

fun pidfd_incoming :: "(nat \<Rightarrow> int option io_result) \<times> pidfd_event \<Rightarrow> reaper_message list" where
  "pidfd_incoming (tw, PidfdChild msg) = [msg]"
| "pidfd_incoming (tw, TaskDone i res) = []"

fun pool_incoming :: "pool_event \<Rightarrow> reaper_message list" where
  "pool_incoming (PoolChild msg) = [msg]"
| "pool_incoming (PoolDone i res) = []"

fun signal_incoming :: "(nat \<Rightarrow> int option io_result) \<times> reaper_event \<Rightarrow> reaper_message list" where
  "signal_incoming (tw, NewChild msg) = [msg]"
| "signal_incoming (tw, ChildSignal) = []"

definition signal_step :: "(nat \<Rightarrow> int option io_result) \<times> reaper_event \<Rightarrow> reaper \<Rightarrow> reaper" where
  "signal_step e r = reaper_step (fst e) (snd e) r"

lemma zombie_reaper_fn_unix_fold: "zombie_reaper_fn_unix es r = fold signal_step es r"
  by (induction es r rule: zombie_reaper_fn_unix.induct) (simp_all add: signal_step_def)

interpretation pidfd_reaper: child_reaper pidfd_step pidfd_incoming "\<lambda>r. r"
proof
  fix e r
  show "mset (channels (pidfd_step e r)) = mset (channels r) + mset (msg_channels (pidfd_incoming e))"
    by (cases e rule: pidfd_incoming.cases) (simp_all add: reap_process_msg finish_task_channels)
  show "\<exists>xs. rp_sent (pidfd_step e r) = rp_sent r @ xs"
    by (cases e rule: pidfd_incoming.cases) (simp_all add: reap_process_sent finish_task_sent)
  show "mset (rp_processes (pidfd_step e r)) \<subseteq># mset (rp_processes r) + mset (pidfd_incoming e)"
    by (cases e rule: pidfd_incoming.cases) (simp_all add: reap_process_children finish_task_children)
qed

interpretation pool_reaper: child_reaper pool_step pool_incoming "\<lambda>r. r"
proof
  fix e r
  show "mset (channels (pool_step e r)) = mset (channels r) + mset (msg_channels (pool_incoming e))"
  proof (cases e)
    case (PoolChild msg)
    then show ?thesis
      by (simp add: channels_msg)
  qed (simp add: finish_task_channels)
  show "\<exists>xs. rp_sent (pool_step e r) = rp_sent r @ xs"
    by (cases e rule: pool_incoming.cases) (simp_all add: finish_task_sent)
  show "mset (rp_processes (pool_step e r)) \<subseteq># mset (rp_processes r) + mset (pool_incoming e)"
    by (cases e rule: pool_incoming.cases) (simp_all add: finish_task_children)
qed

lemma fold_reap_sent: "\<exists>xs. rp_sent (fold (reap_process tw) msgs r) = rp_sent r @ xs"
proof (induction msgs arbitrary: r)
  case (Cons m msgs)
  then show ?case
    using reap_process_sent by (metis append_assoc fold_simps(2))
qed simp

lemma fold_reap_children:
  "mset (rp_processes (fold (reap_process tw) msgs r)) \<subseteq># mset (rp_processes r) + mset msgs"
proof (induction msgs arbitrary: r)
  case (Cons m msgs)
  have "mset (rp_processes (fold (reap_process tw) msgs (reap_process tw m r))) \<subseteq>#
      mset (rp_processes (reap_process tw m r)) + mset msgs"
    by (rule Cons.IH)
  also have "\<dots> \<subseteq># add_mset m (mset (rp_processes r)) + mset msgs"
    by (simp add: reap_process_children)
  finally show ?case
    by simp
qed simp

interpretation signal_reaper: child_reaper signal_step signal_incoming "\<lambda>r. r"
proof
  fix e r
  show "mset (channels (signal_step e r)) = mset (channels r) + mset (msg_channels (signal_incoming e))"
  proof (cases e rule: signal_incoming.cases)
    case (2 tw)
    have "channels r = channels (r\<lparr>rp_processes := []\<rparr>) @ msg_channels (rp_processes r)"
      by (simp add: channels_msg)
    then show ?thesis
      using reap_all_channels [of tw "rp_processes r" "r\<lparr>rp_processes := []\<rparr>"] 2
      by (simp add: signal_step_def msg_channels_def)
  qed (simp add: signal_step_def reap_process_msg)
  show "\<exists>xs. rp_sent (signal_step e r) = rp_sent r @ xs"
    using fold_reap_sent [of _ "rp_processes r" "r\<lparr>rp_processes := []\<rparr>"]
    by (cases e rule: signal_incoming.cases) (auto simp: signal_step_def reap_process_sent)
  show "mset (rp_processes (signal_step e r)) \<subseteq># mset (rp_processes r) + mset (signal_incoming e)"
    using fold_reap_children [of _ "rp_processes r" "r\<lparr>rp_processes := []\<rparr>"]
    by (cases e rule: signal_incoming.cases) (simp_all add: signal_step_def reap_process_children)
qed

fun win_incoming :: "win_reaper_event \<Rightarrow> reaper_message list" where
  "win_incoming (WinChild tw registered msg) = [msg]"
| "win_incoming (WaitCallback i res) = []"
| "win_incoming (ThreadDone i res) = []"

lemma win_view_answer: "win_view (win_answer sender res r) = answer sender res (win_view r)"
  by (simp add: win_view_def win_answer_def answer_def split: option.splits)

text \<open>A wait on Windows is one of the tasks of the common view: the registered ones first, then the threads.\<close>

lemma win_view_done:
  "win_view (wait_callback i res r) = (if i < length (wr_registered r) then finish_task i res (win_view r) else win_view r)"
  "win_view (thread_done i res r) = finish_task (length (wr_registered r) + i) res (win_view r)"
  by (auto simp: wait_callback_def thread_done_def win_view_answer finish_task_def)
    (simp_all add: win_view_def nth_append)

lemma win_view_child:
  "mset (rp_processes (win_view (zombie_reaper_fn_windows tw registered msg r))) = mset (rp_processes (reap_process tw msg (win_view r)))"
  "rp_sent (win_view (zombie_reaper_fn_windows tw registered msg r)) = rp_sent (reap_process tw msg (win_view r))"
  unfolding zombie_reaper_fn_windows_def reap_process_def
  by (simp_all add: win_view_answer split: sum.split option.split) (simp_all add: win_view_def)

lemma win_view_child_channels:
  "mset (channels (win_view (zombie_reaper_fn_windows tw registered msg r))) = mset (channels (win_view r)) + mset (msg_channels [msg])"
proof -
  have "mset (channels q) = mset (channels q')"
    if "mset (rp_processes q) = mset (rp_processes q')" "rp_sent q = rp_sent q'" for q q'
    using that by (simp add: channels_msg msg_channels_def mset_concat) (metis mset_map sum_mset_sum_list)
  from this [OF win_view_child [of tw registered msg r]] show ?thesis
    by (simp add: reap_process_msg)
qed

interpretation windows_reaper: child_reaper win_reaper_step win_incoming win_view
proof
  fix e r
  show "mset (channels (win_view (win_reaper_step e r))) = mset (channels (win_view r)) + mset (msg_channels (win_incoming e))"
    by (cases e rule: win_incoming.cases) (simp_all add: win_view_child_channels win_view_done finish_task_channels)
  show "\<exists>xs. rp_sent (win_view (win_reaper_step e r)) = rp_sent (win_view r) @ xs"
    by (cases e rule: win_incoming.cases) (simp_all add: win_view_child(2) win_view_done reap_process_sent finish_task_sent)
  show "mset (rp_processes (win_view (win_reaper_step e r))) \<subseteq># mset (rp_processes (win_view r)) + mset (win_incoming e)"
    by (cases e rule: win_incoming.cases)
      (simp_all add: win_view_child(1) win_view_done reap_process_children finish_task_children)
qed

subsection \<open>The channel to the reaper\<close>

text \<open>
  An unbounded channel is its queue and whether its receiver is still there; a message sent to a closed
  channel is dropped, and the child with it. \<open>pw_taken\<close> are the children a reaper has received, \<open>pw_reaped\<close>
  those whose exit was collected directly, \<open>pw_threads\<close> those a thread waits for, \<open>pw_lost\<close>
  those whose last owner was dropped without waiting. \<open>pw_started\<close> counts the tasks that start a reaper and
  have not run yet.
\<close>

record reaper_channel =
  rc_queue :: "reaper_message list"
  rc_open :: bool

record proc_world =
  pw_channels :: "reaper_channel list"
  pw_starting :: nat
  pw_next :: nat
  pw_taken :: "nat list"
  pw_threads :: "nat list"
  pw_reaped :: "nat list"
  pw_lost :: "nat list"

definition send_message :: "nat \<Rightarrow> reaper_message \<Rightarrow> proc_world \<Rightarrow> proc_world" where
  "send_message ch msg w =
     (if ch < length (pw_channels w) \<and> rc_open (pw_channels w ! ch)
      then w\<lparr>pw_channels := (pw_channels w)[ch := (pw_channels w ! ch)\<lparr>rc_queue := rc_queue (pw_channels w ! ch) @ [msg]\<rparr>]\<rparr>
      else w\<lparr>pw_lost := pw_lost w @ [fst msg]\<rparr>)"

text \<open>\<open>start_zombie_reaper\<close>, run by the task \<open>current_zombie_reaper\<close> spawns.\<close>

definition start_zombie_reaper :: "proc_world \<Rightarrow> proc_world \<times> nat" where
  "start_zombie_reaper w =
     (w\<lparr>pw_channels := pw_channels w @ [\<lparr>rc_queue = [], rc_open = True\<rparr>], pw_starting := pw_starting w - 1\<rparr>,
      length (pw_channels w))"

text \<open>The reaper receives the next message.\<close>

definition reaper_receive :: "nat \<Rightarrow> proc_world \<Rightarrow> proc_world" where
  "reaper_receive ch w =
     (if ch < length (pw_channels w)
      then (case rc_queue (pw_channels w ! ch) of
              [] \<Rightarrow> w
            | msg # msgs \<Rightarrow>
                w\<lparr>pw_channels := (pw_channels w)[ch := (pw_channels w ! ch)\<lparr>rc_queue := msgs\<rparr>],
                  pw_taken := pw_taken w @ [fst msg]\<rparr>)
      else w)"

text \<open>
  \<open>current_zombie_reaper\<close>: its states are its start and the wait for the join handle of the starting task. The
  first poll after the spawn is pending, the task not having run; \<open>started\<close> is its output once it has.
\<close>

datatype find_reaper = FindStart | FindSpawned

definition current_zombie_reaper ::
  "nat option \<Rightarrow> find_reaper \<Rightarrow> ('d, 't) current_runtime \<Rightarrow> proc_world \<Rightarrow>
   (find_reaper \<times> ('d, 't) current_runtime \<times> proc_world \<times> nat option poll) option" where
  "current_zombie_reaper started f cell w =
     (case f of
        FindStart \<Rightarrow>
          (case try_borrow cell of
             None \<Rightarrow> None
           | Some None \<Rightarrow> Some (FindStart, cell, w, Ready None)
           | Some (Some inner) \<Rightarrow>
               (case ri_zombie_reaper inner of
                  Some ch \<Rightarrow> Some (FindStart, cell, w, Ready (Some ch))
                | None \<Rightarrow> Some (FindSpawned, cell, w\<lparr>pw_starting := Suc (pw_starting w)\<rparr>, Pending)))
      | FindSpawned \<Rightarrow>
          (case started of
             None \<Rightarrow> Some (FindSpawned, cell, w, Pending)
           | Some ch \<Rightarrow>
               Some (FindSpawned, cell\<lparr>rc_value := map_option (\<lambda>inner. inner\<lparr>ri_zombie_reaper := Some ch\<rparr>) (rc_value cell)\<rparr>,
                     w, Ready (Some ch))))"

subsection \<open>Waiting for a child\<close>

text \<open>
  The future of \<open>ZombieReaper::wait\<close>: it holds the child while it looks for the reaper, and the receiver
  of the answer after that. \<open>recv\<close>: no answer yet, the sender dropped, or the answer; \<open>direct\<close> is the blocking \<open>wait\<close>
  of a child outside of a runtime.
\<close>

datatype wait_fut = WaitFind nat find_reaper | WaitAnswer nat | WaitDone

definition answer_poll :: "(nat \<Rightarrow> int io_result option option) \<Rightarrow> nat \<Rightarrow> wait_fut \<times> int io_result poll" where
  "answer_poll recv s =
     (case recv s of
        None \<Rightarrow> (WaitAnswer s, Pending)
      | Some None \<Rightarrow> (WaitDone, Ready (Inl zombie_reaper_error))
      | Some (Some res) \<Rightarrow> (WaitDone, Ready res))"

definition reaper_wait_poll ::
  "nat option \<Rightarrow> (nat \<Rightarrow> int io_result) \<Rightarrow> (nat \<Rightarrow> int io_result option option) \<Rightarrow> wait_fut \<Rightarrow>
   ('d, 't) current_runtime \<Rightarrow> proc_world \<Rightarrow>
   (wait_fut \<times> ('d, 't) current_runtime \<times> proc_world \<times> int io_result poll) option" where
  "reaper_wait_poll started direct recv st cell w =
     (case st of
        WaitFind child f \<Rightarrow>
          (case current_zombie_reaper started f cell w of
             None \<Rightarrow> None
           | Some (f, cell, w, Pending) \<Rightarrow> Some (WaitFind child f, cell, w, Pending)
           | Some (f, cell, w, Ready None) \<Rightarrow>
               Some (WaitDone, cell, w\<lparr>pw_reaped := pw_reaped w @ [child]\<rparr>, Ready (direct child))
           | Some (f, cell, w, Ready (Some ch)) \<Rightarrow>
               let s = pw_next w;
                   w = send_message ch (child, Some s) (w\<lparr>pw_next := Suc s\<rparr>)
               in (case answer_poll recv s of (st, p) \<Rightarrow> Some (st, cell, w, p)))
      | WaitAnswer s \<Rightarrow> (case answer_poll recv s of (st, p) \<Rightarrow> Some (st, cell, w, p))
      | WaitDone \<Rightarrow> None)"

text \<open>The drop of the future: a child still inside goes with it.\<close>

definition wait_drop :: "wait_fut \<Rightarrow> proc_world \<Rightarrow> proc_world" where
  "wait_drop st w = (case st of WaitFind child f \<Rightarrow> w\<lparr>pw_lost := pw_lost w @ [child]\<rparr> | _ \<Rightarrow> w)"

text \<open>\<open>try_wait\<close>: what it returns for the child.\<close>

definition reap_on_drop ::
  "int option io_result \<Rightarrow> nat \<Rightarrow> ('d, 't) current_runtime \<Rightarrow> proc_world \<Rightarrow> (('d, 't) current_runtime \<times> proc_world) option" where
  "reap_on_drop try_wait child cell w =
     (if (case try_wait of Inr (Some _) \<Rightarrow> True | _ \<Rightarrow> False)
      then Some (cell, w\<lparr>pw_reaped := pw_reaped w @ [child]\<rparr>)
      else case current_zombie_reaper None FindStart cell w of
             None \<Rightarrow> None
           | Some (f, cell, w, Ready (Some ch)) \<Rightarrow>
               Some (cell, send_message ch (child, Some (pw_next w)) (w\<lparr>pw_next := Suc (pw_next w)\<rparr>))
           | Some (f, cell, w, _) \<Rightarrow> Some (cell, w\<lparr>pw_threads := pw_threads w @ [child]\<rparr>))"

subsection \<open>\<open>Child\<close>\<close>

record child =
  ci_inner :: "nat option"
  ci_id :: nat
  ci_stdin :: "child_stdio option"
  ci_stdout :: "child_stdio option"
  ci_stderr :: "child_stdio option"

definition child_consumed_error :: io_error where "child_consumed_error = Custom InvalidInput"

text \<open>
  \<open>take().map(from_std).transpose()?\<close> of one pipe. No \<open>from_std\<close> fails, as a pipe that cannot be registered is
  used through the pool, so the early returns of \<open>child_from_std\<close> are never taken (\<open>child_from_std_total\<close>).
\<close>

definition pipe_from_std ::
  "('e option \<Rightarrow> 'o \<Rightarrow> 'e option \<times> 'o \<times> child_stdio io_result) option \<Rightarrow> 'e option \<Rightarrow> 'o \<Rightarrow>
   'e option \<times> 'o \<times> child_stdio option io_result" where
  "pipe_from_std from current s =
     (case from of
        None \<Rightarrow> (current, s, Inr None)
      | Some f \<Rightarrow> (case f current s of (current, s, Inl err) \<Rightarrow> (current, s, Inl err)
                                       | (current, s, Inr st) \<Rightarrow> (current, s, Inr (Some st))))"

definition child_from_std ::
  "('r, 's, 'c, 'm, 't) op_env \<Rightarrow> ('o, 'x) std_sys_scheme \<Rightarrow> nat \<Rightarrow> int option \<Rightarrow> int option \<Rightarrow> int option \<Rightarrow>
   ('r, 's, 'c, 'm, 't) any_driver option \<Rightarrow> 'o \<Rightarrow> ('r, 's, 'c, 'm, 't) any_driver option \<times> 'o \<times> child io_result" where
  "child_from_std Z os pid fd0 fd1 fd2 current s =
     (case pipe_from_std (map_option (child_stdin_from_std Z os) fd0) current s of
        (current, s, Inl err) \<Rightarrow> (current, s, Inl err)
      | (current, s, Inr stdin) \<Rightarrow>
          (case pipe_from_std (map_option (child_stdout_from_std Z os) fd1) current s of
             (current, s, Inl err) \<Rightarrow> (current, s, Inl err)
           | (current, s, Inr stdout) \<Rightarrow>
               (case pipe_from_std (map_option (child_stderr_from_std Z os) fd2) current s of
                  (current, s, Inl err) \<Rightarrow> (current, s, Inl err)
                | (current, s, Inr stderr) \<Rightarrow>
                    (current, s, Inr \<lparr>ci_inner = Some pid, ci_id = pid, ci_stdin = stdin, ci_stdout = stdout, ci_stderr = stderr\<rparr>))))"

definition child_inner_mut :: "child \<Rightarrow> nat io_result" where
  "child_inner_mut c = (case ci_inner c of None \<Rightarrow> Inl child_consumed_error | Some pid \<Rightarrow> Inr pid)"

definition child_take_inner :: "child \<Rightarrow> child \<times> nat io_result" where
  "child_take_inner c =
     (case ci_inner c of None \<Rightarrow> (c, Inl child_consumed_error) | Some pid \<Rightarrow> (c\<lparr>ci_inner := None\<rparr>, Inr pid))"

definition child_kill :: "(nat \<Rightarrow> unit io_result) \<Rightarrow> child \<Rightarrow> unit io_result" where
  "child_kill kill c = (case child_inner_mut c of Inl err \<Rightarrow> Inl err | Inr pid \<Rightarrow> kill pid)"

definition child_try_wait :: "(nat \<Rightarrow> int option io_result) \<Rightarrow> child \<Rightarrow> int option io_result" where
  "child_try_wait try_wait c = (case child_inner_mut c of Inl err \<Rightarrow> Inl err | Inr pid \<Rightarrow> try_wait pid)"

text \<open>\<open>let _ = self.stdin.take()\<close>: the child sees the end of its input.\<close>

definition child_close_stdin ::
  "('r, 's, 'c, 'm, 't) op_env \<Rightarrow> ('o, 'x) std_sys_scheme \<Rightarrow> child \<Rightarrow> ('r, 's, 'c, 'm, 't) any_driver \<Rightarrow> 'o \<Rightarrow>
   child \<times> ('r, 's, 'c, 'm, 't) any_driver \<times> 'o" where
  "child_close_stdin Z os c d s =
     (case ci_stdin c of
        None \<Rightarrow> (c, d, s)
      | Some st \<Rightarrow> (case child_stdio_drop Z os st d s of (d, s) \<Rightarrow> (c\<lparr>ci_stdin := None\<rparr>, d, s)))"

text \<open>\<open>Child::wait\<close> up to its first suspension: the future it goes on with, or the error.\<close>

definition child_wait ::
  "('r, 's, 'c, 'm, 't) op_env \<Rightarrow> ('o, 'x) std_sys_scheme \<Rightarrow> child \<Rightarrow> ('r, 's, 'c, 'm, 't) any_driver \<Rightarrow> 'o \<Rightarrow>
   child \<times> ('r, 's, 'c, 'm, 't) any_driver \<times> 'o \<times> wait_fut io_result" where
  "child_wait Z os c d s =
     (case child_close_stdin Z os c d s of
        (c, d, s) \<Rightarrow>
          (case child_take_inner c of
             (c, Inl err) \<Rightarrow> (c, d, s, Inl err)
           | (c, Inr pid) \<Rightarrow> (c, d, s, Inr (WaitFind pid FindStart))))"

definition stdio_field_drop ::
  "('r, 's, 'c, 'm, 't) op_env \<Rightarrow> ('o, 'x) std_sys_scheme \<Rightarrow> child_stdio option \<Rightarrow>
   ('r, 's, 'c, 'm, 't) any_driver \<times> 'o \<Rightarrow> ('r, 's, 'c, 'm, 't) any_driver \<times> 'o" where
  "stdio_field_drop Z os st ds = (case st of None \<Rightarrow> ds | Some st \<Rightarrow> child_stdio_drop Z os st (fst ds) (snd ds))"

definition child_drop ::
  "('r, 's, 'c, 'm, 't) op_env \<Rightarrow> ('o, 'x) std_sys_scheme \<Rightarrow> (nat \<Rightarrow> int option io_result) \<Rightarrow> child \<Rightarrow>
   ('r, 's, 'c, 'm, 't) any_driver \<Rightarrow> 'o \<Rightarrow> ('d, 'tm) current_runtime \<Rightarrow> proc_world \<Rightarrow>
   (('r, 's, 'c, 'm, 't) any_driver \<times> 'o \<times> ('d, 'tm) current_runtime \<times> proc_world) option" where
  "child_drop Z os try_wait c d s cell w =
     (case child_close_stdin Z os c d s of
        (c, d, s) \<Rightarrow>
          (case (case ci_inner c of None \<Rightarrow> Some (cell, w) | Some pid \<Rightarrow> reap_on_drop (try_wait pid) pid cell w) of
             None \<Rightarrow> None
           | Some (cell, w) \<Rightarrow>
               (case stdio_field_drop Z os (ci_stderr c) (stdio_field_drop Z os (ci_stdout c) (d, s)) of
                  (d, s) \<Rightarrow> Some (d, s, cell, w))))"

subsection \<open>\<open>Command\<close>\<close>

text \<open>The standard library's builder is a value of type \<open>'k\<close>; the methods that configure it are functions on it.\<close>

record 'k command =
  cm_inner :: "'k option"

definition command_consumed_error :: io_error where "command_consumed_error = Custom InvalidInput"

definition command_new :: "'k \<Rightarrow> 'k command" where
  "command_new k = \<lparr>cm_inner = Some k\<rparr>"

definition command_with :: "('k \<Rightarrow> 'k) \<Rightarrow> 'k command \<Rightarrow> 'k command option" where
  "command_with f c = (case cm_inner c of None \<Rightarrow> None | Some k \<Rightarrow> Some (c\<lparr>cm_inner := Some (f k)\<rparr>))"

definition command_spawn ::
  "('r, 's, 'c, 'm, 't) op_env \<Rightarrow> ('o, 'x) std_sys_scheme \<Rightarrow>
   ('k \<Rightarrow> 'o \<Rightarrow> 'o \<times> (nat \<times> int option \<times> int option \<times> int option) io_result) \<Rightarrow> 'k command \<Rightarrow>
   ('r, 's, 'c, 'm, 't) any_driver option \<Rightarrow> 'o \<Rightarrow> ('r, 's, 'c, 'm, 't) any_driver option \<times> 'o \<times> child io_result" where
  "command_spawn Z os std_spawn c current s =
     (case cm_inner c of
        None \<Rightarrow> (current, s, Inl command_consumed_error)
      | Some k \<Rightarrow>
          (case std_spawn k s of
             (s, Inl err) \<Rightarrow> (current, s, Inl err)
           | (s, Inr (pid, fd0, fd1, fd2)) \<Rightarrow> child_from_std Z os pid fd0 fd1 fd2 current s))"

text \<open>\<open>status\<close> and \<open>output\<close>.\<close>

definition command_run ::
  "('d, 't) current_runtime \<Rightarrow> ('o \<Rightarrow> bool) \<Rightarrow> ('k \<Rightarrow> 'o \<Rightarrow> 'o \<times> 'a io_result) \<Rightarrow> 'k command \<Rightarrow> 'o \<Rightarrow>
   ('k command \<times> 'o \<times> 'a io_result) option" where
  "command_run cell pool call c s =
     (case current_driver cell of
        None \<Rightarrow> None
      | Some (Some _) \<Rightarrow>
          (case cm_inner c of
             None \<Rightarrow> Some (c, s, Inl command_consumed_error)
           | Some k \<Rightarrow>
               (case pool_call cell pool blocking_pool_io_error call k s of
                  None \<Rightarrow> None
                | Some (s, res, k) \<Rightarrow> Some (c\<lparr>cm_inner := Some k\<rparr>, s, res)))
      | Some None \<Rightarrow>
          (case cm_inner c of
             None \<Rightarrow> None
           | Some k \<Rightarrow> (case call k s of (s, res) \<Rightarrow> Some (c, s, res))))"

definition command_status ::
  "('d, 't) current_runtime \<Rightarrow> ('o \<Rightarrow> bool) \<Rightarrow> ('k \<Rightarrow> 'o \<Rightarrow> 'o \<times> int io_result) \<Rightarrow> 'k command \<Rightarrow> 'o \<Rightarrow>
   ('k command \<times> 'o \<times> int io_result) option" where
  "command_status cell pool status c s = command_run cell pool status c s"

definition command_output ::
  "('d, 't) current_runtime \<Rightarrow> ('o \<Rightarrow> bool) \<Rightarrow> ('k \<Rightarrow> 'o \<Rightarrow> 'o \<times> (int \<times> bytes \<times> bytes) io_result) \<Rightarrow> 'k command \<Rightarrow> 'o \<Rightarrow>
   ('k command \<times> 'o \<times> (int \<times> bytes \<times> bytes) io_result) option" where
  "command_output cell pool run c s = command_run cell pool run c s"

definition command_into_std :: "'k command \<Rightarrow> 'k option" where
  "command_into_std c = cm_inner c"

subsection \<open>The system\<close>

text \<open>
  The handles of a program with the wait each may have going, the thread-local and the channels to reapers.
  A step is a call of the code, the run of the task that starts a reaper, or a receive of a reaper; the
  outcomes of system calls and the state of the driver are arbitrary. \<open>sy_spawned\<close> and \<open>sy_cancelled\<close>
  are ghosts: the children spawned, and those inside of a wait that was dropped.
\<close>

record ('d, 't) proc_sys =
  sy_cell :: "('d, 't) current_runtime"
  sy_world :: proc_world
  sy_handles :: "(child \<times> wait_fut option) option list"
  sy_spawned :: "nat list"
  sy_cancelled :: "nat list"

definition fut_child :: "wait_fut option \<Rightarrow> nat list" where
  "fut_child st = (case st of Some (WaitFind child f) \<Rightarrow> [child] | _ \<Rightarrow> [])"

definition handle_children :: "(child \<times> wait_fut option) option \<Rightarrow> nat list" where
  "handle_children h =
     (case h of None \<Rightarrow> [] | Some (c, st) \<Rightarrow> (case ci_inner c of None \<Rightarrow> [] | Some pid \<Rightarrow> [pid]) @ fut_child st)"

definition queued :: "proc_world \<Rightarrow> nat list" where
  "queued w = concat (map (map fst \<circ> rc_queue) (pw_channels w))"

definition whereabouts :: "proc_world \<Rightarrow> nat list" where
  "whereabouts w = queued w @ pw_taken w @ pw_threads w @ pw_reaped w @ pw_lost w"

definition held :: "('d, 't) proc_sys \<Rightarrow> nat list" where
  "held S = concat (map handle_children (sy_handles S))"

definition proc_init :: "('d, 't) current_runtime \<Rightarrow> ('d, 't) proc_sys" where
  "proc_init cell = \<lparr>sy_cell = cell,
     sy_world = \<lparr>pw_channels = [], pw_starting = 0, pw_next = 0, pw_taken = [], pw_threads = [], pw_reaped = [], pw_lost = []\<rparr>,
     sy_handles = [], sy_spawned = [], sy_cancelled = []\<rparr>"

inductive proc_step ::
  "('r, 's, 'c, 'm, 't) op_env \<Rightarrow> ('o, 'x) std_sys_scheme \<Rightarrow> ('d, 'tm) proc_sys \<Rightarrow> ('d, 'tm) proc_sys \<Rightarrow> bool" for Z os where
  step_spawn:
    "pid \<notin> set (sy_spawned S) \<Longrightarrow> child_from_std Z os pid fd0 fd1 fd2 current s = (current', s', Inr c) \<Longrightarrow>
     proc_step Z os S (S\<lparr>sy_handles := sy_handles S @ [Some (c, None)], sy_spawned := sy_spawned S @ [pid]\<rparr>)"
| step_wait:
    "i < length (sy_handles S) \<Longrightarrow> sy_handles S ! i = Some (c, None) \<Longrightarrow> child_wait Z os c d s = (c', d', s', res) \<Longrightarrow>
     proc_step Z os S (S\<lparr>sy_handles := (sy_handles S)[i := Some (c', case res of Inl _ \<Rightarrow> None | Inr st \<Rightarrow> Some st)]\<rparr>)"
| step_poll:
    "i < length (sy_handles S) \<Longrightarrow> sy_handles S ! i = Some (c, Some st) \<Longrightarrow>
     (\<forall>ch. started = Some ch \<longrightarrow> ch < length (pw_channels (sy_world S))) \<Longrightarrow>
     reaper_wait_poll started direct recv st (sy_cell S) (sy_world S) = Some (st', cell, w, p) \<Longrightarrow>
     proc_step Z os S (S\<lparr>sy_cell := cell, sy_world := w,
       sy_handles := (sy_handles S)[i := Some (c, case p of Pending \<Rightarrow> Some st' | Ready _ \<Rightarrow> None)]\<rparr>)"
| step_cancel:
    "i < length (sy_handles S) \<Longrightarrow> sy_handles S ! i = Some (c, Some st) \<Longrightarrow>
     proc_step Z os S (S\<lparr>sy_world := wait_drop st (sy_world S), sy_handles := (sy_handles S)[i := Some (c, None)],
       sy_cancelled := sy_cancelled S @ fut_child (Some st)\<rparr>)"
| step_drop:
    "i < length (sy_handles S) \<Longrightarrow> sy_handles S ! i = Some (c, None) \<Longrightarrow>
     child_drop Z os try_wait c d s (sy_cell S) (sy_world S) = Some (d', s', cell, w) \<Longrightarrow>
     proc_step Z os S (S\<lparr>sy_cell := cell, sy_world := w, sy_handles := (sy_handles S)[i := None]\<rparr>)"
| step_start:
    "0 < pw_starting (sy_world S) \<Longrightarrow> start_zombie_reaper (sy_world S) = (w, ch) \<Longrightarrow>
     proc_step Z os S (S\<lparr>sy_world := w\<rparr>)"
| step_receive:
    "proc_step Z os S (S\<lparr>sy_world := reaper_receive ch (sy_world S)\<rparr>)"

subsection \<open>Nobody loses a child\<close>

lemma mset_concat_update:
  "i < length xs \<Longrightarrow> mset (concat (map f (xs[i := y]))) + mset (f (xs ! i)) = mset (concat (map f xs)) + mset (f y)"
proof (induction xs arbitrary: i)
  case (Cons x xs)
  then show ?case
    by (cases i) (simp_all add: add.assoc add.left_commute)
qed simp

text \<open>Every channel is open, and the current one exists.\<close>

definition channels_ok :: "('d, 't) current_runtime \<Rightarrow> proc_world \<Rightarrow> bool" where
  "channels_ok cell w \<longleftrightarrow> (\<forall>ch \<in> set (pw_channels w). rc_open ch) \<and>
     (case rc_value cell of
        None \<Rightarrow> True
      | Some inner \<Rightarrow> (case ri_zombie_reaper inner of None \<Rightarrow> True | Some ch \<Rightarrow> ch < length (pw_channels w)))"

lemma send_message_ok:
  assumes "channels_ok cell w" and "ch < length (pw_channels w)"
  shows "mset (whereabouts (send_message ch msg w)) = add_mset (fst msg) (mset (whereabouts w))"
    "pw_lost (send_message ch msg w) = pw_lost w" "channels_ok cell (send_message ch msg w)"
proof -
  have op: "rc_open (pw_channels w ! ch)"
    using assms by (simp add: channels_ok_def)
  let ?y = "(pw_channels w ! ch)\<lparr>rc_queue := rc_queue (pw_channels w ! ch) @ [msg]\<rparr>"
  show "mset (whereabouts (send_message ch msg w)) = add_mset (fst msg) (mset (whereabouts w))"
    using mset_concat_update [OF assms(2), of "map fst \<circ> rc_queue" ?y] op assms(2)
    by (simp add: send_message_def whereabouts_def queued_def)
  show "pw_lost (send_message ch msg w) = pw_lost w"
    using op assms(2) by (simp add: send_message_def)
  show "channels_ok cell (send_message ch msg w)"
    using op assms set_update_subset_insert [of "pw_channels w" ch ?y]
    by (auto simp: send_message_def channels_ok_def split: option.splits)
qed

lemma whereabouts_next [simp]:
  "whereabouts (w\<lparr>pw_next := n\<rparr>) = whereabouts w" "whereabouts (w\<lparr>pw_starting := n\<rparr>) = whereabouts w"
  "channels_ok cell (w\<lparr>pw_next := n\<rparr>) = channels_ok cell w" "channels_ok cell (w\<lparr>pw_starting := n\<rparr>) = channels_ok cell w"
  by (simp_all add: whereabouts_def queued_def channels_ok_def split: option.split)

lemma whereabouts_add [simp]:
  "mset (whereabouts (w\<lparr>pw_threads := pw_threads w @ [c]\<rparr>)) = add_mset c (mset (whereabouts w))"
  "mset (whereabouts (w\<lparr>pw_reaped := pw_reaped w @ [c]\<rparr>)) = add_mset c (mset (whereabouts w))"
  "mset (whereabouts (w\<lparr>pw_lost := pw_lost w @ [c]\<rparr>)) = add_mset c (mset (whereabouts w))"
  "channels_ok cell (w\<lparr>pw_threads := xs\<rparr>) = channels_ok cell w"
  "channels_ok cell (w\<lparr>pw_reaped := xs\<rparr>) = channels_ok cell w"
  "channels_ok cell (w\<lparr>pw_lost := xs\<rparr>) = channels_ok cell w"
  by (simp_all add: whereabouts_def queued_def channels_ok_def split: option.split)

lemma current_zombie_reaper_ok:
  assumes "current_zombie_reaper started f cell w = Some (f', cell', w', p)" and "channels_ok cell w"
    and "\<And>ch. started = Some ch \<Longrightarrow> ch < length (pw_channels w)"
  shows "channels_ok cell' w'" "whereabouts w' = whereabouts w" "pw_lost w' = pw_lost w"
    "p = Ready (Some ch) \<Longrightarrow> ch < length (pw_channels w')"
  using assms
  by (auto simp: current_zombie_reaper_def channels_ok_def try_borrow_def whereabouts_def queued_def
      split: find_reaper.splits option.splits if_splits)

lemma reaper_wait_poll_ok:
  assumes "reaper_wait_poll started direct recv st cell w = Some (st', cell', w', p)" and "channels_ok cell w"
    and "\<And>ch. started = Some ch \<Longrightarrow> ch < length (pw_channels w)"
  shows "mset (whereabouts w') + mset (fut_child (case p of Pending \<Rightarrow> Some st' | Ready _ \<Rightarrow> None)) =
      mset (whereabouts w) + mset (fut_child (Some st))"
    and "channels_ok cell' w'" and "pw_lost w' = pw_lost w"
proof -
  have answer: "fut_child (case p of Pending \<Rightarrow> Some st' | Ready _ \<Rightarrow> None) = []" if "answer_poll recv s = (st', p)" for s
    using that by (auto simp: answer_poll_def fut_child_def split: option.splits)
  have "mset (whereabouts w') + mset (fut_child (case p of Pending \<Rightarrow> Some st' | Ready _ \<Rightarrow> None)) =
      mset (whereabouts w) + mset (fut_child (Some st)) \<and> channels_ok cell' w' \<and> pw_lost w' = pw_lost w"
  proof (cases st)
    case (WaitFind child f)
    then obtain f1 cell1 w1 q where f: "current_zombie_reaper started f cell w = Some (f1, cell1, w1, q)"
      using assms(1) by (auto simp: reaper_wait_poll_def split: option.splits)
    note ok = current_zombie_reaper_ok [OF f assms(2,3)]
    show ?thesis
    proof (cases q)
      case Pending
      then show ?thesis
        using assms(1) WaitFind f ok by (auto simp: reaper_wait_poll_def fut_child_def)
    next
      case (Ready found)
      show ?thesis
      proof (cases found)
        case None
        then show ?thesis
          using assms(1) WaitFind f ok Ready
          by (auto simp: reaper_wait_poll_def fut_child_def)
      next
        case (Some ch)
        then have lt: "ch < length (pw_channels (w1\<lparr>pw_next := Suc (pw_next w1)\<rparr>))"
          using ok(4) Ready by simp
        have w': "w' = send_message ch (child, Some (pw_next w1)) (w1\<lparr>pw_next := Suc (pw_next w1)\<rparr>)" "cell' = cell1"
          and "answer_poll recv (pw_next w1) = (st', p)"
          using assms(1) WaitFind f Ready Some by (auto simp: reaper_wait_poll_def Let_def split: prod.splits)
        then show ?thesis
          using send_message_ok [OF _ lt, of cell1] ok WaitFind answer
          by (simp add: fut_child_def)
      qed
    qed
  next
    case (WaitAnswer s)
    then have "answer_poll recv s = (st', p)" "cell' = cell" "w' = w"
      using assms(1) by (auto simp: reaper_wait_poll_def split: prod.splits)
    then show ?thesis
      using WaitAnswer answer assms(2) by (simp add: fut_child_def)
  next
    case WaitDone
    then show ?thesis
      using assms(1) by (simp add: reaper_wait_poll_def)
  qed
  then show "mset (whereabouts w') + mset (fut_child (case p of Pending \<Rightarrow> Some st' | Ready _ \<Rightarrow> None)) =
      mset (whereabouts w) + mset (fut_child (Some st))"
    and "channels_ok cell' w'" and "pw_lost w' = pw_lost w"
    by simp_all
qed

lemma reap_on_drop_ok:
  assumes "reap_on_drop try_wait child cell w = Some (cell', w')" and "channels_ok cell w"
  shows "mset (whereabouts w') = add_mset child (mset (whereabouts w))" "channels_ok cell' w'" "pw_lost w' = pw_lost w"
proof -
  have "mset (whereabouts w') = add_mset child (mset (whereabouts w)) \<and> channels_ok cell' w' \<and> pw_lost w' = pw_lost w"
  proof (cases "case try_wait of Inr (Some _) \<Rightarrow> True | _ \<Rightarrow> False")
    case True
    then show ?thesis
      using assms by (auto simp: reap_on_drop_def)
  next
    case False
    then obtain f1 cell1 w1 q where f: "current_zombie_reaper None FindStart cell w = Some (f1, cell1, w1, q)"
      using assms(1) by (auto simp: reap_on_drop_def split: option.splits)
    note ok = current_zombie_reaper_ok [OF f assms(2), simplified]
    show ?thesis
    proof (cases "\<exists>ch. q = Ready (Some ch)")
      case True
      then obtain ch where ch: "q = Ready (Some ch)"
        by blast
      have "w' = send_message ch (child, Some (pw_next w1)) (w1\<lparr>pw_next := Suc (pw_next w1)\<rparr>)" "cell' = cell1"
        using assms(1) False f ch by (auto simp: reap_on_drop_def)
      moreover have "ch < length (pw_channels (w1\<lparr>pw_next := Suc (pw_next w1)\<rparr>))"
        using ok(4) ch by simp
      ultimately show ?thesis
        using send_message_ok [of cell1 "w1\<lparr>pw_next := Suc (pw_next w1)\<rparr>" ch] ok by simp
    next
      case none: False
      then have "cell' = cell1" "w' = w1\<lparr>pw_threads := pw_threads w1 @ [child]\<rparr>"
        using assms(1) False f by (auto simp: reap_on_drop_def split: poll.splits option.splits)
      then show ?thesis
        using ok by simp
    qed
  qed
  then show "mset (whereabouts w') = add_mset child (mset (whereabouts w))" "channels_ok cell' w'" "pw_lost w' = pw_lost w"
    by simp_all
qed

lemma child_stdio_from_std_total:
  "\<exists>current' s' st. child_stdin_from_std Z os fd current s = (current', s', Inr st)"
  "\<exists>current' s' st. child_stdout_from_std Z os fd current s = (current', s', Inr st)"
  "\<exists>current' s' st. child_stderr_from_std Z os fd current s = (current', s', Inr st)"
  by (auto simp: child_stdin_from_std_def child_stdout_from_std_def child_stderr_from_std_def split: prod.splits)

lemma pipe_from_std_total:
  assumes "\<And>fd current s. \<exists>current' s' st. f fd current s = (current', s', Inr st)"
  shows "\<exists>current' s' st. pipe_from_std (map_option f fd) current s = (current', s', Inr st)"
proof (cases fd)
  case (Some x)
  from assms [of x current s] obtain current' s' st where "f x current s = (current', s', Inr st)"
    by blast
  with Some show ?thesis
    by (simp add: pipe_from_std_def)
qed (simp add: pipe_from_std_def)

lemma child_from_std_total:
  "\<exists>current' s' c. child_from_std Z os pid fd0 fd1 fd2 current s = (current', s', Inr c)"
proof -
  obtain c0 s0 st0 where "pipe_from_std (map_option (child_stdin_from_std Z os) fd0) current s = (c0, s0, Inr st0)"
    using pipe_from_std_total [of "child_stdin_from_std Z os" fd0 current s, OF child_stdio_from_std_total(1)] by blast
  moreover obtain c1 s1 st1 where "pipe_from_std (map_option (child_stdout_from_std Z os) fd1) c0 s0 = (c1, s1, Inr st1)"
    using pipe_from_std_total [of "child_stdout_from_std Z os" fd1 c0 s0, OF child_stdio_from_std_total(2)] by blast
  moreover obtain c2 s2 st2 where "pipe_from_std (map_option (child_stderr_from_std Z os) fd2) c1 s1 = (c2, s2, Inr st2)"
    using pipe_from_std_total [of "child_stderr_from_std Z os" fd2 c1 s1, OF child_stdio_from_std_total(3)] by blast
  ultimately show ?thesis
    by (simp add: child_from_std_def)
qed

lemma child_from_std_inner:
  assumes "child_from_std Z os pid fd0 fd1 fd2 current s = (current', s', Inr c)"
  shows "ci_inner c = Some pid" "ci_id c = pid"
  using assms by (auto simp: child_from_std_def split: prod.splits sum.splits)

lemma child_close_stdin_inner: "child_close_stdin Z os c d s = (c', d', s') \<Longrightarrow> ci_inner c' = ci_inner c \<and> ci_stdin c' = None"
  by (auto simp: child_close_stdin_def split: option.splits prod.splits)

lemma child_wait_children:
  assumes "child_wait Z os c d s = (c', d', s', res)"
  shows "handle_children (Some (c', case res of Inl _ \<Rightarrow> None | Inr st \<Rightarrow> Some st)) = handle_children (Some (c, None))"
    "ci_stdin c' = None" "ci_inner c' = None"
  using assms
  by (auto simp: child_wait_def child_take_inner_def handle_children_def fut_child_def
      split: prod.splits option.splits dest!: child_close_stdin_inner)

lemma child_drop_ok:
  assumes "child_drop Z os try_wait c d s cell w = Some (d', s', cell', w')" and "channels_ok cell w"
  shows "mset (whereabouts w') = mset (whereabouts w) + mset (handle_children (Some (c, None)))"
    "channels_ok cell' w'" "pw_lost w' = pw_lost w"
proof -
  obtain c1 d1 s1 where 1: "child_close_stdin Z os c d s = (c1, d1, s1)"
    by (metis prod_cases3)
  have inner: "ci_inner c1 = ci_inner c"
    using child_close_stdin_inner [OF 1] by simp
  have "mset (whereabouts w') = mset (whereabouts w) + mset (handle_children (Some (c, None))) \<and>
    channels_ok cell' w' \<and> pw_lost w' = pw_lost w"
  proof (cases "ci_inner c")
    case None
    then show ?thesis
      using assms 1 inner by (auto simp: child_drop_def handle_children_def fut_child_def split: prod.splits)
  next
    case (Some pid)
    then have "reap_on_drop (try_wait pid) pid cell w = Some (cell', w')"
      using assms(1) 1 inner by (auto simp: child_drop_def split: prod.splits option.splits)
    from reap_on_drop_ok [OF this assms(2)] Some show ?thesis
      by (simp add: handle_children_def fut_child_def)
  qed
  then show "mset (whereabouts w') = mset (whereabouts w) + mset (handle_children (Some (c, None)))"
    "channels_ok cell' w'" "pw_lost w' = pw_lost w"
    by simp_all
qed

lemma wait_drop_ok:
  "mset (whereabouts (wait_drop st w)) = mset (whereabouts w) + mset (fut_child (Some st))"
  "channels_ok cell (wait_drop st w) = channels_ok cell w"
  "pw_lost (wait_drop st w) = pw_lost w @ fut_child (Some st)"
  by (cases st; simp add: wait_drop_def fut_child_def)+

lemma start_zombie_reaper_ok:
  assumes "start_zombie_reaper w = (w', ch)" and "channels_ok cell w"
  shows "whereabouts w' = whereabouts w" "channels_ok cell w'" "pw_lost w' = pw_lost w"
  using assms by (auto simp: start_zombie_reaper_def whereabouts_def queued_def channels_ok_def split: option.splits)

lemma reaper_receive_ok:
  assumes "channels_ok cell w"
  shows "mset (whereabouts (reaper_receive ch w)) = mset (whereabouts w)" "channels_ok cell (reaper_receive ch w)"
    "pw_lost (reaper_receive ch w) = pw_lost w"
proof -
  have "mset (whereabouts (reaper_receive ch w)) = mset (whereabouts w) \<and> channels_ok cell (reaper_receive ch w) \<and>
    pw_lost (reaper_receive ch w) = pw_lost w"
  proof (cases "ch < length (pw_channels w) \<and> rc_queue (pw_channels w ! ch) \<noteq> []")
    case True
    then obtain msg msgs where m: "rc_queue (pw_channels w ! ch) = msg # msgs"
      by (cases "rc_queue (pw_channels w ! ch)") auto
    let ?y = "(pw_channels w ! ch)\<lparr>rc_queue := msgs\<rparr>"
    have "rc_open (pw_channels w ! ch)"
      using assms True by (simp add: channels_ok_def)
    then show ?thesis
      using mset_concat_update [of ch "pw_channels w" "map fst \<circ> rc_queue" ?y] True m assms
        set_update_subset_insert [of "pw_channels w" ch ?y]
      by (auto simp: reaper_receive_def whereabouts_def queued_def channels_ok_def split: option.splits)
  next
    case False
    then have "reaper_receive ch w = w"
      by (auto simp: reaper_receive_def split: list.split)
    with assms show ?thesis
      by simp
  qed
  then show "mset (whereabouts (reaper_receive ch w)) = mset (whereabouts w)" "channels_ok cell (reaper_receive ch w)"
    "pw_lost (reaper_receive ch w) = pw_lost w"
    by simp_all
qed

definition proc_inv :: "('d, 't) proc_sys \<Rightarrow> bool" where
  "proc_inv S \<longleftrightarrow>
     mset (held S) + mset (whereabouts (sy_world S)) = mset (sy_spawned S) \<and> distinct (sy_spawned S) \<and>
     channels_ok (sy_cell S) (sy_world S) \<and> pw_lost (sy_world S) = sy_cancelled S"

lemma held_update:
  assumes "i < length (sy_handles S)"
  shows "mset (held (S\<lparr>sy_handles := (sy_handles S)[i := h]\<rparr>)) + mset (handle_children (sy_handles S ! i)) =
    mset (held S) + mset (handle_children h)"
  using mset_concat_update [OF assms, of handle_children h] by (simp add: held_def)

lemma mset_exchange:
  assumes "M + y = N + x" and "W + x = V + (y :: 'a multiset)"
  shows "M + W = N + V"
proof -
  have "(M + y) + (W + x) = (N + x) + (V + y)"
    using assms by simp
  then show ?thesis
    by (simp add: ac_simps)
qed

lemma proc_step_inv: "proc_step Z os S S' \<Longrightarrow> proc_inv S \<Longrightarrow> proc_inv S'"
proof (induction rule: proc_step.induct)
  case (step_spawn pid S fd0 fd1 fd2 current s current' s' c)
  then show ?case
    using child_from_std_inner [OF step_spawn(2)]
    by (auto simp: proc_inv_def held_def handle_children_def fut_child_def)
next
  case (step_wait i S c d s c' d' s' res)
  then show ?case
    using held_update [OF step_wait(1), of "Some (c', case res of Inl _ \<Rightarrow> None | Inr st \<Rightarrow> Some st)"]
      child_wait_children(1) [OF step_wait(3)]
    by (simp add: proc_inv_def)
next
  case (step_poll i S c st started direct recv st' cell w p)
  then have "channels_ok (sy_cell S) (sy_world S)"
    by (simp add: proc_inv_def)
  note ok = reaper_wait_poll_ok [OF step_poll(4) this] step_poll(3)
  let ?h = "Some (c, case p of Pending \<Rightarrow> Some st' | Ready _ \<Rightarrow> None)"
  have "mset (held (S\<lparr>sy_handles := (sy_handles S)[i := ?h]\<rparr>)) + mset (whereabouts w) =
      mset (held S) + mset (whereabouts (sy_world S))"
  proof (rule mset_exchange)
    show "mset (held (S\<lparr>sy_handles := (sy_handles S)[i := ?h]\<rparr>)) + mset (fut_child (Some st)) =
        mset (held S) + mset (fut_child (case p of Pending \<Rightarrow> Some st' | Ready _ \<Rightarrow> None))"
      using held_update [OF step_poll(1), of ?h] step_poll(2) by (simp add: handle_children_def)
  qed (use ok in simp)
  then show ?case
    using ok step_poll(5) by (simp add: proc_inv_def held_def)
next
  case (step_cancel i S c st)
  have "mset (held (S\<lparr>sy_handles := (sy_handles S)[i := Some (c, None)]\<rparr>)) + mset (fut_child (Some st)) = mset (held S)"
    using held_update [OF step_cancel(1), of "Some (c, None)"] step_cancel(2)
    by (simp add: handle_children_def) (simp add: fut_child_def)
  then have "mset (held (S\<lparr>sy_handles := (sy_handles S)[i := Some (c, None)]\<rparr>)) + mset (whereabouts (wait_drop st (sy_world S))) =
      mset (held S) + mset (whereabouts (sy_world S))"
    using mset_exchange [of _ "mset (fut_child (Some st))" "mset (held S)" "{#}"] by (simp add: wait_drop_ok)
  then show ?case
    using step_cancel(3) by (simp add: proc_inv_def held_def wait_drop_ok(2,3))
next
  case (step_drop i S c try_wait d s d' s' cell w)
  then have "channels_ok (sy_cell S) (sy_world S)"
    by (simp add: proc_inv_def)
  note ok = child_drop_ok [OF step_drop(3) this]
  have "mset (held (S\<lparr>sy_handles := (sy_handles S)[i := None]\<rparr>)) + mset (whereabouts w) =
      mset (held S) + mset (whereabouts (sy_world S))"
  proof (rule mset_exchange)
    show "mset (held (S\<lparr>sy_handles := (sy_handles S)[i := None]\<rparr>)) + mset (handle_children (Some (c, None))) =
        mset (held S) + {#}"
      using held_update [OF step_drop(1), of None] step_drop(2) by (simp add: handle_children_def [of None])
  qed (use ok in simp)
  then show ?case
    using ok(2,3) step_drop(4) by (simp add: proc_inv_def held_def)
next
  case (step_start S w ch)
  then show ?case
    using start_zombie_reaper_ok [OF step_start(2)] by (auto simp: proc_inv_def held_def)
next
  case (step_receive S ch)
  then show ?case
    using reaper_receive_ok by (fastforce simp: proc_inv_def held_def)
qed

lemma proc_init_inv:
  assumes "rc_value cell = Some inner" and "ri_zombie_reaper inner = None"
  shows "proc_inv (proc_init cell)"
  using assms by (simp add: proc_inv_def proc_init_def held_def whereabouts_def queued_def channels_ok_def)

text \<open>A wait that is dropped before it has found the reaper loses its child, which nobody will wait for.\<close>

lemma cancelled_wait_loses_child:
  assumes "ci_inner c = Some pid" and "child_wait Z os c d s = (c', d', s', Inr st)"
    and "rc_value cell = Some inner" and "rc_borrow cell = Unborrowed" and "ri_zombie_reaper inner = None"
    and "reaper_wait_poll None direct recv st cell w = Some (st', cell', w', p)"
  shows "p = Pending \<and> pw_lost (wait_drop st' w') = pw_lost w @ [pid] \<and> child_try_wait tw c' = Inl child_consumed_error"
proof -
  have "st = WaitFind pid FindStart" "ci_inner c' = None"
    using assms(1,2) by (auto simp: child_wait_def child_take_inner_def split: prod.splits option.splits
        dest!: child_close_stdin_inner)
  then show ?thesis
    using assms(3-) by (auto simp: reaper_wait_poll_def current_zombie_reaper_def try_borrow_def wait_drop_def
        child_try_wait_def child_inner_mut_def)
qed

text \<open>After a wait the handle is spent: its input is closed and every further call is refused.\<close>

lemma child_after_wait:
  assumes "child_wait Z os c d s = (c', d', s', res)"
  shows "ci_stdin c' = None" "child_kill kill c' = Inl child_consumed_error" "child_try_wait tw c' = Inl child_consumed_error"
    "\<exists>d2 s2. child_wait Z os c' d' s' = (c', d2, s2, Inl child_consumed_error)"
  using child_wait_children(2,3) [OF assms]
  by (simp_all add: child_kill_def child_try_wait_def child_inner_mut_def child_wait_def child_close_stdin_def
      child_take_inner_def)

text \<open>A command is given back by every call that borrows it.\<close>

lemma command_run_restores:
  assumes "blocking_ready cell" and "cm_inner c = Some k"
  shows "command_run cell pool call c s =
    (case blocking_outcome cell pool (call k) s of (s, res) \<Rightarrow> Some (c, s, res))"
  using assms(2)
  by (cases rule: blocking_ready_cases [OF assms(1)])
    (auto simp: command_run_def blocking_outcome_def pool_call_eq split: prod.split)

text \<open>
  The drop of a runtime: a child that has not exited, owned by a task that is dropped with it, asks
  the borrowed thread-local for the reaper, and the drop panics.
\<close>

lemma runtime_drop_child_panics:
  assumes "idle cell" and "rc_value cell = None" and "ci_inner c = Some pid" and "try_wait pid = Inr None"
  shows "runtime_drop close
     [\<lambda>cell w. map_option (\<lambda>(d, s, cell, w). w) (child_drop Z os try_wait c d s cell w)] (Some inner) cell w = None"
proof -
  obtain c1 d1 s1 where 1: "child_close_stdin Z os c d s = (c1, d1, s1)"
    by (metis prod_cases3)
  then have "ci_inner c1 = Some pid"
    using child_close_stdin_inner assms(3) by metis
  then show ?thesis
    using 1 assms(4)
    by (simp add: runtime_drop_destructors [OF assms(1,2)] child_drop_def reap_on_drop_def current_zombie_reaper_def
        try_borrow_def)
qed

text \<open>
  An operation in flight that is dropped with the runtime does not find the driver: the driver is not
  told to keep its buffer, although the kernel may still write to it.
\<close>

lemma runtime_drop_forgets_buffer:
  assumes "idle cell" and "rc_value cell = None"
  shows "runtime_drop close [\<lambda>cell d. Some (case drop_buf Z op (try_current_driver cell) of None \<Rightarrow> d | Some d \<Rightarrow> d)]
     (Some inner) cell d =
     Some (cell, case ri_zombie_reaper inner of None \<Rightarrow> d | Some ch \<Rightarrow> close ch d)"
  by (simp add: runtime_drop_destructors [OF assms] drop_buf_def drop_completion_def split: option.split)

subsection \<open>Properties\<close>



text \<open>
  C21: the reaper on pidfds answers every wait exactly once: of a channel that came in with a child, either
  there is exactly one answer or the task for its child is still waiting, and not both,
  whatever \<open>try_wait\<close> reported and in whatever order the tasks ended.
\<close>
theorem pidfd_reaper_answers_once:
  assumes "distinct (msg_channels (concat (map pidfd_incoming es)))"
    and "ch \<in> set (msg_channels (concat (map pidfd_incoming es)))"
    and "zombie_reaper_fn_linux_pidfd es \<lparr>rp_processes = [], rp_sent = []\<rparr> = r"
  shows "(\<exists>!res. (ch, res) \<in> set (rp_sent r)) \<noteq> (\<exists>c. (c, Some ch) \<in> set (rp_processes r))"
  using pidfd_reaper.answered_once [OF assms(1,2) refl] assms(3) by (simp add: zombie_reaper_fn_linux_pidfd_def)

theorem pidfd_reaper_answers_once_witness:
  "\<exists>!res. (4, res) \<in> set (rp_sent (zombie_reaper_fn_linux_pidfd
     [(\<lambda>_. Inr None, PidfdChild (7, Some 4)), (\<lambda>_. Inr None, PidfdChild (8, Some 5)), (\<lambda>_. Inr None, TaskDone 0 (Inr 256))]
     \<lparr>rp_processes = [], rp_sent = []\<rparr>))"
  using pidfd_reaper_answers_once [of "[(\<lambda>_. Inr None, PidfdChild (7, Some 4)), (\<lambda>_. Inr None, PidfdChild (8, Some 5)),
      (\<lambda>_. Inr None, TaskDone 0 (Inr 256))]" 4, OF _ _ refl]
  by (simp add: zombie_reaper_fn_linux_pidfd_def msg_channels_def reap_process_def finish_task_def answer_def)

end
