(* ===== verification/Net_Udp.thy ===== *)
theory Net_Udp
  imports Stream_Io
begin

text \<open>
  The datagram calls of \<open>UdpSocket\<close> (\<open>net/udp/mod.rs\<close>) and \<open>PollUdpSocket\<close> (\<open>net/udp/poll.rs\<close>); binding, connecting,
  cloning and changing modes are in \<open>Net_Socket\<close>.

  An asynchronous call is its operation and the poll of its future, which gives the buffer back with
  the result. The outcome of the system call is an argument, as in \<open>Ops_Buffer\<close>. What is proved is what
  a caller relies on to be woken: a call that is pending has left its waker with the driver.
\<close>

subsection \<open>Operations\<close>

definition recv_methods ::
  "('r, 's, 'c, 'm, 't) op_env \<Rightarrow> int \<Rightarrow> int \<Rightarrow> (recv_op, ('r, 's, 'c, 'm, 't) any_driver, nat) op_methods" where
  "recv_methods Z ret errno =
     \<lparr>op_poll_completion = recv_poll_completion Z, op_poll_poll = recv_poll_poll Z ret errno\<rparr>"

definition send_methods ::
  "('r, 's, 'c, 'm, 't) op_env \<Rightarrow> int \<Rightarrow> int \<Rightarrow> (buf_op, ('r, 's, 'c, 'm, 't) any_driver, nat) op_methods" where
  "send_methods Z ret errno =
     \<lparr>op_poll_completion = send_poll_completion Z, op_poll_poll = send_poll_poll Z ret errno\<rparr>"

definition recvfrom_methods ::
  "('r, 's, 'c, 'm, 't) op_env \<Rightarrow> mem \<Rightarrow> int \<Rightarrow> int \<Rightarrow> sockaddr_storage \<Rightarrow>
   (recvfrom_op, ('r, 's, 'c, 'm, 't) any_driver, nat \<times> socket_addr) op_methods" where
  "recvfrom_methods Z fresh ret errno addr =
     \<lparr>op_poll_completion = recvfrom_poll_completion Z fresh addr, op_poll_poll = recvfrom_poll_poll Z ret errno addr\<rparr>"

definition sendto_methods ::
  "('r, 's, 'c, 'm, 't) op_env \<Rightarrow> mem \<Rightarrow> int \<Rightarrow> int \<Rightarrow> (sendto_op, ('r, 's, 'c, 'm, 't) any_driver, nat) op_methods" where
  "sendto_methods Z fresh ret errno =
     \<lparr>op_poll_completion = sendto_poll_completion Z fresh, op_poll_poll = sendto_poll_poll Z ret errno\<rparr>"

text \<open>\<open>(result, op.take_bufs())\<close> once the operation is ready.\<close>

definition with_bufs ::
  "'x buf_op_scheme \<times> 'dr \<times> 'a io_result poll \<Rightarrow> 'x buf_op_scheme \<times> 'dr \<times> ('a io_result \<times> io_buf) poll" where
  "with_bufs r =
     (case r of
        (op, d, Ready res) \<Rightarrow> (op, d, Ready (res, take_bufs op))
      | (op, d, Pending) \<Rightarrow> (op, d, Pending))"

subsection \<open>\<open>UdpSocket\<close>\<close>

definition udp_into_std ::
  "('r, 's, 'c, 'm, 't) op_env \<Rightarrow> socket \<Rightarrow> ('r, 's, 'c, 'm, 't) any_driver \<Rightarrow> ('r, 's, 'c, 'm, 't) any_driver \<times> int" where
  "udp_into_std Z k d = (handle_drop Z (so_handle k) d, so_inner k)"

definition udp_recv :: "('r, 's, 'c, 'm, 't) any_driver \<Rightarrow> socket \<Rightarrow> io_buf \<Rightarrow> recv_op" where
  "udp_recv d k buf = recv_new (uses_completion d (so_handle k)) (so_handle k) buf False"

definition udp_peek :: "('r, 's, 'c, 'm, 't) any_driver \<Rightarrow> socket \<Rightarrow> io_buf \<Rightarrow> recv_op" where
  "udp_peek d k buf = recv_new (uses_completion d (so_handle k)) (so_handle k) buf True"

definition udp_recv_poll ::
  "('r, 's, 'c, 'm, 't) op_env \<Rightarrow> int \<Rightarrow> int \<Rightarrow> waker \<Rightarrow> socket \<Rightarrow> recv_op \<Rightarrow> ('r, 's, 'c, 'm, 't) any_driver \<Rightarrow>
   recv_op \<times> ('r, 's, 'c, 'm, 't) any_driver \<times> (nat io_result \<times> io_buf) poll" where
  "udp_recv_poll Z ret errno w k op d = with_bufs (poll_op (recv_methods Z ret errno) (so_handle k) w op d)"

definition udp_recv_from :: "('r, 's, 'c, 'm, 't) any_driver \<Rightarrow> socket \<Rightarrow> io_buf \<Rightarrow> recvfrom_op" where
  "udp_recv_from d k buf = recvfrom_new (uses_completion d (so_handle k)) (so_handle k) buf False"

definition udp_peek_from :: "('r, 's, 'c, 'm, 't) any_driver \<Rightarrow> socket \<Rightarrow> io_buf \<Rightarrow> recvfrom_op" where
  "udp_peek_from d k buf = recvfrom_new (uses_completion d (so_handle k)) (so_handle k) buf True"

definition udp_recv_from_poll ::
  "('r, 's, 'c, 'm, 't) op_env \<Rightarrow> mem \<Rightarrow> int \<Rightarrow> int \<Rightarrow> sockaddr_storage \<Rightarrow> waker \<Rightarrow> socket \<Rightarrow> recvfrom_op \<Rightarrow>
   ('r, 's, 'c, 'm, 't) any_driver \<Rightarrow>
   recvfrom_op \<times> ('r, 's, 'c, 'm, 't) any_driver \<times> ((nat \<times> socket_addr) io_result \<times> io_buf) poll" where
  "udp_recv_from_poll Z fresh ret errno addr w k op d =
     with_bufs (poll_op (recvfrom_methods Z fresh ret errno addr) (so_handle k) w op d)"

definition udp_send :: "('r, 's, 'c, 'm, 't) any_driver \<Rightarrow> socket \<Rightarrow> io_buf \<Rightarrow> buf_op" where
  "udp_send d k buf = send_new (uses_completion d (so_handle k)) (so_handle k) buf"

definition udp_send_poll ::
  "('r, 's, 'c, 'm, 't) op_env \<Rightarrow> int \<Rightarrow> int \<Rightarrow> waker \<Rightarrow> socket \<Rightarrow> buf_op \<Rightarrow> ('r, 's, 'c, 'm, 't) any_driver \<Rightarrow>
   buf_op \<times> ('r, 's, 'c, 'm, 't) any_driver \<times> (nat io_result \<times> io_buf) poll" where
  "udp_send_poll Z ret errno w k op d = with_bufs (poll_op (send_methods Z ret errno) (so_handle k) w op d)"

subsection \<open>\<open>PollUdpSocket\<close>\<close>

text \<open>One poll on a slice of the caller: pointer and length.\<close>

definition poll_udp_recv ::
  "('r, 's, 'c, 'm, 't) op_env \<Rightarrow> int \<Rightarrow> int \<Rightarrow> waker \<Rightarrow> poll_socket \<Rightarrow> ptr \<Rightarrow> nat \<Rightarrow> ('r, 's, 'c, 'm, 't) any_driver \<Rightarrow>
   ('r, 's, 'c, 'm, 't) any_driver \<times> nat io_result poll" where
  "poll_udp_recv Z ret errno w p q len d =
     (let h = so_handle (po_stream p);
          op = recv_new (uses_completion d h) h (TemporaryPoll q len) False
      in case poll_op_poll (recv_methods Z ret errno) h w op d of (op, d, res) \<Rightarrow> (d, res))"

definition poll_udp_peek ::
  "('r, 's, 'c, 'm, 't) op_env \<Rightarrow> int \<Rightarrow> int \<Rightarrow> waker \<Rightarrow> poll_socket \<Rightarrow> ptr \<Rightarrow> nat \<Rightarrow> ('r, 's, 'c, 'm, 't) any_driver \<Rightarrow>
   ('r, 's, 'c, 'm, 't) any_driver \<times> nat io_result poll" where
  "poll_udp_peek Z ret errno w p q len d =
     (let h = so_handle (po_stream p);
          op = recv_new (uses_completion d h) h (TemporaryPoll q len) True
      in case poll_op_poll (recv_methods Z ret errno) h w op d of (op, d, res) \<Rightarrow> (d, res))"

definition poll_udp_recv_from ::
  "('r, 's, 'c, 'm, 't) op_env \<Rightarrow> mem \<Rightarrow> int \<Rightarrow> int \<Rightarrow> sockaddr_storage \<Rightarrow> waker \<Rightarrow> poll_socket \<Rightarrow> ptr \<Rightarrow> nat \<Rightarrow>
   ('r, 's, 'c, 'm, 't) any_driver \<Rightarrow> ('r, 's, 'c, 'm, 't) any_driver \<times> (nat \<times> socket_addr) io_result poll" where
  "poll_udp_recv_from Z fresh ret errno addr w p q len d =
     (let h = so_handle (po_stream p);
          op = recvfrom_new (uses_completion d h) h (TemporaryPoll q len) False
      in case poll_op_poll (recvfrom_methods Z fresh ret errno addr) h w op d of (op, d, res) \<Rightarrow> (d, res))"

definition poll_udp_peek_from ::
  "('r, 's, 'c, 'm, 't) op_env \<Rightarrow> mem \<Rightarrow> int \<Rightarrow> int \<Rightarrow> sockaddr_storage \<Rightarrow> waker \<Rightarrow> poll_socket \<Rightarrow> ptr \<Rightarrow> nat \<Rightarrow>
   ('r, 's, 'c, 'm, 't) any_driver \<Rightarrow> ('r, 's, 'c, 'm, 't) any_driver \<times> (nat \<times> socket_addr) io_result poll" where
  "poll_udp_peek_from Z fresh ret errno addr w p q len d =
     (let h = so_handle (po_stream p);
          op = recvfrom_new (uses_completion d h) h (TemporaryPoll q len) True
      in case poll_op_poll (recvfrom_methods Z fresh ret errno addr) h w op d of (op, d, res) \<Rightarrow> (d, res))"

definition poll_udp_send ::
  "('r, 's, 'c, 'm, 't) op_env \<Rightarrow> int \<Rightarrow> int \<Rightarrow> waker \<Rightarrow> poll_socket \<Rightarrow> ptr \<Rightarrow> nat \<Rightarrow> ('r, 's, 'c, 'm, 't) any_driver \<Rightarrow>
   ('r, 's, 'c, 'm, 't) any_driver \<times> nat io_result poll" where
  "poll_udp_send Z ret errno w p q len d =
     (let h = so_handle (po_stream p);
          op = send_new (uses_completion d h) h (TemporaryPoll q len)
      in case poll_op_poll (send_methods Z ret errno) h w op d of (op, d, res) \<Rightarrow> (d, res))"

definition poll_udp_send_to ::
  "('r, 's, 'c, 'm, 't) op_env \<Rightarrow> mem \<Rightarrow> int \<Rightarrow> int \<Rightarrow> waker \<Rightarrow> poll_socket \<Rightarrow> ptr \<Rightarrow> nat \<Rightarrow> socket_addr \<Rightarrow>
   ('r, 's, 'c, 'm, 't) any_driver \<Rightarrow> ('r, 's, 'c, 'm, 't) any_driver \<times> nat io_result poll" where
  "poll_udp_send_to Z fresh ret errno w p q len target d =
     (let h = so_handle (po_stream p);
          op = sendto_new (uses_completion d h) h (TemporaryPoll q len) target
      in case poll_op_poll (sendto_methods Z fresh ret errno) h w op d of (op, d, res) \<Rightarrow> (d, res))"

subsection \<open>Lemmas\<close>

text \<open>The driver has accepted the waker for the next event of that kind on the handle.\<close>

definition waker_left ::
  "('r, 's, 'c, 'm, 't) op_env \<Rightarrow> raw_handle \<Rightarrow> waker \<Rightarrow> interest \<Rightarrow>
   ('r, 's, 'c, 'm, 't) any_driver \<Rightarrow> ('r, 's, 'c, 'm, 't) any_driver \<Rightarrow> bool" where
  "waker_left Z h w i d d' \<longleftrightarrow> (\<exists>r. any_submit_poll Z h w i d = (d', Inr r))"

lemma waker_leftI: "any_submit_poll Z h w i d = (d', Inr r) \<Longrightarrow> waker_left Z h w i d d'"
  by (auto simp: waker_left_def)

lemma wait_leaves_waker:
  "poll_result_or_wait Z res h w i d = (d', Pending) \<Longrightarrow> waker_left Z h w i d d'"
  by (auto simp: poll_result_or_wait_def waker_left_def split: sum.splits if_splits prod.splits)

lemmas udp_methods = recv_methods_def send_methods_def recvfrom_methods_def sendto_methods_def

lemma poll_udp_pending:
  assumes "h = so_handle (po_stream p)"
  shows "poll_udp_recv Z ret errno w p q len d = (d', Pending) \<Longrightarrow> waker_left Z h w READABLE d d'"
    "poll_udp_peek Z ret errno w p q len d = (d', Pending) \<Longrightarrow> waker_left Z h w READABLE d d'"
    "poll_udp_recv_from Z fresh ret errno addr w p q len d = (d', Pending) \<Longrightarrow> waker_left Z h w READABLE d d'"
    "poll_udp_peek_from Z fresh ret errno addr w p q len d = (d', Pending) \<Longrightarrow> waker_left Z h w READABLE d d'"
    "poll_udp_send Z ret errno w p q len d = (d', Pending) \<Longrightarrow> waker_left Z h w WRITABLE d d'"
    "poll_udp_send_to Z fresh ret errno w p q len target d = (d', Pending) \<Longrightarrow> waker_left Z h w WRITABLE d d'"
  using assms
  by (auto simp: poll_udp_recv_def poll_udp_peek_def poll_udp_recv_from_def poll_udp_peek_from_def poll_udp_send_def
      poll_udp_send_to_def poll_op_poll_def udp_methods recv_poll_poll_def send_poll_poll_def sendto_poll_poll_def
      recvfrom_poll_poll_def recv_new_def send_new_def recvfrom_new_def sendto_new_def Let_def
      intro: waker_leftI dest!: wait_leaves_waker split: if_splits prod.splits sum.splits)

lemma poll_readable_pending:
  assumes "poll_readable Z w p d = (p', d', Pending)"
  shows "waker_left Z (so_handle (po_stream p)) w READABLE d d'" "po_read_ready p' \<and> \<not> po_read_ready p"
  using assms
  by (auto simp: poll_readable_def poll_op_poll_def readiness_methods_def readiness_poll_poll_def new_readable_def
      waker_left_def Let_def split: if_splits prod.splits sum.splits poll.splits)

lemma poll_writable_pending:
  assumes "poll_writable Z w p d = (p', d', Pending)"
  shows "waker_left Z (so_handle (po_stream p)) w WRITABLE d d'" "po_write_ready p' \<and> \<not> po_write_ready p"
  using assms
  by (auto simp: poll_writable_def poll_op_poll_def readiness_methods_def readiness_poll_poll_def new_writable_def
      waker_left_def Let_def split: if_splits prod.splits sum.splits poll.splits)

text \<open>The buffer of a finished receive: as many bytes as the kernel reports, and the caller's block.\<close>

lemma udp_recv_gives_back:
  assumes "udp_recv_poll Z ret errno w k (udp_recv d k buf) d = (op, d', Ready (res, buf'))"
    and "\<not> uses_completion d (so_handle k)"
  shows "buf' = (case res of Inr n \<Rightarrow> set_buf_init n buf | Inl _ \<Rightarrow> buf)"
  using assms
  by (auto simp: udp_recv_poll_def udp_recv_def with_bufs_def poll_op_def recv_methods_def recv_poll_poll_def recv_new_def
      take_bufs_def cb_into_inner_def cb_new_def fill_ready_def split: prod.splits poll.splits sum.splits)

end
