(* ===== verification/Adapters.thy ===== *)
theory Adapters
  imports Net_Udp Time_Utils Runtime_Context
begin

text \<open>
  The adapters to other crates: \<open>vibeio-hyper\<close> (executor, timer and the wrapper \<open>VibeioIo\<close> between tokio's and
  hyper's I/O traits) and \<open>vibeio-quinn\<close> (timer, UDP socket and its poller).

  The buffers of hyper are the record \<open>read_buf\<close> too: \<open>hyper::rt::ReadBuf\<close> has the same fields, and
  \<open>ReadBufCursor::advance\<close> moves both marks. A reader is its \<open>poll_read\<close>, a function on the buffer and the state
  it reads from. The UDP state of \<open>quinn-udp\<close> is a parameter: its \<open>send\<close> and \<open>recv\<close> are the caller's attempts.
\<close>

subsection \<open>\<open>vibeio-hyper\<close>\<close>

definition hyper_execute ::
  "'v fut \<Rightarrow> ('d, 't) current_runtime \<Rightarrow> ('v, 'q) runtime \<Rightarrow> ('v, 'q) runtime option" where
  "hyper_execute fut cell r = map_option fst (spawn_current fut cell r)"

record hyper_sleep =
  hs_inner :: sleep

definition hyper_timer_sleep :: "instant \<Rightarrow> duration \<Rightarrow> hyper_sleep" where
  "hyper_timer_sleep now d = \<lparr>hs_inner = sleep_new now d\<rparr>"

definition hyper_timer_sleep_until :: "instant \<Rightarrow> hyper_sleep" where
  "hyper_timer_sleep_until deadline = \<lparr>hs_inner = sleep_until deadline\<rparr>"

text \<open>\<open>Timer::reset\<close>: a sleep of another type (\<open>None\<close>) is left alone.\<close>

definition hyper_timer_reset ::
  "'s timer_slab \<Rightarrow> bool \<Rightarrow> instant \<Rightarrow> hyper_sleep option \<Rightarrow> 's timer \<Rightarrow> hyper_sleep option \<times> 's timer" where
  "hyper_timer_reset S entered deadline sl tm =
     (case sl of
        None \<Rightarrow> (None, tm)
      | Some sl \<Rightarrow>
          (case sleep_reset S entered deadline (hs_inner sl) tm of (inner, tm) \<Rightarrow> (Some (sl\<lparr>hs_inner := inner\<rparr>), tm)))"

definition hyper_sleep_poll ::
  "'s timer_slab \<Rightarrow> bool \<Rightarrow> instant \<Rightarrow> waker \<Rightarrow> hyper_sleep \<Rightarrow> 's timer \<Rightarrow>
   (hyper_sleep \<times> 's timer \<times> waker list \<times> unit poll) option" where
  "hyper_sleep_poll S entered now w sl tm =
     (case sleep_poll S entered now w (hs_inner sl) tm of
        None \<Rightarrow> None
      | Some (inner, tm, ws, p) \<Rightarrow> Some (sl\<lparr>hs_inner := inner\<rparr>, tm, ws, p))"

text \<open>\<open>ReadBuf::uninit\<close> of either library.\<close>

definition rb_uninit :: "ptr \<times> nat \<Rightarrow> read_buf" where
  "rb_uninit s = \<lparr>rb_ptr = fst s, rb_capacity = snd s, rb_filled = 0, rb_initialized = 0\<rparr>"

definition rb_cursor_advance :: "nat \<Rightarrow> read_buf \<Rightarrow> read_buf" where
  "rb_cursor_advance n rb =
     rb\<lparr>rb_filled := rb_filled rb + n, rb_initialized := max (rb_initialized rb) (rb_filled rb + n)\<rparr>"

definition rb_set_filled :: "nat \<Rightarrow> read_buf \<Rightarrow> read_buf option" where
  "rb_set_filled n rb = (if n \<le> rb_initialized rb then Some (rb\<lparr>rb_filled := n\<rparr>) else None)"

type_synonym 's reader = "read_buf \<Rightarrow> 's \<Rightarrow> (read_buf \<times> 's \<times> unit io_result poll) option"

text \<open>\<open>hyper::rt::Read for VibeioIo\<close>: tokio's reader as hyper's.\<close>

definition hyper_poll_read :: "'s reader \<Rightarrow> 's reader" where
  "hyper_poll_read inner buf s =
     (case inner (rb_uninit (rb_unfilled_mut buf)) s of
        None \<Rightarrow> None
      | Some (tbuf, s, Ready (Inr _)) \<Rightarrow> Some (rb_cursor_advance (rb_filled tbuf) buf, s, Ready (Inr ()))
      | Some (tbuf, s, Ready (Inl e)) \<Rightarrow> Some (buf, s, Ready (Inl e))
      | Some (tbuf, s, Pending) \<Rightarrow> Some (buf, s, Pending))"

text \<open>\<open>AsyncRead for VibeioIo\<close>: hyper's reader as tokio's.\<close>

definition io_poll_read :: "'s reader \<Rightarrow> 's reader" where
  "io_poll_read inner tbuf s =
     (let filled = rb_filled tbuf in
      case inner (rb_uninit (rb_unfilled_mut tbuf)) s of
        None \<Rightarrow> None
      | Some (buf, s, Ready (Inr _)) \<Rightarrow>
          map_option (\<lambda>tbuf. (tbuf, s, Ready (Inr ())))
            (rb_set_filled (filled + rb_filled buf) (rb_assume_init (rb_filled buf) tbuf))
      | Some (buf, s, Ready (Inl e)) \<Rightarrow> Some (tbuf, s, Ready (Inl e))
      | Some (buf, s, Pending) \<Rightarrow> Some (tbuf, s, Pending))"

subsection \<open>\<open>vibeio-quinn\<close>\<close>

definition quinn_new_timer :: "instant \<Rightarrow> sleep" where
  "quinn_new_timer i = sleep_until i"

definition quinn_timer_reset :: "'s timer_slab \<Rightarrow> bool \<Rightarrow> instant \<Rightarrow> sleep \<Rightarrow> 's timer \<Rightarrow> sleep \<times> 's timer" where
  "quinn_timer_reset S entered i sl tm = sleep_reset S entered i sl tm"

definition quinn_timer_poll ::
  "'s timer_slab \<Rightarrow> bool \<Rightarrow> instant \<Rightarrow> waker \<Rightarrow> sleep \<Rightarrow> 's timer \<Rightarrow>
   (sleep \<times> 's timer \<times> waker list \<times> unit poll) option" where
  "quinn_timer_poll S entered now w sl tm = sleep_poll S entered now w sl tm"

record quinn_socket =
  qs_io :: poll_socket
  qs_socket :: int

text \<open>
  \<open>wrap_udp_socket\<close>: \<open>sock\<close> is owned by the call and closed with its duplicate on every error; \<open>new_state\<close> is
  \<open>UdpSocketState::new\<close>.
\<close>

definition wrap_udp_socket ::
  "('r, 's, 'c, 'm, 't) op_env \<Rightarrow> 'o sock_sys \<Rightarrow> (int \<Rightarrow> 'o \<Rightarrow> 'o \<times> unit io_result) \<Rightarrow> int \<Rightarrow>
   ('r, 's, 'c, 'm, 't) any_driver option \<Rightarrow> 'o \<Rightarrow> ('r, 's, 'c, 'm, 't) any_driver option \<times> 'o \<times> quinn_socket io_result" where
  "wrap_udp_socket Z os new_state sock current s =
     (case sk_dup os sock s of
        (s, Inl err) \<Rightarrow> (current, sk_close os sock s, Inl err)
      | (s, Inr io) \<Rightarrow>
          (case sk_set_nonblocking os io True s of
             (s, Inl err) \<Rightarrow> (current, sk_close os sock (sk_close os io s), Inl err)
           | (s, Inr _) \<Rightarrow>
               (case poll_udp_from_std Z os sock current s of
                  (current, s, Inl err) \<Rightarrow> (current, sk_close os io s, Inl err)
                | (current, s, Inr socket) \<Rightarrow>
                    (case new_state io s of
                       (s, Inl err) \<Rightarrow>
                         (map_option (handle_drop Z (so_handle (po_stream socket))) current,
                          sk_close os io (sk_close os (so_inner (po_stream socket)) s), Inl err)
                     | (s, Inr _) \<Rightarrow> (current, s, Inr \<lparr>qs_io = socket, qs_socket = io\<rparr>)))))"

definition quinn_try_send ::
  "(int \<Rightarrow> 'o \<Rightarrow> 'o \<times> unit io_result) \<Rightarrow> quinn_socket \<Rightarrow> 'o \<Rightarrow> quinn_socket \<times> 'o \<times> unit io_result" where
  "quinn_try_send send q s =
     (case try_io_writable (send (qs_socket q)) (qs_io q) s of (io, s, res) \<Rightarrow> (q\<lparr>qs_io := io\<rparr>, s, res))"

partial_function (option) quinn_poll_recv ::
  "('r, 's, 'c, 'm, 't) op_env \<Rightarrow> (int \<Rightarrow> 'o \<Rightarrow> 'o \<times> nat io_result) \<Rightarrow> waker \<Rightarrow> quinn_socket \<Rightarrow>
   ('r, 's, 'c, 'm, 't) any_driver \<Rightarrow> 'o \<Rightarrow>
   (quinn_socket \<times> ('r, 's, 'c, 'm, 't) any_driver \<times> 'o \<times> nat io_result poll) option" where
  "quinn_poll_recv Z recv w q d s =
     (case poll_readable Z w (qs_io q) d of
        (io, d, Pending) \<Rightarrow> Some (q\<lparr>qs_io := io\<rparr>, d, s, Pending)
      | (io, d, Ready res) \<Rightarrow>
          (case res of
             Inl err \<Rightarrow> Some (q\<lparr>qs_io := io\<rparr>, d, s, Ready (Inl err))
           | Inr _ \<Rightarrow>
               (case try_io_readable (recv (qs_socket q)) io s of
                  (io, s, res) \<Rightarrow>
                    (case res of
                       Inr n \<Rightarrow> Some (q\<lparr>qs_io := io\<rparr>, d, s, Ready (Inr n))
                     | Inl e \<Rightarrow>
                         if err_kind e = WouldBlock then quinn_poll_recv Z recv w (q\<lparr>qs_io := io\<rparr>) d s
                         else Some (q\<lparr>qs_io := io\<rparr>, d, s, Ready (Inl e))))))"

definition quinn_poll_writable ::
  "('r, 's, 'c, 'm, 't) op_env \<Rightarrow> waker \<Rightarrow> quinn_socket \<Rightarrow> ('r, 's, 'c, 'm, 't) any_driver \<Rightarrow>
   quinn_socket \<times> ('r, 's, 'c, 'm, 't) any_driver \<times> unit io_result poll" where
  "quinn_poll_writable Z w q d =
     (case poll_writable Z w (qs_io q) d of (io, d, p) \<Rightarrow> (q\<lparr>qs_io := io\<rparr>, d, p))"

subsection \<open>Readers\<close>

text \<open>
  What tokio asks of a reader, and the wrappers rely on: it keeps the bounds of the buffer, leaves it alone
  unless it succeeds, and sees no more of it than the part that is not filled.
\<close>

locale tokio_reader =
  fixes read :: "'s reader"
  assumes keeps_bounds: "rb_wf rb \<Longrightarrow> read rb s = Some (rb', s', p) \<Longrightarrow>
      rb_wf rb' \<and> rb_ptr rb' = rb_ptr rb \<and> rb_capacity rb' = rb_capacity rb \<and> (p \<noteq> Ready (Inr ()) \<longrightarrow> rb' = rb)"
    and sees_unfilled: "rb_wf rb \<Longrightarrow> \<exists>tb s' p. read (rb_uninit (rb_unfilled_mut rb)) s = Some (tb, s', p) \<and>
      (\<exists>rb'. read rb s = Some (rb', s', p) \<and> rb_filled rb' = rb_filled rb + rb_filled tb)"
begin

lemma unfilled_wf: "rb_wf rb \<Longrightarrow> rb_wf (rb_uninit (rb_unfilled_mut rb))"
  by (simp add: rb_wf_def rb_uninit_def)

text \<open>A reader wrapped for hyper and back for tokio is the reader.\<close>

lemma wrapped_twice:
  assumes "rb_wf rb"
  shows "\<exists>rb' rb1 s' p. read rb s = Some (rb', s', p) \<and> io_poll_read (hyper_poll_read read) rb s = Some (rb1, s', p) \<and>
    rb_wf rb1 \<and> rb_ptr rb1 = rb_ptr rb' \<and> rb_capacity rb1 = rb_capacity rb' \<and> rb_filled rb1 = rb_filled rb'"
proof -
  let ?u = "rb_uninit (rb_unfilled_mut rb)"
  obtain tb s' p rb' where r: "read ?u s = Some (tb, s', p)" "read rb s = Some (rb', s', p)"
    "rb_filled rb' = rb_filled rb + rb_filled tb"
    using sees_unfilled [OF assms, of s] by blast
  have u: "rb_uninit (rb_unfilled_mut ?u) = ?u"
    by (simp add: rb_uninit_def rb_unfilled_mut_def)
  have tb: "rb_filled tb \<le> rb_capacity rb - rb_filled rb" "p \<noteq> Ready (Inr ()) \<Longrightarrow> rb_filled tb = 0"
    using keeps_bounds [OF unfilled_wf [OF assms] r(1)]
    by (auto simp: rb_wf_def rb_uninit_def rb_unfilled_mut_def)
  have rb': "rb_ptr rb' = rb_ptr rb" "rb_capacity rb' = rb_capacity rb" "p \<noteq> Ready (Inr ()) \<Longrightarrow> rb' = rb"
    using keeps_bounds [OF assms r(2)] by auto
  show ?thesis
  proof (cases "p = Ready (Inr ())")
    case True
    then have h: "hyper_poll_read read ?u s = Some (rb_cursor_advance (rb_filled tb) ?u, s', Ready (Inr ()))"
      using r(1) u by (simp add: hyper_poll_read_def)
    have f: "rb_filled (rb_cursor_advance (rb_filled tb) ?u) = rb_filled tb"
      by (simp add: rb_cursor_advance_def rb_uninit_def)
    have "io_poll_read (hyper_poll_read read) rb s =
        Some ((rb_assume_init (rb_filled tb) rb)\<lparr>rb_filled := rb_filled rb + rb_filled tb\<rparr>, s', Ready (Inr ()))"
      using h f by (simp add: io_poll_read_def Let_def rb_set_filled_def rb_assume_init_def)
    then show ?thesis
      using True r(2,3) rb' assms tb(1)
      by (auto simp: rb_assume_init_def rb_wf_def)
  next
    case False
    then have "hyper_poll_read read ?u s = Some (?u, s', p)"
      using r(1) u by (auto simp: hyper_poll_read_def split: poll.split sum.split)
    then have "io_poll_read (hyper_poll_read read) rb s = Some (rb, s', p)"
      using False by (auto simp: io_poll_read_def Let_def split: poll.split sum.split)
    then show ?thesis
      using False r(2) rb'(3) assms by auto
  qed
qed

end

text \<open>
  The streams of this crate as readers: \<open>kern\<close> is the system call on a pointer and a length, a result
  and an error number.
\<close>

definition socket_reader ::
  "('r, 's, 'c, 'm, 't) op_env \<Rightarrow> (ptr \<Rightarrow> nat \<Rightarrow> 'o \<Rightarrow> 'o \<times> int \<times> int) \<Rightarrow> waker \<Rightarrow> raw_handle \<Rightarrow>
   (('r, 's, 'c, 'm, 't) any_driver \<times> 'o) reader" where
  "socket_reader Z kern w h rb ds =
     (if rb_remaining rb = 0 then Some (rb, ds, Ready (Inr ()))
      else case kern (fst (rb_unfilled_mut rb)) (snd (rb_unfilled_mut rb)) (snd ds) of
             (s, ret, errno) \<Rightarrow>
               map_option (\<lambda>(rb, d, p). (rb, (d, s), p)) (tokio_poll_read Z ret errno w h rb (fst ds)))"

definition kernel_bounded :: "(ptr \<Rightarrow> nat \<Rightarrow> 'o \<Rightarrow> 'o \<times> int \<times> int) \<Rightarrow> bool" where
  "kernel_bounded kern \<longleftrightarrow> (\<forall>p n s. fst (snd (kern p n s)) \<le> int n)"

text \<open>What one poll does to a buffer, in terms of the outcome of its operation.\<close>

lemma tokio_poll_read_eq:
  assumes "rb_wf rb" and "ret \<le> int (rb_remaining rb)" and "rb_remaining rb \<noteq> 0"
  shows "tokio_poll_read Z ret errno w h rb d =
    (case (if uses_completion d h then (d, Ready (Inl (Custom Unsupported)))
           else poll_result_or_wait Z (syscall_result ret errno) h w READABLE d) of
       (d', Ready (Inr n)) \<Rightarrow> Some ((rb_assume_init (nat ret) rb)\<lparr>rb_filled := rb_filled rb + nat ret\<rparr>, d', Ready (Inr ()))
     | (d', Ready (Inl err)) \<Rightarrow> Some (rb, d', Ready (Inl err))
     | (d', Pending) \<Rightarrow> Some (rb, d', Pending))"
proof (cases "uses_completion d h")
  case True
  then show ?thesis
    using assms(3) by (simp add: tokio_poll_read_def poll_op_poll_def Let_def)
next
  case False
  obtain d' p where p: "poll_result_or_wait Z (syscall_result ret errno) h w READABLE d = (d', p)"
    by fastforce
  show ?thesis
  proof (cases "\<exists>n. p = Ready (Inr n)")
    case True
    then obtain n where n: "p = Ready (Inr n)"
      by blast
    then have "n = nat ret"
      using poll_result_count(2) p by blast
    then show ?thesis
      using False p n assms(3)
      by (simp add: tokio_poll_read_def read_methods_poll Let_def rb_advance_def rb_assume_init_def)
  next
    case no_count: False
    then show ?thesis
      using False p assms(3)
      by (cases p) (auto simp: tokio_poll_read_def read_methods_poll Let_def split: sum.splits)
  qed
qed

lemma socket_reader_ok:
  fixes Z :: "('r, 's, 'c, 'm, 't) op_env" and kern :: "ptr \<Rightarrow> nat \<Rightarrow> 'o \<Rightarrow> 'o \<times> int \<times> int"
  assumes "kernel_bounded kern"
  shows "tokio_reader (socket_reader Z kern w h)"
proof
  fix rb rb' :: read_buf and ds ds' :: "('r, 's, 'c, 'm, 't) any_driver \<times> 'o" and p
  assume wf: "rb_wf rb"
  define d s where "d = fst ds" and "s = snd ds"
  obtain s1 ret errno where k: "kern (fst (rb_unfilled_mut rb)) (snd (rb_unfilled_mut rb)) s = (s1, ret, errno)"
    by (metis prod_cases3)
  have "ret \<le> int (snd (rb_unfilled_mut rb))"
    using assms k unfolding kernel_bounded_def by (metis fst_conv snd_conv)
  then have ret: "ret \<le> int (rb_remaining rb)"
    by (simp add: rb_unfilled_mut_def rb_remaining_def)
  let ?u = "rb_uninit (rb_unfilled_mut rb)"
  have u: "rb_unfilled_mut ?u = rb_unfilled_mut rb" "rb_remaining ?u = rb_remaining rb" "rb_wf ?u" "rb_filled ?u = 0"
    by (simp_all add: rb_uninit_def rb_unfilled_mut_def rb_remaining_def rb_wf_def)
  obtain d1 q where q: "(if uses_completion d h then (d, Ready (Inl (Custom Unsupported)))
      else poll_result_or_wait Z (syscall_result ret errno) h w READABLE d) = (d1, q)"
    by fastforce
  have poll: "socket_reader Z kern w h b ds = (case q of
       Ready (Inr n) \<Rightarrow> Some ((rb_assume_init (nat ret) b)\<lparr>rb_filled := rb_filled b + nat ret\<rparr>, (d1, s1), Ready (Inr ()))
     | Ready (Inl err) \<Rightarrow> Some (b, (d1, s1), Ready (Inl err))
     | Pending \<Rightarrow> Some (b, (d1, s1), Pending))"
    if "rb_remaining rb \<noteq> 0" "b = rb \<or> b = ?u" for b
    using that k u wf ret tokio_poll_read_eq [of b ret Z errno w h d, unfolded q]
    by (auto simp: socket_reader_def d_def [symmetric] s_def [symmetric] split: poll.split sum.split)
  show "rb_wf rb' \<and> rb_ptr rb' = rb_ptr rb \<and> rb_capacity rb' = rb_capacity rb \<and> (p \<noteq> Ready (Inr ()) \<longrightarrow> rb' = rb)"
    if r: "socket_reader Z kern w h rb ds = Some (rb', ds', p)"
  proof (cases "rb_remaining rb = 0")
    case False
    then show ?thesis
      using r poll [of rb] wf ret
      by (auto simp: rb_wf_def rb_assume_init_def rb_remaining_def split: poll.splits sum.splits)
  qed (use r wf in \<open>simp add: socket_reader_def\<close>)
  show "\<exists>tb s' p. socket_reader Z kern w h ?u ds = Some (tb, s', p) \<and>
      (\<exists>rb'. socket_reader Z kern w h rb ds = Some (rb', s', p) \<and> rb_filled rb' = rb_filled rb + rb_filled tb)"
  proof (cases "rb_remaining rb = 0")
    case False
    then show ?thesis
      using poll [of rb] poll [of ?u] u(4) by (simp split: poll.splits sum.splits)
  qed (use u in \<open>simp add: socket_reader_def\<close>)
qed

text \<open>A kernel that has nothing, or at most five bytes, to read.\<close>

definition ex_kern :: "ptr \<Rightarrow> nat \<Rightarrow> bool \<Rightarrow> bool \<times> int \<times> int" where
  "ex_kern p n data = (False, if data then int (min n 5) else -1, 11)"

interpretation ex_reader: tokio_reader "socket_reader fd_env ex_kern 1 ex_file"
  by (rule socket_reader_ok) (simp add: kernel_bounded_def ex_kern_def)

subsection \<open>Datagrams for quinn\<close>

lemma poll_readable_cases:
  obtains (ready) "po_read_ready io" "poll_readable Z w io d = (io, d, Ready (Inr ()))"
  | (waits) d' where "\<not> po_read_ready io" "poll_readable Z w io d = (io\<lparr>po_read_ready := True\<rparr>, d', Pending)"
      "waker_left Z (so_handle (po_stream io)) w READABLE d d'"
  | (fails) d' err where "\<not> po_read_ready io" "poll_readable Z w io d = (io, d', Ready (Inl err))"
proof -
  obtain d1 res where s: "any_submit_poll Z (so_handle (po_stream io)) w READABLE d = (d1, res)"
    by fastforce
  show thesis
  proof (cases "po_read_ready io")
    case True
    then show thesis
      using ready by (simp add: poll_readable_def)
  next
    case False
    note defs = poll_readable_def poll_op_poll_def readiness_methods_def readiness_poll_poll_def new_readable_def Let_def
    show thesis
    proof (cases "uses_completion d (so_handle (po_stream io))")
      case True
      then show thesis
        using False fails [of d "Custom Unsupported"] by (simp add: defs)
    next
      case poll: False
      show thesis
      proof (cases res)
        case (Inl err)
        then show thesis
          using False poll s fails [of d1 err] by (simp add: defs)
      next
        case (Inr r)
        then show thesis
          using False poll s waits [of d1] waker_leftI [OF s [unfolded Inr]] by (simp add: defs)
      qed
    qed
  qed
qed

text \<open>A poll that finds the flag unset ends at once; the flag of a socket that has just failed is unset.\<close>

lemma quinn_recv_unset:
  assumes "\<not> po_read_ready (qs_io q)"
  shows "\<exists>q' d' p. quinn_poll_recv Z recv w q d s = Some (q', d', s, p) \<and>
    (case p of Pending \<Rightarrow> waker_left Z (so_handle (po_stream (qs_io q))) w READABLE d d' 
     | Ready (Inr n) \<Rightarrow> False | Ready (Inl e) \<Rightarrow> snd (poll_readable Z w (qs_io q) d) = (d', Ready (Inl e)))"
proof (cases rule: poll_readable_cases [where Z = Z and w = w and io = "qs_io q" and d = d])
  case ready
  with assms show ?thesis
    by simp
next
  case (waits d')
  then show ?thesis
    by (subst quinn_poll_recv.simps) simp
next
  case (fails d' err)
  then show ?thesis
    by (subst quinn_poll_recv.simps) simp
qed

subsection \<open>The descriptors of a wrapped socket\<close>

lemma wrap_udp_socket_owns:
  assumes honest: "honest_sock os V" and sock: "sock \<in> sv_opened V s"
    and state: "\<And>fd s s' res. new_state fd s = (s', res) \<Longrightarrow> same_view V s s'"
    and r: "wrap_udp_socket Z os new_state sock current s = (current', s', res)"
  shows "case res of
      Inl _ \<Rightarrow> sv_opened V s' = sv_opened V s - {sock}
    | Inr q \<Rightarrow> qs_socket q \<notin> sv_opened V s \<and> so_inner (po_stream (qs_io q)) = sock \<and>
        sv_opened V s' = insert (qs_socket q) (sv_opened V s)"
proof -
  note close = honest_sockD(3) [OF honest] and flag = honest_sockD(2) [OF honest]
  obtain s1 r1 where 1: "sk_dup os sock s = (s1, r1)"
    by fastforce
  note dup = honest [unfolded honest_sock_def, THEN conjunct2, THEN conjunct1, rule_format, OF 1]
  show ?thesis
  proof (cases r1)
    case (Inl err)
    then show ?thesis
      using r 1 dup close by (auto simp: wrap_udp_socket_def same_view_def)
  next
    case (Inr io)
    obtain s2 r2 where 2: "sk_set_nonblocking os io True s1 = (s2, r2)"
      by fastforce
    have opened: "io \<notin> sv_opened V s" "sv_opened V s2 = insert io (sv_opened V s)"
      using dup Inr flag [OF 2] by auto
    show ?thesis
    proof (cases r2)
      case (Inl err)
      then show ?thesis
        using r 1 2 \<open>r1 = Inr io\<close> opened close by (auto simp: wrap_udp_socket_def)
    next
      case (Inr u)
      obtain c3 s3 r3 where 3: "socket_from_std Z os READ_WRITE PollMode sock current s2 = (c3, s3, r3)"
        by (metis prod_cases3)
      have "sock \<notin> insert io (sv_opened V s - {sock})" "sv_opened V s2 = insert sock (insert io (sv_opened V s - {sock}))"
        using opened sock by auto
      note from_std = socket_from_std_sound [OF honest this 3]
      show ?thesis
      proof (cases r3)
        case (Inl err)
        then show ?thesis
          using r 1 2 3 \<open>r1 = Inr io\<close> \<open>r2 = Inr u\<close> opened from_std close
          by (auto simp: wrap_udp_socket_def poll_udp_from_std_def udp_from_std_with_mode_def)
      next
        case (Inr k)
        obtain s4 r4 where 4: "new_state io s3 = (s4, r4)"
          by fastforce
        have "sv_opened V s4 = insert io (sv_opened V s)" "so_inner k = sock"
          using state [OF 4] from_std Inr sock by (auto simp: same_view_def)
        then show ?thesis
          using r 1 2 3 4 \<open>r1 = Inr io\<close> \<open>r2 = Inr u\<close> Inr opened close
          by (cases r4) (auto simp: wrap_udp_socket_def poll_udp_from_std_def udp_from_std_with_mode_def poll_wrap_def)
      qed
    qed
  qed
qed

lemma quinn_recv_blocked:
  assumes "po_read_ready (qs_io q)" and "recv (qs_socket q) s = (s1, Inl e)" and "err_kind e = WouldBlock"
  shows "\<exists>q' d' p. quinn_poll_recv Z recv w q d s = Some (q', d', s1, p) \<and>
    (case p of
       Pending \<Rightarrow> waker_left Z (so_handle (po_stream (qs_io q))) w READABLE d d'
     | Ready (Inr n) \<Rightarrow> False
     | Ready (Inl e) \<Rightarrow> snd (poll_readable Z w ((qs_io q)\<lparr>po_read_ready := False\<rparr>) d) = (d', Ready (Inl e)))"
proof -
  let ?q = "q\<lparr>qs_io := (qs_io q)\<lparr>po_read_ready := False\<rparr>\<rparr>"
  have "quinn_poll_recv Z recv w q d s = quinn_poll_recv Z recv w ?q d s1"
    using assms by (subst quinn_poll_recv.simps) (simp add: try_io_readable_def poll_readable_def)
  then show ?thesis
    using quinn_recv_unset [of ?q Z recv w d s1] by (simp cong: poll.case_cong sum.case_cong)
qed

subsection \<open>Properties\<close>

text \<open>
  C30: the loop of \<open>poll_recv\<close> ends. It makes at most one attempt to receive; the poll is pending only when this
  task's waker was left with the driver for the next readable event of the socket, so a datagram
  that arrives later wakes it; a received count is the kernel's, and an error is one of the registration
  or of the attempt, never that the attempt would block.
\<close>
theorem quinn_recv_ends:
  "\<exists>q' d' s' p. quinn_poll_recv Z recv w q d s = Some (q', d', s', p) \<and>
     s' = (if po_read_ready (qs_io q) then fst (recv (qs_socket q) s) else s) \<and>
     (case p of
        Pending \<Rightarrow> waker_left Z (so_handle (po_stream (qs_io q))) w READABLE d d'
      | Ready (Inr n) \<Rightarrow> po_read_ready (qs_io q) \<and> recv (qs_socket q) s = (s', Inr n)
      | Ready (Inl e) \<Rightarrow> snd (poll_readable Z w ((qs_io q)\<lparr>po_read_ready := False\<rparr>) d) = (d', Ready (Inl e)) \<or>
          po_read_ready (qs_io q) \<and> recv (qs_socket q) s = (s', Inl e) \<and> err_kind e \<noteq> WouldBlock)"
proof (cases "po_read_ready (qs_io q)")
  case False
  then have same: "(qs_io q)\<lparr>po_read_ready := False\<rparr> = qs_io q"
    by simp
  obtain q' d' p where "quinn_poll_recv Z recv w q d s = Some (q', d', s, p)"
    and "case p of Pending \<Rightarrow> waker_left Z (so_handle (po_stream (qs_io q))) w READABLE d d'
     | Ready (Inr n) \<Rightarrow> False | Ready (Inl e) \<Rightarrow> snd (poll_readable Z w (qs_io q) d) = (d', Ready (Inl e))"
    using quinn_recv_unset [OF False, of Z recv w d s] by blast
  then show ?thesis
    using False unfolding same by (cases p) (auto split: sum.splits)
next
  case True
  have p1: "poll_readable Z w (qs_io q) d = (qs_io q, d, Ready (Inr ()))"
    using True by (simp add: poll_readable_def)
  obtain s1 res where r: "recv (qs_socket q) s = (s1, res)"
    by fastforce
  show ?thesis
  proof (cases res)
    case (Inr n)
    then show ?thesis
      using True p1 r by (subst quinn_poll_recv.simps) (simp add: try_io_readable_def)
  next
    case (Inl e)
    let ?q = "q\<lparr>qs_io := (qs_io q)\<lparr>po_read_ready := False\<rparr>\<rparr>"
    show ?thesis
    proof (cases "err_kind e = WouldBlock")
      case False
      then show ?thesis
        using True p1 r Inl by (subst quinn_poll_recv.simps) (simp add: try_io_readable_def)
    next
      case True
      then obtain q' d' p where "quinn_poll_recv Z recv w q d s = Some (q', d', s1, p)"
        and "case p of Pending \<Rightarrow> waker_left Z (so_handle (po_stream (qs_io q))) w READABLE d d' | Ready (Inr n) \<Rightarrow> False
         | Ready (Inl e) \<Rightarrow> snd (poll_readable Z w ((qs_io q)\<lparr>po_read_ready := False\<rparr>) d) = (d', Ready (Inl e))"
        using quinn_recv_blocked [of q recv s s1 e Z w d] \<open>po_read_ready (qs_io q)\<close> r Inl by blast
      then show ?thesis
        using r \<open>po_read_ready (qs_io q)\<close> by (cases p) (auto split: sum.splits)
    qed
  qed
qed



end
