(* ===== verification/Waker_Refs.thy ===== *)
theory Waker_Refs
  imports Vibe_Prelude "HOL-Library.Multiset"
begin

text \<open>
  The reference counts behind the wakers: the raw waker tables of \<open>Task\<close> (\<open>task.rs\<close>) and of \<open>BlockOnNotify\<close>
  (\<open>executor.rs\<close>). A waker is a raw pointer that owns one strong count of an \<open>Arc\<close>; \<open>Arc::from_raw\<close> and
  \<open>Arc::into_raw\<close> move that count between a pointer and a local variable and do not change it.

  An \<open>Arc\<close> is its strong count, its value, the thread that ran the destructor, and whether anything touched the memory
  after that. The references are a multiset of holders; cloning, sending, waking, dropping and polling interleave freely
  over any number of threads. Both tables keep one contract, the locale \<open>waker_vtable\<close>: every count has its holder, so the
  memory is freed by the last holder, once, and never used afterwards. Shown as well: that last holder can be a foreign
  thread, which then drops the future of a task.
\<close>

subsection \<open>\<open>Arc\<close>\<close>

record 'x arc =
  ar_strong :: nat
  ar_freed_by :: "nat option"
  ar_misused :: bool
  ar_value :: 'x

definition arc_new :: "'x \<Rightarrow> 'x arc" where
  "arc_new x = \<lparr>ar_strong = 1, ar_freed_by = None, ar_misused = False, ar_value = x\<rparr>"

definition arc_use :: "'x arc \<Rightarrow> 'x arc" where
  "arc_use a = (if ar_freed_by a = None then a else a\<lparr>ar_misused := True\<rparr>)"

definition arc_clone :: "'x arc \<Rightarrow> 'x arc" where
  "arc_clone a = (arc_use a)\<lparr>ar_strong := Suc (ar_strong a)\<rparr>"

definition arc_drop :: "nat \<Rightarrow> 'x arc \<Rightarrow> 'x arc" where
  "arc_drop thread a =
     (let a = (arc_use a)\<lparr>ar_strong := ar_strong a - 1\<rparr>
      in if ar_strong a = 0 then a\<lparr>ar_freed_by := Some thread\<rparr> else a)"

subsection \<open>The two tables\<close>

text \<open>
  A table: \<open>vt_wake_by_ref\<close> takes the thread and says whether it left a reference in a queue. \<open>raw_waker_wake\<close> of either type is
  \<open>raw_waker_wake_by_ref\<close> followed by the drop of the \<open>Arc\<close> instead of \<open>Arc::into_raw\<close>.
\<close>

record 'x vtable =
  vt_clone :: "'x arc \<Rightarrow> 'x arc"
  vt_wake_by_ref :: "nat \<Rightarrow> 'x arc \<Rightarrow> 'x arc \<times> bool"
  vt_drop :: "nat \<Rightarrow> 'x arc \<Rightarrow> 'x arc"

definition raw_waker_wake :: "'x vtable \<Rightarrow> nat \<Rightarrow> 'x arc \<Rightarrow> 'x arc \<times> bool" where
  "raw_waker_wake V thread a = (case vt_wake_by_ref V thread a of (a, pushed) \<Rightarrow> (arc_drop thread a, pushed))"

definition arc_waker :: "'x arc \<Rightarrow> 'x arc" where
  "arc_waker a = arc_clone a"

text \<open>The fields of \<open>Task\<close> its wakers touch; \<open>tw_alive\<close>: the queues of the runtime can still be upgraded.\<close>

record task_waker =
  tw_queued :: bool
  tw_thread :: nat
  tw_future :: bool
  tw_alive :: bool
  tw_waiting :: bool
  tw_interrupt_pending :: bool
  tw_interrupts :: nat

definition task_interrupt :: "task_waker arc \<Rightarrow> task_waker arc" where
  "task_interrupt a =
     (let v = ar_value a in
      if tw_waiting v \<and> \<not> tw_interrupt_pending v
      then a\<lparr>ar_value := v\<lparr>tw_interrupt_pending := True, tw_interrupts := Suc (tw_interrupts v)\<rparr>\<rparr> else a)"

definition task_push :: "task_waker arc \<Rightarrow> task_waker arc \<times> bool" where
  "task_push a =
     (let v = ar_value a in
      if tw_queued v then (a, False)
      else let a = a\<lparr>ar_value := v\<lparr>tw_queued := True\<rparr>\<rparr> in
           if tw_alive v then (arc_clone a, True) else (a, False))"

definition task_wake_by_ref :: "nat \<Rightarrow> task_waker arc \<Rightarrow> task_waker arc \<times> bool" where
  "task_wake_by_ref thread a =
     (case task_push (arc_use a) of
        (a, pushed) \<Rightarrow> if thread = tw_thread (ar_value a) then (a, pushed) else (task_interrupt a, pushed))"

definition task_vtable :: "task_waker vtable" where
  "task_vtable = \<lparr>vt_clone = arc_clone, vt_wake_by_ref = task_wake_by_ref, vt_drop = arc_drop\<rparr>"

record notify_waker =
  nw_ready :: bool
  nw_thread :: nat
  nw_waiting :: bool
  nw_interrupt_pending :: bool
  nw_interrupts :: nat

definition notify_new :: "nat \<Rightarrow> bool \<Rightarrow> bool \<Rightarrow> notify_waker arc" where
  "notify_new thread waiting pending =
     arc_new \<lparr>nw_ready = True, nw_thread = thread, nw_waiting = waiting, nw_interrupt_pending = pending, nw_interrupts = 0\<rparr>"

definition notify_take_ready :: "notify_waker arc \<Rightarrow> notify_waker arc \<times> bool" where
  "notify_take_ready a =
     (let a = arc_use a in (a\<lparr>ar_value := (ar_value a)\<lparr>nw_ready := False\<rparr>\<rparr>, nw_ready (ar_value a)))"

definition notify_wake_by_ref :: "nat \<Rightarrow> notify_waker arc \<Rightarrow> notify_waker arc \<times> bool" where
  "notify_wake_by_ref thread a =
     (let a = arc_use a; v = (ar_value a)\<lparr>nw_ready := True\<rparr> in
      (a\<lparr>ar_value := if thread \<noteq> nw_thread v \<and> nw_waiting v \<and> \<not> nw_interrupt_pending v
                     then v\<lparr>nw_interrupt_pending := True, nw_interrupts := Suc (nw_interrupts v)\<rparr> else v\<rparr>, False))"

definition notify_vtable :: "notify_waker vtable" where
  "notify_vtable = \<lparr>vt_clone = arc_clone, vt_wake_by_ref = notify_wake_by_ref, vt_drop = arc_drop\<rparr>"

subsection \<open>References and their steps\<close>

text \<open>
  \<open>QueueRef\<close>: an \<open>Arc\<close> in a ready queue; \<open>OwnerRef\<close>: the \<open>Arc\<close> of the batch that is polled, or of \<open>block_on\<close>;
  \<open>WakingRef i\<close>: thread \<open>i\<close> is in \<open>raw_waker_wake\<close>, after the wake and before the drop.
\<close>

datatype holder = QueueRef | OwnerRef | WakerRef nat | WakingRef nat

text \<open>
  \<open>rt\<close> is the runtime thread. Polling may change the value in any way (\<open>poll_value\<close>), for a task: take the future out or put it back.
\<close>

inductive ref_step :: "'x vtable \<Rightarrow> nat \<Rightarrow> 'x arc \<times> holder multiset \<Rightarrow> 'x arc \<times> holder multiset \<Rightarrow> bool" for V rt where
  make_waker: "OwnerRef \<in># H \<Longrightarrow> ref_step V rt (a, H) (arc_waker a, add_mset (WakerRef rt) H)"
| clone_waker: "WakerRef i \<in># H \<Longrightarrow> ref_step V rt (a, H) (vt_clone V a, add_mset (WakerRef i) H)"
| send_waker: "ref_step V rt (a, add_mset (WakerRef i) H) (a, add_mset (WakerRef j) H)"
| wake_by_ref: "WakerRef i \<in># H \<Longrightarrow> vt_wake_by_ref V i a = (a', pushed) \<Longrightarrow>
     ref_step V rt (a, H) (a', if pushed then add_mset QueueRef H else H)"
| wake_begin: "vt_wake_by_ref V i a = (a', pushed) \<Longrightarrow>
     ref_step V rt (a, add_mset (WakerRef i) H)
       (a', if pushed then {#QueueRef, WakingRef i#} + H else add_mset (WakingRef i) H)"
| wake_end: "ref_step V rt (a, add_mset (WakingRef i) H) (arc_drop i a, H)"
| drop_waker: "ref_step V rt (a, add_mset (WakerRef i) H) (vt_drop V i a, H)"
| dequeue: "ref_step V rt (a, add_mset QueueRef H) (arc_use a, add_mset OwnerRef H)"
| poll_value: "OwnerRef \<in># H \<Longrightarrow> ref_step V rt (a, H) ((arc_use a)\<lparr>ar_value := x\<rparr>, H)"
| owner_drop: "ref_step V rt (a, add_mset OwnerRef H) (arc_drop rt a, H)"
| queue_drop: "ref_step V rt (a, add_mset QueueRef H) (arc_drop rt a, H)"

subsection \<open>The contract of a table\<close>

definition refs_ok :: "'x arc \<times> holder multiset \<Rightarrow> bool" where
  "refs_ok s \<longleftrightarrow>
     (case s of (a, H) \<Rightarrow> ar_strong a = size H \<and> \<not> ar_misused a \<and> (ar_freed_by a = None \<longleftrightarrow> H \<noteq> {#}))"

lemma arc_drop_ok: "refs_ok (a, add_mset h H) \<Longrightarrow> refs_ok (arc_drop i a, H)"
  by (auto simp: refs_ok_def arc_drop_def arc_use_def Let_def)

lemma arc_clone_ok: "refs_ok (a, H) \<Longrightarrow> H \<noteq> {#} \<Longrightarrow> refs_ok (arc_clone a, add_mset h H)"
  by (auto simp: refs_ok_def arc_clone_def arc_use_def)

lemma arc_use_ok: "refs_ok (a, H) \<Longrightarrow> H \<noteq> {#} \<Longrightarrow> arc_use a = a"
  by (auto simp: refs_ok_def arc_use_def)

lemma refs_ok_replace: "refs_ok (a, add_mset h H) \<longleftrightarrow> refs_ok (a, add_mset h' H)"
  by (simp add: refs_ok_def)

lemma refs_ok_value: "refs_ok (a\<lparr>ar_value := x\<rparr>, H) \<longleftrightarrow> refs_ok (a, H)"
  by (simp add: refs_ok_def)

locale waker_vtable =
  fixes V :: "'x vtable"
  assumes clone_refs: "refs_ok (a, H) \<Longrightarrow> H \<noteq> {#} \<Longrightarrow> refs_ok (vt_clone V a, add_mset h H)"
    and wake_refs: "refs_ok (a, H) \<Longrightarrow> H \<noteq> {#} \<Longrightarrow> vt_wake_by_ref V i a = (a', pushed) \<Longrightarrow>
      refs_ok (a', if pushed then add_mset h H else H)"
    and drop_refs: "refs_ok (a, add_mset h H) \<Longrightarrow> refs_ok (vt_drop V i a, H)"
begin

lemma ref_step_ok: "ref_step V rt s s' \<Longrightarrow> refs_ok s \<Longrightarrow> refs_ok s'"
proof (induction rule: ref_step.induct)
  case (make_waker H a)
  then show ?case
    unfolding arc_waker_def by (intro arc_clone_ok) auto
next
  case (clone_waker i H a)
  then show ?case
    by (intro clone_refs) auto
next
  case (wake_by_ref i H a a' pushed)
  then show ?case
    by (intro wake_refs) auto
next
  case (wake_begin i a a' pushed H)
  then show ?case
    using wake_refs [of a "add_mset (WakingRef i) H" i a' pushed QueueRef] refs_ok_replace [of a "WakerRef i" H "WakingRef i"]
    by (auto simp: add_mset_commute split: if_splits)
next
  case (dequeue a H)
  then show ?case
    using arc_use_ok [of a "add_mset QueueRef H"] refs_ok_replace by auto
next
  case (poll_value H a x)
  then have "H \<noteq> {#}"
    by auto
  then show ?case
    using poll_value.prems arc_use_ok [OF poll_value.prems] by (simp add: refs_ok_value)
next
  case (send_waker a i H j)
  then show ?case
    using refs_ok_replace by blast
qed (auto intro: arc_drop_ok drop_refs)

lemma reachable_ok: "(ref_step V rt)\<^sup>*\<^sup>* s s' \<Longrightarrow> refs_ok s \<Longrightarrow> refs_ok s'"
  by (induction rule: rtranclp_induct) (auto intro: ref_step_ok)

end

interpretation task_refs: waker_vtable task_vtable
proof
  fix a :: "task_waker arc" and H h i a' pushed
  show "refs_ok (a, H) \<Longrightarrow> H \<noteq> {#} \<Longrightarrow> refs_ok (vt_clone task_vtable a, add_mset h H)"
    by (simp add: task_vtable_def arc_clone_ok)
  show "refs_ok (a, add_mset h H) \<Longrightarrow> refs_ok (vt_drop task_vtable i a, H)"
    by (simp add: task_vtable_def arc_drop_ok)
  assume "refs_ok (a, H)" "H \<noteq> {#}" "vt_wake_by_ref task_vtable i a = (a', pushed)"
  then show "refs_ok (a', if pushed then add_mset h H else H)"
    by (auto simp: task_vtable_def task_wake_by_ref_def task_push_def task_interrupt_def arc_clone_def arc_use_def refs_ok_def Let_def
        split: if_splits)
qed

interpretation notify_refs: waker_vtable notify_vtable
proof
  fix a :: "notify_waker arc" and H h i a' pushed
  show "refs_ok (a, H) \<Longrightarrow> H \<noteq> {#} \<Longrightarrow> refs_ok (vt_clone notify_vtable a, add_mset h H)"
    by (simp add: notify_vtable_def arc_clone_ok)
  show "refs_ok (a, add_mset h H) \<Longrightarrow> refs_ok (vt_drop notify_vtable i a, H)"
    by (simp add: notify_vtable_def arc_drop_ok)
  assume "refs_ok (a, H)" "H \<noteq> {#}" "vt_wake_by_ref notify_vtable i a = (a', pushed)"
  then show "refs_ok (a', if pushed then add_mset h H else H)"
    by (auto simp: notify_vtable_def notify_wake_by_ref_def arc_use_def refs_ok_def Let_def)
qed

lemma raw_waker_wake_steps:
  assumes "raw_waker_wake V i a = (a', pushed)"
  shows "(ref_step V rt)\<^sup>*\<^sup>* (a, add_mset (WakerRef i) H) (a', if pushed then add_mset QueueRef H else H)"
proof -
  obtain b where b: "vt_wake_by_ref V i a = (b, pushed)" "a' = arc_drop i b"
    using assms by (auto simp: raw_waker_wake_def split: prod.splits)
  let ?H = "if pushed then add_mset QueueRef H else H"
  have "ref_step V rt (a, add_mset (WakerRef i) H) (b, add_mset (WakingRef i) ?H)"
    using wake_begin [OF b(1), of rt H] by (simp add: add_mset_commute split: if_splits)
  then show ?thesis
    using wake_end [of V rt b i ?H] b(2) by (meson converse_rtranclp_into_rtranclp r_into_rtranclp)
qed

subsection \<open>The thread of the last reference\<close>

text \<open>
  A task that was polled on the runtime thread 0 and is pending is held by its wakers only. When the waker has gone to thread 1 and
  is dropped there, the destructor of the task, with the future in it, runs on thread 1; neither the future nor the
  \<open>Rc\<close> references of the task may leave the runtime thread.
\<close>

definition ex_task :: task_waker where
  "ex_task = \<lparr>tw_queued = True, tw_thread = 0, tw_future = True, tw_alive = True, tw_waiting = False, tw_interrupt_pending = False,
     tw_interrupts = 0\<rparr>"

lemma ref_steps:
  "(ref_step V rt)\<^sup>*\<^sup>* s t \<Longrightarrow> ref_step V rt t u \<Longrightarrow> (ref_step V rt)\<^sup>*\<^sup>* s u"
  by (rule rtranclp.rtrancl_into_rtrancl)

lemma task_sent_away:
  "(ref_step task_vtable 0)\<^sup>*\<^sup>* (arc_new ex_task, {#QueueRef#}) ((arc_new ex_task)\<lparr>ar_value := ex_task\<lparr>tw_queued := False\<rparr>\<rparr>, {#WakerRef 1#})"
proof -
  let ?a = "arc_new ex_task" and ?b = "(arc_new ex_task)\<lparr>ar_value := ex_task\<lparr>tw_queued := False\<rparr>\<rparr>"
  have 1: "(ref_step task_vtable 0)\<^sup>*\<^sup>* (?a, {#QueueRef#}) (?a, {#OwnerRef#})"
    using dequeue [of task_vtable 0 ?a "{#}"] by (simp add: arc_use_def arc_new_def r_into_rtranclp)
  have 2: "ref_step task_vtable 0 (?a, {#OwnerRef#}) (?b, {#OwnerRef#})"
    using poll_value [of "{#OwnerRef#}" task_vtable 0 ?a "ex_task\<lparr>tw_queued := False\<rparr>"] by (simp add: arc_use_def arc_new_def)
  have 3: "ref_step task_vtable 0 (?b, {#OwnerRef#}) (arc_waker ?b, {#OwnerRef, WakerRef 0#})"
    using make_waker [of "{#OwnerRef#}" task_vtable 0 ?b] by (simp add: add_mset_commute)
  have 4: "ref_step task_vtable 0 (arc_waker ?b, {#OwnerRef, WakerRef 0#}) (?b, {#WakerRef 0#})"
    using owner_drop [of task_vtable 0 "arc_waker ?b" "{#WakerRef 0#}"]
    by (simp add: arc_waker_def arc_clone_def arc_drop_def arc_use_def arc_new_def)
  have 5: "ref_step task_vtable 0 (?b, {#WakerRef 0#}) (?b, {#WakerRef 1#})"
    using send_waker [of task_vtable 0 ?b 0 "{#}" 1] .
  show ?thesis
    by (rule ref_steps [OF ref_steps [OF ref_steps [OF ref_steps [OF 1 2] 3] 4] 5])
qed

lemma task_dropped_on_foreign_thread:
  "\<exists>a. (ref_step task_vtable 0)\<^sup>*\<^sup>* (arc_new ex_task, {#QueueRef#}) (a, {#}) \<and> ar_freed_by a = Some 1 \<and>
     tw_thread (ar_value a) = 0 \<and> tw_future (ar_value a)"
proof -
  let ?b = "(arc_new ex_task)\<lparr>ar_value := ex_task\<lparr>tw_queued := False\<rparr>\<rparr>"
  have "(ref_step task_vtable 0)\<^sup>*\<^sup>* (arc_new ex_task, {#QueueRef#}) (vt_drop task_vtable 1 ?b, {#})"
    using ref_steps [OF task_sent_away drop_waker [of task_vtable 0 ?b 1 "{#}"]] .
  then show ?thesis
    by (intro exI [of _ "vt_drop task_vtable 1 ?b"]) (simp add: task_vtable_def arc_drop_def arc_use_def arc_new_def ex_task_def)
qed

subsection \<open>Properties\<close>

text \<open>
  C31: the wakers of tasks and of \<open>block_on\<close> manage their memory exactly. Starting from a spawned task with its reference in the ready
  queue, or from the notifier of \<open>block_on\<close>, however wakers are made, cloned, sent to other threads, woken and dropped there while
  the runtime dequeues, polls and drops, the strong count is the number of references that exist, the destructor has run if and
  only if there is none, and nothing was used after it.
\<close>
theorem waker_refs_exact:
  assumes "(ref_step task_vtable rt)\<^sup>*\<^sup>* (arc_new t, {#QueueRef#}) (a, H)"
    and "(ref_step notify_vtable rt)\<^sup>*\<^sup>* (notify_new rt waiting pending, {#OwnerRef#}) (b, K)"
  shows "ar_strong a = size H \<and> (ar_freed_by a = None \<longleftrightarrow> H \<noteq> {#}) \<and> \<not> ar_misused a \<and>
    ar_strong b = size K \<and> (ar_freed_by b = None \<longleftrightarrow> K \<noteq> {#}) \<and> \<not> ar_misused b"
  using task_refs.reachable_ok [OF assms(1)] notify_refs.reachable_ok [OF assms(2)]
  by (simp add: refs_ok_def arc_new_def notify_new_def)

theorem waker_refs_exact_witness:
  "ar_strong ((arc_new ex_task)\<lparr>ar_value := ex_task\<lparr>tw_queued := False\<rparr>\<rparr>) = 1 \<and>
   ar_strong (arc_waker (notify_new 0 False False)) = 2"
proof -
  have "(ref_step notify_vtable 0)\<^sup>*\<^sup>* (notify_new 0 False False, {#OwnerRef#})
      (arc_waker (notify_new 0 False False), {#WakerRef 0, OwnerRef#})"
    by (intro r_into_rtranclp make_waker) simp
  from waker_refs_exact [OF task_sent_away this] show ?thesis
    by simp
qed

end
