(* ===== verification/Interruptor.thy ===== *)
theory Interruptor
  imports Waker_Refs
begin

text \<open>
  How other threads interrupt a waiting driver: the interruptors of \<open>driver/uring.rs\<close> (a write to an eventfd), \<open>driver/mio.rs\<close>
  (\<open>mio::Waker::wake\<close>) and \<open>driver/iocp.rs\<close> (a packet posted to the port). An interruptor has a \<open>Weak\<close> reference; a thread upgrades it,
  signals, and drops the upgraded reference. The driver owns the \<open>Arc\<close>.

  In the mio and the completion-port driver the \<open>Arc\<close> owns the object that is signalled, which is closed with the last reference. In
  the io_uring driver the \<open>Arc\<close> holds a number, and the drop of the driver closes that descriptor whoever else has a
  reference. Proved: an owned object is never signalled after it was closed, and signalled exactly by the interrupts whose upgrade
  succeeded; an eventfd can be written after its close, when its number may belong to another file.
\<close>

subsection \<open>State and operations\<close>

record signalled =
  sg_open :: bool
  sg_signals :: nat
  sg_stray :: nat

datatype closing = ClosedByOwner | ClosedByLast

definition weak_upgrade :: "signalled arc \<Rightarrow> signalled arc option" where
  "weak_upgrade a = (if ar_strong a = 0 then None else Some (arc_clone a))"

definition send_signal :: "signalled arc \<Rightarrow> signalled arc" where
  "send_signal a =
     (let v = ar_value a in
      (arc_use a)\<lparr>ar_value := if sg_open v then v\<lparr>sg_signals := Suc (sg_signals v)\<rparr> else v\<lparr>sg_stray := Suc (sg_stray v)\<rparr>\<rparr>)"

definition release_ref :: "closing \<Rightarrow> nat \<Rightarrow> signalled arc \<Rightarrow> signalled arc" where
  "release_ref m thread a =
     (let a = arc_drop thread a in
      if m = ClosedByLast \<and> ar_strong a = 0 then a\<lparr>ar_value := (ar_value a)\<lparr>sg_open := False\<rparr>\<rparr> else a)"

text \<open>\<open>interrupt\<close> without interleaving: nothing happens when the driver is gone.\<close>

definition interrupt :: "closing \<Rightarrow> nat \<Rightarrow> signalled arc \<Rightarrow> signalled arc" where
  "interrupt m thread a = (case weak_upgrade a of None \<Rightarrow> a | Some a \<Rightarrow> release_ref m thread (send_signal a))"

text \<open>\<open>Drop for UringDriver\<close> up to the drop of the \<open>Arc\<close> it took; the other drivers only drop their \<open>Arc\<close>.\<close>

definition driver_close :: "closing \<Rightarrow> signalled arc \<Rightarrow> signalled arc" where
  "driver_close m a = (case m of ClosedByOwner \<Rightarrow> a\<lparr>ar_value := (ar_value a)\<lparr>sg_open := False\<rparr>\<rparr> | ClosedByLast \<Rightarrow> a)"

definition interrupt_object :: "signalled arc" where
  "interrupt_object = arc_new \<lparr>sg_open = True, sg_signals = 0, sg_stray = 0\<rparr>"

text \<open>Who holds a reference: the driver, a driver in its drop, a thread before and after its signal.\<close>

datatype signaller = Driver | Dropping | Upgraded nat | Signalled nat

inductive intr_step :: "closing \<Rightarrow> signalled arc \<times> signaller multiset \<Rightarrow> signalled arc \<times> signaller multiset \<Rightarrow> bool" for m where
  upgrade: "weak_upgrade a = Some a' \<Longrightarrow> intr_step m (a, H) (a', add_mset (Upgraded i) H)"
| signal: "intr_step m (a, add_mset (Upgraded i) H) (send_signal a, add_mset (Signalled i) H)"
| release: "intr_step m (a, add_mset (Signalled i) H) (release_ref m i a, H)"
| close: "intr_step m (a, add_mset Driver H) (driver_close m a, add_mset Dropping H)"
| drop: "intr_step m (a, add_mset Dropping H) (release_ref m 0 a, H)"

subsection \<open>An owned object\<close>

definition intr_ok :: "signalled arc \<times> signaller multiset \<Rightarrow> bool" where
  "intr_ok s \<longleftrightarrow>
     (case s of (a, H) \<Rightarrow> ar_strong a = size H \<and> \<not> ar_misused a \<and> (ar_freed_by a = None \<longleftrightarrow> H \<noteq> {#}) \<and>
        (sg_open (ar_value a) \<longleftrightarrow> H \<noteq> {#}) \<and> sg_stray (ar_value a) = 0)"

lemmas intr_defs = intr_ok_def weak_upgrade_def send_signal_def release_ref_def driver_close_def arc_clone_def arc_use_def arc_drop_def Let_def

lemma intr_step_ok: "intr_step ClosedByLast s s' \<Longrightarrow> intr_ok s \<Longrightarrow> intr_ok s'"
  by (induction rule: intr_step.induct) (auto simp: intr_defs split: if_splits)

lemma intr_reachable_ok: "(intr_step ClosedByLast)\<^sup>*\<^sup>* s s' \<Longrightarrow> intr_ok s \<Longrightarrow> intr_ok s'"
  by (induction rule: rtranclp_induct) (auto intro: intr_step_ok)

lemma interrupt_steps:
  assumes "weak_upgrade a = Some a'"
  shows "(intr_step m)\<^sup>*\<^sup>* (a, H) (interrupt m i a, H)"
proof -
  have "intr_step m (a, H) (a', add_mset (Upgraded i) H)"
    using assms by (rule upgrade)
  moreover have "intr_step m (a', add_mset (Upgraded i) H) (send_signal a', add_mset (Signalled i) H)"
    by (rule signal)
  moreover have "intr_step m (send_signal a', add_mset (Signalled i) H) (interrupt m i a, H)"
    using assms release [of m "send_signal a'" i H] by (simp add: interrupt_def)
  ultimately show ?thesis
    by (meson converse_rtranclp_into_rtranclp r_into_rtranclp)
qed

text \<open>An interrupt while the driver lives signals the object once and leaves the references as they were.\<close>

lemma interrupt_signals:
  assumes "intr_ok (a, H)" and "H \<noteq> {#}"
  shows "ar_strong (interrupt ClosedByLast i a) = ar_strong a \<and>
    ar_value (interrupt ClosedByLast i a) = (ar_value a)\<lparr>sg_signals := Suc (sg_signals (ar_value a))\<rparr>"
  using assms by (auto simp: intr_defs interrupt_def)

lemma interrupt_after_drop: "intr_ok (a, {#}) \<Longrightarrow> interrupt m i a = a"
  by (simp add: intr_defs interrupt_def)

subsection \<open>The eventfd\<close>

text \<open>
  A thread that has upgraded its reference before the driver is dropped writes to the closed descriptor.
\<close>

lemma eventfd_written_after_close:
  "\<exists>a H. (intr_step ClosedByOwner)\<^sup>*\<^sup>* (interrupt_object, {#Driver#}) (a, H) \<and> \<not> sg_open (ar_value a) \<and> sg_stray (ar_value a) = 1"
proof -
  let ?a = "arc_clone interrupt_object" and ?m = ClosedByOwner
  have 1: "intr_step ?m (interrupt_object, {#Driver#}) (?a, {#Driver, Upgraded 1#})"
    using upgrade [of interrupt_object ?a ?m "{#Driver#}" 1]
    by (simp add: weak_upgrade_def interrupt_object_def arc_new_def add_mset_commute)
  have 2: "intr_step ?m (?a, {#Driver, Upgraded 1#}) (driver_close ?m ?a, {#Upgraded 1, Dropping#})"
    using close [of ?m ?a "{#Upgraded 1#}"] by (simp add: add_mset_commute)
  have 3: "intr_step ?m (driver_close ?m ?a, {#Upgraded 1, Dropping#}) (send_signal (driver_close ?m ?a), {#Signalled 1, Dropping#})"
    by (rule signal)
  have "(intr_step ?m)\<^sup>*\<^sup>* (interrupt_object, {#Driver#}) (send_signal (driver_close ?m ?a), {#Signalled 1, Dropping#})"
    using 1 2 3 by (meson converse_rtranclp_into_rtranclp r_into_rtranclp)
  then show ?thesis
    by (intro exI conjI) (assumption, simp_all add: interrupt_object_def arc_new_def intr_defs)
qed

subsection \<open>\<open>AnyInterruptor\<close> and the mock driver\<close>

text \<open>
  \<open>MockDriver\<close> parks its thread and \<open>MockInterruptor\<close> unparks it: a token that \<open>unpark\<close> makes available and \<open>park\<close> waits for
  and takes. \<open>None\<close>: the thread sleeps until an interrupt; with a timeout it returns in the end.
\<close>

record parker =
  pk_token :: bool

definition mock_interrupt :: "parker \<Rightarrow> parker" where
  "mock_interrupt t = t\<lparr>pk_token := True\<rparr>"

definition mock_wait :: "nat option \<Rightarrow> parker \<Rightarrow> parker option" where
  "mock_wait timeout t = (if pk_token t \<or> timeout \<noteq> None then Some (t\<lparr>pk_token := False\<rparr>) else None)"

datatype any_interruptor =
    MockInterruptor parker
  | IocpInterruptor "signalled arc"
  | MioInterruptor "signalled arc"
  | IoUringInterruptor "signalled arc"

fun any_interrupt :: "nat \<Rightarrow> any_interruptor \<Rightarrow> any_interruptor" where
  "any_interrupt i (MockInterruptor t) = MockInterruptor (mock_interrupt t)"
| "any_interrupt i (IocpInterruptor a) = IocpInterruptor (interrupt ClosedByLast i a)"
| "any_interrupt i (MioInterruptor a) = MioInterruptor (interrupt ClosedByLast i a)"
| "any_interrupt i (IoUringInterruptor a) = IoUringInterruptor (interrupt ClosedByOwner i a)"

text \<open>Interrupts before a wait are not lost and count as one; the wait after next sleeps again.\<close>

lemma mock_interrupts_coalesce:
  assumes "0 < n"
  shows "\<exists>t'. mock_wait None ((mock_interrupt ^^ n) t) = Some t' \<and> mock_wait None t' = None"
proof -
  have "pk_token ((mock_interrupt ^^ n) t)"
    using assms by (cases n) (simp_all add: mock_interrupt_def)
  then show ?thesis
    by (simp add: mock_wait_def)
qed

text \<open>Whatever the driver, an interrupt while it lives reaches it.\<close>

fun signals :: "any_interruptor \<Rightarrow> nat" where
  "signals (MockInterruptor t) = of_bool (pk_token t)"
| "signals (IocpInterruptor a) = sg_signals (ar_value a)"
| "signals (MioInterruptor a) = sg_signals (ar_value a)"
| "signals (IoUringInterruptor a) = sg_signals (ar_value a)"

fun driver_lives :: "any_interruptor \<Rightarrow> bool" where
  "driver_lives (MockInterruptor t) = True"
| "driver_lives (IocpInterruptor a) = (0 < ar_strong a \<and> ar_freed_by a = None \<and> sg_open (ar_value a))"
| "driver_lives (MioInterruptor a) = (0 < ar_strong a \<and> ar_freed_by a = None \<and> sg_open (ar_value a))"
| "driver_lives (IoUringInterruptor a) = (0 < ar_strong a \<and> ar_freed_by a = None \<and> sg_open (ar_value a))"

lemma any_interrupt_reaches: "driver_lives n \<Longrightarrow> driver_lives (any_interrupt i n) \<and> 0 < signals (any_interrupt i n)"
  by (cases n) (auto simp: intr_defs interrupt_def mock_interrupt_def)

end
