(* ===== verification/Signal_Pipe.thy ===== *)
theory Signal_Pipe
  imports Signal
begin

text \<open>
  The kinds of signals and the pipe from the handlers to the dispatch thread (\<open>signal/unix.rs\<close>): \<open>create_pipe\<close> with and
  without \<open>pipe2\<close>, and what \<open>init_registry\<close> does with it. The system calls are the record \<open>pipe_calls\<close>. Proved: a failed
  \<open>create_pipe\<close> leaves no descriptor open and a successful one exactly its two, closed on exec and with a write end that
  does not block; but both stay open when the dispatch thread cannot be started.
\<close>

subsection \<open>Kinds\<close>

datatype signal_kind = SignalKind i32

definition kind_new :: "i32 \<Rightarrow> signal_kind" where "kind_new raw = SignalKind raw"

fun as_raw :: "signal_kind \<Rightarrow> i32" where "as_raw (SignalKind raw) = raw"

definition kind_interrupt :: signal_kind where "kind_interrupt = SignalKind 2"
definition kind_terminate :: signal_kind where "kind_terminate = SignalKind 15"
definition kind_hangup :: signal_kind where "kind_hangup = SignalKind 1"
definition kind_quit :: signal_kind where "kind_quit = SignalKind 3"
definition kind_user_defined1 :: signal_kind where "kind_user_defined1 = SignalKind 10"
definition kind_user_defined2 :: signal_kind where "kind_user_defined2 = SignalKind 12"
definition kind_child :: signal_kind where "kind_child = SignalKind 17"
definition kind_alarm :: signal_kind where "kind_alarm = SignalKind 14"
definition kind_pipe :: signal_kind where "kind_pipe = SignalKind 13"

lemmas kind_defs = kind_interrupt_def kind_terminate_def kind_hangup_def kind_quit_def kind_user_defined1_def
  kind_user_defined2_def kind_child_def kind_alarm_def kind_pipe_def

text \<open>\<open>CtrlC\<close> on Unix is a listener for the interrupt.\<close>

definition unix_ctrl_c_new :: "sig_env \<Rightarrow> sig_registry \<Rightarrow> sig_registry \<times> signal io_result" where
  "unix_ctrl_c_new env r = signal_new env (sint (as_raw kind_interrupt)) r"

subsection \<open>The pipe\<close>

text \<open>\<open>fcntl\<close> with the flags of the descriptor (\<open>True\<close>: \<open>F_GETFD\<close>, \<open>F_SETFD\<close>) or of the open file (\<open>F_GETFL\<close>, \<open>F_SETFL\<close>).\<close>

record 'o pipe_calls =
  pc_pipe2 :: "'o \<Rightarrow> 'o \<times> (int \<times> int) io_result"     \<comment> \<open>with \<open>O_CLOEXEC | O_NONBLOCK\<close>\<close>
  pc_pipe :: "'o \<Rightarrow> 'o \<times> (int \<times> int) io_result"
  pc_get_flags :: "bool \<Rightarrow> int \<Rightarrow> 'o \<Rightarrow> u32 io_result"
  pc_set_flags :: "bool \<Rightarrow> int \<Rightarrow> u32 \<Rightarrow> 'o \<Rightarrow> 'o \<times> unit io_result"
  pc_close :: "int \<Rightarrow> 'o \<Rightarrow> 'o"

definition FD_CLOEXEC :: u32 where "FD_CLOEXEC = 1"
definition BSD_O_NONBLOCK :: u32 where "BSD_O_NONBLOCK = 4"

definition pipe_set_cloexec :: "'o pipe_calls \<Rightarrow> int \<Rightarrow> 'o \<Rightarrow> 'o \<times> unit io_result" where
  "pipe_set_cloexec os fd s =
     (case pc_get_flags os True fd s of
        Inl err \<Rightarrow> (s, Inl err)
      | Inr flags \<Rightarrow> pc_set_flags os True fd (flags OR FD_CLOEXEC) s)"

definition pipe_set_nonblock :: "'o pipe_calls \<Rightarrow> int \<Rightarrow> 'o \<Rightarrow> 'o \<times> unit io_result" where
  "pipe_set_nonblock os fd s =
     (case pc_get_flags os False fd s of
        Inl err \<Rightarrow> (s, Inl err)
      | Inr flags \<Rightarrow> pc_set_flags os False fd (flags OR BSD_O_NONBLOCK) s)"

definition close_both :: "'o pipe_calls \<Rightarrow> int \<times> int \<Rightarrow> 'o \<Rightarrow> 'o" where
  "close_both os fds s = pc_close os (snd fds) (pc_close os (fst fds) s)"

text \<open>\<open>set_cloexec(fds[0]).and_then(|_| set_cloexec(fds[1]))\<close>.\<close>

definition pipe_cloexec_both :: "'o pipe_calls \<Rightarrow> int \<times> int \<Rightarrow> 'o \<Rightarrow> 'o \<times> unit io_result" where
  "pipe_cloexec_both os fds s =
     (case pipe_set_cloexec os (fst fds) s of
        (s, Inl err) \<Rightarrow> (s, Inl err)
      | (s, Inr _) \<Rightarrow> pipe_set_cloexec os (snd fds) s)"

definition create_pipe :: "'o pipe_calls \<Rightarrow> bool \<Rightarrow> 'o \<Rightarrow> 'o \<times> (int \<times> int) io_result" where
  "create_pipe os has_pipe2 s =
     (if has_pipe2 then pc_pipe2 os s
      else (case pc_pipe os s of
              (s, Inl err) \<Rightarrow> (s, Inl err)
            | (s, Inr fds) \<Rightarrow>
                (case pipe_cloexec_both os fds s of
                   (s, Inl err) \<Rightarrow> (close_both os fds s, Inl err)
                 | (s, Inr _) \<Rightarrow>
                     (case pipe_set_nonblock os (snd fds) s of
                        (s, Inl err) \<Rightarrow> (close_both os fds s, Inl err)
                      | (s, Inr _) \<Rightarrow> (s, Inr fds)))))"

text \<open>\<open>init_registry\<close> with the descriptors; \<open>spawned\<close>: whether the dispatch thread was started.\<close>

definition init_registry_fds :: "'o pipe_calls \<Rightarrow> bool \<Rightarrow> unit io_result \<Rightarrow> sig_registry \<Rightarrow> 'o \<Rightarrow> 'o \<times> sig_registry \<times> unit io_result" where
  "init_registry_fds os has_pipe2 spawned r s =
     (case create_pipe os has_pipe2 s of
        (s, fds) \<Rightarrow> (case init_registry \<lparr>se_pipe = fds, se_spawn = spawned, se_sigaction = Inr ()\<rparr> r of (r, res) \<Rightarrow> (s, r, res)))"

subsection \<open>Descriptors\<close>

definition honest_pipe_calls :: "'o pipe_calls \<Rightarrow> ('o \<Rightarrow> int set) \<Rightarrow> (bool \<Rightarrow> int \<Rightarrow> 'o \<Rightarrow> u32) \<Rightarrow> bool" where
  "honest_pipe_calls os opened flags \<longleftrightarrow>
     (\<forall>s s' res. pc_pipe os s = (s', res) \<or> pc_pipe2 os s = (s', res) \<longrightarrow>
        (case res of
           Inl _ \<Rightarrow> opened s' = opened s
         | Inr (r, w) \<Rightarrow> r \<noteq> w \<and> {r, w} \<inter> opened s = {} \<and> opened s' = opened s \<union> {r, w})) \<and>
     (\<forall>d fd s fl. pc_get_flags os d fd s = Inr fl \<longrightarrow> fl = flags d fd s) \<and>
     (\<forall>d fd fl s s' res. pc_set_flags os d fd fl s = (s', res) \<longrightarrow> opened s' = opened s \<and>
        (case res of
           Inl _ \<Rightarrow> (\<forall>d' fd'. flags d' fd' s' = flags d' fd' s)
         | Inr _ \<Rightarrow> (\<forall>d' fd'. flags d' fd' s' = (if d' = d \<and> fd' = fd then fl else flags d' fd' s)))) \<and>
     (\<forall>fd s. opened (pc_close os fd s) = opened s - {fd})"

lemma honest_pipe_callsD:
  assumes "honest_pipe_calls os opened flags"
  shows "pc_pipe os s = (s', Inl err) \<Longrightarrow> opened s' = opened s"
    "pc_pipe2 os s = (s', Inl err) \<Longrightarrow> opened s' = opened s"
    "pc_pipe os s = (s', Inr (r, w)) \<Longrightarrow> r \<noteq> w \<and> {r, w} \<inter> opened s = {} \<and> opened s' = opened s \<union> {r, w}"
    "pc_pipe2 os s = (s', Inr (r, w)) \<Longrightarrow> r \<noteq> w \<and> {r, w} \<inter> opened s = {} \<and> opened s' = opened s \<union> {r, w}"
    "opened (close_both os (r, w) s) = opened s - {r, w}"
  using assms unfolding honest_pipe_calls_def close_both_def by fastforce+

lemma pipe_flag_set:
  assumes "honest_pipe_calls os opened flags"
  shows "pipe_set_cloexec os fd s = (s', res) \<Longrightarrow> opened s' = opened s \<and>
      (res = Inr () \<longrightarrow> (\<forall>d' fd'. flags d' fd' s' = (if d' \<and> fd' = fd then flags True fd s OR FD_CLOEXEC else flags d' fd' s)))"
    "pipe_set_nonblock os fd s = (s', res) \<Longrightarrow> opened s' = opened s \<and>
      (res = Inr () \<longrightarrow> (\<forall>d' fd'. flags d' fd' s' = (if \<not> d' \<and> fd' = fd then flags False fd s OR BSD_O_NONBLOCK else flags d' fd' s)))"
  using assms unfolding honest_pipe_calls_def pipe_set_cloexec_def pipe_set_nonblock_def
  by (force split: sum.splits)+

lemma flag_bits: "bit (x OR FD_CLOEXEC) 0" "bit (x OR BSD_O_NONBLOCK) 2"
  by (simp_all add: FD_CLOEXEC_def BSD_O_NONBLOCK_def bit_simps)

text \<open>Without \<open>pipe2\<close>: nothing is left behind by a failure, and the flags are set on a success.\<close>

lemma create_pipe_owns:
  assumes honest: "honest_pipe_calls os opened flags" and "create_pipe os False s = (s', res)"
  shows "case res of
      Inl _ \<Rightarrow> opened s' = opened s
    | Inr (r, w) \<Rightarrow> r \<noteq> w \<and> {r, w} \<inter> opened s = {} \<and> opened s' = opened s \<union> {r, w} \<and>
        bit (flags True r s') 0 \<and> bit (flags True w s') 0 \<and> bit (flags False w s') 2"
proof -
  note hd = honest_pipe_callsD [OF honest] and set = pipe_flag_set [OF honest]
  obtain s1 r1 where 1: "pc_pipe os s = (s1, r1)"
    by fastforce
  show ?thesis
  proof (cases r1)
    case (Inl err)
    with assms(2) 1 hd(1) show ?thesis
      by (auto simp: create_pipe_def)
  next
    case (Inr fds)
    obtain r w where rw: "r1 = Inr (r, w)"
      using Inr by (cases fds) simp
    note fresh = hd(3) [OF 1 [unfolded rw]]
    obtain s2 r2 where 2: "pipe_set_cloexec os r s1 = (s2, r2)"
      by fastforce
    obtain s3 r3 where 3: "pipe_set_cloexec os w s2 = (s3, r3)"
      by fastforce
    obtain s4 r4 where 4: "pipe_set_nonblock os w s3 = (s4, r4)"
      by fastforce
    have "opened s2 = opened s1" "opened s3 = opened s1" "opened s4 = opened s1"
      using set(1) [OF 2] set(1) [OF 3] set(2) [OF 4] by simp_all
    then show ?thesis
      using assms(2) 1 rw 2 3 4 fresh hd(5) set(1) [OF 2] set(1) [OF 3] set(2) [OF 4]
      by (auto simp: create_pipe_def pipe_cloexec_both_def flag_bits split: sum.splits)
  qed
qed

text \<open>The pipe outlives a registry whose thread could not be started.\<close>

lemma init_registry_leaks_pipe:
  assumes "honest_pipe_calls os opened flags" and "create_pipe os True s = (s', Inr (r, w))"
  shows "init_registry_fds os True (Inl err) reg s = (s', reg\<lparr>sr_write_fd := w\<rparr>, Inl err) \<and> {r, w} \<subseteq> opened s' - opened s"
  using assms honest_pipe_callsD(4) [OF assms(1)]
  by (auto simp: init_registry_fds_def init_registry_def create_pipe_def)

text \<open>The lists of open descriptors with their flags.\<close>

record pipe_files =
  pf_open :: "int list"
  pf_flags :: "bool \<Rightarrow> int \<Rightarrow> u32"

definition fresh_fd :: "pipe_files \<Rightarrow> int" where
  "fresh_fd s = foldr max (pf_open s) 0 + 1"

definition sim_pipe_calls :: "pipe_files pipe_calls" where
  "sim_pipe_calls =
     \<lparr>pc_pipe2 = (\<lambda>s. let r = fresh_fd s in (s\<lparr>pf_open := (r + 1) # r # pf_open s, pf_flags := (\<lambda>d fd. if fd \<in> {r, r + 1} then 5 else pf_flags s d fd)\<rparr>, Inr (r, r + 1))),
      pc_pipe = (\<lambda>s. let r = fresh_fd s in (s\<lparr>pf_open := (r + 1) # r # pf_open s\<rparr>, Inr (r, r + 1))),
      pc_get_flags = (\<lambda>d fd s. Inr (pf_flags s d fd)),
      pc_set_flags = (\<lambda>d fd fl s. (s\<lparr>pf_flags := (pf_flags s)(d := (pf_flags s d)(fd := fl))\<rparr>, Inr ())),
      pc_close = (\<lambda>fd s. s\<lparr>pf_open := removeAll fd (pf_open s)\<rparr>)\<rparr>"

lemma sim_pipe_calls_honest: "honest_pipe_calls sim_pipe_calls (set \<circ> pf_open) (\<lambda>d fd s. pf_flags s d fd)"
proof -
  have "fresh_fd s \<notin> set (pf_open s)" "fresh_fd s + 1 \<notin> set (pf_open s)" for s
    using foldr_max_le [of _ "pf_open s"] by (force simp: fresh_fd_def)+
  then show ?thesis
    by (auto simp: honest_pipe_calls_def sim_pipe_calls_def Let_def)
qed

end
