(* ===== verification/Net_Options.thy ===== *)
theory Net_Options
  imports Net_Unix
begin

text \<open>
  The options, addresses and multicast groups of sockets: the accessors of \<open>net/udp/mod.rs\<close>, \<open>net/udp/poll.rs\<close>,
  \<open>net/tcp/stream.rs\<close>, \<open>net/tcp/listener.rs\<close> and \<open>net/unix/\<close>. Each is the standard library's call on the descriptor, which is a
  parameter; a polled socket goes through the socket inside it.

  Options belong to the open file description. So what was set on a socket is read back after it has changed its mode, on
  every duplicate, and by the polled and the adaptive type alike.
\<close>

subsection \<open>The calls of the standard library\<close>

datatype sock_option = Broadcast | Ttl | MulticastLoopV4 | MulticastTtlV4 | MulticastLoopV6 | ReadTimeout | WriteTimeout | NoDelay

datatype multicast_group = GroupV4 u32 u32 | GroupV6 "u16 list" u32

record 'o opt_sys =
  op_set_bool :: "int \<Rightarrow> sock_option \<Rightarrow> bool \<Rightarrow> 'o \<Rightarrow> 'o \<times> unit io_result"
  op_bool :: "int \<Rightarrow> sock_option \<Rightarrow> 'o \<Rightarrow> bool io_result"
  op_set_u32 :: "int \<Rightarrow> sock_option \<Rightarrow> u32 \<Rightarrow> 'o \<Rightarrow> 'o \<times> unit io_result"
  op_u32 :: "int \<Rightarrow> sock_option \<Rightarrow> 'o \<Rightarrow> u32 io_result"
  op_set_time :: "int \<Rightarrow> sock_option \<Rightarrow> nat option \<Rightarrow> 'o \<Rightarrow> 'o \<times> unit io_result"
  op_time :: "int \<Rightarrow> sock_option \<Rightarrow> 'o \<Rightarrow> nat option io_result"
  op_group :: "bool \<Rightarrow> int \<Rightarrow> multicast_group \<Rightarrow> 'o \<Rightarrow> 'o \<times> unit io_result"       \<comment> \<open>\<open>True\<close>: join\<close>
  op_take_error :: "int \<Rightarrow> 'o \<Rightarrow> 'o \<times> io_error option io_result"
  op_local_addr :: "int \<Rightarrow> 'o \<Rightarrow> socket_addr io_result"
  op_peer_addr :: "int \<Rightarrow> 'o \<Rightarrow> socket_addr io_result"

subsection \<open>\<open>UdpSocket\<close> and \<open>PollUdpSocket\<close>\<close>

definition udp_set_broadcast :: "'o opt_sys \<Rightarrow> socket \<Rightarrow> bool \<Rightarrow> 'o \<Rightarrow> 'o \<times> unit io_result" where
  "udp_set_broadcast os k v = op_set_bool os (so_inner k) Broadcast v"

definition poll_udp_set_broadcast :: "'o opt_sys \<Rightarrow> poll_socket \<Rightarrow> bool \<Rightarrow> 'o \<Rightarrow> 'o \<times> unit io_result" where
  "poll_udp_set_broadcast os p v = udp_set_broadcast os (po_stream p) v"

definition udp_broadcast :: "'o opt_sys \<Rightarrow> socket \<Rightarrow> 'o \<Rightarrow> bool io_result" where
  "udp_broadcast os k = op_bool os (so_inner k) Broadcast"

definition poll_udp_broadcast :: "'o opt_sys \<Rightarrow> poll_socket \<Rightarrow> 'o \<Rightarrow> bool io_result" where
  "poll_udp_broadcast os p = udp_broadcast os (po_stream p)"

definition udp_set_multicast_loop_v4 :: "'o opt_sys \<Rightarrow> socket \<Rightarrow> bool \<Rightarrow> 'o \<Rightarrow> 'o \<times> unit io_result" where
  "udp_set_multicast_loop_v4 os k v = op_set_bool os (so_inner k) MulticastLoopV4 v"

definition poll_udp_set_multicast_loop_v4 :: "'o opt_sys \<Rightarrow> poll_socket \<Rightarrow> bool \<Rightarrow> 'o \<Rightarrow> 'o \<times> unit io_result" where
  "poll_udp_set_multicast_loop_v4 os p v = udp_set_multicast_loop_v4 os (po_stream p) v"

definition udp_multicast_loop_v4 :: "'o opt_sys \<Rightarrow> socket \<Rightarrow> 'o \<Rightarrow> bool io_result" where
  "udp_multicast_loop_v4 os k = op_bool os (so_inner k) MulticastLoopV4"

definition poll_udp_multicast_loop_v4 :: "'o opt_sys \<Rightarrow> poll_socket \<Rightarrow> 'o \<Rightarrow> bool io_result" where
  "poll_udp_multicast_loop_v4 os p = udp_multicast_loop_v4 os (po_stream p)"

definition udp_set_multicast_loop_v6 :: "'o opt_sys \<Rightarrow> socket \<Rightarrow> bool \<Rightarrow> 'o \<Rightarrow> 'o \<times> unit io_result" where
  "udp_set_multicast_loop_v6 os k v = op_set_bool os (so_inner k) MulticastLoopV6 v"

definition poll_udp_set_multicast_loop_v6 :: "'o opt_sys \<Rightarrow> poll_socket \<Rightarrow> bool \<Rightarrow> 'o \<Rightarrow> 'o \<times> unit io_result" where
  "poll_udp_set_multicast_loop_v6 os p v = udp_set_multicast_loop_v6 os (po_stream p) v"

definition udp_multicast_loop_v6 :: "'o opt_sys \<Rightarrow> socket \<Rightarrow> 'o \<Rightarrow> bool io_result" where
  "udp_multicast_loop_v6 os k = op_bool os (so_inner k) MulticastLoopV6"

definition poll_udp_multicast_loop_v6 :: "'o opt_sys \<Rightarrow> poll_socket \<Rightarrow> 'o \<Rightarrow> bool io_result" where
  "poll_udp_multicast_loop_v6 os p = udp_multicast_loop_v6 os (po_stream p)"

definition udp_set_ttl :: "'o opt_sys \<Rightarrow> socket \<Rightarrow> u32 \<Rightarrow> 'o \<Rightarrow> 'o \<times> unit io_result" where
  "udp_set_ttl os k v = op_set_u32 os (so_inner k) Ttl v"

definition poll_udp_set_ttl :: "'o opt_sys \<Rightarrow> poll_socket \<Rightarrow> u32 \<Rightarrow> 'o \<Rightarrow> 'o \<times> unit io_result" where
  "poll_udp_set_ttl os p v = udp_set_ttl os (po_stream p) v"

definition udp_ttl :: "'o opt_sys \<Rightarrow> socket \<Rightarrow> 'o \<Rightarrow> u32 io_result" where
  "udp_ttl os k = op_u32 os (so_inner k) Ttl"

definition poll_udp_ttl :: "'o opt_sys \<Rightarrow> poll_socket \<Rightarrow> 'o \<Rightarrow> u32 io_result" where
  "poll_udp_ttl os p = udp_ttl os (po_stream p)"

definition udp_set_multicast_ttl_v4 :: "'o opt_sys \<Rightarrow> socket \<Rightarrow> u32 \<Rightarrow> 'o \<Rightarrow> 'o \<times> unit io_result" where
  "udp_set_multicast_ttl_v4 os k v = op_set_u32 os (so_inner k) MulticastTtlV4 v"

definition poll_udp_set_multicast_ttl_v4 :: "'o opt_sys \<Rightarrow> poll_socket \<Rightarrow> u32 \<Rightarrow> 'o \<Rightarrow> 'o \<times> unit io_result" where
  "poll_udp_set_multicast_ttl_v4 os p v = udp_set_multicast_ttl_v4 os (po_stream p) v"

definition udp_multicast_ttl_v4 :: "'o opt_sys \<Rightarrow> socket \<Rightarrow> 'o \<Rightarrow> u32 io_result" where
  "udp_multicast_ttl_v4 os k = op_u32 os (so_inner k) MulticastTtlV4"

definition poll_udp_multicast_ttl_v4 :: "'o opt_sys \<Rightarrow> poll_socket \<Rightarrow> 'o \<Rightarrow> u32 io_result" where
  "poll_udp_multicast_ttl_v4 os p = udp_multicast_ttl_v4 os (po_stream p)"

definition udp_set_read_timeout :: "'o opt_sys \<Rightarrow> socket \<Rightarrow> nat option \<Rightarrow> 'o \<Rightarrow> 'o \<times> unit io_result" where
  "udp_set_read_timeout os k v = op_set_time os (so_inner k) ReadTimeout v"

definition poll_udp_set_read_timeout :: "'o opt_sys \<Rightarrow> poll_socket \<Rightarrow> nat option \<Rightarrow> 'o \<Rightarrow> 'o \<times> unit io_result" where
  "poll_udp_set_read_timeout os p v = udp_set_read_timeout os (po_stream p) v"

definition udp_read_timeout :: "'o opt_sys \<Rightarrow> socket \<Rightarrow> 'o \<Rightarrow> nat option io_result" where
  "udp_read_timeout os k = op_time os (so_inner k) ReadTimeout"

definition poll_udp_read_timeout :: "'o opt_sys \<Rightarrow> poll_socket \<Rightarrow> 'o \<Rightarrow> nat option io_result" where
  "poll_udp_read_timeout os p = udp_read_timeout os (po_stream p)"

definition udp_set_write_timeout :: "'o opt_sys \<Rightarrow> socket \<Rightarrow> nat option \<Rightarrow> 'o \<Rightarrow> 'o \<times> unit io_result" where
  "udp_set_write_timeout os k v = op_set_time os (so_inner k) WriteTimeout v"

definition poll_udp_set_write_timeout :: "'o opt_sys \<Rightarrow> poll_socket \<Rightarrow> nat option \<Rightarrow> 'o \<Rightarrow> 'o \<times> unit io_result" where
  "poll_udp_set_write_timeout os p v = udp_set_write_timeout os (po_stream p) v"

definition udp_write_timeout :: "'o opt_sys \<Rightarrow> socket \<Rightarrow> 'o \<Rightarrow> nat option io_result" where
  "udp_write_timeout os k = op_time os (so_inner k) WriteTimeout"

definition poll_udp_write_timeout :: "'o opt_sys \<Rightarrow> poll_socket \<Rightarrow> 'o \<Rightarrow> nat option io_result" where
  "poll_udp_write_timeout os p = udp_write_timeout os (po_stream p)"

definition udp_join_multicast_v4 :: "'o opt_sys \<Rightarrow> socket \<Rightarrow> u32 \<Rightarrow> u32 \<Rightarrow> 'o \<Rightarrow> 'o \<times> unit io_result" where
  "udp_join_multicast_v4 os k multiaddr interface = op_group os True (so_inner k) (GroupV4 multiaddr interface)"

definition poll_udp_join_multicast_v4 :: "'o opt_sys \<Rightarrow> poll_socket \<Rightarrow> u32 \<Rightarrow> u32 \<Rightarrow> 'o \<Rightarrow> 'o \<times> unit io_result" where
  "poll_udp_join_multicast_v4 os p multiaddr interface = udp_join_multicast_v4 os (po_stream p) multiaddr interface"

definition udp_join_multicast_v6 :: "'o opt_sys \<Rightarrow> socket \<Rightarrow> u16 list \<Rightarrow> u32 \<Rightarrow> 'o \<Rightarrow> 'o \<times> unit io_result" where
  "udp_join_multicast_v6 os k multiaddr interface = op_group os True (so_inner k) (GroupV6 multiaddr interface)"

definition poll_udp_join_multicast_v6 :: "'o opt_sys \<Rightarrow> poll_socket \<Rightarrow> u16 list \<Rightarrow> u32 \<Rightarrow> 'o \<Rightarrow> 'o \<times> unit io_result" where
  "poll_udp_join_multicast_v6 os p multiaddr interface = udp_join_multicast_v6 os (po_stream p) multiaddr interface"

definition udp_leave_multicast_v4 :: "'o opt_sys \<Rightarrow> socket \<Rightarrow> u32 \<Rightarrow> u32 \<Rightarrow> 'o \<Rightarrow> 'o \<times> unit io_result" where
  "udp_leave_multicast_v4 os k multiaddr interface = op_group os False (so_inner k) (GroupV4 multiaddr interface)"

definition poll_udp_leave_multicast_v4 :: "'o opt_sys \<Rightarrow> poll_socket \<Rightarrow> u32 \<Rightarrow> u32 \<Rightarrow> 'o \<Rightarrow> 'o \<times> unit io_result" where
  "poll_udp_leave_multicast_v4 os p multiaddr interface = udp_leave_multicast_v4 os (po_stream p) multiaddr interface"

definition udp_leave_multicast_v6 :: "'o opt_sys \<Rightarrow> socket \<Rightarrow> u16 list \<Rightarrow> u32 \<Rightarrow> 'o \<Rightarrow> 'o \<times> unit io_result" where
  "udp_leave_multicast_v6 os k multiaddr interface = op_group os False (so_inner k) (GroupV6 multiaddr interface)"

definition poll_udp_leave_multicast_v6 :: "'o opt_sys \<Rightarrow> poll_socket \<Rightarrow> u16 list \<Rightarrow> u32 \<Rightarrow> 'o \<Rightarrow> 'o \<times> unit io_result" where
  "poll_udp_leave_multicast_v6 os p multiaddr interface = udp_leave_multicast_v6 os (po_stream p) multiaddr interface"

definition udp_take_error :: "'o opt_sys \<Rightarrow> socket \<Rightarrow> 'o \<Rightarrow> 'o \<times> io_error option io_result" where
  "udp_take_error os k = op_take_error os (so_inner k)"

definition poll_udp_take_error :: "'o opt_sys \<Rightarrow> poll_socket \<Rightarrow> 'o \<Rightarrow> 'o \<times> io_error option io_result" where
  "poll_udp_take_error os p = udp_take_error os (po_stream p)"

definition udp_local_addr :: "'o opt_sys \<Rightarrow> socket \<Rightarrow> 'o \<Rightarrow> socket_addr io_result" where
  "udp_local_addr os k = op_local_addr os (so_inner k)"

definition poll_udp_local_addr :: "'o opt_sys \<Rightarrow> poll_socket \<Rightarrow> 'o \<Rightarrow> socket_addr io_result" where
  "poll_udp_local_addr os p = udp_local_addr os (po_stream p)"

definition udp_peer_addr :: "'o opt_sys \<Rightarrow> socket \<Rightarrow> 'o \<Rightarrow> socket_addr io_result" where
  "udp_peer_addr os k = op_peer_addr os (so_inner k)"

definition poll_udp_peer_addr :: "'o opt_sys \<Rightarrow> poll_socket \<Rightarrow> 'o \<Rightarrow> socket_addr io_result" where
  "poll_udp_peer_addr os p = udp_peer_addr os (po_stream p)"

subsection \<open>TCP and Unix sockets\<close>

definition tcp_local_addr :: "'o opt_sys \<Rightarrow> socket \<Rightarrow> 'o \<Rightarrow> socket_addr io_result" where
  "tcp_local_addr os k = op_local_addr os (so_inner k)"

definition poll_tcp_local_addr :: "'o opt_sys \<Rightarrow> poll_socket \<Rightarrow> 'o \<Rightarrow> socket_addr io_result" where
  "poll_tcp_local_addr os p = tcp_local_addr os (po_stream p)"

definition tcp_peer_addr :: "'o opt_sys \<Rightarrow> socket \<Rightarrow> 'o \<Rightarrow> socket_addr io_result" where
  "tcp_peer_addr os k = op_peer_addr os (so_inner k)"

definition poll_tcp_peer_addr :: "'o opt_sys \<Rightarrow> poll_socket \<Rightarrow> 'o \<Rightarrow> socket_addr io_result" where
  "poll_tcp_peer_addr os p = tcp_peer_addr os (po_stream p)"

definition tcp_nodelay :: "'o opt_sys \<Rightarrow> socket \<Rightarrow> 'o \<Rightarrow> bool io_result" where
  "tcp_nodelay os k = op_bool os (so_inner k) NoDelay"

definition poll_tcp_nodelay :: "'o opt_sys \<Rightarrow> poll_socket \<Rightarrow> 'o \<Rightarrow> bool io_result" where
  "poll_tcp_nodelay os p = tcp_nodelay os (po_stream p)"

definition tcp_set_nodelay :: "'o opt_sys \<Rightarrow> socket \<Rightarrow> bool \<Rightarrow> 'o \<Rightarrow> 'o \<times> unit io_result" where
  "tcp_set_nodelay os k v = op_set_bool os (so_inner k) NoDelay v"

definition poll_tcp_set_nodelay :: "'o opt_sys \<Rightarrow> poll_socket \<Rightarrow> bool \<Rightarrow> 'o \<Rightarrow> 'o \<times> unit io_result" where
  "poll_tcp_set_nodelay os p v = tcp_set_nodelay os (po_stream p) v"

definition listener_local_addr :: "'o opt_sys \<Rightarrow> socket \<Rightarrow> 'o \<Rightarrow> socket_addr io_result" where
  "listener_local_addr os k = op_local_addr os (so_inner k)"

text \<open>\<open>shutdown\<close> of a polled stream hands its argument on; the outcome of the call is the argument of \<open>tcp_shutdown\<close>.\<close>

definition poll_tcp_shutdown :: "unit io_result \<Rightarrow> unit io_result" where
  "poll_tcp_shutdown res = tcp_shutdown res"

subsection \<open>Options and open file descriptions\<close>

text \<open>
  \<open>bools\<close>, \<open>words\<close>, \<open>times\<close>: the options of an open file description. A call that reads them reports them; one that sets one
  changes just this one, or fails and changes nothing.
\<close>

record 'o opt_view =
  ov_bool :: "'o \<Rightarrow> nat \<Rightarrow> sock_option \<Rightarrow> bool"
  ov_u32 :: "'o \<Rightarrow> nat \<Rightarrow> sock_option \<Rightarrow> u32"
  ov_time :: "'o \<Rightarrow> nat \<Rightarrow> sock_option \<Rightarrow> nat option"

definition same_options :: "'o opt_view \<Rightarrow> 'o \<Rightarrow> 'o \<Rightarrow> bool" where
  "same_options W s s' \<longleftrightarrow> ov_bool W s' = ov_bool W s \<and> ov_u32 W s' = ov_u32 W s \<and> ov_time W s' = ov_time W s"

definition honest_options :: "'o opt_sys \<Rightarrow> 'o sock_view \<Rightarrow> 'o opt_view \<Rightarrow> bool" where
  "honest_options os V W \<longleftrightarrow>
     (\<forall>fd c s b. op_bool os fd c s = Inr b \<longrightarrow> b = ov_bool W s (sv_desc V s fd) c) \<and>
     (\<forall>fd c s n. op_u32 os fd c s = Inr n \<longrightarrow> n = ov_u32 W s (sv_desc V s fd) c) \<and>
     (\<forall>fd c s t. op_time os fd c s = Inr t \<longrightarrow> t = ov_time W s (sv_desc V s fd) c) \<and>
     (\<forall>fd c v s s'. op_set_bool os fd c v s = (s', Inr ()) \<longrightarrow>
        sv_desc V s' = sv_desc V s \<and> ov_bool W s' (sv_desc V s fd) c = v) \<and>
     (\<forall>fd c v s s'. op_set_u32 os fd c v s = (s', Inr ()) \<longrightarrow>
        sv_desc V s' = sv_desc V s \<and> ov_u32 W s' (sv_desc V s fd) c = v) \<and>
     (\<forall>fd c v s s'. op_set_time os fd c v s = (s', Inr ()) \<longrightarrow>
        sv_desc V s' = sv_desc V s \<and> ov_time W s' (sv_desc V s fd) c = v)"

text \<open>The change of the flag \<open>O_NONBLOCK\<close> leaves the options alone.\<close>

definition flag_keeps_options :: "'o sock_sys \<Rightarrow> 'o sock_view \<Rightarrow> 'o opt_view \<Rightarrow> bool" where
  "flag_keeps_options os V W \<longleftrightarrow>
     (\<forall>fd b s. same_options W s (fst (sk_set_nonblocking os fd b s)) \<and> sv_desc V (fst (sk_set_nonblocking os fd b s)) = sv_desc V s)"

lemma rebind_keeps_options:
  assumes "flag_keeps_options os V W" and "socket_rebind Z os mode k d s = (d', s', Inr k')"
  shows "so_inner k' = so_inner k \<and> same_options W s s' \<and> sv_desc V s' = sv_desc V s"
proof -
  obtain d1 h res where 1: "rebind_mode Z mode (so_handle k) d = (d1, h, res)"
    by (metis prod_cases3)
  obtain s1 r1 where 2: "sk_set_nonblocking os (so_inner k) (\<not> uses_completion d1 h) s = (s1, r1)"
    by fastforce
  have "same_options W s s1 \<and> sv_desc V s1 = sv_desc V s"
    using assms(1) 2 unfolding flag_keeps_options_def by (metis fst_conv)
  then show ?thesis
    using assms(2) 1 2 by (auto simp: socket_rebind_def Let_def split: sum.splits prod.splits)
qed

text \<open>
  What was set on a socket is read back through the polled socket it was turned into, and through the adaptive one that is turned
  back into.
\<close>

lemma option_survives_mode:
  assumes "honest_options os V W" and "flag_keeps_options sys V W"
    and "udp_set_multicast_ttl_v4 os k v s = (s1, Inr ())"
    and "udp_into_poll Z sys k d s1 = (d2, s2, Inr p)"
    and "poll_udp_into_completion Z sys p d2 s2 = (d3, s3, Inr k')"
  shows "poll_udp_multicast_ttl_v4 os p s2 = Inr n \<Longrightarrow> n = v" "udp_multicast_ttl_v4 os k' s3 = Inr n \<Longrightarrow> n = v"
proof -
  obtain k2 where k2: "socket_rebind Z sys PollMode k d s1 = (d2, s2, Inr k2)" "p = poll_wrap k2"
    using assms(4) by (auto simp: udp_into_poll_def split: prod.splits sum.splits) (metis map_sum.simps sum.exhaust sum.inject(2) sum.simps(4))
  have k3: "socket_rebind Z sys CompletionMode k2 d2 s2 = (d3, s3, Inr k')"
    using assms(5) k2(2) by (simp add: poll_udp_into_completion_def poll_wrap_def)
  note r = rebind_keeps_options [OF assms(2) k2(1)] rebind_keeps_options [OF assms(2) k3]
  have reads: "n = ov_u32 W s (sv_desc V s fd) c" if "op_u32 os fd c s = Inr n" for fd c s n
    using assms(1) that by (simp add: honest_options_def)
  have "ov_u32 W s1 (sv_desc V s1 (so_inner k)) MulticastTtlV4 = v"
    using assms(1,3) by (auto simp: honest_options_def udp_set_multicast_ttl_v4_def)
  then show "poll_udp_multicast_ttl_v4 os p s2 = Inr n \<Longrightarrow> n = v" "udp_multicast_ttl_v4 os k' s3 = Inr n \<Longrightarrow> n = v"
    using r k2(2)
    by (auto dest!: reads simp: poll_udp_multicast_ttl_v4_def udp_multicast_ttl_v4_def poll_wrap_def same_options_def)
qed

text \<open>Options in memory, by descriptor.\<close>

record opt_store =
  os_bool :: "nat \<Rightarrow> sock_option \<Rightarrow> bool"
  os_u32 :: "nat \<Rightarrow> sock_option \<Rightarrow> u32"
  os_time :: "nat \<Rightarrow> sock_option \<Rightarrow> nat option"

definition sim_opts :: "opt_store opt_sys" where
  "sim_opts =
     \<lparr>op_set_bool = (\<lambda>fd c v s. (s\<lparr>os_bool := (os_bool s)(nat fd := (os_bool s (nat fd))(c := v))\<rparr>, Inr ())),
      op_bool = (\<lambda>fd c s. Inr (os_bool s (nat fd) c)),
      op_set_u32 = (\<lambda>fd c v s. (s\<lparr>os_u32 := (os_u32 s)(nat fd := (os_u32 s (nat fd))(c := v))\<rparr>, Inr ())),
      op_u32 = (\<lambda>fd c s. Inr (os_u32 s (nat fd) c)),
      op_set_time = (\<lambda>fd c v s. (s\<lparr>os_time := (os_time s)(nat fd := (os_time s (nat fd))(c := v))\<rparr>, Inr ())),
      op_time = (\<lambda>fd c s. Inr (os_time s (nat fd) c)),
      op_group = (\<lambda>join fd g s. (s, Inr ())), op_take_error = (\<lambda>fd s. (s, Inr None)),
      op_local_addr = (\<lambda>fd s. Inl (Os 22)), op_peer_addr = (\<lambda>fd s. Inl (Os 107))\<rparr>"

definition sim_opt_view :: "opt_store opt_view" where
  "sim_opt_view = \<lparr>ov_bool = os_bool, ov_u32 = os_u32, ov_time = os_time\<rparr>"

lemma sim_opts_honest:
  "honest_options sim_opts \<lparr>sv_opened = \<lambda>s. {}, sv_desc = \<lambda>s fd. nat fd, sv_nonblock = \<lambda>s n. False\<rparr> sim_opt_view"
  by (auto simp: honest_options_def sim_opts_def sim_opt_view_def)

end
