(* ===== verification/Net_Windows.thy ===== *)
theory Net_Windows
  imports Net_Socket Iocp
begin

text \<open>
  Sockets on Windows where their code is not that of Unix: \<open>bind_one\<close> of \<open>net/tcp/listener.rs\<close> and \<open>connect_one\<close> of
  \<open>net/udp/mod.rs\<close>, with \<open>rebind_mode\<close> of \<open>fd_inner.rs\<close> over the completion-port driver.

  \<open>ConnectEx\<close> wants a connection-oriented socket, so a datagram socket is switched to polling for its connect and back
  afterwards. Proved: a listener's socket is returned or closed; the connect never takes the completion path; when \<open>connect_one\<close> succeeds
  the handle has its mode back, is registered in it, and the socket blocks exactly when the handle completes. Shown as well:
  a connect dropped before its end leaves the socket polling for good.
\<close>

subsection \<open>\<open>TcpListener\<close>\<close>

definition WIN_AF_INET6 :: nat where "WIN_AF_INET6 = 23"
definition WIN_IPV6_V6ONLY :: nat where "WIN_IPV6_V6ONLY = 27"

fun win_domain :: "socket_addr \<Rightarrow> nat" where
  "win_domain (V4 ip prt) = AF_INET"
| "win_domain (V6 ip prt flow scope) = WIN_AF_INET6"

text \<open>\<open>startup\<close>: \<open>WSAStartup\<close>.\<close>

definition win_bind_one ::
  "('o \<Rightarrow> 'o \<times> unit io_result) \<Rightarrow> 'o sock_sys \<Rightarrow> socket_addr \<Rightarrow> 'o \<Rightarrow> 'o \<times> int io_result" where
  "win_bind_one startup os address s =
     (case startup s of
        (s, Inl err) \<Rightarrow> (s, Inl err)
      | (s, Inr _) \<Rightarrow>
          (case sk_socket os (win_domain address) s of
             (s, Inl err) \<Rightarrow> (s, Inl err)
           | (s, Inr socket) \<Rightarrow>
               or_close os socket
                 (if win_domain address = WIN_AF_INET6 then sk_setsockopt os socket WIN_IPV6_V6ONLY else (\<lambda>s. (s, Inr ())))
                 (or_close os socket (sk_bind os socket (socket_addr_to_raw address))
                   (or_close os socket (sk_listen os socket) (\<lambda>s. (s, Inr socket)))) s))"

lemma win_bind_one_sound:
  assumes honest: "honest_sock os V" and startup: "quiet V startup" and r: "win_bind_one startup os a s = (s', res)"
  shows "case res of
     Inl _ \<Rightarrow> sv_opened V s' = sv_opened V s
   | Inr fd \<Rightarrow> fd \<notin> sv_opened V s \<and> sv_opened V s' = insert fd (sv_opened V s)"
proof -
  obtain s0 r0 where s0: "startup s = (s0, r0)"
    by fastforce
  obtain s1 r1 where s1: "sk_socket os (win_domain a) s0 = (s1, r1)"
    by fastforce
  have o0: "sv_opened V s0 = sv_opened V s"
    using quietD [OF startup s0] by (simp add: same_view_def)
  show ?thesis
  proof (cases "\<exists>fd. r0 = Inr () \<and> r1 = Inr fd")
    case False
    then show ?thesis
      using r s0 s1 o0 honest_sockD(1) [OF honest s1] by (auto simp: win_bind_one_def split: sum.splits)
  next
    case True
    then obtain fd where fd0: "r0 = Inr ()" "r1 = Inr fd"
      by blast
    then have fd: "fd \<notin> sv_opened V s" "sv_opened V s1 = insert fd (sv_opened V s)"
      using honest_sockD(1) [OF honest s1] o0 by auto
    note oc = or_close_sound [OF honest fd(1)]
    let ?v6 = "if win_domain a = WIN_AF_INET6 then sk_setsockopt os fd WIN_IPV6_V6ONLY else (\<lambda>s. (s, Inr ()))"
    have v6: "?v6 s = (s', res) \<Longrightarrow> same_view V s s'" for s s' res
      using honest_quiet(2) [OF honest] by (auto simp: same_view_def split: if_splits)
    have "case res of Inl _ \<Rightarrow> sv_opened V s' = sv_opened V s
        | Inr g \<Rightarrow> g = fd \<and> sv_opened V s' = insert fd (sv_opened V s)"
    proof (rule oc [OF fd(2) v6])
      show "or_close os fd ?v6 (or_close os fd (sk_bind os fd (socket_addr_to_raw a))
          (or_close os fd (sk_listen os fd) (\<lambda>s. (s, Inr fd)))) s1 = (s', res)"
        using r s0 s1 fd0 by (simp add: win_bind_one_def)
    qed (assumption | erule (1) oc [OF _ honest_quiet(3) [OF honest], rotated -1]
        oc [OF _ honest_quiet(4) [OF honest], rotated -1] | auto)+
    then show ?thesis
      using fd by (cases res) auto
  qed
qed

subsection \<open>\<open>InnerRawHandle\<close> on the completion port\<close>

record win_handle =
  wh_handle :: raw_os_handle
  wh_token :: nat
  wh_interest :: interest
  wh_mode :: registration_mode

text \<open>
  \<open>rebind_mode\<close>; the driver supports completions, so the requested mode is the effective one. \<open>None\<close>: the search for the
  base socket does not end.
\<close>

definition win_rebind_mode ::
  "('p, 's, 'c, 'q, 'h, 'd, 'o) iocp_env \<Rightarrow> registration_mode \<Rightarrow> win_handle \<Rightarrow> ('p, 's, 'c, 'q, 'h) iocp \<Rightarrow>
   (('p, 's, 'c, 'q, 'h) iocp \<times> win_handle \<times> unit io_result) option" where
  "win_rebind_mode Y mode h st =
     (if wh_mode h = mode then Some (st, h, Inr ())
      else case iocp_deregister Y (wh_handle h) (wh_token h) st of
             (st, Inl err) \<Rightarrow> Some (st, h, Inl err)
           | (st, Inr _) \<Rightarrow>
               (case iocp_register_with_mode Y (wh_handle h) (wh_interest h) mode st of
                  None \<Rightarrow> None
                | Some (st, Inl err) \<Rightarrow> Some (st, h, Inl err)
                | Some (st, Inr token) \<Rightarrow> Some (st, h\<lparr>wh_token := token, wh_mode := mode\<rparr>, Inr ())))"

lemma win_rebind_mode_mode:
  "win_rebind_mode Y mode h st = Some (st', h', res) \<Longrightarrow>
   wh_handle h' = wh_handle h \<and> wh_interest h' = wh_interest h \<and> wh_mode h' = (case res of Inl _ \<Rightarrow> wh_mode h | Inr _ \<Rightarrow> mode)"
  by (auto simp: win_rebind_mode_def split: if_splits prod.splits sum.splits option.splits)

text \<open>The registration of a handle is of the kind of its mode.\<close>

definition win_registered :: "('p, 's, 'c, 'q, 'h, 'd, 'o) iocp_env \<Rightarrow> ('p, 's, 'c, 'q, 'h) iocp \<Rightarrow> win_handle \<Rightarrow> bool" where
  "win_registered Y st h \<longleftrightarrow>
     (case slab_get (y_registrations Y) (io_registrations st) (wh_token h) of
        None \<Rightarrow> False
      | Some IocpCompletion \<Rightarrow> wh_mode h = CompletionMode
      | Some (IocpPoll r) \<Rightarrow> wh_mode h = PollMode)"

context iocp_driver
begin

lemma register_kind:
  assumes "iocp_register_with_mode Y os i mode st = Some (st', Inr token)"
  shows "win_registered Y st' (h\<lparr>wh_token := token, wh_mode := mode\<rparr>)"
  using assms
  by (auto simp: iocp_register_with_mode_def Let_def win_registered_def
      split: registration_mode.splits sum.splits option.splits prod.splits bool.splits)

lemma win_rebind_registered:
  assumes "win_rebind_mode Y mode h st = Some (st', h', Inr ())" and "win_registered Y st h"
  shows "win_registered Y st' h'"
  using assms by (auto simp: win_rebind_mode_def split: if_splits prod.splits sum.splits option.splits intro: register_kind)

end

subsection \<open>\<open>UdpSocket::connect\<close>\<close>

text \<open>
  \<open>connect_one\<close> in its three parts: up to the operation, the operation (a call of the kernel, which is told whether the handle
  completes), and the way back. The handle and the socket are borrowed, so every exit leaves them as they are.
\<close>

definition win_connect_begin ::
  "('p, 's, 'c, 'q, 'h, 'd, 'o) iocp_env \<Rightarrow> 'w sock_sys \<Rightarrow> int \<Rightarrow> win_handle \<Rightarrow> ('p, 's, 'c, 'q, 'h) iocp \<Rightarrow> 'w \<Rightarrow>
   (('p, 's, 'c, 'q, 'h) iocp \<times> win_handle \<times> 'w \<times> unit io_result) option" where
  "win_connect_begin Y os fd h st s =
     (case win_rebind_mode Y PollMode h st of
        None \<Rightarrow> None
      | Some (st, h, Inl err) \<Rightarrow> Some (st, h, s, Inl err)
      | Some (st, h, Inr _) \<Rightarrow> (case sk_set_nonblocking os fd True s of (s, res) \<Rightarrow> Some (st, h, s, res)))"

definition win_connect_end ::
  "('p, 's, 'c, 'q, 'h, 'd, 'o) iocp_env \<Rightarrow> 'w sock_sys \<Rightarrow> int \<Rightarrow> registration_mode \<Rightarrow> unit io_result \<Rightarrow> win_handle \<Rightarrow>
   ('p, 's, 'c, 'q, 'h) iocp \<Rightarrow> 'w \<Rightarrow> (('p, 's, 'c, 'q, 'h) iocp \<times> win_handle \<times> 'w \<times> unit io_result) option" where
  "win_connect_end Y os fd old_mode result h st s =
     (case win_rebind_mode Y old_mode h st of
        None \<Rightarrow> None
      | Some (st, h, Inl err) \<Rightarrow> Some (st, h, s, Inl err)
      | Some (st, h, Inr _) \<Rightarrow>
          (case sk_set_nonblocking os fd (wh_mode h \<noteq> CompletionMode) s of
             (s, Inl err) \<Rightarrow> Some (st, h, s, Inl err)
           | (s, Inr _) \<Rightarrow> Some (st, h, s, result)))"

definition win_udp_connect_one ::
  "('p, 's, 'c, 'q, 'h, 'd, 'o) iocp_env \<Rightarrow> 'w sock_sys \<Rightarrow> socket_addr \<Rightarrow> int \<Rightarrow> win_handle \<Rightarrow> ('p, 's, 'c, 'q, 'h) iocp \<Rightarrow> 'w \<Rightarrow>
   (('p, 's, 'c, 'q, 'h) iocp \<times> win_handle \<times> 'w \<times> unit io_result) option" where
  "win_udp_connect_one Y os address fd h st s =
     (case win_connect_begin Y os fd h st s of
        None \<Rightarrow> None
      | Some (st, h1, s, Inl err) \<Rightarrow> Some (st, h1, s, Inl err)
      | Some (st, h1, s, Inr _) \<Rightarrow>
          (case sk_connect os (wh_mode h1 = CompletionMode) fd (socket_addr_to_raw address) s of
             (s, result) \<Rightarrow> win_connect_end Y os fd (wh_mode h) result h1 st s))"

text \<open>What a dropped future leaves behind: a handle that polls and a socket that does not block.\<close>

lemma win_connect_begin_polls:
  assumes "honest_sock os V" and "win_connect_begin Y os fd h st s = Some (st', h', s', Inr ())"
  shows "wh_mode h' = PollMode \<and> sv_nonblock V s' (sv_desc V s' fd)"
  using assms(2)
  by (auto simp: win_connect_begin_def split: option.splits prod.splits sum.splits
      dest!: win_rebind_mode_mode honest_sockD(2) [OF assms(1)])

lemma win_connect_end_fits:
  assumes "honest_sock os V" and "win_connect_end Y os fd mode result h st s = Some (st', h', s', Inr ())"
  shows "result = Inr () \<and> wh_mode h' = mode \<and> sv_opened V s' = sv_opened V s \<and>
    (sv_nonblock V s' (sv_desc V s' fd) \<longleftrightarrow> mode \<noteq> CompletionMode)"
  using assms(2)
  by (auto simp: win_connect_end_def split: option.splits prod.splits sum.splits
      dest!: win_rebind_mode_mode honest_sockD(2) [OF assms(1)])

lemma win_udp_connect_one_restores:
  assumes driver: "iocp_driver Y ops polls" and honest: "honest_sock os V" and reg: "win_registered Y st h"
    and r: "win_udp_connect_one Y os address fd h st s = Some (st', h', s', Inr ())"
  shows "wh_mode h' = wh_mode h \<and> wh_handle h' = wh_handle h \<and> win_registered Y st' h' \<and> sv_opened V s' = sv_opened V s \<and>
    (sv_nonblock V s' (sv_desc V s' fd) \<longleftrightarrow> wh_mode h \<noteq> CompletionMode) \<and>
    (\<exists>s1 s2. sk_connect os False fd (socket_addr_to_raw address) s1 = (s2, Inr ()))"
proof -
  obtain st1 h1 s1 where 1: "win_connect_begin Y os fd h st s = Some (st1, h1, s1, Inr ())"
    using r by (auto simp: win_udp_connect_one_def split: option.splits sum.splits)
  obtain s2 result where 2: "sk_connect os (wh_mode h1 = CompletionMode) fd (socket_addr_to_raw address) s1 = (s2, result)"
    by fastforce
  have 3: "win_connect_end Y os fd (wh_mode h) result h1 st1 s2 = Some (st', h', s', Inr ())"
    using r 1 2 by (simp add: win_udp_connect_one_def)
  obtain r1 where r1: "win_rebind_mode Y PollMode h st = Some (st1, h1, Inr r1)"
    "sv_opened V s1 = sv_opened V s"
    using 1 by (auto simp: win_connect_begin_def split: option.splits prod.splits sum.splits dest!: honest_sockD(2) [OF honest])
  have r2: "win_rebind_mode Y (wh_mode h) h1 st1 = Some (st', h', Inr ())"
    using 3 by (auto simp: win_connect_end_def split: option.splits prod.splits sum.splits)
  have "win_registered Y st' h'"
    using iocp_driver.win_rebind_registered [OF driver] r1(1) r2 reg by (metis old.unit.exhaust)
  moreover have "wh_mode h1 \<noteq> CompletionMode"
    using win_connect_begin_polls [OF honest 1] by simp
  moreover note win_connect_end_fits [OF honest 3] honest_quiet(1) [OF honest 2]
  moreover have "wh_handle h' = wh_handle h"
    using win_rebind_mode_mode [OF r1(1)] win_rebind_mode_mode [OF r2] by simp
  ultimately show ?thesis
    using 2 r1(2) by (auto simp: same_view_def)
qed

text \<open>An error on the way back hides the result of the connect, and leaves a socket that polls.\<close>

lemma win_connect_error_hides:
  "win_rebind_mode Y mode h st = Some (st', h', Inl err) \<Longrightarrow>
   win_connect_end Y os fd mode (Inr ()) h st s = Some (st', h', s, Inl err) \<and> wh_mode h' = wh_mode h"
  using win_rebind_mode_mode [of Y mode h st st' h' "Inl err"] by (simp add: win_connect_end_def)

end
