(* ===== verification/Spec2Isabelle.thy ===== *)
theory Spec2Isabelle
  imports Time_Utils Wake_Protocol Scheduler Uring Raw_Handle Ops_Path Ops_Buffer Ops_Net Ops_Process Async_Wrap
    Ctrl_C Fs_Path Fs_Content Net_Unix Io_Splice Ops_Windows_Net Process Adapters Interruptor Signal_Pipe Net_Options Net_Windows
begin

text \<open>
  \<^bold>\<open>Verification of the asynchronous runtime \<open>vibeio\<close>\<close>

  \<^bold>\<open>The program.\<close> \<open>vibeio\<close> is a single-threaded runtime for Rust futures. A \<open>Runtime\<close> (\<open>executor.rs\<close>,
  \<open>task.rs\<close>) polls a root future and the spawned tasks from three ready queues; between batches it
  lets a driver wait for I/O (\<open>driver/\<close>: io_uring, mio, a completion port, a mock) and its timer (\<open>timer.rs\<close>) wake what is due.
  Other threads wake tasks through a lock-free queue and interrupt the driver. An I/O object is a
  descriptor with a handle registered at the driver (\<open>fd_inner.rs\<close>); a read, a write, a connection or a
  file operation is a value of one of the types of \<open>op/\<close>, which submits an entry to a completion driver
  or tries the system call and waits for readiness. On top of them are the sockets (\<open>net/\<close>), the files
  (\<open>fs/\<close>), pipes and copying (\<open>io/\<close>), the timers of \<open>time/\<close>, the signals (\<open>signal/\<close>), the child processes
  (\<open>process/\<close>) and the adapter to tokio's traits (\<open>util/async_wrap.rs\<close>). The crates \<open>vibeio-hyper\<close> and \<open>vibeio-quinn\<close>
  make the runtime usable by hyper and quinn.

  \<^bold>\<open>How it is modelled.\<close> A struct is a record and an enum a datatype, with the source's names where
  they are free; an operation is a function that takes the state and returns it with its result.
  Machine integers are words of their width wherever the code can wrap, cut or saturate them. An
  \<open>io::Error\<close> is the left side of a sum; a panic is \<open>None\<close> or a flag, and so is a loop that does not end,
  which is a \<open>partial_function\<close> of the option monad: claims that it ends say that it is \<open>Some\<close>. Code that is not in
  the repository is a parameter: the crates \<open>slab\<close>, \<open>crossbeam-queue\<close>, \<open>mio\<close> and \<open>io-uring\<close>, the kernel, the
  file system, the pool of blocking threads, \<open>std\<close>'s resolution of names. What the code relies on is a
  locale (\<open>slab\<close>, \<open>seg_queue\<close>, \<open>op_driver\<close> and others) or a predicate with the prefix \<open>honest_\<close>, and every one of
  them is discharged by an instance in memory, on which the witnesses run.

  \<^bold>\<open>The theories, from the bottom up.\<close>
  \<^item> \<open>Vibe_Prelude\<close>: widths, \<open>Poll\<close>, \<open>io::Error\<close>, shared lemmas. \<open>Slab_Interface\<close>, \<open>Seg_Queue\<close>: the contracts of
    the containers, as locales, with their list instances.
  \<^item> \<open>Timing_Wheel\<close>, \<open>Timer\<close> (\<open>timer.rs\<close>): the wheel is consistent under every sequence of operations, its
    advance wakes exactly what it removes and only what is due, no timer is late after a full turn,
    handles are not reused, the nearest deadline is the minimum, the wheel refines a table of pending
    timers; a timer fires at most a millisecond early. Shown as well: a due timer whose slot an advance
    does not visit is missed, and spins below a millisecond do not move the wheel.
  \<^item> \<open>Wake_Protocol\<close> (\<open>task.rs\<close>, \<open>executor.rs\<close>): the handshake of the runtime thread with waking threads as a
    step relation; no wake is lost under sequentially consistent atomics, and one is lost when the
    store to \<open>waiting\<close> may be delayed, as its ordering allows.
  \<^item> \<open>Waker_Refs\<close> (\<open>task.rs\<close>, \<open>executor.rs\<close>): the raw waker tables over the strong count of an \<open>Arc\<close>, in the locale
    \<open>waker_vtable\<close>: each count has its holder, the last one frees the memory once. Shown as well: that can be a foreign
    thread, which then drops the future of a task.
  \<^item> \<open>Interruptor\<close> (\<open>driver/\<close>): the handles that interrupt a waiting driver. An object owned by its \<open>Arc\<close> is never signalled after
    its close; the eventfd of io_uring can be.
  \<^item> \<open>Scheduler\<close> (\<open>executor.rs\<close>, \<open>task.rs\<close>): spawning, waking, draining, joining, cancelling and \<open>block_on\<close>. Each
    queued task is in one queue once, \<open>drain_ready\<close> takes the queues in order, an output is joined once,
    a cancelled future is not polled again; with a batch of one the main queue starves.
  \<^item> \<open>Driver_Types\<close>, \<open>Uring\<close> (\<open>driver/uring.rs\<close>), \<open>Mio\<close> (\<open>driver/mio.rs\<close>), \<open>Any_Driver\<close> (\<open>driver/mod.rs\<close>,
    \<open>driver/mock.rs\<close>, \<open>builder.rs\<close>): every submitted entry has exactly one completion in flight until its
    slab entry has a result, a completion is delivered once; mio wakes the waiters of the reported
    tokens. A poll for each direction on one handle loses a waiter on both drivers.
  \<^item> \<open>Iocp\<close> (\<open>driver/iocp.rs\<close>): the driver on a Windows completion port with the boxes it shares with the kernel, which
    are never freed while the kernel holds them.
  \<^item> \<open>Runtime_Context\<close> (\<open>executor.rs\<close>, \<open>blocking/mod.rs\<close>): the thread-local current runtime as a cell with its borrows,
    what the crate asks of it, blocking tasks, the drop of a runtime: the futures dropped with it find the cell borrowed.
  \<^item> \<open>Raw_Handle\<close> (\<open>fd_inner.rs\<close>): a handle agrees with its registration through changes of mode.
  \<^item> \<open>Io_Buf\<close> (\<open>io/buf.rs\<close>), \<open>Sock_Addr\<close>, \<open>Op_Base\<close>, \<open>Ops_Path\<close>, \<open>Ops_Buffer\<close>, \<open>Ops_Net\<close>, \<open>Ops_Process\<close> (\<open>op/\<close>,
    \<open>process/reaper.rs\<close>): each operation with its entry, its polls and its drop. The memory an entry points
    to is kept when a byte operation is dropped in flight, and is freed when a path operation is;
    a read submitted to a running driver returns the kernel's result and wakes its task.
  \<^item> \<open>Ops_Windows\<close>, \<open>Ops_Windows_Net\<close> (\<open>op/\<close> on Windows): byte operations and connections over the completion port, in the
    locale \<open>windows_ops\<close>. A byte operation dropped in flight hands over the memory of its request, except for the staging
    buffer of a vectored operation on a file and the output buffer of an accept; the offset of a positioned request is the
    operation's; an accepted socket is returned or closed unless its address cannot be had.
  \<^item> \<open>Time_Utils\<close> (\<open>time/\<close>): sleeps, timeouts, intervals and their grids.
  \<^item> \<open>Io_Util\<close>, \<open>Io_Splice\<close> (\<open>io/\<close>), \<open>Async_Wrap\<close>: copies, transfers and adapters end and move the bytes
    exactly, in order and once, whatever part of a buffer each call takes.
  \<^item> \<open>Signal\<close> (\<open>signal/unix.rs\<close>), \<open>Ctrl_C\<close> (\<open>signal/windows.rs\<close>): the registry, the pipe from the handler to the
    dispatch loop, the listeners of both systems under one contract: a delivery reaches the listener, unless it
    races with its poll. \<open>Signal_Pipe\<close>: the kinds of signals and the descriptors of the pipe, which are closed when its setup
    fails and not when the dispatch thread cannot be started.
  \<^item> \<open>Fs_File\<close>, \<open>Fs_Open\<close>, \<open>Fs_Metadata\<close>, \<open>Fs_Path\<close>, \<open>Fs_Content\<close> (\<open>fs/\<close>): on the completing, the pooled and the blocking path the
    same bytes are written and read back; the flags of \<open>open\<close> agree with the standard library's;
    \<open>create_dir_all\<close> makes exactly the missing directories; \<open>File::metadata\<close> agrees on the three paths.
  \<^item> \<open>Stream_Io\<close> (\<open>io/pipe.rs\<close>, \<open>net/\<close>), \<open>Blocking_Io\<close> (\<open>io/stdio.rs\<close>, \<open>process/mod.rs\<close>): pipes, the reads and writes of
    streams on both paths, standard streams and the pipes of children. A failed \<open>pipe()\<close> leaves no descriptor, the two
    paths of a stream agree, a poll of tokio's \<open>AsyncRead\<close> keeps the bounds of the buffer.
  \<^item> \<open>Process\<close> (\<open>process/\<close>): the four reapers, Windows included, under one contract, the locale \<open>child_reaper\<close>, and children, waits, drops and
    reapers as a step relation: no child is lost but by a wait dropped early, and each wait is answered once.
  \<^item> \<open>Net_Udp\<close> (\<open>net/udp/\<close>), \<open>Adapters\<close> (\<open>vibeio-hyper\<close>, \<open>vibeio-quinn\<close>): datagrams, and the adapters over any reader: a
    pending call has left its waker with the driver, wrapping a stream twice changes nothing.
  \<^item> \<open>Net_Socket\<close>, \<open>Net_Unix\<close> (\<open>net/\<close>): a socket owns its descriptor on every path of connecting, binding,
    accepting and changing its mode, and its flag \<open>O_NONBLOCK\<close> fits its mode. \<open>Net_Options\<close>: options survive a change of mode.
    \<open>Net_Windows\<close>: binding and the connect of a datagram socket on Windows, which restores mode, registration and flag.

  \<^bold>\<open>Bounds.\<close> Slab keys and tokens are natural numbers with the code's checks against \<open>MAX_TOKEN\<close> and
  \<open>usize::MAX\<close> written out. Environment inputs (wakes, kernel results, events) are lists or functions
  and unrestricted in length. There is no fuel.

  \<^bold>\<open>Not modelled.\<close> The code for Windows other than \<open>driver/iocp.rs\<close>, \<open>signal/windows.rs\<close>, the operations of \<open>op/\<close>, the reaper and what
  \<open>Net_Windows\<close> has, and the code for other systems than Linux; the pool
  of \<open>blocking/default.rs\<close>, a wrapper of a crate; \<open>unsafe\<close> pointer arithmetic
  below the level of blocks of memory; the weak memory of processors except for the one store buffer of
  \<open>Wake_Protocol\<close>; conversions from and into raw descriptors and builder methods that only pass
  their arguments to the standard library; formatting and \<open>Debug\<close>; the tests, examples and benchmarks.
\<close>

end
